(* ===== verification/Prelude.thy ===== *)
theory Prelude
  imports Main "HOL-Library.Word"
begin

unbundle bit_operations_syntax

text \<open>
  Shared ground of the development: the type of machine words, the memory the C code
  reads and writes through \<^verbatim>\<open>uint64_t *\<close> pointers, pointer arithmetic
  (\<open>slot\<close>), byte access inside a word, regions of slots, and the generic
  lemmas about them. The hint collections \<open>mem_simps\<close> and \<open>word_simps\<close> are
  filled here and by the component theories.
\<close>

named_theorems mem_simps \<open>reads over writes in memory\<close>
named_theorems word_simps \<open>tag and shift arithmetic on 64-bit words\<close>

section \<open>Words, addresses, memory\<close>

type_synonym u8 = "8 word"
type_synonym u32 = "32 word"
type_synonym u64 = "64 word"

text \<open>
  Object memory, the Smalltalk stack, allocator variables and transaction logs are all
  arrays of \<^verbatim>\<open>uint64_t\<close>, so memory maps the byte address of an aligned 64-bit
  cell to its contents. Cells at addresses that are not multiples of 8 are never used by
  the code and mean nothing.
\<close>

type_synonym mem = "u64 \<Rightarrow> u64"

text \<open>\<open>slot p i\<close> is the address of \<^verbatim>\<open>p[i]\<close> for a \<^verbatim>\<open>uint64_t *p\<close>: 8
  bytes per index, wrapping at \<open>2^64\<close>.\<close>

definition slot :: "u64 \<Rightarrow> int \<Rightarrow> u64" where
  "slot p i = p + word_of_int (8 * i)"

lemma slot_0 [simp]: "slot p 0 = p"
  by (simp add: slot_def)

lemma slot_slot [simp]: "slot (slot p i) j = slot p (i + j)"
  by (simp add: slot_def algebra_simps)

lemma slot_numeral [mem_simps]: "slot (numeral p) (numeral i) = numeral p + 8 * numeral i"
  by (simp add: slot_def)

lemma word_of_int_8_eq_0:
  assumes "\<bar>k\<bar> < 2 ^ 61" and "(word_of_int (8 * k) :: u64) = 0"
  shows "k = 0"
proof -
  have "(2 ^ 64 :: int) dvd 8 * k"
    using assms(2) word_of_int_eq_0_iff [of "8 * k", where ?'a = 64] by (simp del: of_int_mult)
  then obtain c where c: "8 * k = 2 ^ 64 * c" by (rule dvdE)
  then have "k = 2 ^ 61 * c" by simp
  with assms(1) have "\<bar>c\<bar> < 1" by (simp add: abs_mult)
  then show ?thesis using c by simp
qed

lemma slot_eq_iff [mem_simps]:
  assumes "\<bar>i - j\<bar> < 2 ^ 61"
  shows "slot p i = slot p j \<longleftrightarrow> i = j"
proof
  assume "slot p i = slot p j"
  then have "(word_of_int (8 * (i - j)) :: u64) = 0"
    by (simp add: slot_def algebra_simps)
  with assms word_of_int_8_eq_0 show "i = j" by fastforce
qed simp

lemma slot_eq_self_iff [mem_simps]:
  "\<bar>i\<bar> < 2 ^ 61 \<Longrightarrow> slot p i = p \<longleftrightarrow> i = 0"
  "\<bar>i\<bar> < 2 ^ 61 \<Longrightarrow> p = slot p i \<longleftrightarrow> i = 0"
  using slot_eq_iff [of i 0 p] by auto

lemma slot_neq: "i < j \<Longrightarrow> j - i < 2305843009213693952 \<Longrightarrow> slot p i \<noteq> slot p j"
  by (simp add: slot_eq_iff abs_less_iff)

lemma slot_of_nat: "slot p (int n) = p + 8 * of_nat n"
  by (simp add: slot_def)

lemma unat_slot:
  assumes "0 \<le> i" and "unat p + 8 * nat i < 2 ^ 64"
  shows "unat (slot p i) = unat p + 8 * nat i"
proof -
  have i: "word_of_int (8 * i) = (of_nat (8 * nat i) :: u64)"
    using assms(1) by (simp add: of_nat_nat)
  have "8 * nat i < 2 ^ 64" using assms(2) by simp
  then have u: "unat (of_nat (8 * nat i) :: u64) = 8 * nat i"
    by (simp add: unat_of_nat del: of_nat_mult)
  have "unat p + unat (of_nat (8 * nat i) :: u64) < 2 ^ LENGTH(64)"
    using assms(2) u by simp
  then show ?thesis
    unfolding slot_def i using u unat_add_lem by metis
qed

lemma uint_slot: "uint (slot p i) = (uint p + 8 * i) mod 2 ^ 64"
proof -
  have "slot p i = word_of_int (uint p + 8 * i)" by (simp add: slot_def)
  then show ?thesis by (simp only: uint_word_of_int) simp
qed

lemma uint_slot_down:
  assumes "0 \<le> k" and "8 * k \<le> uint p"
  shows "uint (slot p (- k)) = uint p - 8 * k"
  unfolding uint_slot using assms uint_lt2p [of p] by (subst mod_pos_pos_trivial) auto

lemma uint_slot_up:
  assumes "0 \<le> k" and "uint p + 8 * k < 2 ^ 64"
  shows "uint (slot p k) = uint p + 8 * k"
  unfolding uint_slot using assms uint_ge_0 [of p] by (subst mod_pos_pos_trivial) auto

section \<open>Bytes\<close>

text \<open>
  \<open>byte_get m p i\<close> is \<^verbatim>\<open>((uint8_t *)p)[i]\<close> for an aligned \<open>p\<close> on a little-endian
  machine, \<open>byte_put\<close> the assignment to it. (Byte objects begin at multiples of 8.)
\<close>

definition byte_get :: "mem \<Rightarrow> u64 \<Rightarrow> nat \<Rightarrow> u8" where
  "byte_get m p i = ucast (drop_bit (8 * (i mod 8)) (m (slot p (int (i div 8)))))"

definition byte_put :: "mem \<Rightarrow> u64 \<Rightarrow> nat \<Rightarrow> u8 \<Rightarrow> mem" where
  "byte_put m p i b =
     (let a = slot p (int (i div 8)); k = 8 * (i mod 8)
      in m(a := (m a AND NOT (push_bit k 255)) OR push_bit k (ucast b)))"

lemma bit_255_int: "bit (255 :: int) i \<longleftrightarrow> i < 8"
proof -
  have m: "(255 :: int) = mask 8" by (simp add: mask_eq_exp_minus_1)
  show ?thesis unfolding m bit_mask_iff by auto
qed

lemma insert_byte_same:
  fixes w :: u64 and b :: u8
  assumes "k + 8 \<le> 64"
  shows "ucast (drop_bit k ((w AND NOT (push_bit k 255)) OR push_bit k (ucast b))) = b"
proof (rule bit_eqI)
  fix n :: nat
  assume "possible_bit TYPE(8 word) n"
  then have n: "n < 8" by simp
  show "bit (ucast (drop_bit k ((w AND NOT (push_bit k 255)) OR push_bit k (ucast b))) :: u8) n = bit b n"
    using n assms by (auto simp: bit_simps bit_255_int)
qed

lemma insert_byte_other:
  fixes w :: u64 and b :: u8
  assumes "k + 8 \<le> j \<or> j + 8 \<le> k" and "j + 8 \<le> 64"
  shows "(ucast (drop_bit j ((w AND NOT (push_bit k 255)) OR push_bit k (ucast b))) :: u8)
    = ucast (drop_bit j w)"
proof (rule bit_eqI)
  fix n :: nat
  assume "possible_bit TYPE(8 word) n"
  then have n: "n < 8" by simp
  have b: "\<not> bit (push_bit k (ucast b :: u64)) (j + n)"
    using n assms(1) bit_imp_le_length [of b "j + n - k"]
    by (auto simp: bit_simps simp del: bit_imp_le_length)
  show "bit (ucast (drop_bit j ((w AND NOT (push_bit k 255)) OR push_bit k (ucast b))) :: u8) n =
      bit (ucast (drop_bit j w) :: u8) n"
    using n assms b by (auto simp: bit_simps bit_255_int)
qed


lemma div_mod_eq_iff: "(i::nat) div 8 = j div 8 \<Longrightarrow> i mod 8 = j mod 8 \<longleftrightarrow> i = j"
  by (metis div_mult_mod_eq)

lemma byte_get_put:
  assumes "i < 2 ^ 63" and "j < 2 ^ 63"
  shows "byte_get (byte_put m p i b) p j = (if i = j then b else byte_get m p j)"
proof (cases "i div 8 = j div 8")
  case True
  let ?ki = "8 * (i mod 8)" and ?kj = "8 * (j mod 8)"
  have k: "?ki + 8 \<le> 64" "?kj + 8 \<le> 64" by (simp_all add: Suc_leI mult_le_mono)
  show ?thesis
  proof (cases "i = j")
    case True
    then show ?thesis
      using insert_byte_same [OF k(1)] by (simp add: byte_get_def byte_put_def Let_def)
  next
    case False
    then have "i mod 8 \<noteq> j mod 8" using True div_mod_eq_iff by blast
    then have "?ki + 8 \<le> ?kj \<or> ?kj + 8 \<le> ?ki" by arith
    then show ?thesis
      using insert_byte_other [OF _ k(2)] True False
      by (simp add: byte_get_def byte_put_def Let_def)
  qed
next
  case False
  have "\<bar>int (i div 8) - int (j div 8)\<bar> < 2 ^ 61" using assms by auto
  then have "slot p (int (i div 8)) \<noteq> slot p (int (j div 8))"
    using False slot_eq_iff by auto
  then show ?thesis using False by (auto simp: byte_get_def byte_put_def Let_def)
qed

lemma byte_put_other: "a \<noteq> slot p (int (i div 8)) \<Longrightarrow> byte_put m p i b a = m a"
  by (simp add: byte_put_def Let_def)

text \<open>\<open>bytes_of m p n\<close> reads \<open>n\<close> bytes from \<open>p\<close>, \<open>put_bytes\<close> is a \<^verbatim>\<open>memcpy\<close> to it.\<close>

definition bytes_of :: "mem \<Rightarrow> u64 \<Rightarrow> nat \<Rightarrow> u8 list" where
  "bytes_of m p n = map (byte_get m p) [0..<n]"

fun put_bytes_from :: "mem \<Rightarrow> u64 \<Rightarrow> nat \<Rightarrow> u8 list \<Rightarrow> mem" where
  "put_bytes_from m p i [] = m"
| "put_bytes_from m p i (b # bs) = put_bytes_from (byte_put m p i b) p (Suc i) bs"

definition put_bytes :: "mem \<Rightarrow> u64 \<Rightarrow> u8 list \<Rightarrow> mem" where
  "put_bytes m p bs = put_bytes_from m p 0 bs"

lemma length_bytes_of [simp]: "length (bytes_of m p n) = n"
  by (simp add: bytes_of_def)

lemma nth_bytes_of [simp]: "i < n \<Longrightarrow> bytes_of m p n ! i = byte_get m p i"
  by (simp add: bytes_of_def)

lemma byte_get_put_bytes_from:
  assumes "i + length bs < 2 ^ 63" and "j < 2 ^ 63"
  shows "byte_get (put_bytes_from m p i bs) p j =
    (if i \<le> j \<and> j < i + length bs then bs ! (j - i) else byte_get m p j)"
  using assms
proof (induction bs arbitrary: m i)
  case (Cons b bs)
  then show ?case
    by (auto simp: byte_get_put nth_Cons')
qed auto

lemma bytes_of_put_bytes:
  assumes "length bs < 2 ^ 63"
  shows "bytes_of (put_bytes m p bs) p (length bs) = bs"
  using assms byte_get_put_bytes_from [of 0 bs]
  by (intro nth_equalityI) (auto simp: put_bytes_def)

lemma put_bytes_from_other:
  "(\<And>k. k \<le> (i + length bs - 1) div 8 \<Longrightarrow> a \<noteq> slot p (int k)) \<Longrightarrow>
    put_bytes_from m p i bs a = m a"
proof (induction bs arbitrary: m i)
  case (Cons b bs)
  have "i div 8 \<le> (i + length (b # bs) - 1) div 8" by (simp add: div_le_mono)
  then have "a \<noteq> slot p (int (i div 8))" using Cons.prems by blast
  then show ?case using Cons by (simp add: byte_put_other)
qed simp

section \<open>Reading of words\<close>

lemma uint_u64_range [simp]: "0 \<le> uint (x :: u64)" "uint (x :: u64) < 18446744073709551616"
  using uint_range_size [of x] by (simp_all add: word_size)

lemma unat_u64_less: "unat (x :: u64) < 18446744073709551616"
  using unsigned_less [of x, where ?'a = nat] by simp

lemma unat_u64_of_nat: "n < 18446744073709551616 \<Longrightarrow> unat (of_nat n :: u64) = n"
  by (simp add: unat_of_nat)

lemma of_nat_unat_word: "unat x = n \<Longrightarrow> x = (of_nat n :: u64)"
  by auto

lemma unat_u64_plus: "unat x + unat y < 18446744073709551616 \<Longrightarrow> unat (x + y :: u64) = unat x + unat y"
  by (subst unat_add_lem [THEN iffD1]) simp_all

lemma unat_u64_times: "unat x * unat y < 18446744073709551616 \<Longrightarrow> unat (x * y :: u64) = unat x * unat y"
  by (subst unat_mult_lem [THEN iffD1]) simp_all

lemma abs_diff_bound: "0 \<le> a \<Longrightarrow> 0 \<le> b \<Longrightarrow> a < c \<Longrightarrow> b < c \<Longrightarrow> \<bar>a - b\<bar> < (c :: int)"
  by linarith

lemma take_bit_2_eq: "x AND 3 = take_bit 2 (x :: u64)"
proof -
  have m: "(3 :: u64) = mask 2" by (simp add: mask_eq_exp_minus_1)
  show ?thesis unfolding m by (simp only: take_bit_eq_mask)
qed

lemma take_bit_4_eq: "x AND 15 = take_bit 4 (x :: u64)"
proof -
  have m: "(15 :: u64) = mask 4" by (simp add: mask_eq_exp_minus_1)
  show ?thesis unfolding m by (simp only: take_bit_eq_mask)
qed

lemma take_bit_8_eq: "x AND 255 = take_bit 8 (x :: u64)"
proof -
  have m: "(255 :: u64) = mask 8" by (simp add: mask_eq_exp_minus_1)
  show ?thesis unfolding m by (simp only: take_bit_eq_mask)
qed

lemma take_bit_8_small: "x < 256 \<Longrightarrow> take_bit 8 (x :: u64) = x"
  by (simp add: word_uint_eq_iff word_less_def unsigned_take_bit_eq take_bit_int_eq_self_iff)

section \<open>Searching a table\<close>

text \<open>The index of the first element a scan accepts.\<close>

fun index_where :: "('a \<Rightarrow> bool) \<Rightarrow> 'a list \<Rightarrow> nat option" where
  "index_where P [] = None"
| "index_where P (x # xs) = (if P x then Some 0 else map_option Suc (index_where P xs))"

lemma index_where_SomeD:
  "index_where P xs = Some i \<Longrightarrow> i < length xs \<and> P (xs ! i) \<and> (\<forall>j < i. \<not> P (xs ! j))"
  by (induction P xs arbitrary: i rule: index_where.induct)
    (auto simp: nth_Cons' split: if_splits)

lemma index_where_None: "index_where P xs = None \<longleftrightarrow> (\<forall>x \<in> set xs. \<not> P x)"
  by (induction xs) auto

lemma index_where_update:
  "index_where P xs = Some i \<Longrightarrow> P y \<Longrightarrow> index_where P (xs[i := y]) = Some i"
  by (induction P xs arbitrary: i rule: index_where.induct) (auto split: if_splits nat.splits)

lemma index_where_append:
  "index_where P (xs @ ys) = (case index_where P xs of Some i \<Rightarrow> Some i
     | None \<Rightarrow> map_option (\<lambda>j. length xs + j) (index_where P ys))"
  by (induction xs) (cases "index_where P ys"; auto split: option.splits)+

end
