(* ===== verification/Tagged.thy ===== *)
theory Tagged
  imports Prelude
begin

text \<open>
  Tagged values (\<^verbatim>\<open>src/c_vm/tagged.c\<close>): the two low bits of an \<^verbatim>\<open>Oop\<close> say whether it is an
  object pointer, a small integer, an immediate float or a special value (nil, the
  booleans, characters). A signed \<^verbatim>\<open>int64_t\<close> is its 64-bit word, read by \<open>sint\<close>.
  Then: the tags partition the words, tagging and untagging are inverse within 62 bits,
  and the arithmetic on tagged words is 62-bit signed arithmetic.
\<close>

section \<open>Constants of vm\_defs.h\<close>

definition TAG_MASK :: u64 where [simp]: "TAG_MASK = 3"
definition TAG_OBJECT :: u64 where [simp]: "TAG_OBJECT = 0"
definition TAG_SMALLINT :: u64 where [simp]: "TAG_SMALLINT = 1"
definition TAG_FLOAT :: u64 where [simp]: "TAG_FLOAT = 2"
definition TAG_SPECIAL :: u64 where [simp]: "TAG_SPECIAL = 3"
definition SMALLINT_SHIFT :: nat where [simp]: "SMALLINT_SHIFT = 2"
definition TAGGED_NIL :: u64 where [simp]: "TAGGED_NIL = 3"
definition TAGGED_TRUE :: u64 where [simp]: "TAGGED_TRUE = 7"
definition TAGGED_FALSE :: u64 where [simp]: "TAGGED_FALSE = 11"
definition CHAR_TAG_MASK :: u64 where [simp]: "CHAR_TAG_MASK = 15"
definition CHAR_TAG_VALUE :: u64 where [simp]: "CHAR_TAG_VALUE = 15"
definition CHAR_SHIFT :: nat where [simp]: "CHAR_SHIFT = 4"

section \<open>Operations\<close>

definition tag_smallint :: "u64 \<Rightarrow> u64" where
  "tag_smallint value = push_bit SMALLINT_SHIFT value OR TAG_SMALLINT"

definition untag_smallint :: "u64 \<Rightarrow> u64" where
  "untag_smallint tagged = signed_drop_bit SMALLINT_SHIFT tagged"

definition get_tag :: "u64 \<Rightarrow> u64" where
  "get_tag value = value AND TAG_MASK"

definition is_smallint :: "u64 \<Rightarrow> bool" where
  "is_smallint value \<longleftrightarrow> value AND TAG_MASK = TAG_SMALLINT"

definition is_object_ptr :: "u64 \<Rightarrow> bool" where
  "is_object_ptr value \<longleftrightarrow> value AND TAG_MASK = TAG_OBJECT"

definition is_immediate_float :: "u64 \<Rightarrow> bool" where
  "is_immediate_float value \<longleftrightarrow> value AND TAG_MASK = TAG_FLOAT"

definition is_special :: "u64 \<Rightarrow> bool" where
  "is_special value \<longleftrightarrow> value AND TAG_MASK = TAG_SPECIAL"

definition is_nil :: "u64 \<Rightarrow> bool" where
  "is_nil value \<longleftrightarrow> value = TAGGED_NIL"

definition is_boolean :: "u64 \<Rightarrow> bool" where
  "is_boolean value \<longleftrightarrow> value = TAGGED_TRUE \<or> value = TAGGED_FALSE"

definition tag_character :: "u64 \<Rightarrow> u64" where
  "tag_character code_point = push_bit CHAR_SHIFT code_point OR CHAR_TAG_VALUE"

definition untag_character :: "u64 \<Rightarrow> u64" where
  "untag_character tagged = drop_bit CHAR_SHIFT tagged"

definition is_character :: "u64 \<Rightarrow> bool" where
  "is_character value \<longleftrightarrow> value AND CHAR_TAG_MASK = CHAR_TAG_VALUE"

definition smallint_add :: "u64 \<Rightarrow> u64 \<Rightarrow> u64" where
  "smallint_add a b = a + b - TAG_SMALLINT"

definition smallint_sub :: "u64 \<Rightarrow> u64 \<Rightarrow> u64" where
  "smallint_sub a b = a - b + TAG_SMALLINT"

definition smallint_less_than :: "u64 \<Rightarrow> u64 \<Rightarrow> u64" where
  "smallint_less_than a b = (if sint a < sint b then TAGGED_TRUE else TAGGED_FALSE)"

definition smallint_equal :: "u64 \<Rightarrow> u64 \<Rightarrow> u64" where
  "smallint_equal a b = (if a = b then TAGGED_TRUE else TAGGED_FALSE)"

text \<open>The 62-bit range of a small integer: \<^verbatim>\<open>fits_smallint\<close> of interpret.c.\<close>

definition fits_smallint :: "u64 \<Rightarrow> bool" where
  "fits_smallint value \<longleftrightarrow> - (2 ^ 61) \<le> sint value \<and> sint value \<le> 2 ^ 61 - 1"

section \<open>Tags\<close>

text \<open>The tag of a word is its signed value modulo 4, so tags become linear arithmetic.\<close>

lemma uint_mod_4_sint: "uint x mod 4 = sint (x :: u64) mod 4"
proof -
  have "take_bit 2 (sint x) = take_bit 2 (uint x)"
    by (simp add: sint_uint take_bit_signed_take_bit)
  then show ?thesis by (simp add: take_bit_eq_mod)
qed

lemma uint_and_3: "uint (x AND 3) = sint (x :: u64) mod 4"
proof -
  have "uint (x AND 3) = take_bit 2 (uint x)"
    by (simp only: take_bit_2_eq unsigned_take_bit_eq)
  then show ?thesis by (simp add: take_bit_eq_mod flip: uint_mod_4_sint)
qed

lemma tag_eq_iff [word_simps]:
  "x AND 3 = (0 :: u64) \<longleftrightarrow> sint x mod 4 = 0"
  "x AND 3 = (1 :: u64) \<longleftrightarrow> sint x mod 4 = 1"
  "x AND 3 = (2 :: u64) \<longleftrightarrow> sint x mod 4 = 2"
  "x AND 3 = (3 :: u64) \<longleftrightarrow> sint x mod 4 = 3"
  by (simp_all add: word_uint_eq_iff uint_and_3)

lemma sint_untag [word_simps]: "sint (untag_smallint x) = sint x div 4"
  by (simp add: untag_smallint_def sint_signed_drop_bit_eq drop_bit_eq_div)

lemma tag_smallint_eq [word_simps]: "tag_smallint v = 4 * v + 1"
proof -
  have "push_bit 2 v AND (1 :: u64) = 0"
    by (rule bit_word_eqI) (auto simp: bit_simps bit_1_iff)
  then have "push_bit 2 v OR 1 = push_bit 2 v + 1"
    by (rule disjunctive_add_eq_or [symmetric])
  then show ?thesis by (simp add: tag_smallint_def push_bit_eq_mult)
qed

lemma sint_u64_range: "- (2 ^ 63) \<le> sint (x :: u64)" "sint (x :: u64) < 2 ^ 63"
  using sint_ge [of x] sint_lt [of x] by simp_all

lemma sint_word_of_int_u64: "sint (word_of_int k :: u64) = (k + 2 ^ 63) mod 2 ^ 64 - 2 ^ 63"
  by (simp add: sint_sbintrunc' signed_take_bit_eq_take_bit_shift take_bit_eq_mod)

lemma sint_word_of_int_small:
  "- (2 ^ 63) \<le> k \<Longrightarrow> k < 2 ^ 63 \<Longrightarrow> sint (word_of_int k :: u64) = k"
  by (simp add: sint_word_of_int_u64)

lemma sint_eq_imp_eq: "sint x = sint y \<Longrightarrow> x = (y :: u64)"
  by (metis scast_id of_int_sint)

lemma word_of_int_sint_u64: "word_of_int (sint (x :: u64)) = x"
  by simp

text \<open>A word with the small integer tag is four times its value plus one.\<close>

lemma sint_smallint: "is_smallint x \<Longrightarrow> sint x = 4 * sint (untag_smallint x) + 1"
  by (simp add: is_smallint_def word_simps) presburger

lemma smallint_cases:
  assumes "is_smallint x"
  obtains v where "x = word_of_int (4 * v + 1)" and "v = sint (untag_smallint x)"
    and "- (2 ^ 61) \<le> v" and "v < 2 ^ 61"
proof
  show "x = word_of_int (4 * sint (untag_smallint x) + 1)"
    using sint_smallint [OF assms] word_of_int_sint_u64 [of x] by simp
  show "- (2 ^ 61) \<le> sint (untag_smallint x)" "sint (untag_smallint x) < 2 ^ 61"
    using sint_u64_range [of x] by (simp_all add: word_simps)
qed simp

lemma tag_smallint_word_of_int: "tag_smallint (word_of_int v) = word_of_int (4 * v + 1)"
  by (simp add: tag_smallint_eq)

text \<open>Reading back \<open>4 * v + 1\<close> wraps \<open>v\<close> to 62 signed bits.\<close>

definition wrap62 :: "int \<Rightarrow> int" where
  "wrap62 v = (v + 2 ^ 61) mod 2 ^ 62 - 2 ^ 61"

lemma wrap62_id: "- (2 ^ 61) \<le> v \<Longrightarrow> v < 2 ^ 61 \<Longrightarrow> wrap62 v = v"
  by (simp add: wrap62_def)

lemma sint_tagged_word_of_int: "sint (word_of_int (4 * v + 1) :: u64) = 4 * wrap62 v + 1"
proof -
  have "(4 * v + 1 + 2 ^ 63) mod (4 * 2 ^ 62) = 4 * ((v + 2 ^ 61) mod 2 ^ 62) + (1 :: int)"
    by (subst zmod_zmult2_eq) (simp_all add: algebra_simps)
  then show ?thesis by (simp add: sint_word_of_int_u64 wrap62_def del: of_int_add of_int_mult)
qed

lemma is_smallint_word_of_int: "is_smallint (word_of_int (4 * v + 1))"
  by (simp add: is_smallint_def word_simps sint_tagged_word_of_int del: of_int_add of_int_mult)

lemma sint_untag_word_of_int: "sint (untag_smallint (word_of_int (4 * v + 1))) = wrap62 v"
  unfolding sint_untag sint_tagged_word_of_int by presburger

lemma is_smallint_tag [simp]: "is_smallint (tag_smallint v)"
  by (metis is_smallint_word_of_int tag_smallint_word_of_int word_of_int_sint_u64)

lemma sint_untag_tag: "sint (untag_smallint (tag_smallint v)) = wrap62 (sint v)"
  by (metis sint_untag_word_of_int tag_smallint_word_of_int word_of_int_sint_u64)

lemma untag_tag [simp]: "fits_smallint v \<Longrightarrow> untag_smallint (tag_smallint v) = v"
  by (rule sint_eq_imp_eq) (simp add: sint_untag_tag fits_smallint_def wrap62_id)

lemma tag_untag [simp]: "is_smallint x \<Longrightarrow> tag_smallint (untag_smallint x) = x"
  by (metis sint_smallint tag_smallint_word_of_int word_of_int_sint_u64)

lemma fits_untag [simp]: "fits_smallint (untag_smallint x)"
  using sint_u64_range [of x] by (auto simp: fits_smallint_def word_simps)

text \<open>Facts about tags that the components use as rewrite rules.\<close>

lemma is_tag_mod:
  "is_object_ptr x \<longleftrightarrow> sint x mod 4 = 0"
  "is_smallint x \<longleftrightarrow> sint x mod 4 = 1"
  "is_immediate_float x \<longleftrightarrow> sint x mod 4 = 2"
  "is_special x \<longleftrightarrow> sint x mod 4 = 3"
  by (simp_all add: is_object_ptr_def is_smallint_def is_immediate_float_def is_special_def
      word_simps)

lemma tag_disjoint:
  "is_smallint x \<Longrightarrow> \<not> is_object_ptr x"
  "is_object_ptr x \<Longrightarrow> \<not> is_smallint x"
  "is_special x \<Longrightarrow> \<not> is_object_ptr x"
  "is_object_ptr x \<Longrightarrow> \<not> is_special x"
  by (simp_all add: is_tag_mod)

lemma special_constants [simp]:
  "is_special 3" "is_special 7" "is_special 11"
  "\<not> is_object_ptr 3" "\<not> is_object_ptr 7" "\<not> is_object_ptr 11" "is_object_ptr 0"
  "\<not> is_smallint 3" "\<not> is_smallint 7" "\<not> is_smallint 11" "\<not> is_smallint 0"
  by (simp_all add: is_tag_mod)

lemma tag_smallint_inject: "tag_smallint v = tag_smallint w \<Longrightarrow> fits_smallint v \<Longrightarrow> fits_smallint w \<Longrightarrow> v = w"
  by (metis untag_tag)

section \<open>Properties\<close>

text \<open>
  Tagging an integer always yields a word with the small integer tag, untagging it gives
  the integer wrapped to 62 signed bits, and it gives the integer itself exactly when it is
  in the range that \<^verbatim>\<open>fits_smallint\<close> accepts.
\<close>

theorem tag_smallint_roundtrip:
  "is_smallint (tag_smallint v) \<and> sint (untag_smallint (tag_smallint v)) = wrap62 (sint v) \<and>
   (untag_smallint (tag_smallint v) = v \<longleftrightarrow> fits_smallint v)"
  using fits_untag [of "tag_smallint v"] untag_tag [of v] by (metis is_smallint_tag sint_untag_tag)

text \<open>
  Every word carries exactly one of the four tags, and that is the one \<^verbatim>\<open>get_tag\<close> returns.
\<close>

theorem tags_partition:
  "of_bool (is_object_ptr x) + of_bool (is_smallint x) + of_bool (is_immediate_float x) +
     of_bool (is_special x) = (1 :: nat) \<and>
   (is_object_ptr x \<longleftrightarrow> get_tag x = TAG_OBJECT) \<and> (is_smallint x \<longleftrightarrow> get_tag x = TAG_SMALLINT) \<and>
   (is_immediate_float x \<longleftrightarrow> get_tag x = TAG_FLOAT) \<and> (is_special x \<longleftrightarrow> get_tag x = TAG_SPECIAL)"
proof -
  have "sint x mod 4 = 0 \<or> sint x mod 4 = 1 \<or> sint x mod 4 = 2 \<or> sint x mod 4 = 3"
    by presburger
  then show ?thesis by (auto simp: is_tag_mod get_tag_def word_simps)
qed

lemma character_special: "is_character x \<Longrightarrow> is_special x"
proof -
  assume "is_character x"
  then have "x AND 15 = 15" by (simp add: is_character_def)
  moreover have "x AND 3 = (x AND 15) AND 3"
    by (simp add: and.assoc)
  ultimately show "is_special x" by (simp add: is_special_def)
qed

text \<open>
  A tagged character is a special value that is a character, neither nil nor a boolean,
  and untagging it gives the code point back exactly when it is below \<open>2^60\<close>.
\<close>

theorem tag_character_roundtrip:
  "is_character (tag_character c) \<and> is_special (tag_character c) \<and>
   \<not> is_nil (tag_character c) \<and> \<not> is_boolean (tag_character c) \<and>
   (untag_character (tag_character c) = c \<longleftrightarrow> c < 2 ^ 60)"
proof -
  have b15: "bit (15 :: u64) n \<longleftrightarrow> n < 4" for n
  proof -
    have m: "(15 :: u64) = mask 4" by (simp add: mask_eq_exp_minus_1)
    show ?thesis unfolding m bit_mask_iff by auto
  qed
  have ch: "is_character (tag_character c)"
    unfolding is_character_def tag_character_def CHAR_TAG_MASK_def CHAR_TAG_VALUE_def
    by (rule bit_word_eqI) (auto simp only: bit_simps b15)
  have u: "untag_character (tag_character c) = take_bit 60 c"
    unfolding untag_character_def tag_character_def CHAR_TAG_VALUE_def CHAR_SHIFT_def
    by (rule bit_word_eqI) (auto simp: bit_simps simp flip: b15)
  have "take_bit 60 c = c \<longleftrightarrow> c < 2 ^ 60"
    by (simp add: word_uint_eq_iff word_less_def unsigned_take_bit_eq take_bit_int_eq_self_iff)
  with u ch character_special [OF ch] show ?thesis
    by (auto simp: is_nil_def is_boolean_def is_character_def)
qed

text \<open>
  Adding and subtracting tagged small integers without untagging them gives a tagged
  small integer whose value is the sum or difference wrapped to 62 signed bits; so it is the
  exact sum or difference whenever that fits.
\<close>

theorem smallint_add_sub_correct:
  assumes "is_smallint a" and "is_smallint b"
  shows "is_smallint (smallint_add a b) \<and> is_smallint (smallint_sub a b) \<and>
    sint (untag_smallint (smallint_add a b)) =
      wrap62 (sint (untag_smallint a) + sint (untag_smallint b)) \<and>
    sint (untag_smallint (smallint_sub a b)) =
      wrap62 (sint (untag_smallint a) - sint (untag_smallint b))"
proof -
  obtain v where a: "a = word_of_int (4 * v + 1)" and v: "v = sint (untag_smallint a)"
    using assms(1) by (rule smallint_cases)
  obtain w where b: "b = word_of_int (4 * w + 1)" and w: "w = sint (untag_smallint b)"
    using assms(2) by (rule smallint_cases)
  have add: "smallint_add a b = word_of_int (4 * (v + w) + 1)"
    by (simp add: smallint_add_def a b algebra_simps)
  have sub: "smallint_sub a b = word_of_int (4 * (v - w) + 1)"
    by (simp add: smallint_sub_def a b algebra_simps)
  show ?thesis
    unfolding add sub sint_untag_word_of_int v [symmetric] w [symmetric]
    using is_smallint_word_of_int by blast
qed

theorem smallint_add_sub_correct_witness:
  "is_smallint 9 \<and> is_smallint 13 \<and> sint (untag_smallint (smallint_add 9 13)) = 5 \<and>
   sint (untag_smallint (smallint_sub 9 13)) = -1"
proof -
  have h: "is_smallint 9" "is_smallint 13" by (simp_all add: is_tag_mod)
  have "sint (untag_smallint 9) = 2" "sint (untag_smallint 13) = 3"
    by (simp_all add: sint_untag)
  then show ?thesis using smallint_add_sub_correct [OF h] h by (simp add: wrap62_def)
qed

text \<open>
  Comparing tagged small integers as signed words, or for equality of words, agrees with
  comparing their values.
\<close>

theorem smallint_compare_correct:
  assumes "is_smallint a" and "is_smallint b"
  shows "smallint_less_than a b =
      (if sint (untag_smallint a) < sint (untag_smallint b) then TAGGED_TRUE else TAGGED_FALSE) \<and>
    smallint_equal a b =
      (if sint (untag_smallint a) = sint (untag_smallint b) then TAGGED_TRUE else TAGGED_FALSE)"
proof -
  have "sint a < sint b \<longleftrightarrow> sint (untag_smallint a) < sint (untag_smallint b)"
    using sint_smallint [OF assms(1)] sint_smallint [OF assms(2)] by linarith
  moreover have "a = b \<longleftrightarrow> sint (untag_smallint a) = sint (untag_smallint b)"
    using sint_smallint [OF assms(1)] sint_smallint [OF assms(2)] sint_eq_imp_eq by metis
  ultimately show ?thesis by (simp add: smallint_less_than_def smallint_equal_def)
qed

theorem smallint_compare_correct_witness:
  "is_smallint (- 3) \<and> is_smallint 5 \<and> smallint_less_than (- 3) 5 = TAGGED_TRUE \<and>
   smallint_equal (- 3) 5 = TAGGED_FALSE"
proof -
  have h: "is_smallint (- 3)" "is_smallint 5" by (simp_all add: is_tag_mod)
  have "sint (untag_smallint (- 3)) = -1" "sint (untag_smallint 5) = 1"
    by (simp_all add: sint_untag)
  then show ?thesis using smallint_compare_correct [OF h] h by simp
qed

end
