(* ===== verification/Objects.thy ===== *)
theory Objects
  imports Tagged
begin

text \<open>
  The object layout of \<^verbatim>\<open>src/c_vm/vm_defs.h\<close> and the size computations of
  \<^verbatim>\<open>src/c_vm/object.c\<close>: three header words (class, format, size) followed by the
  fields, or by the bytes of a byte object. Then method lookup and \<^verbatim>\<open>oop_class\<close>
  (\<^verbatim>\<open>src/c_vm/lookup.c\<close>).
\<close>

section \<open>Layout\<close>

definition WORD_BYTES :: u64 where [simp]: "WORD_BYTES = 8"
definition OBJ_HEADER_WORDS :: u64 where [simp]: "OBJ_HEADER_WORDS = 3"
definition FORMAT_FIELDS :: u64 where [simp]: "FORMAT_FIELDS = 0"
definition FORMAT_INDEXABLE :: u64 where [simp]: "FORMAT_INDEXABLE = 1"
definition FORMAT_BYTES :: u64 where [simp]: "FORMAT_BYTES = 2"

definition OBJ_CLASS :: "mem \<Rightarrow> u64 \<Rightarrow> u64" where
  "OBJ_CLASS m obj = m (slot obj 0)"

definition OBJ_FORMAT :: "mem \<Rightarrow> u64 \<Rightarrow> u64" where
  "OBJ_FORMAT m obj = m (slot obj 1)"

definition OBJ_SIZE :: "mem \<Rightarrow> u64 \<Rightarrow> u64" where
  "OBJ_SIZE m obj = m (slot obj 2)"

text \<open>\<open>field_addr obj n\<close> is \<^verbatim>\<open>&OBJ_FIELD(obj, n)\<close>, \<open>set_field\<close> the assignment to the field.\<close>

definition field_addr :: "u64 \<Rightarrow> u64 \<Rightarrow> u64" where
  "field_addr obj n = slot obj (3 + uint n)"

definition OBJ_FIELD :: "mem \<Rightarrow> u64 \<Rightarrow> u64 \<Rightarrow> u64" where
  "OBJ_FIELD m obj n = m (field_addr obj n)"

definition set_field :: "mem \<Rightarrow> u64 \<Rightarrow> u64 \<Rightarrow> u64 \<Rightarrow> mem" where
  "set_field m obj n v = m(field_addr obj n := v)"

lemmas obj_defs = OBJ_CLASS_def OBJ_FORMAT_def OBJ_SIZE_def OBJ_FIELD_def field_addr_def set_field_def

definition object_slot_count :: "mem \<Rightarrow> u64 \<Rightarrow> u64" where
  "object_slot_count m obj =
     (if OBJ_FORMAT m obj = FORMAT_BYTES
      then (OBJ_SIZE m obj + WORD_BYTES - 1) div WORD_BYTES
      else OBJ_SIZE m obj)"

definition om_object_words :: "mem \<Rightarrow> u64 \<Rightarrow> u64" where
  "om_object_words m obj =
     (if obj = 0 then 0
      else if OBJ_FORMAT m obj = FORMAT_BYTES
      then OBJ_HEADER_WORDS + (OBJ_SIZE m obj + WORD_BYTES - 1) div WORD_BYTES
      else OBJ_HEADER_WORDS + OBJ_SIZE m obj)"

definition om_object_bytes :: "mem \<Rightarrow> u64 \<Rightarrow> u64" where
  "om_object_bytes m obj = om_object_words m obj * WORD_BYTES"

lemma field_addr_eq_iff [mem_simps]:
  assumes "\<bar>uint n - uint k\<bar> < 2 ^ 61"
  shows "field_addr obj n = field_addr obj k \<longleftrightarrow> n = k"
  using slot_eq_iff [of "3 + uint n" "3 + uint k" obj] assms
  by (simp add: field_addr_def word_uint_eq_iff)

text \<open>Storing a field leaves the header and the other fields alone.\<close>

lemma OBJ_FIELD_set_field:
  assumes "uint n < 2 ^ 60" and "uint k < 2 ^ 60"
  shows "OBJ_FIELD (set_field m obj n v) obj k = (if k = n then v else OBJ_FIELD m obj k)"
proof -
  have "\<bar>uint k - uint n\<bar> < 2 ^ 61"
    using assms by uint_arith
  then show ?thesis by (simp add: OBJ_FIELD_def set_field_def field_addr_eq_iff)
qed

lemma field_addr_header_neq:
  assumes "uint n < 2 ^ 60" and "0 \<le> i" and "i < 3"
  shows "field_addr obj n \<noteq> slot obj i" "slot obj i \<noteq> field_addr obj n"
proof -
  have "\<bar>3 + uint n - i\<bar> < 2 ^ 61" and "3 + uint n \<noteq> i"
    using assms by uint_arith+
  then show "field_addr obj n \<noteq> slot obj i" "slot obj i \<noteq> field_addr obj n"
    using slot_eq_iff [of "3 + uint n" i obj] by (auto simp: field_addr_def)
qed

lemma header_set_field [simp]:
  assumes "uint n < 2 ^ 60"
  shows "OBJ_CLASS (set_field m obj n v) obj = OBJ_CLASS m obj"
    "OBJ_FORMAT (set_field m obj n v) obj = OBJ_FORMAT m obj"
    "OBJ_SIZE (set_field m obj n v) obj = OBJ_SIZE m obj"
  using assms field_addr_header_neq [OF assms, of 0] field_addr_header_neq [OF assms, of 1]
    field_addr_header_neq [OF assms, of 2]
  by (simp_all add: OBJ_CLASS_def OBJ_FORMAT_def OBJ_SIZE_def set_field_def)

section \<open>Classes of values and method lookup (lookup.c)\<close>

definition CLASS_TABLE_SMALLINT :: u64 where [simp]: "CLASS_TABLE_SMALLINT = 0"
definition CLASS_TABLE_BLOCK :: u64 where [simp]: "CLASS_TABLE_BLOCK = 1"
definition CLASS_TABLE_TRUE :: u64 where [simp]: "CLASS_TABLE_TRUE = 2"
definition CLASS_TABLE_FALSE :: u64 where [simp]: "CLASS_TABLE_FALSE = 3"
definition CLASS_TABLE_CHARACTER :: u64 where [simp]: "CLASS_TABLE_CHARACTER = 4"
definition CLASS_TABLE_UNDEFINED_OBJECT :: u64 where [simp]: "CLASS_TABLE_UNDEFINED_OBJECT = 5"
definition CLASS_SUPERCLASS :: u64 where [simp]: "CLASS_SUPERCLASS = 0"
definition CLASS_METHOD_DICT :: u64 where [simp]: "CLASS_METHOD_DICT = 1"
definition CLASS_INST_SIZE :: u64 where [simp]: "CLASS_INST_SIZE = 2"
definition CLASS_INST_FORMAT :: u64 where [simp]: "CLASS_INST_FORMAT = 3"
definition CLASS_INST_VARS :: u64 where [simp]: "CLASS_INST_VARS = 4"

definition oop_class :: "mem \<Rightarrow> u64 \<Rightarrow> u64 \<Rightarrow> u64" where
  "oop_class m oop class_table =
     (if oop AND TAG_MASK = TAG_OBJECT then OBJ_CLASS m oop
      else if oop AND TAG_MASK = TAG_SMALLINT then OBJ_FIELD m class_table CLASS_TABLE_SMALLINT
      else if oop AND CHAR_TAG_MASK = CHAR_TAG_VALUE then OBJ_FIELD m class_table CLASS_TABLE_CHARACTER
      else if oop = TAGGED_NIL then OBJ_FIELD m class_table CLASS_TABLE_UNDEFINED_OBJECT
      else if oop = TAGGED_TRUE then OBJ_FIELD m class_table CLASS_TABLE_TRUE
      else if oop = TAGGED_FALSE then OBJ_FIELD m class_table CLASS_TABLE_FALSE
      else 0)"

text \<open>
  The loop of \<^verbatim>\<open>md_lookup\<close>: \<open>index\<close> advances by 2 up to the size \<open>n\<close>. (In C it would wrap for a size of
  \<open>2 ^ 64 - 1\<close>, which no object in memory has.)
\<close>

function md_lookup_from :: "mem \<Rightarrow> u64 \<Rightarrow> u64 \<Rightarrow> nat \<Rightarrow> nat \<Rightarrow> u64" where
  "md_lookup_from m method_dict selector index n =
     (if index < n then
        if OBJ_FIELD m method_dict (of_nat index) = selector
        then OBJ_FIELD m method_dict (of_nat index + 1)
        else md_lookup_from m method_dict selector (index + 2) n
      else 0)"
  by pat_completeness auto
termination
  by (relation "measure (\<lambda>(m, d, s, i, n). n - i)") auto

declare md_lookup_from.simps [simp del]

definition md_lookup :: "mem \<Rightarrow> u64 \<Rightarrow> u64 \<Rightarrow> u64" where
  "md_lookup m method_dict selector =
     md_lookup_from m method_dict selector 0 (unat (OBJ_SIZE m method_dict))"

text \<open>The superclass chain may be cyclic in a corrupt image, so \<^verbatim>\<open>class_lookup\<close> may not return.\<close>

partial_function (option) class_lookup :: "mem \<Rightarrow> u64 \<Rightarrow> u64 \<Rightarrow> u64 option" where
  "class_lookup m klass selector =
     (if klass \<noteq> 0 \<and> klass \<noteq> TAGGED_NIL then
        let method_dict = OBJ_FIELD m klass CLASS_METHOD_DICT;
            method = (if method_dict \<noteq> TAGGED_NIL then md_lookup m method_dict selector else 0)
        in if method_dict \<noteq> TAGGED_NIL \<and> method \<noteq> 0 then Some method
           else class_lookup m (OBJ_FIELD m klass CLASS_SUPERCLASS) selector
      else Some 0)"

text \<open>
  What a method dictionary means: an association list from selectors to methods, read two
  fields at a time. (A dictionary of odd size reads one field past its end.)
\<close>

definition md_entries :: "mem \<Rightarrow> u64 \<Rightarrow> (u64 \<times> u64) list" where
  "md_entries m d =
     map (\<lambda>i. (OBJ_FIELD m d (of_nat (2 * i)), OBJ_FIELD m d (of_nat (2 * i) + 1)))
       [0..<(unat (OBJ_SIZE m d) + 1) div 2]"

definition method_in :: "mem \<Rightarrow> u64 \<Rightarrow> u64 \<Rightarrow> u64 option" where
  "method_in m d selector = map_of (md_entries m d) selector"

lemma md_lookup_from_eq:
  assumes "i \<le> k" and "k = (n + 1) div 2"
  shows "md_lookup_from m d s (2 * i) n =
    (case map_of (map (\<lambda>i. (OBJ_FIELD m d (of_nat (2 * i)), OBJ_FIELD m d (of_nat (2 * i) + 1))) [i..<k]) s
     of None \<Rightarrow> 0 | Some v \<Rightarrow> v)"
  using assms(1)
proof (induction rule: inc_induct)
  case base
  have "\<not> 2 * k < n" using assms(2) by linarith
  then show ?case by (subst md_lookup_from.simps) simp
next
  case (step i)
  then have "2 * i < n" using assms(2) by linarith
  then show ?case
    using step by (subst md_lookup_from.simps) (simp add: upt_conv_Cons del: of_nat_mult)
qed

lemma md_lookup_eq:
  "md_lookup m d s = (case method_in m d s of None \<Rightarrow> 0 | Some v \<Rightarrow> v)"
  using md_lookup_from_eq [of 0 _ "unat (OBJ_SIZE m d)" m d s]
  by (simp add: md_lookup_def md_entries_def method_in_def)

text \<open>
  The classes that inheritance visits, from a class up to the end of the chain (the null
  pointer or nil).
\<close>

inductive superclass_chain :: "mem \<Rightarrow> u64 \<Rightarrow> u64 list \<Rightarrow> bool" for m where
  chain_end: "klass = 0 \<or> klass = TAGGED_NIL \<Longrightarrow> superclass_chain m klass []"
| chain_step: "klass \<noteq> 0 \<Longrightarrow> klass \<noteq> TAGGED_NIL \<Longrightarrow>
    superclass_chain m (OBJ_FIELD m klass CLASS_SUPERCLASS) ks \<Longrightarrow>
    superclass_chain m klass (klass # ks)"

definition own_method :: "mem \<Rightarrow> u64 \<Rightarrow> u64 \<Rightarrow> u64" where
  "own_method m selector klass =
     (let d = OBJ_FIELD m klass CLASS_METHOD_DICT
      in if d = TAGGED_NIL then 0 else md_lookup m d selector)"

lemma class_lookup_step:
  "klass \<noteq> 0 \<Longrightarrow> klass \<noteq> TAGGED_NIL \<Longrightarrow>
   class_lookup m klass selector =
     (if own_method m selector klass \<noteq> 0 then Some (own_method m selector klass)
      else class_lookup m (OBJ_FIELD m klass CLASS_SUPERCLASS) selector)"
  by (subst class_lookup.simps) (auto simp: own_method_def Let_def)

lemma class_lookup_end: "klass = 0 \<or> klass = TAGGED_NIL \<Longrightarrow> class_lookup m klass selector = Some 0"
  by (subst class_lookup.simps) auto

lemma class_lookup_chain:
  "superclass_chain m klass ks \<Longrightarrow>
    class_lookup m klass selector =
      Some (case find (\<lambda>k. own_method m selector k \<noteq> 0) ks of
              None \<Rightarrow> 0 | Some k \<Rightarrow> own_method m selector k)"
  by (induction rule: superclass_chain.induct) (auto simp: class_lookup_end class_lookup_step)

inductive_simps chain_Nil: "superclass_chain m klass []"
inductive_simps chain_Cons: "superclass_chain m klass (k # ks)"

section \<open>Properties\<close>

text \<open>
  C32. A method dictionary behaves as an association list: \<^verbatim>\<open>md_lookup\<close> returns the method of the
  first entry with the selector, and 0 when no entry has it.
\<close>

theorem md_lookup_is_map_of:
  "md_lookup m d s =
    (case map_of (md_entries m d) s of None \<Rightarrow> 0 | Some method \<Rightarrow> method)"
  by (simp add: md_lookup_eq method_in_def)

text \<open>
  C31. Along a superclass chain that ends, \<^verbatim>\<open>class_lookup\<close> returns, with the method of the class
  nearest to the receiver's class whose own dictionary has the selector (so a subclass
  overrides its superclasses), and 0 when no class of the chain has it.
\<close>

theorem class_lookup_nearest:
  assumes "superclass_chain m klass ks"
  shows "class_lookup m klass selector =
    Some (case find (\<lambda>k. own_method m selector k \<noteq> 0) ks of
            None \<Rightarrow> 0 | Some k \<Rightarrow> own_method m selector k)"
  using assms by (rule class_lookup_chain)

text \<open>A class at 4096 with an empty dictionary at 8192 and nil for a superclass, and a subclass of it.\<close>

definition demo_classes :: mem where
  "demo_classes = (\<lambda>_. 0)(4120 := 3, 4128 := 8192, 6168 := 4096, 6176 := 9000,
     9016 := 2, 9024 := 40, 9032 := 48)"

lemma demo_chain: "superclass_chain demo_classes 6144 [6144, 4096]"
  by (simp add: chain_Nil chain_Cons demo_classes_def OBJ_FIELD_def field_addr_def slot_def)

theorem class_lookup_nearest_witness:
  "superclass_chain demo_classes 6144 [6144, 4096] \<and>
   class_lookup demo_classes 6144 40 = Some 48 \<and> class_lookup demo_classes 6144 44 = Some 0"
proof -
  have own: "own_method demo_classes 40 6144 = 48" "own_method demo_classes 44 6144 = 0"
    "own_method demo_classes 44 4096 = 0"
    by code_simp+
  show ?thesis
    using demo_chain class_lookup_nearest [OF demo_chain, of 40]
      class_lookup_nearest [OF demo_chain, of 44] own by simp
qed

text \<open>
  A class that is its own superclass and does not have the selector makes
  \<^verbatim>\<open>class_lookup\<close> loop for ever.
\<close>

theorem class_lookup_cycle_diverges:
  assumes "klass \<noteq> 0" and "klass \<noteq> TAGGED_NIL"
    and "OBJ_FIELD m klass CLASS_SUPERCLASS = klass" and "own_method m selector klass = 0"
  shows "class_lookup m klass selector = None"
proof (rule ccontr)
  assume "class_lookup m klass selector \<noteq> None"
  then obtain r where ret: "class_lookup m klass selector = Some r" by blast
  have "\<not> (m = m \<and> klass = klass \<and> selector = selector)"
  proof (rule class_lookup.raw_induct
      [where P = "\<lambda>m' k s r. \<not> (m' = m \<and> k = klass \<and> s = selector)", OF _ ret])
    fix f m' k s r
    assume IH: "\<And>m' k s r. f m' k s = Some r \<Longrightarrow> \<not> (m' = m \<and> k = klass \<and> s = selector)"
      and eq: "(if k \<noteq> 0 \<and> k \<noteq> TAGGED_NIL then
        let method_dict = OBJ_FIELD m' k CLASS_METHOD_DICT;
            method = (if method_dict \<noteq> TAGGED_NIL then md_lookup m' method_dict s else 0)
        in if method_dict \<noteq> TAGGED_NIL \<and> method \<noteq> 0 then Some method
           else f m' (OBJ_FIELD m' k CLASS_SUPERCLASS) s
      else Some 0) = Some r"
    show "\<not> (m' = m \<and> k = klass \<and> s = selector)"
    proof
      assume "m' = m \<and> k = klass \<and> s = selector"
      with eq assms have "f m klass selector = Some r"
        by (auto simp: own_method_def Let_def split: if_splits)
      then show False using IH by blast
    qed
  qed
  then show False by simp
qed

theorem class_lookup_cycle_diverges_witness:
  "OBJ_FIELD ((\<lambda>_. 0)(4120 := 4096, 4128 := 3)) 4096 CLASS_SUPERCLASS = 4096 \<and>
   class_lookup ((\<lambda>_. 0)(4120 := 4096, 4128 := 3)) 4096 40 = None"
proof -
  let ?m = "(\<lambda>_. 0)(4120 := 4096, 4128 := 3) :: mem"
  have h: "OBJ_FIELD ?m 4096 CLASS_SUPERCLASS = 4096" "own_method ?m 40 4096 = 0"
    by (simp_all add: obj_defs slot_def own_method_def Let_def)
  show ?thesis using class_lookup_cycle_diverges [OF _ _ h] h by simp
qed

end
