(* ===== verification/Txn_Log.thy ===== *)
theory Txn_Log
  imports Objects
begin

text \<open>
  The in-memory transaction log of \<^verbatim>\<open>src/arm/txn.s\<close>: \<^verbatim>\<open>log[0]\<close> counts the entries, entry \<open>i\<close>
  is the triple at \<^verbatim>\<open>log[1 + 3*i]\<close>: object, field index (bit 63 marks a byte index), new value.
  The routines work on the log in memory; \<open>log_entries\<close> is the list it denotes, the abstract
  transaction.
\<close>

section \<open>The routines\<close>

type_synonym entry = "u64 \<times> u64 \<times> u64"

definition txn_log_write :: "mem \<Rightarrow> u64 \<Rightarrow> u64 \<Rightarrow> u64 \<Rightarrow> u64 \<Rightarrow> mem" where
  "txn_log_write m log obj field_index value =
     (let count = m log;
          base = uint (count * 3 + 1);
          m = m(slot log base := obj);
          m = m(slot log (base + 1) := field_index);
          m = m(slot log (base + 2) := value)
      in m(log := count + 1))"

text \<open>The backward scan from entry \<open>i\<close>: \<open>None\<close> is \<^verbatim>\<open>*found_ptr = 0\<close>.\<close>

fun txn_scan :: "mem \<Rightarrow> u64 \<Rightarrow> u64 \<Rightarrow> u64 \<Rightarrow> nat \<Rightarrow> u64 option" where
  "txn_scan m log obj field_index 0 = None"
| "txn_scan m log obj field_index (Suc i) =
     (let base = 3 * int i + 1
      in if m (slot log base) = obj \<and> m (slot log (base + 1)) = field_index
         then Some (m (slot log (base + 2)))
         else txn_scan m log obj field_index i)"

definition txn_log_read :: "mem \<Rightarrow> u64 \<Rightarrow> u64 \<Rightarrow> u64 \<Rightarrow> u64 option" where
  "txn_log_read m log obj field_index = txn_scan m log obj field_index (unat (m log))"

text \<open>
  One entry of \<^verbatim>\<open>txn_commit\<close>: a word store at \<^verbatim>\<open>obj[3 + field_index]\<close>, or with bit 63 set a byte
  store of the untagged value.
\<close>

definition byte_index_of :: "u64 \<Rightarrow> u64" where
  "byte_index_of field_index = drop_bit 1 (push_bit 1 field_index)"

definition apply_entry :: "mem \<Rightarrow> entry \<Rightarrow> mem" where
  "apply_entry m e = (case e of (obj, field_index, value) \<Rightarrow>
     if bit field_index 63
     then byte_put m (slot obj 3) (unat (byte_index_of field_index))
            (ucast (signed_drop_bit SMALLINT_SHIFT value))
     else set_field m obj field_index value)"

definition log_entry :: "mem \<Rightarrow> u64 \<Rightarrow> nat \<Rightarrow> entry" where
  "log_entry m log i =
     (let base = 3 * int i + 1
      in (m (slot log base), m (slot log (base + 1)), m (slot log (base + 2))))"

text \<open>
  The commit loop tests \<^verbatim>\<open>i < count\<close> as signed numbers after the first entry, and reads each entry
  from memory as the earlier stores left it.
\<close>

definition txn_commit :: "mem \<Rightarrow> u64 \<Rightarrow> mem" where
  "txn_commit m log =
     (let count = m log;
          rounds = (if count = 0 then 0 else nat (max 1 (sint count)));
          m = fold (\<lambda>i m. apply_entry m (log_entry m log i)) [0..<rounds] m
      in m(log := 0))"

definition txn_commit_durable :: "mem \<Rightarrow> u64 \<Rightarrow> mem" where
  "txn_commit_durable m log = txn_commit m log"

definition txn_abort :: "mem \<Rightarrow> u64 \<Rightarrow> mem" where
  "txn_abort m log = m(log := 0)"

definition TRANSACTION_LOG_ENTRY_CAPACITY :: nat where [simp]: "TRANSACTION_LOG_ENTRY_CAPACITY = 64"
definition TRANSACTION_LOG_WORD_CAPACITY :: nat where [simp]: "TRANSACTION_LOG_WORD_CAPACITY = 193"

section \<open>The list a log denotes\<close>

definition log_entries :: "mem \<Rightarrow> u64 \<Rightarrow> entry list" where
  "log_entries m log = map (log_entry m log) [0..<unat (m log)]"

text \<open>Entries the buffer of \<^verbatim>\<open>TRANSACTION_LOG_WORD_CAPACITY\<close> words still takes.\<close>

definition log_room :: "mem \<Rightarrow> u64 \<Rightarrow> nat" where
  "log_room m log = TRANSACTION_LOG_ENTRY_CAPACITY - unat (m log)"

definition lookup_entries :: "entry list \<Rightarrow> u64 \<Rightarrow> u64 \<Rightarrow> u64 option" where
  "lookup_entries es obj field_index =
     map_of (rev (map (\<lambda>(o', f, v). ((o', f), v)) es)) (obj, field_index)"

lemma txn_scan_eq:
  "txn_scan m log obj f n = lookup_entries (map (log_entry m log) [0..<n]) obj f"
  by (induction n) (simp_all add: lookup_entries_def log_entry_def Let_def)

lemma txn_log_read_eq: "txn_log_read m log obj f = lookup_entries (log_entries m log) obj f"
  by (simp add: txn_log_read_def txn_scan_eq log_entries_def)

lemma lookup_entries_snoc:
  "lookup_entries (es @ [(o', f', v)]) obj f =
    (if obj = o' \<and> f = f' then Some v else lookup_entries es obj f)"
  by (simp add: lookup_entries_def)

text \<open>The cells of an entry lie behind the count, at distinct addresses.\<close>

lemma log_cell_neq:
  assumes "i < 64" and "0 \<le> a" and "a \<le> 2"
  shows "slot log (3 * int i + 1 + a) \<noteq> log" "log \<noteq> slot log (3 * int i + 1 + a)"
  using assms slot_neq [of 0 "3 * int i + 1 + a" log] by simp_all

lemma log_cell_eq_iff:
  assumes "i < 64" "j < 64" "0 \<le> a" "a \<le> 2" "0 \<le> c" "c \<le> 2"
  shows "slot log (3 * int i + 1 + a) = slot log (3 * int j + 1 + c) \<longleftrightarrow> i = j \<and> a = c"
proof -
  have "\<bar>(3 * int i + 1 + a) - (3 * int j + 1 + c)\<bar> < 1000"
    using assms by linarith
  then have "slot log (3 * int i + 1 + a) = slot log (3 * int j + 1 + c) \<longleftrightarrow>
      3 * int i + 1 + a = 3 * int j + 1 + c"
    by (intro slot_eq_iff) simp
  also have "\<dots> \<longleftrightarrow> i = j \<and> a = c" using assms by presburger
  finally show ?thesis .
qed

lemma write_base:
  assumes "0 < log_room m log"
  shows "uint (m log * 3 + 1) = 3 * int (unat (m log)) + 1" "unat (m log + 1) = Suc (unat (m log))"
    "unat (m log) < 64"
proof -
  show c: "unat (m log) < 64" using assms by (simp add: log_room_def)
  have t: "unat (m log * 3) = unat (m log) * 3" using unat_u64_times [of "m log" 3] c by simp
  have "unat (m log * 3 + 1) = unat (m log) * 3 + 1" using unat_u64_plus [of "m log * 3" 1] c t by simp
  then have "int (unat (m log * 3 + 1)) = 3 * int (unat (m log)) + 1" by linarith
  then show "uint (m log * 3 + 1) = 3 * int (unat (m log)) + 1" by (simp only: of_nat_unat)
  show "unat (m log + 1) = Suc (unat (m log))" using unat_u64_plus [of "m log" 1] c by simp
qed

lemma txn_log_write_eq:
  assumes "0 < log_room m log"
  shows "txn_log_write m log obj f v =
    m(slot log (3 * int (unat (m log)) + 1 + 0) := obj, slot log (3 * int (unat (m log)) + 1 + 1) := f,
      slot log (3 * int (unat (m log)) + 1 + 2) := v, log := m log + 1)"
  unfolding txn_log_write_def Let_def write_base(1) [OF assms] by simp

lemma log_entry_eq: "log_entry m log i = (m (slot log (3 * int i + 1 + 0)),
    m (slot log (3 * int i + 1 + 1)), m (slot log (3 * int i + 1 + 2)))"
  by (simp add: log_entry_def Let_def)

lemma log_entry_write:
  assumes "0 < log_room m log" and "i < 64"
  shows "log_entry (txn_log_write m log obj f v) log i =
    (if i = unat (m log) then (obj, f, v) else log_entry m log i)"
  using write_base(3) [OF assms(1)] assms(2)
  by (simp only: txn_log_write_eq [OF assms(1)] log_entry_eq fun_upd_apply log_cell_eq_iff log_cell_neq
      if_False split: if_split) (auto simp: log_cell_eq_iff)

lemma log_entries_write:
  assumes "0 < log_room m log"
  shows "log_entries (txn_log_write m log obj f v) log = log_entries m log @ [(obj, f, v)]"
    "log_room (txn_log_write m log obj f v) log = log_room m log - 1"
proof -
  have c: "unat (txn_log_write m log obj f v log) = Suc (unat (m log))"
    using write_base(2) [OF assms] by (simp add: txn_log_write_def Let_def)
  show "log_entries (txn_log_write m log obj f v) log = log_entries m log @ [(obj, f, v)]"
    using log_entry_write [OF assms] write_base(3) [OF assms]
    by (simp add: log_entries_def c)
  show "log_room (txn_log_write m log obj f v) log = log_room m log - 1"
    by (simp add: log_room_def c)
qed

section \<open>Commit as a fold over the entries\<close>

text \<open>The cell an entry stores into, and the cells of the log buffer.\<close>

definition entry_cell :: "entry \<Rightarrow> u64" where
  "entry_cell e = (case e of (obj, f, v) \<Rightarrow>
     if bit f 63 then slot (slot obj 3) (int (unat (byte_index_of f) div 8)) else field_addr obj f)"

definition log_cells :: "u64 \<Rightarrow> u64 set" where
  "log_cells log = {slot log (int k) | k. k < TRANSACTION_LOG_WORD_CAPACITY}"

lemma apply_entry_other: "a \<noteq> entry_cell e \<Longrightarrow> apply_entry m e a = m a"
  by (cases e) (auto simp: apply_entry_def entry_cell_def byte_put_other set_field_def split: if_splits)

lemma log_entry_cells:
  assumes "i < 64"
  shows "log \<in> log_cells log" "\<And>a. 0 \<le> a \<Longrightarrow> a \<le> 2 \<Longrightarrow> slot log (3 * int i + 1 + a) \<in> log_cells log"
proof -
  show "log \<in> log_cells log" unfolding log_cells_def by (auto intro!: exI [of _ 0])
  fix a :: int assume "0 \<le> a" "a \<le> 2"
  then have "3 * int i + 1 + a = int (nat (3 * int i + 1 + a))" "nat (3 * int i + 1 + a) < 193"
    using assms by simp_all
  then show "slot log (3 * int i + 1 + a) \<in> log_cells log"
    unfolding log_cells_def by (metis (mono_tags, lifting) TRANSACTION_LOG_WORD_CAPACITY_def mem_Collect_eq)
qed

lemma log_entry_cong:
  assumes "i < 64" and "\<And>a. a \<in> log_cells log \<Longrightarrow> m' a = m a"
  shows "log_entry m' log i = log_entry m log i"
proof -
  have "m' (slot log (3 * int i + 1 + a)) = m (slot log (3 * int i + 1 + a))" if "0 \<le> a" "a \<le> 2" for a
    using assms(2) log_entry_cells(2) [OF assms(1) that] by blast
  from this [of 0] this [of 1] this [of 2] show ?thesis unfolding log_entry_eq by simp
qed

lemma sint_unat_small: "unat x < 2 ^ 63 \<Longrightarrow> sint (x :: u64) = int (unat x)"
proof -
  assume "unat x < 2 ^ 63"
  then have "int (unat x) < int (2 ^ 63)" by (simp only: of_nat_less_iff)
  then have "uint x < 2 ^ 63" by simp
  then have "sint (word_of_int (uint x) :: u64) = uint x"
    using uint_ge_0 [of x] by (intro sint_word_of_int_small) linarith+
  then show ?thesis by simp
qed

lemma foldl_apply_other:
  "a \<notin> entry_cell ` set es \<Longrightarrow> foldl apply_entry m es a = m a"
  by (induction es arbitrary: m) (simp_all add: apply_entry_other)

lemma txn_commit_foldl:
  assumes n: "unat (m log) \<le> TRANSACTION_LOG_ENTRY_CAPACITY"
    and apart: "entry_cell ` set (log_entries m log) \<inter> log_cells log = {}"
  shows "txn_commit m log = (foldl apply_entry m (log_entries m log))(log := 0)"
proof -
  have step: "fold (\<lambda>i m. apply_entry m (log_entry m log i)) [0..<k] m =
      foldl apply_entry m (map (log_entry m log) [0..<k])" if "k \<le> unat (m log)" for k
    using that
  proof (induction k)
    case (Suc k)
    let ?m = "foldl apply_entry m (map (log_entry m log) [0..<k])"
    have "entry_cell ` set (map (log_entry m log) [0..<k]) \<subseteq> entry_cell ` set (log_entries m log)"
      using Suc.prems by (auto simp: log_entries_def)
    then have keep: "?m a = m a" if "a \<in> log_cells log" for a
      using that apart by (intro foldl_apply_other) blast
    have k: "k < 64" using Suc.prems n by simp
    have "log_entry ?m log k = log_entry m log k" by (rule log_entry_cong [OF k keep])
    then show ?case using Suc by simp
  qed simp
  have "sint (m log) = int (unat (m log))" using n by (intro sint_unat_small) simp
  moreover have "1 \<le> unat (m log)" if "m log \<noteq> 0" using that by (simp add: Suc_le_eq unat_gt_0)
  moreover have "nat (max 1 (int k)) = k" if "1 \<le> k" for k using that by simp
  ultimately have "(if m log = 0 then 0 else nat (max 1 (sint (m log)))) = unat (m log)"
    by (metis unsigned_0)
  then show ?thesis by (simp add: txn_commit_def Let_def step log_entries_def)
qed

section \<open>A log of keyed writes\<close>

text \<open>
  The contract a transaction relies on: while there is room, a write is what the next read of its
  key returns, and reads of other keys do not change.
\<close>

locale keyed_log =
  fixes put :: "'s \<Rightarrow> 'k \<Rightarrow> 'v \<Rightarrow> 's" and get :: "'s \<Rightarrow> 'k \<Rightarrow> 'v option" and room :: "'s \<Rightarrow> nat"
  assumes get_put: "0 < room s \<Longrightarrow> get (put s k v) k' = (if k' = k then Some v else get s k')"
    and room_put: "0 < room s \<Longrightarrow> room (put s k v) = room s - 1"
begin

lemma get_puts:
  "length kvs \<le> room s \<Longrightarrow> get (foldl (\<lambda>s (k, v). put s k v) s kvs) k' =
    (case map_of (rev kvs) k' of Some v \<Rightarrow> Some v | None \<Rightarrow> get s k')"
proof (induction kvs arbitrary: s)
  case (Cons kv kvs)
  obtain k v where kv: "kv = (k, v)" by (cases kv)
  have "0 < room s" using Cons.prems by simp
  then show ?case
    using Cons.IH [of "put s k v"] Cons.prems
    by (simp add: kv get_put room_put map_add_def split: option.splits)
qed simp

lemma room_puts:
  "length kvs \<le> room s \<Longrightarrow> room (foldl (\<lambda>s (k, v). put s k v) s kvs) = room s - length kvs"
proof (induction kvs arbitrary: s)
  case (Cons kv kvs)
  then show ?case by (cases kv) (simp add: room_put)
qed simp

end

definition log_put :: "u64 \<Rightarrow> mem \<Rightarrow> u64 \<times> u64 \<Rightarrow> u64 \<Rightarrow> mem" where
  "log_put log m k v = txn_log_write m log (fst k) (snd k) v"

definition log_get :: "u64 \<Rightarrow> mem \<Rightarrow> u64 \<times> u64 \<Rightarrow> u64 option" where
  "log_get log m k = txn_log_read m log (fst k) (snd k)"

interpretation txn: keyed_log "log_put log" "log_get log" "\<lambda>m. log_room m log" for log
proof
  fix m k k' and v :: u64
  assume "0 < log_room m log"
  then show "log_get log (log_put log m k v) k' = (if k' = k then Some v else log_get log m k')"
    "log_room (log_put log m k v) log = log_room m log - 1"
    by (auto simp: log_get_def log_put_def txn_log_read_eq log_entries_write lookup_entries_snoc
        prod_eq_iff)
qed

section \<open>Reading what commit will install\<close>

lemma lookup_entries_Nil [simp]: "lookup_entries [] obj f = None"
  by (simp add: lookup_entries_def)

lemma foldl_apply_word:
  assumes "\<not> bit f 63"
    and "\<And>o' f' v. (o', f', v) \<in> set es \<Longrightarrow> entry_cell (o', f', v) = field_addr obj f \<Longrightarrow> o' = obj \<and> f' = f"
  shows "foldl apply_entry m es (field_addr obj f) =
    (case lookup_entries es obj f of Some v \<Rightarrow> v | None \<Rightarrow> m (field_addr obj f))"
  using assms(2)
proof (induction es rule: rev_induct)
  case (snoc e es)
  obtain o' f' v where e: "e = (o', f', v)" by (cases e)
  have IH: "foldl apply_entry m es (field_addr obj f) =
      (case lookup_entries es obj f of Some v \<Rightarrow> v | None \<Rightarrow> m (field_addr obj f))"
    using snoc by auto
  show ?case
  proof (cases "o' = obj \<and> f' = f")
    case True
    then show ?thesis using assms(1) by (simp add: e lookup_entries_snoc apply_entry_def set_field_def)
  next
    case False
    then have "field_addr obj f \<noteq> entry_cell e" using snoc.prems [of o' f' v] by (auto simp: e)
    then have "apply_entry (foldl apply_entry m es) e (field_addr obj f) =
        foldl apply_entry m es (field_addr obj f)"
      by (rule apply_entry_other)
    then show ?thesis using IH False by (auto simp: e lookup_entries_snoc)
  qed
qed simp

lemma byte_index_of_eq: "byte_index_of f = take_bit 63 f"
proof (rule bit_word_eqI)
  fix n assume "n < LENGTH(64)"
  then show "bit (byte_index_of f) n \<longleftrightarrow> bit (take_bit 63 f) n"
    unfolding byte_index_of_def bit_drop_bit_eq comp_def bit_push_bit_iff bit_take_bit_iff
    by auto
qed

lemma byte_index_bit63 [simp]:
  assumes "unat i < 2 ^ 63"
  shows "byte_index_of (push_bit 63 1 OR i) = i" "bit (push_bit 63 1 OR i :: u64) 63"
proof -
  have "take_bit 63 (unat i) = unat i" using assms by (simp add: take_bit_nat_eq_self_iff)
  then have "take_bit 63 i = i" by (simp only: word_unat_eq_iff unsigned_take_bit_eq)
  moreover have "take_bit 63 (push_bit 63 1 :: u64) = 0"
    by (rule bit_word_eqI) (auto simp: bit_take_bit_iff bit_push_bit_iff)
  ultimately show "byte_index_of (push_bit 63 1 OR i) = i"
    by (simp only: byte_index_of_eq take_bit_or) simp
  show "bit (push_bit 63 1 OR i :: u64) 63" by (simp add: bit_simps)
qed

text \<open>The byte at index \<open>i\<close> of an object, under a commit whose entries hit its word only as bytes.\<close>

lemma foldl_apply_byte:
  assumes i: "unat i < 2 ^ 63"
    and "\<And>o' f' v. (o', f', v) \<in> set es \<Longrightarrow>
      entry_cell (o', f', v) = slot (slot obj 3) (int (unat i div 8)) \<Longrightarrow>
      o' = obj \<and> bit f' 63 \<and> f' = push_bit 63 1 OR byte_index_of f'"
  shows "byte_get (foldl apply_entry m es) (slot obj 3) (unat i) =
    (case lookup_entries es obj (push_bit 63 1 OR i) of
       Some v \<Rightarrow> ucast (untag_smallint v) | None \<Rightarrow> byte_get m (slot obj 3) (unat i))"
  using assms(2)
proof (induction es rule: rev_induct)
  case (snoc e es)
  let ?M = "foldl apply_entry m es" and ?f = "push_bit 63 1 OR i" and ?p = "slot obj 3"
  obtain o' f' v where e: "e = (o', f', v)" by (cases e)
  have IH: "byte_get ?M ?p (unat i) = (case lookup_entries es obj ?f of
       Some v \<Rightarrow> ucast (untag_smallint v) | None \<Rightarrow> byte_get m ?p (unat i))"
    using snoc by auto
  show ?case
  proof (cases "entry_cell e = slot ?p (int (unat i div 8))")
    case True
    then have o': "o' = obj" and b: "bit f' 63" and f': "f' = push_bit 63 1 OR byte_index_of f'"
      using snoc.prems [of o' f' v] by (auto simp: e)
    have lt: "unat (byte_index_of f') < 2 ^ 63"
      unfolding byte_index_of_eq unsigned_take_bit_eq by (rule take_bit_nat_less_exp)
    have "byte_get (apply_entry ?M e) ?p (unat i) =
        (if unat (byte_index_of f') = unat i then ucast (untag_smallint v) else byte_get ?M ?p (unat i))"
      using byte_get_put [OF lt i] b by (simp add: e o' apply_entry_def untag_smallint_def)
    moreover have "unat (byte_index_of f') = unat i \<longleftrightarrow> f' = ?f"
      using f' byte_index_bit63(1) [OF i] by (metis word_unat_eq_iff)
    ultimately show ?thesis using IH by (simp add: e o' lookup_entries_snoc)
  next
    case False
    have "byte_get (apply_entry ?M e) ?p (unat i) = byte_get ?M ?p (unat i)"
      using apply_entry_other [of "slot ?p (int (unat i div 8))" e ?M] False
      by (simp add: byte_get_def)
    moreover have "\<not> (obj = o' \<and> ?f = f')"
    proof
      assume "obj = o' \<and> ?f = f'"
      then have "entry_cell e = slot ?p (int (unat i div 8))"
        using byte_index_bit63 [OF i] by (auto simp: e entry_cell_def)
      then show False using False by simp
    qed
    ultimately show ?thesis using IH by (auto simp: e lookup_entries_snoc)
  qed
qed simp

section \<open>Properties\<close>

text \<open>
  C17. Read your writes: after a run of \<^verbatim>\<open>txn_log_write\<close> calls that fit the buffer,
  \<^verbatim>\<open>txn_log_read\<close> finds the last value written to the object and field, and what it found before
  for every other key.
\<close>

theorem txn_read_your_writes:
  assumes "length es \<le> log_room m log"
  shows "txn_log_read (foldl (\<lambda>m (k, v). log_put log m k v) m es) log obj f =
    (case map_of (rev es) (obj, f) of Some v \<Rightarrow> Some v | None \<Rightarrow> txn_log_read m log obj f)"
  using txn.get_puts [OF assms, of "(obj, f)"] unfolding log_get_def fst_conv snd_conv .

theorem txn_read_your_writes_witness:
  "txn_log_read (log_put 800 (log_put 800 (log_put 800 (\<lambda>_. 0) (4096, 1) 5) (4096, 2) 9) (4096, 1) 13)
     800 4096 1 = Some 13"
  using txn_read_your_writes [of "[((4096, 1), 5), ((4096, 2), 9), ((4096, 1), 13)]" "\<lambda>_. 0" 800 4096 1]
  by (simp add: log_room_def)

text \<open>
  C16. \<^verbatim>\<open>txn_commit\<close> installs exactly what the transaction read: if no entry stores into the log
  buffer, and none but those for the same object and field stores into a field's word, then after the
  commit the field holds the value \<^verbatim>\<open>txn_log_read\<close> gave, or its old value when it found none; the
  log is empty.
\<close>

theorem txn_commit_installs_reads:
  assumes "unat (m log) \<le> TRANSACTION_LOG_ENTRY_CAPACITY"
    and "entry_cell ` set (log_entries m log) \<inter> log_cells log = {}"
    and "\<not> bit f 63" and "field_addr obj f \<noteq> log"
    and "\<forall>(obj', f', v) \<in> set (log_entries m log).
      entry_cell (obj', f', v) = field_addr obj f \<longrightarrow> obj' = obj \<and> f' = f"
  shows "OBJ_FIELD (txn_commit m log) obj f =
      (case txn_log_read m log obj f of Some v \<Rightarrow> v | None \<Rightarrow> OBJ_FIELD m obj f) \<and>
    txn_log_read (txn_commit m log) log obj f = None"
proof -
  have "foldl apply_entry m (log_entries m log) (field_addr obj f) =
      (case lookup_entries (log_entries m log) obj f of Some v \<Rightarrow> v | None \<Rightarrow> m (field_addr obj f))"
    by (rule foldl_apply_word [OF assms(3)]) (use assms(5) in fast)+
  then show ?thesis
    using assms(4) unfolding txn_commit_foldl [OF assms(1,2)] OBJ_FIELD_def txn_log_read_eq
    by (simp add: log_entries_def)
qed

definition demo_log :: mem where
  "demo_log = txn_log_write (txn_log_write (\<lambda>_. 0) 8192 4096 1 5) 8192 4096 1 13"

lemma demo_log_entries: "log_entries demo_log 8192 = [(4096, 1, 5), (4096, 1, 13)]" "demo_log 8192 = 2"
proof -
  have "log_room (\<lambda>_. 0) 8192 = 64" by (simp add: log_room_def)
  then show "log_entries demo_log 8192 = [(4096, 1, 5), (4096, 1, 13)]"
    by (simp add: demo_log_def log_entries_write) (simp add: log_entries_def)
  show "demo_log 8192 = 2" by (simp add: demo_log_def txn_log_write_def Let_def slot_def)
qed

definition demo_byte_log :: mem where
  "demo_byte_log = txn_log_write (\<lambda>_. 0) 8192 4096 0x8000000000000002 309"

lemma below_log_cells: "a < 8192 \<Longrightarrow> a \<notin> log_cells 8192"
proof
  assume a: "a < 8192" "a \<in> log_cells 8192"
  then obtain k where k: "k < 193" "a = slot 8192 (int k)" by (auto simp: log_cells_def)
  have "unat (slot 8192 (int k)) = 8192 + 8 * k" using k(1) by (subst unat_slot) simp_all
  then show False using a(1) k(2) by (simp add: word_less_nat_alt)
qed

theorem txn_commit_installs_reads_witness:
  "OBJ_FIELD (txn_commit demo_log 8192) 4096 1 = 13"
proof -
  have c: "field_addr 4096 1 = 4128" by (simp add: field_addr_def slot_def)
  have "4128 \<notin> log_cells 8192" by (rule below_log_cells) simp
  then have apart: "entry_cell ` set (log_entries demo_log 8192) \<inter> log_cells 8192 = {}"
    by (simp add: demo_log_entries entry_cell_def c bit_iff_odd)
  show ?thesis
    using txn_commit_installs_reads [OF _ apart, of 1 4096] 
    by (simp add: demo_log_entries c bit_iff_odd txn_log_read_eq lookup_entries_def)
qed

text \<open>
  Byte writes commit as bytes: after \<^verbatim>\<open>txn_commit\<close> the byte at index \<open>i\<close> of an object is
  the untagged value logged last under the byte key, or the old byte when there is none, provided the
  entries that touch its word are byte writes to the same object.
\<close>

theorem txn_commit_installs_bytes:
  assumes "unat (m log) \<le> TRANSACTION_LOG_ENTRY_CAPACITY"
    and "entry_cell ` set (log_entries m log) \<inter> log_cells log = {}"
    and "unat i < 2 ^ 63" and "slot (slot obj 3) (int (unat i div 8)) \<noteq> log"
    and "\<forall>(obj', f', v) \<in> set (log_entries m log).
      entry_cell (obj', f', v) = slot (slot obj 3) (int (unat i div 8)) \<longrightarrow>
      obj' = obj \<and> bit f' 63 \<and> f' = push_bit 63 1 OR byte_index_of f'"
  shows "byte_get (txn_commit m log) (slot obj 3) (unat i) =
    (case txn_log_read m log obj (push_bit 63 1 OR i) of
       Some v \<Rightarrow> ucast (untag_smallint v) | None \<Rightarrow> byte_get m (slot obj 3) (unat i))"
proof -
  have "byte_get (foldl apply_entry m (log_entries m log)) (slot obj 3) (unat i) =
    (case txn_log_read m log obj (push_bit 63 1 OR i) of
       Some v \<Rightarrow> ucast (untag_smallint v) | None \<Rightarrow> byte_get m (slot obj 3) (unat i))"
    unfolding txn_log_read_eq by (rule foldl_apply_byte [OF assms(3)]) (use assms(5) in fast)
  then show ?thesis
    using assms(4) by (simp add: txn_commit_foldl [OF assms(1,2)] byte_get_def)
qed

theorem txn_commit_installs_bytes_witness:
  "byte_get (txn_commit demo_byte_log 8192) (slot 4096 3) 2 = 77"
proof -
  have f: "push_bit 63 1 OR 2 = (0x8000000000000002 :: u64)" by simp
  have bi: "byte_index_of 0x8000000000000002 = 2" "bit (0x8000000000000002 :: u64) 63"
    using byte_index_bit63 [of 2] unfolding f by simp_all
  have es: "log_entries demo_byte_log 8192 = [(4096, 0x8000000000000002, 309)]"
    by (simp add: demo_byte_log_def log_entries_write log_room_def) (simp add: log_entries_def)
  have n: "demo_byte_log 8192 = 1" by (simp add: demo_byte_log_def txn_log_write_def Let_def slot_def)
  have c: "entry_cell (4096, 0x8000000000000002, 309) = 4120"
    by (simp add: entry_cell_def bi slot_def)
  have apart: "entry_cell ` set (log_entries demo_byte_log 8192) \<inter> log_cells 8192 = {}"
    using below_log_cells [of 4120] by (simp add: es c)
  have s: "slot 4096 3 = 4120" by (simp add: slot_def)
  have v: "ucast (untag_smallint 309) = (77 :: u8)" by code_simp
  have "byte_get (txn_commit demo_byte_log 8192) (slot 4096 3) (unat (2 :: u64)) =
      (case txn_log_read demo_byte_log 8192 4096 (push_bit 63 1 OR 2) of
         Some v \<Rightarrow> ucast (untag_smallint v) | None \<Rightarrow> byte_get demo_byte_log (slot 4096 3) (unat (2 :: u64)))"
    by (rule txn_commit_installs_bytes [OF _ apart]) (simp_all only: es n f, simp_all add: c bi s)
  then show ?thesis
    unfolding f txn_log_read_eq es lookup_entries_def by simp (simp only: v)
qed

text \<open>
  \<^verbatim>\<open>txn_abort\<close> discards the transaction: no read finds anything afterwards, no word but the
  count changes, and a commit that follows stores nothing.
\<close>

theorem txn_abort_discards:
  "txn_log_read (txn_abort m log) log obj f = None \<and>
   txn_abort m log a = (if a = log then 0 else m a) \<and> txn_commit (txn_abort m log) log = txn_abort m log"
  by (simp add: txn_abort_def txn_log_read_eq log_entries_def txn_commit_def)

end
