(* ===== verification/Object_Memory.thy ===== *)
theory Object_Memory
  imports Objects
begin

text \<open>
  The object memories of \<^verbatim>\<open>src/c_vm/object.c\<close>: registration, the page tables, dirty marking,
  allocation by bumping the free pointer or reusing a released page, and the walk over objects.
  An \<^verbatim>\<open>Om\<close> is the address of two words in memory, the free pointer \<^verbatim>\<open>om[0]\<close> and the end
  \<^verbatim>\<open>om[1]\<close>. The parallel static arrays of the C file are one list of \<open>om_entry\<close> records, its
  length the registered count; \<^verbatim>\<open>calloc\<close> is taken to succeed.
\<close>

section \<open>State\<close>

definition OM_PAGE_BYTES :: u64 where [simp]: "OM_PAGE_BYTES = 4096"
definition OM_PAGE_STATE_FREE :: u8 where [simp]: "OM_PAGE_STATE_FREE = 0"
definition OM_PAGE_STATE_HEAD :: u8 where [simp]: "OM_PAGE_STATE_HEAD = 1"
definition OM_PAGE_STATE_CONTINUATION :: u8 where [simp]: "OM_PAGE_STATE_CONTINUATION = 2"
definition UINT64_MAX :: u64 where "UINT64_MAX = 18446744073709551615"
definition MAX_REGISTERED_GC_CONTEXTS :: nat where [simp]: "MAX_REGISTERED_GC_CONTEXTS = 128"

record om_entry =
  simple_om :: u64
  om_start :: u64
  om_end :: u64
  page_used :: "u64 list"
  page_first :: "u64 list"
  page_covering :: "u64 list"
  page_dirty :: "u8 list"
  page_state :: "u8 list"
  page_reusable :: "u8 list"
  page_counts :: u64

record heap =
  memory :: mem
  gc_contexts :: "u64 list"
  simple_oms :: "om_entry list"

section \<open>Registration\<close>

text \<open>\<open>None\<close> is the \<^verbatim>\<open>UINT64_MAX\<close> of \<^verbatim>\<open>om_registration_index\<close>.\<close>

definition om_registration_index :: "'a heap_scheme \<Rightarrow> u64 \<Rightarrow> nat option" where
  "om_registration_index h om = index_where (\<lambda>e. simple_om e = om) (simple_oms h)"

definition gc_register_context :: "'a heap_scheme \<Rightarrow> u64 \<Rightarrow> 'a heap_scheme" where
  "gc_register_context h gc_ctx =
     (if gc_ctx \<in> set (gc_contexts h) then h
      else if length (gc_contexts h) < MAX_REGISTERED_GC_CONTEXTS
      then h\<lparr>gc_contexts := gc_contexts h @ [gc_ctx]\<rparr>
      else h)"

definition gc_is_registered_context :: "'a heap_scheme \<Rightarrow> u64 \<Rightarrow> u64" where
  "gc_is_registered_context h om = (if om \<in> set (gc_contexts h) then 1 else 0)"

definition fresh_om_entry :: "u64 \<Rightarrow> u64 \<Rightarrow> u64 \<Rightarrow> om_entry" where
  "fresh_om_entry om buffer size_bytes =
     (let page_count = (size_bytes + OM_PAGE_BYTES - 1) div OM_PAGE_BYTES;
          n = unat page_count
      in \<lparr>simple_om = om, om_start = buffer, om_end = buffer + size_bytes,
          page_used = replicate n 0, page_first = replicate n 0, page_covering = replicate n 0,
          page_dirty = replicate n 0, page_state = replicate n 0, page_reusable = replicate n 0,
          page_counts = page_count\<rparr>)"

definition om_init :: "'a heap_scheme \<Rightarrow> u64 \<Rightarrow> u64 \<Rightarrow> u64 \<Rightarrow> 'a heap_scheme" where
  "om_init h buffer size_bytes free_ptr_var =
     (let m = (memory h)(free_ptr_var := buffer);
          m = m(slot free_ptr_var 1 := buffer + size_bytes);
          e = fresh_om_entry free_ptr_var buffer size_bytes
      in case om_registration_index h free_ptr_var of
        Some index \<Rightarrow> h\<lparr>memory := m, simple_oms := (simple_oms h)[index := e]\<rparr>
      | None \<Rightarrow>
          if length (simple_oms h) < MAX_REGISTERED_GC_CONTEXTS
          then h\<lparr>memory := m, simple_oms := simple_oms h @ [e]\<rparr>
          else h\<lparr>memory := m\<rparr>)"

definition om_registered_start :: "'a heap_scheme \<Rightarrow> u64 \<Rightarrow> u64" where
  "om_registered_start h om =
     (case om_registration_index h om of None \<Rightarrow> 0 | Some index \<Rightarrow> om_start (simple_oms h ! index))"

definition om_registered_end :: "'a heap_scheme \<Rightarrow> u64 \<Rightarrow> u64" where
  "om_registered_end h om =
     (case om_registration_index h om of None \<Rightarrow> 0 | Some index \<Rightarrow> om_end (simple_oms h ! index))"

definition om_registered_for_address :: "'a heap_scheme \<Rightarrow> u64 \<Rightarrow> u64" where
  "om_registered_for_address h address =
     (case index_where (\<lambda>e. om_start e \<le> address \<and> address < om_end e) (simple_oms h) of
        None \<Rightarrow> 0 | Some index \<Rightarrow> simple_om (simple_oms h ! index))"

section \<open>Page queries\<close>

definition om_page_count :: "'a heap_scheme \<Rightarrow> u64 \<Rightarrow> u64" where
  "om_page_count h om =
     (case om_registration_index h om of None \<Rightarrow> 0 | Some index \<Rightarrow> page_counts (simple_oms h ! index))"

definition om_page_id_for_address :: "'a heap_scheme \<Rightarrow> u64 \<Rightarrow> u64 \<Rightarrow> u64" where
  "om_page_id_for_address h om address =
     (let start = om_registered_start h om; end_addr = om_registered_end h om
      in if start = 0 \<or> address < start \<or> address \<ge> end_addr then UINT64_MAX
         else (address - start) div OM_PAGE_BYTES)"

definition om_page_start :: "'a heap_scheme \<Rightarrow> u64 \<Rightarrow> u64 \<Rightarrow> u64" where
  "om_page_start h om page_id =
     (let start = om_registered_start h om; count = om_page_count h om
      in if start = 0 \<or> page_id \<ge> count then 0 else start + page_id * OM_PAGE_BYTES)"

text \<open>One page-table lookup with the guards the four query functions share.\<close>

definition page_table_get ::
  "'a heap_scheme \<Rightarrow> u64 \<Rightarrow> u64 \<Rightarrow> (om_entry \<Rightarrow> 'b list) \<Rightarrow> 'b \<Rightarrow> 'b" where
  "page_table_get h om page_id table none =
     (case om_registration_index h om of None \<Rightarrow> none
      | Some index \<Rightarrow>
          if page_id \<ge> page_counts (simple_oms h ! index) then none
          else table (simple_oms h ! index) ! unat page_id)"

definition om_page_used_bytes :: "'a heap_scheme \<Rightarrow> u64 \<Rightarrow> u64 \<Rightarrow> u64" where
  "om_page_used_bytes h om page_id = page_table_get h om page_id page_used 0"

definition om_page_state :: "'a heap_scheme \<Rightarrow> u64 \<Rightarrow> u64 \<Rightarrow> u8" where
  "om_page_state h om page_id = page_table_get h om page_id page_state OM_PAGE_STATE_FREE"

definition om_page_is_dirty :: "'a heap_scheme \<Rightarrow> u64 \<Rightarrow> u64 \<Rightarrow> bool" where
  "om_page_is_dirty h om page_id = (page_table_get h om page_id page_dirty 0 \<noteq> 0)"

definition om_page_covering_object :: "'a heap_scheme \<Rightarrow> u64 \<Rightarrow> u64 \<Rightarrow> u64" where
  "om_page_covering_object h om page_id = page_table_get h om page_id page_covering 0"

definition om_page_first_object_start :: "'a heap_scheme \<Rightarrow> u64 \<Rightarrow> u64 \<Rightarrow> u64" where
  "om_page_first_object_start h om page_id = page_table_get h om page_id page_first 0"

definition om_page_starts_with_continuation :: "'a heap_scheme \<Rightarrow> u64 \<Rightarrow> u64 \<Rightarrow> bool" where
  "om_page_starts_with_continuation h om page_id =
     (let covering = om_page_covering_object h om page_id; page_start = om_page_start h om page_id
      in \<not> (covering = 0 \<or> page_start = 0) \<and> covering < page_start)"

definition om_dirty_page_count :: "'a heap_scheme \<Rightarrow> u64 \<Rightarrow> u64" where
  "om_dirty_page_count h om =
     (case om_registration_index h om of None \<Rightarrow> 0
      | Some index \<Rightarrow>
          let e = simple_oms h ! index
          in fold (\<lambda>page_id count. if page_dirty e ! page_id \<noteq> 0 then count + 1 else count)
               [0..<unat (page_counts e)] 0)"

section \<open>Page updates\<close>

definition update_om :: "'a heap_scheme \<Rightarrow> nat \<Rightarrow> (om_entry \<Rightarrow> om_entry) \<Rightarrow> 'a heap_scheme" where
  "update_om h index f = h\<lparr>simple_oms := (simple_oms h)[index := f (simple_oms h ! index)]\<rparr>"

definition om_clear_dirty_pages :: "'a heap_scheme \<Rightarrow> u64 \<Rightarrow> 'a heap_scheme" where
  "om_clear_dirty_pages h om =
     (case om_registration_index h om of None \<Rightarrow> h
      | Some index \<Rightarrow>
          update_om h index (\<lambda>e. e\<lparr>page_dirty := replicate (unat (page_counts e)) 0\<rparr>))"

definition release_page_entry :: "nat \<Rightarrow> om_entry \<Rightarrow> om_entry" where
  "release_page_entry page_id e =
     e\<lparr>page_used := (page_used e)[page_id := 0],
       page_first := (page_first e)[page_id := 0],
       page_covering := (page_covering e)[page_id := 0],
       page_dirty := (page_dirty e)[page_id := 0],
       page_state := (page_state e)[page_id := OM_PAGE_STATE_FREE],
       page_reusable := (page_reusable e)[page_id := 1]\<rparr>"

definition om_release_page :: "'a heap_scheme \<Rightarrow> u64 \<Rightarrow> u64 \<Rightarrow> 'a heap_scheme" where
  "om_release_page h om page_id =
     (case om_registration_index h om of None \<Rightarrow> h
      | Some index \<Rightarrow>
          if page_id \<ge> page_counts (simple_oms h ! index) then h
          else update_om h index (release_page_entry (unat page_id)))"

text \<open>
  The loop \<^verbatim>\<open>for (page_id = first; page_id <= last; page_id++)\<close>. In C it leaves the tables, and does not
  end, when \<open>last\<close> is \<^verbatim>\<open>UINT64_MAX\<close>, which is not the page of an address inside the heap.
\<close>

definition page_range :: "u64 \<Rightarrow> u64 \<Rightarrow> nat list" where
  "page_range p q = [unat p ..< Suc (unat q)]"

definition mark_page_dirty :: "nat \<Rightarrow> om_entry \<Rightarrow> om_entry" where
  "mark_page_dirty page_id e = e\<lparr>page_dirty := (page_dirty e)[page_id := 1]\<rparr>"

definition om_mark_address_range_dirty :: "'a heap_scheme \<Rightarrow> u64 \<Rightarrow> u64 \<Rightarrow> u64 \<Rightarrow> 'a heap_scheme" where
  "om_mark_address_range_dirty h om start_address size_bytes =
     (case om_registration_index h om of None \<Rightarrow> h
      | Some index \<Rightarrow>
          if start_address = 0 \<or> size_bytes = 0 then h
          else
            let start_page = om_page_id_for_address h om start_address;
                end_page = om_page_id_for_address h om (start_address + size_bytes - 1)
            in if start_page = UINT64_MAX \<or> end_page = UINT64_MAX then h
               else update_om h index (fold mark_page_dirty (page_range start_page end_page)))"

definition om_mark_object_dirty :: "'a heap_scheme \<Rightarrow> u64 \<Rightarrow> u64 \<Rightarrow> 'a heap_scheme" where
  "om_mark_object_dirty h om object =
     (if object = 0 then h
      else om_mark_address_range_dirty h om object (om_object_bytes (memory h) object))"

definition om_mark_field_dirty :: "'a heap_scheme \<Rightarrow> u64 \<Rightarrow> u64 \<Rightarrow> u64 \<Rightarrow> 'a heap_scheme" where
  "om_mark_field_dirty h om object field_index =
     (if object = 0 then h
      else om_mark_address_range_dirty h om (field_addr object field_index) WORD_BYTES)"

definition om_mark_byte_dirty :: "'a heap_scheme \<Rightarrow> u64 \<Rightarrow> u64 \<Rightarrow> u64 \<Rightarrow> 'a heap_scheme" where
  "om_mark_byte_dirty h om object byte_index =
     (if object = 0 then h
      else om_mark_address_range_dirty h om (field_addr object 0 + byte_index) 1)"

section \<open>Objects on pages\<close>

definition om_object_spans_pages :: "'a heap_scheme \<Rightarrow> u64 \<Rightarrow> u64 \<Rightarrow> bool" where
  "om_object_spans_pages h om object =
     (if object = 0 then False
      else
        let m = memory h;
            size_bytes = (OBJ_HEADER_WORDS +
              (if OBJ_FORMAT m object = FORMAT_BYTES
               then (OBJ_SIZE m object + WORD_BYTES - 1) div WORD_BYTES
               else OBJ_SIZE m object)) * WORD_BYTES;
            start_page = om_page_id_for_address h om object;
            end_page = om_page_id_for_address h om (object + size_bytes - 1)
        in if start_page = UINT64_MAX \<or> end_page = UINT64_MAX then False
           else start_page \<noteq> end_page)"

definition om_next_object :: "'a heap_scheme \<Rightarrow> u64 \<Rightarrow> u64 \<Rightarrow> u64" where
  "om_next_object h om object =
     (if object = 0 then 0
      else
        let end_addr = memory h om;
            next_obj = object + om_object_bytes (memory h) object
        in if next_obj \<ge> end_addr then 0
        else
          let next_page = om_page_id_for_address h om next_obj
          in if next_page = UINT64_MAX then 0
          else if next_obj - om_page_start h om next_page < om_page_used_bytes h om next_page
          then next_obj
          else case om_registration_index h om of None \<Rightarrow> 0
            | Some index \<Rightarrow>
                let e = simple_oms h ! index
                in case List.find (\<lambda>page_id. page_first e ! page_id \<noteq> 0)
                       [Suc (unat next_page) ..< unat (page_counts e)] of
                     None \<Rightarrow> 0 | Some page_id \<Rightarrow> page_first e ! page_id)"

section \<open>Allocation\<close>

definition slot_words_for :: "u64 \<Rightarrow> u64 \<Rightarrow> u64" where
  "slot_words_for format obj_size =
     (if format = FORMAT_BYTES then (obj_size + WORD_BYTES - 1) div WORD_BYTES else obj_size)"

text \<open>The first released page below the free pointer, for objects of at most one page.\<close>

definition reusable_page :: "'a heap_scheme \<Rightarrow> u64 \<Rightarrow> u64 \<Rightarrow> nat option" where
  "reusable_page h om total_bytes =
     (case om_registration_index h om of None \<Rightarrow> None
      | Some index \<Rightarrow>
          let e = simple_oms h ! index
          in if total_bytes \<le> OM_PAGE_BYTES
             then List.find (\<lambda>page_id. page_reusable e ! page_id \<noteq> 0 \<and>
                      page_state e ! page_id = OM_PAGE_STATE_FREE \<and>
                      om_page_start h om (of_nat page_id) < memory h om)
                    [0..<unat (page_counts e)]
             else None)"

text \<open>The body of the page loop at the end of \<^verbatim>\<open>om_alloc\<close>.\<close>

definition alloc_page_entry :: "(nat \<Rightarrow> u64) \<Rightarrow> u64 \<Rightarrow> u64 \<Rightarrow> nat \<Rightarrow> nat \<Rightarrow> om_entry \<Rightarrow> om_entry" where
  "alloc_page_entry page_start_of object_start object_end start_page page_id e =
     (let page_start = page_start_of page_id;
          page_end = page_start + OM_PAGE_BYTES;
          used_end = if object_end < page_end then object_end else page_end;
          used_bytes = if used_end > page_start then used_end - page_start else 0;
          e = (if page_covering e ! page_id = 0
               then e\<lparr>page_covering := (page_covering e)[page_id := object_start]\<rparr> else e);
          e = (if page_id = start_page \<and> page_first e ! page_id = 0
               then e\<lparr>page_first := (page_first e)[page_id := object_start]\<rparr> else e);
          e = e\<lparr>page_state := (page_state e)[page_id :=
                 if page_id = start_page then OM_PAGE_STATE_HEAD else OM_PAGE_STATE_CONTINUATION]\<rparr>;
          e = e\<lparr>page_reusable := (page_reusable e)[page_id := 0]\<rparr>
      in if page_used e ! page_id < used_bytes
         then e\<lparr>page_used := (page_used e)[page_id := used_bytes]\<rparr> else e)"

text \<open>
  Header and zeroed fields: \<^verbatim>\<open>OBJ_CLASS\<close>, \<^verbatim>\<open>OBJ_FORMAT\<close>, \<^verbatim>\<open>OBJ_SIZE\<close>, \<^verbatim>\<open>memset\<close>, whose number of bytes
  is a product of 64 bits.
\<close>

definition write_object :: "mem \<Rightarrow> u64 \<Rightarrow> u64 \<Rightarrow> u64 \<Rightarrow> u64 \<Rightarrow> u64 \<Rightarrow> mem" where
  "write_object m object class_ptr format obj_size slot_words =
     fold (\<lambda>i m. set_field m object (of_nat i) 0) [0..<unat (slot_words * WORD_BYTES) div 8]
       (m(object := class_ptr, slot object 1 := format, slot object 2 := obj_size))"

text \<open>
  Where the bump pointer puts an object: at the free pointer, or at the next page when an object
  of at most one page would cross a page boundary.
\<close>

definition bump_object :: "'a heap_scheme \<Rightarrow> u64 \<Rightarrow> u64 \<Rightarrow> u64" where
  "bump_object h free_ptr_var total_bytes =
     (let object = memory h free_ptr_var;
          heap_start = om_registered_start h free_ptr_var;
          relative_offset = if heap_start = 0 then 0 else object - heap_start;
          page_offset = relative_offset mod OM_PAGE_BYTES;
          bytes_left_in_page = OM_PAGE_BYTES - page_offset;
          next_page_start =
            if heap_start = 0 then (object + OM_PAGE_BYTES - 1) AND NOT (OM_PAGE_BYTES - 1)
            else heap_start + (relative_offset + OM_PAGE_BYTES - 1) div OM_PAGE_BYTES * OM_PAGE_BYTES
      in if page_offset \<noteq> 0 \<and> total_bytes \<le> OM_PAGE_BYTES \<and> total_bytes > bytes_left_in_page
         then next_page_start else object)"

definition om_alloc :: "'a heap_scheme \<Rightarrow> u64 \<Rightarrow> u64 \<Rightarrow> u64 \<Rightarrow> u64 \<Rightarrow> 'a heap_scheme \<times> u64" where
  "om_alloc h free_ptr_var class_ptr format obj_size =
     (let end_addr = memory h (slot free_ptr_var 1);
          slot_words = slot_words_for format obj_size;
          total_words = OBJ_HEADER_WORDS + slot_words;
          total_bytes = total_words * WORD_BYTES;
          metadata_index = om_registration_index h free_ptr_var;
          reuse_page_id = reusable_page h free_ptr_var total_bytes;
          object = (case reuse_page_id of
              Some page_id \<Rightarrow> om_page_start h free_ptr_var (of_nat page_id)
            | None \<Rightarrow> bump_object h free_ptr_var total_bytes);
          new_free = slot object (uint total_words)
      in if new_free > end_addr then (h, 0)
         else
           let h = h\<lparr>memory := write_object (memory h) object class_ptr format obj_size slot_words\<rparr>;
               h = (case metadata_index of None \<Rightarrow> h
                 | Some index \<Rightarrow>
                     let object_end = object + total_bytes;
                         start_page = om_page_id_for_address h free_ptr_var object;
                         end_page = om_page_id_for_address h free_ptr_var (object_end - 1)
                     in update_om h index
                          (fold (alloc_page_entry (\<lambda>p. om_page_start h free_ptr_var (of_nat p))
                                   object object_end (unat start_page))
                             (page_range start_page end_page)));
               h = (if reuse_page_id = None
                    then h\<lparr>memory := (memory h)(free_ptr_var := new_free)\<rparr> else h)
           in (h, object))"

section \<open>What the queries depend on\<close>

text \<open>Writing object memory does not touch the registry.\<close>

lemma registry_memory [simp]:
  "om_registration_index (memory_update g h) om = om_registration_index h om"
  "om_registered_start (memory_update g h) om = om_registered_start h om"
  "om_registered_end (memory_update g h) om = om_registered_end h om"
  "om_page_count (memory_update g h) om = om_page_count h om"
  "om_page_id_for_address (memory_update g h) om a = om_page_id_for_address h om a"
  "om_page_start (memory_update g h) om p = om_page_start h om p"
  "om_page_used_bytes (memory_update g h) om p = om_page_used_bytes h om p"
  by (simp_all add: om_registration_index_def om_registered_start_def om_registered_end_def
      om_page_count_def om_page_id_for_address_def om_page_start_def om_page_used_bytes_def
      page_table_get_def split: option.splits)

lemma update_om_simps [simp]:
  "memory (update_om h i f) = memory h"
  "gc_contexts (update_om h i f) = gc_contexts h"
  "length (simple_oms (update_om h i f)) = length (simple_oms h)"
  "i < length (simple_oms h) \<Longrightarrow> simple_oms (update_om h i f) ! i = f (simple_oms h ! i)"
  "j \<noteq> i \<Longrightarrow> simple_oms (update_om h i f) ! j = simple_oms h ! j"
  by (simp_all add: update_om_def)

lemma registration_update_om:
  assumes "\<And>e. simple_om (f e) = simple_om e"
  shows "om_registration_index (update_om h i f) om = om_registration_index h om"
proof -
  have "index_where (\<lambda>e. simple_om e = om) (xs[i := f (xs ! i)]) = index_where (\<lambda>e. simple_om e = om) xs"
    for xs
    by (induction xs arbitrary: i) (auto simp: assms split: nat.splits)
  then show ?thesis by (simp add: om_registration_index_def update_om_def)
qed

lemma alloc_page_entry_fixed [simp]:
  "simple_om (alloc_page_entry ps os oe sp p e) = simple_om e"
  "om_start (alloc_page_entry ps os oe sp p e) = om_start e"
  "om_end (alloc_page_entry ps os oe sp p e) = om_end e"
  "page_counts (alloc_page_entry ps os oe sp p e) = page_counts e"
  "page_dirty (alloc_page_entry ps os oe sp p e) = page_dirty e"
  by (simp_all add: alloc_page_entry_def Let_def)

lemma fold_alloc_page_entry_fixed [simp]:
  "simple_om (fold (alloc_page_entry ps os oe sp) qs e) = simple_om e"
  "om_start (fold (alloc_page_entry ps os oe sp) qs e) = om_start e"
  "om_end (fold (alloc_page_entry ps os oe sp) qs e) = om_end e"
  "page_counts (fold (alloc_page_entry ps os oe sp) qs e) = page_counts e"
  "page_dirty (fold (alloc_page_entry ps os oe sp) qs e) = page_dirty e"
  by (induction qs arbitrary: e) simp_all

end
