(* ===== verification/Hashes.thy ===== *)
theory Hashes
  imports Prelude
begin

text \<open>
  The FNV hashes of the program share one step, \<^verbatim>\<open>hash ^= x; hash *= p\<close> with an odd prime
  \<open>p\<close>. The locale states the law all of them satisfy, that a step loses nothing of the hash
  and nothing of the input, and derives what a checksum is for: inputs that differ in one
  position have different checksums.
\<close>

locale injective_hash_step =
  fixes step :: "'h \<Rightarrow> 'x \<Rightarrow> 'h"
  assumes step_inject_hash: "step h x = step h' x \<Longrightarrow> h = h'"
    and step_inject_input: "step h x = step h x' \<Longrightarrow> x = x'"
begin

lemma foldl_step_inject: "foldl step h xs = foldl step h' xs \<Longrightarrow> h = h'"
  by (induction xs arbitrary: h h') (auto dest: step_inject_hash)

lemma single_change_detected:
  assumes "i < length xs" and "y \<noteq> xs ! i"
  shows "foldl step h (xs[i := y]) \<noteq> foldl step h xs"
proof
  assume eq: "foldl step h (xs[i := y]) = foldl step h xs"
  have "xs = take i xs @ xs ! i # drop (Suc i) xs" by (rule id_take_nth_drop [OF assms(1)])
  moreover have "xs[i := y] = take i xs @ y # drop (Suc i) xs"
    by (rule upd_conv_take_nth_drop [OF assms(1)])
  ultimately have "foldl step (step (foldl step h (take i xs)) y) (drop (Suc i) xs) =
      foldl step (step (foldl step h (take i xs)) (xs ! i)) (drop (Suc i) xs)"
    using eq by (metis foldl_Cons foldl_append)
  then have "step (foldl step h (take i xs)) y = step (foldl step h (take i xs)) (xs ! i)"
    by (rule foldl_step_inject)
  then show False using assms(2) step_inject_input by blast
qed

lemma equal_length_last_differs:
  assumes "foldl step h (xs @ [x]) = foldl step h (xs @ [y])"
  shows "x = y"
  using assms step_inject_input by simp

end

section \<open>The two FNV steps\<close>

definition fnv64_step :: "u64 \<Rightarrow> u64 \<Rightarrow> u64" where
  "fnv64_step hash x = (hash XOR x) * 1099511628211"

definition fnv32_step :: "u32 \<Rightarrow> u32 \<Rightarrow> u32" where
  "fnv32_step hash x = (hash XOR x) * 16777619"

lemma fnv64_inverse: "(x :: u64) * 1099511628211 * 14886173955864302971 = x"
proof -
  have "(1099511628211 :: u64) * 14886173955864302971 = 1" by simp
  then show ?thesis by (simp only: mult.assoc) simp
qed

lemma fnv32_inverse: "(x :: u32) * 16777619 * 899433627 = x"
proof -
  have "(16777619 :: u32) * 899433627 = 1" by simp
  then show ?thesis by (simp only: mult.assoc) simp
qed

lemma xor_cancel_right: "a XOR c = b XOR (c :: 'a::len word) \<Longrightarrow> a = b"
  by (metis xor.assoc xor.right_neutral xor_self_eq)

lemma xor_cancel_left: "c XOR a = c XOR (b :: 'a::len word) \<Longrightarrow> a = b"
  by (metis xor.assoc xor.left_neutral xor_self_eq)

interpretation fnv64: injective_hash_step fnv64_step
proof
  show "h = h'" if "fnv64_step h x = fnv64_step h' x" for h h' x
    using that unfolding fnv64_step_def by (metis fnv64_inverse xor_cancel_right)
  show "x = x'" if "fnv64_step h x = fnv64_step h x'" for h x x'
    using that unfolding fnv64_step_def by (metis fnv64_inverse xor_cancel_left)
qed

interpretation fnv32: injective_hash_step fnv32_step
proof
  show "h = h'" if "fnv32_step h x = fnv32_step h' x" for h h' x
    using that unfolding fnv32_step_def by (metis fnv32_inverse xor_cancel_right)
  show "x = x'" if "fnv32_step h x = fnv32_step h x'" for h x x'
    using that unfolding fnv32_step_def by (metis fnv32_inverse xor_cancel_left)
qed

text \<open>Hashing bytes with the 64-bit and the 32-bit step.\<close>

definition fnv64_byte_step :: "u64 \<Rightarrow> u8 \<Rightarrow> u64" where
  "fnv64_byte_step hash b = fnv64_step hash (ucast b)"

definition fnv32_byte_step :: "u32 \<Rightarrow> u8 \<Rightarrow> u32" where
  "fnv32_byte_step hash b = fnv32_step hash (ucast b)"

lemma ucast_u8_inject:
  "(ucast (b :: u8) :: u64) = ucast c \<Longrightarrow> b = c" "(ucast (b :: u8) :: u32) = ucast c \<Longrightarrow> b = c"
proof -
  have "ucast (ucast x :: u64) = x" "ucast (ucast x :: u32) = x" for x :: u8
    by (rule bit_word_eqI; auto simp: bit_simps)+
  then show "(ucast b :: u64) = ucast c \<Longrightarrow> b = c" "(ucast b :: u32) = ucast c \<Longrightarrow> b = c"
    by metis+
qed

interpretation fnv64b: injective_hash_step fnv64_byte_step
  by unfold_locales
    (auto simp: fnv64_byte_step_def dest: fnv64.step_inject_hash fnv64.step_inject_input ucast_u8_inject)

interpretation fnv32b: injective_hash_step fnv32_byte_step
  by unfold_locales
    (auto simp: fnv32_byte_step_def dest: fnv32.step_inject_hash fnv32.step_inject_input ucast_u8_inject)

end
