(* ===== verification/Relocation.thy ===== *)
theory Relocation
  imports Tagged
begin

text \<open>
  Heap pointers leave the process as offsets: the durable log and the image store a pointer
  \<open>v\<close> into the heap as \<open>v - start + 8\<close>, so that the offset keeps the object tag and is
  never 0, and turn it back into \<open>start' + offset - 8\<close> in the heap that reads it. The locale is
  the contract of such a pair of conversions.
\<close>

locale pointer_codec =
  fixes enc dec :: "u64 \<Rightarrow> u64" and storable :: "u64 \<Rightarrow> bool" and moved :: "u64 \<Rightarrow> u64"
  assumes dec_enc: "storable v \<Longrightarrow> dec (enc v) = moved v"
begin

lemma map_dec_enc: "\<forall>v \<in> set vs. storable v \<Longrightarrow> map dec (map enc vs) = map moved vs"
  by (induction vs) (simp_all add: dec_enc)

lemma enc_inject_moved: "storable v \<Longrightarrow> storable w \<Longrightarrow> enc v = enc w \<Longrightarrow> moved v = moved w"
  using dec_enc by metis

end

text \<open>Where a stored value ends up when the heap at \<open>old\<close> is loaded at \<open>new\<close>.\<close>

definition relocate :: "u64 \<Rightarrow> u64 \<Rightarrow> u64 \<Rightarrow> u64 \<Rightarrow> u64" where
  "relocate old limit new v =
     (if is_object_ptr v \<and> old \<le> v \<and> v < limit then v - old + new else v)"

text \<open>
  Values a heap at \<open>[old, limit)\<close> may hold: a pointer to an object with at least one word in the
  heap, or a value that is neither a heap pointer nor can be taken for an offset.
\<close>

definition storable_value :: "u64 \<Rightarrow> u64 \<Rightarrow> u64 \<Rightarrow> bool" where
  "storable_value old limit v \<longleftrightarrow>
     (is_object_ptr v \<longrightarrow>
        old \<le> v \<and> unat v + 8 \<le> unat limit \<or>
        \<not> (old \<le> v \<and> v < limit) \<and> \<not> (8 \<le> v \<and> v \<le> limit - old))"

lemma relocate_same [simp]: "relocate old limit old v = v"
  by (simp add: relocate_def)

lemma object_tag_uint: "x AND 3 = (0 :: u64) \<longleftrightarrow> uint x mod 4 = 0"
  by (simp only: tag_eq_iff uint_mod_4_sint)

lemma object_tag_add:
  assumes "a AND 3 = (0 :: u64)" and "b AND 3 = 0"
  shows "(a - b + 8) AND 3 = 0"
proof -
  have "uint a mod 4 = 0" "uint b mod 4 = 0" using assms by (simp_all only: object_tag_uint)
  moreover have "uint (a - b + 8) mod 4 = (uint a - uint b + 8) mod 4"
  proof -
    have "a - b + 8 = word_of_int (uint a - uint b + 8)" by simp
    then have "uint (a - b + 8) = (uint a - uint b + 8) mod 2 ^ 64"
      by (simp only: uint_word_of_int) simp
    then show ?thesis by (simp add: mod_mod_cancel)
  qed
  ultimately have "uint (a - b + 8) mod 4 = 0" by presburger
  then show ?thesis by (simp only: object_tag_uint)
qed

lemma offset_bounds:
  fixes old v limit :: u64
  assumes "old \<le> v" and "unat v + 8 \<le> unat limit"
  shows "8 \<le> v - old + 8" "v - old + 8 \<le> limit - old" "old \<le> limit" "v < limit"
proof -
  have d: "unat (v - old) = unat v - unat old" using assms(1) by (simp add: unat_sub)
  have le: "unat old \<le> unat v" using assms(1) by (simp add: word_le_nat_alt)
  then have l: "unat (limit - old) = unat limit - unat old"
    using assms(2) by (subst unat_sub) (simp_all add: word_le_nat_alt)
  have s: "unat (v - old + 8) = unat v - unat old + 8"
    using d assms(2) unat_u64_less [of limit] by (subst unat_u64_plus) simp_all
  show "8 \<le> v - old + 8" "v - old + 8 \<le> limit - old"
    unfolding word_le_nat_alt s l using assms(2) le by simp_all
  show "old \<le> limit" "v < limit"
    using assms(2) le by (simp_all add: word_le_nat_alt word_less_nat_alt)
qed

end
