(* ===== verification/Durable_Log.thy ===== *)
theory Durable_Log
  imports Txn_Log Object_Memory Hashes Relocation
begin

text \<open>
  The durable transaction log of \<^verbatim>\<open>src/c/primitives.c\<close>: \<^verbatim>\<open>txn_log_append_fsync\<close> writes a frame
  (magic, count, checksum, then the entries with heap addresses made relative) and
  \<^verbatim>\<open>txn_log_replay\<close> applies the frames of the file to a heap, stopping at a torn tail. The file is
  its bytes, \<open>None\<close> when it does not exist. The operating system is an argument: whether the file
  opens, after how many bytes writes fail, whether \<^verbatim>\<open>fsync\<close> succeeds. \<^verbatim>\<open>malloc\<close> is taken to
  succeed and reads to report no error, so that a short read is the end of the file.
\<close>

section \<open>Words on disk\<close>

definition word_bytes :: "u64 \<Rightarrow> u8 list" where
  "word_bytes w = map (\<lambda>i. ucast (drop_bit (8 * i) w)) [0..<8]"

definition words_bytes :: "u64 list \<Rightarrow> u8 list" where
  "words_bytes ws = concat (map word_bytes ws)"

definition word_of_bytes :: "u8 list \<Rightarrow> u64" where
  "word_of_bytes bs = foldr (\<lambda>b w. push_bit 8 w OR ucast b) bs 0"

text \<open>\<^verbatim>\<open>fread(p, 8, n, file)\<close>: the complete words read, at most \<open>n\<close>, and what is left.\<close>

definition fread_words :: "nat \<Rightarrow> u8 list \<Rightarrow> u64 list \<times> u8 list" where
  "fread_words n bytes =
     (let k = min n (length bytes div 8)
      in (map (\<lambda>i. word_of_bytes (take 8 (drop (8 * i) bytes))) [0..<k], drop (8 * k) bytes))"

section \<open>Encoding of entries\<close>

definition DURABLE_TXN_FRAME_MAGIC :: u64 where "DURABLE_TXN_FRAME_MAGIC = 0x41524c4f54584e31"

definition encode_durable_log_value :: "u64 \<Rightarrow> u64 \<Rightarrow> u64 \<Rightarrow> u64" where
  "encode_durable_log_value value heap_start heap_limit =
     (if is_object_ptr value \<and> heap_start \<le> value \<and> value < heap_limit
      then (value - heap_start) + 8 else value)"

definition decode_durable_log_value :: "u64 \<Rightarrow> u64 \<Rightarrow> u64 \<Rightarrow> u64" where
  "decode_durable_log_value value heap_start heap_used =
     (if value AND TAG_MASK = TAG_OBJECT \<and> 8 \<le> value \<and> value \<le> heap_used
      then heap_start + (value - 8) else value)"

definition durable_txn_checksum :: "u64 list \<Rightarrow> u64" where
  "durable_txn_checksum ws = foldl fnv64_step 1469598103934665603 ws"

text \<open>The body of a frame, \<open>None\<close> when an entry's object lies outside the heap.\<close>

definition frame_body :: "mem \<Rightarrow> u64 \<Rightarrow> u64 \<Rightarrow> u64 \<Rightarrow> u64 list option" where
  "frame_body m log heap_start heap_limit =
     (if \<forall>entry \<in> set [0..<unat (m log)]. case log_entry m log entry of (object, _, _) \<Rightarrow>
           is_object_ptr object \<and> heap_start \<le> object \<and> object < heap_limit
      then Some (concat (map (\<lambda>entry. case log_entry m log entry of (object, field_index, value) \<Rightarrow>
             [object - heap_start, field_index,
              encode_durable_log_value value heap_start heap_limit]) [0..<unat (m log)]))
      else None)"

definition frame_header :: "u64 \<Rightarrow> u64 list \<Rightarrow> u64 list" where
  "frame_header count body = [DURABLE_TXN_FRAME_MAGIC, count, durable_txn_checksum body]"

section \<open>Appending a frame\<close>

record disk =
  open_ok :: bool
  write_budget :: "nat option"
  fsync_ok :: bool

text \<open>\<^verbatim>\<open>write_all\<close> with at most \<open>budget\<close> bytes of room: success, bytes written, room left.\<close>

definition write_all :: "nat option \<Rightarrow> u8 list \<Rightarrow> bool \<times> u8 list \<times> nat option" where
  "write_all budget bytes = (case budget of
     None \<Rightarrow> (True, bytes, None)
   | Some k \<Rightarrow> if length bytes \<le> k then (True, bytes, Some (k - length bytes))
               else (False, take k bytes, Some 0))"

definition txn_log_append_fsync ::
  "disk \<Rightarrow> u8 list option \<Rightarrow> mem \<Rightarrow> u64 \<Rightarrow> u64 \<Rightarrow> u64 \<Rightarrow> bool \<times> u8 list option" where
  "txn_log_append_fsync d file m log heap_start heap_limit =
     (if log = 0 then (False, file)
      else if \<not> open_ok d then (False, file)
      else
        let content = (case file of None \<Rightarrow> [] | Some bs \<Rightarrow> bs); count = m log
        in case frame_body m log heap_start heap_limit of
          None \<Rightarrow> (False, Some content)
        | Some body \<Rightarrow>
            let (ok, written, budget) = write_all (write_budget d) (words_bytes (frame_header count body));
                content = content @ written
            in if \<not> ok then (False, Some content)
               else
                 let (ok, written, budget) =
                       (if count \<noteq> 0 then write_all budget (words_bytes body) else (True, [], budget));
                     content = content @ written
                 in if \<not> ok then (False, Some content)
                    else (fsync_ok d, Some content))"

section \<open>Replay\<close>

text \<open>The loop over the entries of a frame; \<open>False\<close> is \<^verbatim>\<open>return 0\<close>.\<close>

definition mark_replayed_byte :: "'a heap_scheme \<Rightarrow> u64 \<Rightarrow> u64 \<Rightarrow> 'a heap_scheme" where
  "mark_replayed_byte h object byte_index =
     (let om = om_registered_for_address h object
      in if om \<noteq> 0 then om_mark_byte_dirty h om object byte_index else h)"

definition mark_replayed_field :: "'a heap_scheme \<Rightarrow> u64 \<Rightarrow> u64 \<Rightarrow> 'a heap_scheme" where
  "mark_replayed_field h object field_index =
     (let om = om_registered_for_address h object
      in if om \<noteq> 0 then om_mark_field_dirty h om object field_index else h)"

fun replay_entries :: "'a heap_scheme \<Rightarrow> u64 list \<Rightarrow> u64 \<Rightarrow> u64 \<Rightarrow> 'a heap_scheme \<times> bool" where
  "replay_entries h (object_offset # field_index # raw # body) heap_start heap_used =
     (let value = decode_durable_log_value raw heap_start heap_used
      in if heap_used \<le> object_offset then (h, False)
         else
           let object = heap_start + object_offset;
               h = (if drop_bit 63 field_index \<noteq> 0
                    then let byte_index = field_index AND NOT (push_bit 63 1);
                             byte_value = untag_smallint value
                         in mark_replayed_byte
                              (h\<lparr>memory := byte_put (memory h) (slot object 3) (unat byte_index) (ucast byte_value)\<rparr>)
                              object byte_index
                    else mark_replayed_field (h\<lparr>memory := set_field (memory h) object field_index value\<rparr>)
                           object field_index)
           in replay_entries h body heap_start heap_used)"
| "replay_entries h body heap_start heap_used = (h, True)"

text \<open>The loop over the frames of the file.\<close>

function replay_frames :: "'a heap_scheme \<Rightarrow> u8 list \<Rightarrow> u64 \<Rightarrow> u64 \<Rightarrow> 'a heap_scheme \<times> bool" where
  "replay_frames h bytes heap_start heap_used =
     (let (header, rest) = fread_words 3 bytes
      in if header = [] then (h, True)
         else if length header \<noteq> 3 then (h, True)
         else if header ! 0 \<noteq> DURABLE_TXN_FRAME_MAGIC then (h, False)
         else
           let count = header ! 1
           in if count > UINT64_MAX div 24 then (h, False)
              else
                let (body, rest) = fread_words (unat (count * 3)) rest
                in if count \<noteq> 0 \<and> length body \<noteq> unat (count * 3) then (h, True)
                   else if count \<noteq> 0 \<and> durable_txn_checksum body \<noteq> header ! 2 then (h, True)
                   else case replay_entries h body heap_start heap_used of
                     (h, False) \<Rightarrow> (h, False)
                   | (h, True) \<Rightarrow> replay_frames h rest heap_start heap_used)"
  by pat_completeness auto

termination
  by (relation "measure (\<lambda>(h, bytes, hs, hu). length bytes)")
    (auto simp: fread_words_def Let_def min_def split: if_splits)

declare replay_frames.simps [simp del]

definition txn_log_replay :: "'a heap_scheme \<Rightarrow> u8 list option \<Rightarrow> u64 \<Rightarrow> u64 \<Rightarrow> 'a heap_scheme \<times> bool" where
  "txn_log_replay h file heap_start heap_used = (case file of
     None \<Rightarrow> (h, True) | Some bytes \<Rightarrow> replay_frames h bytes heap_start heap_used)"

text \<open>\<^verbatim>\<open>unlink\<close>, where a missing file counts as cleared.\<close>

definition txn_durable_log_clear :: "bool \<Rightarrow> u8 list option \<Rightarrow> bool \<times> u8 list option" where
  "txn_durable_log_clear unlink_ok file =
     (case file of None \<Rightarrow> (True, None)
      | Some bytes \<Rightarrow> if unlink_ok then (True, None) else (False, Some bytes))"

section \<open>Reading back what was written\<close>

lemma word_of_bytes_slices:
  "foldr (\<lambda>b w. push_bit 8 w OR ucast b) (map (\<lambda>i. ucast (drop_bit (8 * (i + j)) w) :: u8) [0..<k]) 0
    = take_bit (8 * k) (drop_bit (8 * j) (w :: u64))"
proof (induction k arbitrary: j)
  case (Suc k)
  have "foldr (\<lambda>b w. push_bit 8 w OR ucast b) (map (\<lambda>i. ucast (drop_bit (8 * (i + j)) w) :: u8) [0..<Suc k]) 0 =
      push_bit 8 (foldr (\<lambda>b w. push_bit 8 w OR ucast b)
        (map (\<lambda>i. ucast (drop_bit (8 * (i + Suc j)) w) :: u8) [0..<k]) 0)
      OR ucast (ucast (drop_bit (8 * j) w) :: u8)"
    by (simp add: upt_conv_Cons map_Suc_upt [symmetric] comp_def algebra_simps del: upt_Suc)
  also have "\<dots> = push_bit 8 (take_bit (8 * k) (drop_bit (8 * Suc j) w))
      OR ucast (ucast (drop_bit (8 * j) w) :: u8)"
    by (simp only: Suc.IH)
  also have "\<dots> = take_bit (8 * Suc k) (drop_bit (8 * j) w)"
    by (rule bit_word_eqI) (auto simp: bit_simps algebra_simps)
  finally show ?case .
qed simp

lemma length_word_bytes [simp]: "length (word_bytes w) = 8"
  by (simp add: word_bytes_def)

lemma word_of_word_bytes [simp]: "word_of_bytes (word_bytes w) = w"
  using word_of_bytes_slices [of 0 w 8]
  by (simp add: word_of_bytes_def word_bytes_def take_bit_word_eq_self del: upt_Suc)

lemma words_bytes_simps [simp]:
  "words_bytes [] = []" "words_bytes (w # ws) = word_bytes w @ words_bytes ws"
  "words_bytes (ws @ ws') = words_bytes ws @ words_bytes ws'"
  by (simp_all add: words_bytes_def)

lemma length_words_bytes [simp]: "length (words_bytes ws) = 8 * length ws"
  by (induction ws) simp_all

lemma take_drop_words_bytes:
  "i < length ws \<Longrightarrow> take 8 (drop (8 * i) (words_bytes ws @ rest)) = word_bytes (ws ! i)"
proof (induction ws arbitrary: i)
  case (Cons w ws)
  then show ?case by (cases i) simp_all
qed simp

lemma fread_words_words_bytes:
  assumes "length ws = n"
  shows "fread_words n (words_bytes ws @ rest) = (ws, rest)"
proof -
  have "map (\<lambda>i. word_of_bytes (take 8 (drop (8 * i) (words_bytes ws @ rest)))) [0..<n] = ws"
    using assms by (intro nth_equalityI) (simp_all add: take_drop_words_bytes del: drop_append take_append)
  moreover have "min n (length (words_bytes ws @ rest) div 8) = n" using assms by simp
  ultimately show ?thesis using assms by (simp add: fread_words_def Let_def)
qed

lemma fread_words_short:
  "length bytes < 8 * n \<Longrightarrow> length (fst (fread_words n bytes)) < n"
  by (simp add: fread_words_def Let_def)

section \<open>Frames\<close>

definition frame_bytes :: "u64 list \<Rightarrow> u8 list" where
  "frame_bytes body = words_bytes (frame_header (of_nat (length body div 3)) body @ body)"

definition encode_entries :: "u64 \<Rightarrow> u64 \<Rightarrow> entry list \<Rightarrow> u64 list" where
  "encode_entries hs hl es = concat (map (\<lambda>(obj, f, v).
     [obj - hs, f, encode_durable_log_value v hs hl]) es)"

lemma length_encode_entries [simp]: "length (encode_entries hs hl es) = 3 * length es"
  by (induction es) (auto simp: encode_entries_def)

lemma encode_entries_simps [simp]:
  "encode_entries hs hl [] = []"
  "encode_entries hs hl ((obj, f, v) # es) =
     (obj - hs) # f # encode_durable_log_value v hs hl # encode_entries hs hl es"
  by (simp_all add: encode_entries_def)

lemma frame_body_eq:
  "frame_body m log hs hl =
    (if \<forall>(obj, f, v) \<in> set (log_entries m log). is_object_ptr obj \<and> hs \<le> obj \<and> obj < hl
     then Some (encode_entries hs hl (log_entries m log)) else None)"
  by (simp add: frame_body_def encode_entries_def log_entries_def comp_def)

lemma replay_frames_cases:
  "fread_words 3 bytes = (header, rest) \<Longrightarrow> length header \<noteq> 3 \<Longrightarrow>
    replay_frames h bytes hs hu = (h, True)"
  "fread_words 3 bytes = ([DURABLE_TXN_FRAME_MAGIC, count, chk], rest) \<Longrightarrow>
    count \<le> UINT64_MAX div 24 \<Longrightarrow> fread_words (unat (count * 3)) rest = (body, rest') \<Longrightarrow>
    replay_frames h bytes hs hu =
      (if count \<noteq> 0 \<and> (length body \<noteq> unat (count * 3) \<or> durable_txn_checksum body \<noteq> chk) then (h, True)
       else case replay_entries h body hs hu of (h', False) \<Rightarrow> (h', False)
         | (h', True) \<Rightarrow> replay_frames h' rest' hs hu)"
proof -
  show "fread_words 3 bytes = (header, rest) \<Longrightarrow> length header \<noteq> 3 \<Longrightarrow>
    replay_frames h bytes hs hu = (h, True)"
    by (simp add: replay_frames.simps [of h bytes])
next
  assume r: "fread_words 3 bytes = ([DURABLE_TXN_FRAME_MAGIC, count, chk], rest)"
    "fread_words (unat (count * 3)) rest = (body, rest')" and "count \<le> UINT64_MAX div 24"
  then have "\<not> count > UINT64_MAX div 24" by simp
  then show "replay_frames h bytes hs hu =
      (if count \<noteq> 0 \<and> (length body \<noteq> unat (count * 3) \<or> durable_txn_checksum body \<noteq> chk) then (h, True)
       else case replay_entries h body hs hu of (h', False) \<Rightarrow> (h', False)
         | (h', True) \<Rightarrow> replay_frames h' rest' hs hu)"
    by (subst replay_frames.simps, simp only: r Let_def prod.case nth_Cons_0 nth_Cons_Suc One_nat_def
        numeral_2_eq_2) simp
qed

lemma count_words:
  assumes "k < 2 ^ 32"
  shows "unat (of_nat k * 3 :: u64) = 3 * k" "of_nat k \<le> UINT64_MAX div 24"
    "(of_nat k :: u64) = 0 \<longleftrightarrow> k = 0"
proof -
  have k: "unat (of_nat k :: u64) = k" using assms by (simp add: unat_u64_of_nat)
  show "unat (of_nat k * 3 :: u64) = 3 * k" using k assms by (subst unat_u64_times) simp_all
  show "of_nat k \<le> UINT64_MAX div 24" using k assms by (simp add: UINT64_MAX_def word_le_nat_alt)
  show "(of_nat k :: u64) = 0 \<longleftrightarrow> k = 0" by (simp only: word_unat_eq_iff k unsigned_0)
qed

lemma replay_frame:
  assumes "length body = 3 * k" and "k < 2 ^ 32"
  shows "replay_frames h (frame_bytes body @ rest) hs hu =
    (case replay_entries h body hs hu of (h', False) \<Rightarrow> (h', False)
      | (h', True) \<Rightarrow> replay_frames h' rest hs hu)"
proof -
  note c = count_words [OF assms(2)]
  have hd: "fread_words 3 (frame_bytes body @ rest) =
      ([DURABLE_TXN_FRAME_MAGIC, of_nat k, durable_txn_checksum body], words_bytes body @ rest)"
    using fread_words_words_bytes [of "frame_header (of_nat k) body" 3 "words_bytes body @ rest"] assms(1)
    by (simp add: frame_bytes_def frame_header_def)
  have bd: "fread_words (unat (of_nat k * 3 :: u64)) (words_bytes body @ rest) = (body, rest)"
    unfolding c(1) by (rule fread_words_words_bytes [OF assms(1)])
  show ?thesis unfolding replay_frames_cases(2) [OF hd c(2) bd] using assms(1) c(1) by simp
qed

lemma replay_torn:
  assumes "length body = 3 * k" and "k < 2 ^ 32" and "n < length (frame_bytes body)"
  shows "replay_frames h (take n (frame_bytes body)) hs hu = (h, True)"
proof (cases "n < 24")
  case True
  obtain header rest where r: "fread_words 3 (take n (frame_bytes body)) = (header, rest)"
    by fastforce
  have "length header < 3"
    using fread_words_short [of "take n (frame_bytes body)" 3] True r by simp
  then show ?thesis using replay_frames_cases(1) [OF r] by simp
next
  case False
  note c = count_words [OF assms(2)]
  have len: "length (frame_bytes body) = 24 + 24 * k"
    by (simp add: frame_bytes_def frame_header_def assms(1))
  have t: "take n (frame_bytes body) =
      words_bytes [DURABLE_TXN_FRAME_MAGIC, of_nat k, durable_txn_checksum body] @ take (n - 24) (words_bytes body)"
    using False by (simp add: frame_bytes_def frame_header_def assms(1))
  have hd: "fread_words 3 (take n (frame_bytes body)) =
      ([DURABLE_TXN_FRAME_MAGIC, of_nat k, durable_txn_checksum body], take (n - 24) (words_bytes body))"
    unfolding t by (rule fread_words_words_bytes) simp
  obtain b r where bd: "fread_words (unat (of_nat k * 3 :: u64)) (take (n - 24) (words_bytes body)) = (b, r)"
    by fastforce
  have "length b < 3 * k"
    using fread_words_short [of "take (n - 24) (words_bytes body)" "3 * k"] bd c(1) assms(3) len False
    by simp
  then show ?thesis
    unfolding replay_frames_cases(2) [OF hd c(2) bd] using c by auto
qed

section \<open>Values in the log\<close>

lemma durable_value_roundtrip:
  assumes tag: "old AND 3 = 0" and v: "storable_value old limit v"
  shows "decode_durable_log_value (encode_durable_log_value v old limit) new (limit - old) =
    relocate old limit new v"
proof (cases "is_object_ptr v \<and> old \<le> v \<and> v < limit")
  case True
  have in_heap: "unat v + 8 \<le> unat limit"
    using v True by (auto simp: storable_value_def)
  note b = offset_bounds [OF _ in_heap, of old]
  have "(v - old + 8) AND 3 = 0"
    using True tag by (intro object_tag_add) (simp_all add: is_object_ptr_def)
  then show ?thesis
    using True b by (simp add: encode_durable_log_value_def decode_durable_log_value_def relocate_def
        algebra_simps)
next
  case False
  then have "encode_durable_log_value v old limit = v"
    by (auto simp: encode_durable_log_value_def)
  moreover have "decode_durable_log_value v new (limit - old) = v"
  proof (cases "is_object_ptr v")
    case True
    then have "\<not> (8 \<le> v \<and> v \<le> limit - old)"
      using v False offset_bounds(4) [of old v limit] by (auto simp: storable_value_def)
    then show ?thesis by (auto simp: decode_durable_log_value_def)
  qed (simp add: decode_durable_log_value_def is_object_ptr_def)
  ultimately show ?thesis using False by (auto simp: relocate_def)
qed

interpretation durable: pointer_codec "\<lambda>v. encode_durable_log_value v old limit"
  "\<lambda>w. decode_durable_log_value w new (limit - old)"
  "\<lambda>v. old AND 3 = 0 \<and> storable_value old limit v" "relocate old limit new"
  for old limit new
  by unfold_locales (simp add: durable_value_roundtrip)

section \<open>Replaying entries\<close>

lemma memory_mark [simp]:
  "memory (om_mark_address_range_dirty h om a n) = memory h"
  "memory (mark_replayed_byte h obj i) = memory h"
  "memory (mark_replayed_field h obj i) = memory h"
  by (simp_all add: om_mark_address_range_dirty_def mark_replayed_byte_def mark_replayed_field_def
      om_mark_byte_dirty_def om_mark_field_dirty_def Let_def split: option.splits)

lemma byte_bit_eq: "drop_bit 63 f \<noteq> 0 \<longleftrightarrow> bit (f :: u64) 63"
proof
  assume "drop_bit 63 f \<noteq> 0"
  then obtain n where "bit (drop_bit 63 f) n" by (metis bit_eqI bit_0_eq bot_apply bot_bool_def)
  then have "bit f (63 + n)" by (simp add: bit_drop_bit_eq)
  moreover from this have "63 + n < 64" by (auto dest: bit_imp_le_length)
  ultimately show "bit f 63" by (cases n) simp_all
next
  assume "bit f 63"
  then have "bit (drop_bit 63 f) 0" by (simp add: bit_drop_bit_eq)
  then show "drop_bit 63 f \<noteq> 0" by auto
qed

lemma byte_index_and: "f AND NOT (push_bit 63 1) = byte_index_of f"
  unfolding byte_index_of_eq
  by (rule bit_word_eqI)
    (auto simp only: bit_and_iff bit_not_iff bit_push_bit_iff bit_take_bit_iff bit_1_iff
      possible_bit_word len_bit0 len_num1)

text \<open>Entries with their values moved, and the objects moved with them.\<close>

definition move_entry :: "u64 \<Rightarrow> u64 \<Rightarrow> u64 \<Rightarrow> entry \<Rightarrow> entry" where
  "move_entry old limit new e = (case e of (obj, f, v) \<Rightarrow>
     (obj - old + new, f, relocate old limit new v))"

definition durable_entry_ok :: "u64 \<Rightarrow> u64 \<Rightarrow> entry \<Rightarrow> bool" where
  "durable_entry_ok old limit e \<longleftrightarrow> (case e of (obj, f, v) \<Rightarrow>
     is_object_ptr obj \<and> old \<le> obj \<and> obj < limit \<and> storable_value old limit v)"

lemma replay_encoded_entries:
  assumes "old AND 3 = 0" and "old \<le> limit" and "\<forall>e \<in> set es. durable_entry_ok old limit e"
  shows "\<exists>h'. replay_entries h (encode_entries old limit es) new (limit - old) = (h', True) \<and>
    memory h' = foldl apply_entry (memory h) (map (move_entry old limit new) es)"
  using assms(3)
proof (induction es arbitrary: h)
  case (Cons e es)
  obtain obj f v where e: "e = (obj, f, v)" by (cases e)
  have ok: "old \<le> obj" "obj < limit" "storable_value old limit v"
    using Cons.prems by (simp_all add: e durable_entry_ok_def)
  have "obj - old < limit - old"
    using ok assms(2) by (simp add: word_less_nat_alt word_le_nat_alt unat_sub)
  then have inside: "\<not> limit - old \<le> obj - old" by simp
  note v = durable_value_roundtrip [OF assms(1) ok(3), of new]
  let ?obj = "obj - old + new" and ?v = "relocate old limit new v"
  let ?h = "if bit f 63
    then mark_replayed_byte (h\<lparr>memory := byte_put (memory h) (slot ?obj 3) (unat (byte_index_of f))
           (ucast (untag_smallint ?v))\<rparr>) ?obj (byte_index_of f)
    else mark_replayed_field (h\<lparr>memory := set_field (memory h) ?obj f ?v\<rparr>) ?obj f"
  have m: "memory ?h = apply_entry (memory h) (move_entry old limit new e)"
    by (simp add: apply_entry_def move_entry_def e untag_smallint_def)
  have "replay_entries h (encode_entries old limit (e # es)) new (limit - old) =
      replay_entries ?h (encode_entries old limit es) new (limit - old)"
    using inside by (simp add: e v byte_bit_eq byte_index_and [simplified] Let_def add.commute)
  moreover obtain h' where "replay_entries ?h (encode_entries old limit es) new (limit - old) = (h', True)"
    "memory h' = foldl apply_entry (memory ?h) (map (move_entry old limit new) es)"
    using Cons.IH [of ?h] Cons.prems by auto
  ultimately show ?case using m by auto
qed simp

definition frame_of :: "u64 \<Rightarrow> u64 \<Rightarrow> entry list \<Rightarrow> u8 list" where
  "frame_of old limit es = frame_bytes (encode_entries old limit es)"

definition storable_log :: "u64 \<Rightarrow> u64 \<Rightarrow> entry list \<Rightarrow> bool" where
  "storable_log old limit es \<longleftrightarrow> length es < 2 ^ 32 \<and> (\<forall>e \<in> set es. durable_entry_ok old limit e)"

lemma replay_frame_of:
  "length es < 2 ^ 32 \<Longrightarrow> replay_frames h (frame_of old limit es @ rest) hs hu =
    (case replay_entries h (encode_entries old limit es) hs hu of (h', False) \<Rightarrow> (h', False)
      | (h', True) \<Rightarrow> replay_frames h' rest hs hu)"
  unfolding frame_of_def by (rule replay_frame [OF length_encode_entries])

lemma replay_frames_of:
  assumes old: "old AND 3 = 0" "old \<le> limit" and txs: "\<forall>es \<in> set txs. storable_log old limit es"
  shows "\<exists>h'. replay_frames h (concat (map (frame_of old limit) txs) @ rest) new (limit - old) =
      replay_frames h' rest new (limit - old) \<and>
    memory h' = foldl apply_entry (memory h) (map (move_entry old limit new) (concat txs))"
  using txs
proof (induction txs arbitrary: h)
  case Nil
  then show ?case by (intro exI [of _ h]) simp
next
  case (Cons es txs)
  have es: "length es < 2 ^ 32" "\<forall>e \<in> set es. durable_entry_ok old limit e"
    using Cons.prems by (simp_all add: storable_log_def)
  obtain h1 where h1: "replay_entries h (encode_entries old limit es) new (limit - old) = (h1, True)"
    "memory h1 = foldl apply_entry (memory h) (map (move_entry old limit new) es)"
    using replay_encoded_entries [OF old es(2)] by blast
  obtain h' where "replay_frames h1 (concat (map (frame_of old limit) txs) @ rest) new (limit - old) =
      replay_frames h' rest new (limit - old)"
    "memory h' = foldl apply_entry (memory h1) (map (move_entry old limit new) (concat txs))"
    using Cons.IH [of h1] Cons.prems by auto
  then show ?case
    using h1 by (intro exI [of _ h']) (simp add: replay_frame_of [OF es(1)])
qed

lemma replay_frames_end: "n < length (frame_of old limit es) \<Longrightarrow> length es < 2 ^ 32 \<Longrightarrow>
    replay_frames h (take n (frame_of old limit es)) hs hu = (h, True)"
  using replay_torn [OF length_encode_entries] by (simp add: frame_of_def)

section \<open>Appending, case by case\<close>

lemma write_all_cases:
  assumes "write_all b xs = (ok, w, b')"
  shows "ok \<and> w = xs \<or> \<not> ok \<and> (\<exists>k < length xs. w = take k xs)" "b = None \<Longrightarrow> ok \<and> b' = None"
proof -
  show "ok \<and> w = xs \<or> \<not> ok \<and> (\<exists>k < length xs. w = take k xs)"
  proof (cases b)
    case (Some k)
    then show ?thesis
      using assms by (cases "length xs \<le> k") (auto simp: write_all_def intro: exI [of _ k])
  qed (use assms in \<open>simp add: write_all_def\<close>)
  show "b = None \<Longrightarrow> ok \<and> b' = None" using assms by (auto simp: write_all_def)
qed

lemma frame_of_log:
  "frame_of old limit (log_entries m log) =
    words_bytes (frame_header (m log) (encode_entries old limit (log_entries m log))) @
    words_bytes (encode_entries old limit (log_entries m log))"
  by (simp add: frame_of_def frame_bytes_def log_entries_def)

lemma append_body:
  assumes "log \<noteq> 0" and "open_ok d" and "frame_body m log old limit = Some body"
    and "txn_log_append_fsync d file m log old limit = (ok, file')"
    and "frame = words_bytes (frame_header (m log) body) @ words_bytes body"
    and "m log = 0 \<longrightarrow> body = []"
  shows "\<exists>n. file' = Some ((case file of None \<Rightarrow> [] | Some bs \<Rightarrow> bs) @ take n frame) \<and>
    (ok \<longrightarrow> length frame \<le> n \<and> fsync_ok d)" "write_budget d = None \<Longrightarrow> fsync_ok d \<Longrightarrow> ok"
proof -
  let ?hd = "words_bytes (frame_header (m log) body)" and ?bd = "words_bytes body"
  let ?c = "case file of None \<Rightarrow> [] | Some bs \<Rightarrow> bs"
  obtain ok1 w1 b1 where w1: "write_all (write_budget d) ?hd = (ok1, w1, b1)" by (metis surj_pair)
  obtain ok2 w2 b2 where w2: "write_all b1 ?bd = (ok2, w2, b2)" by (metis surj_pair)
  have res: "(ok, file') = (if \<not> ok1 then (False, Some (?c @ w1))
      else if m log = 0 then (fsync_ok d, Some (?c @ w1))
      else if \<not> ok2 then (False, Some (?c @ w1 @ w2)) else (fsync_ok d, Some (?c @ w1 @ w2)))"
    using assms(1-4) w1 w2 by (simp add: txn_log_append_fsync_def Let_def split: if_splits)
  note c1 = write_all_cases [OF w1] and c2 = write_all_cases [OF w2]
  show "write_budget d = None \<Longrightarrow> fsync_ok d \<Longrightarrow> ok" using res c1(2) c2(2) by (auto split: if_splits)
  show "\<exists>n. file' = Some (?c @ take n frame) \<and> (ok \<longrightarrow> length frame \<le> n \<and> fsync_ok d)"
  proof (cases ok1)
    case False
    then obtain k where "k < length ?hd" "w1 = take k ?hd" using c1(1) by blast
    then show ?thesis using res False assms(5) by (intro exI [of _ k]) simp
  next
    case True
    then have w: "w1 = ?hd" using c1(1) by blast
    show ?thesis
    proof (cases "m log = 0 \<or> ok2")
      case True
      then have "ok = fsync_ok d \<and> file' = Some (?c @ frame)"
        using res \<open>ok1\<close> w c2(1) assms(5,6) by (auto split: if_splits)
      then show ?thesis by (intro exI [of _ "length frame"]) simp
    next
      case False
      then obtain k where "k < length ?bd" "w2 = take k ?bd" using c2(1) by blast
      then show ?thesis using res False \<open>ok1\<close> w assms(5)
        by (intro exI [of _ "length ?hd + k"]) simp
    qed
  qed
qed

section \<open>Properties\<close>

text \<open>
  C12. Crash recovery: replaying a durable log that holds the complete frames of committed
  transactions followed by any torn prefix of one more frame succeeds, applies the writes of the
  complete transactions in order, and nothing of the torn one. Heap addresses move with the heap
  when it is loaded elsewhere. The heap read into is as large as the one the frames were written from, and
  each transaction is a \<open>storable_log\<close>: its objects lie in that heap, pointers in its values leave room for
  a word before the end of the heap, and no other value can be taken for an offset into it. (\<open>Durable_Laws\<close>
  has the case of a smaller checkpoint.)
\<close>

theorem durable_log_recovery:
  assumes "old AND 3 = 0" and "old \<le> limit" and "\<forall>es \<in> set txs. storable_log old limit es"
    and "n < length (frame_of old limit torn)" and "length torn < 2 ^ 32"
  shows "\<exists>h'. txn_log_replay h (Some (concat (map (frame_of old limit) txs) @ take n (frame_of old limit torn)))
        new (limit - old) = (h', True) \<and>
    memory h' = foldl apply_entry (memory h) (map (move_entry old limit new) (concat txs))"
proof -
  obtain h' where "replay_frames h (concat (map (frame_of old limit) txs) @ take n (frame_of old limit torn))
      new (limit - old) = replay_frames h' (take n (frame_of old limit torn)) new (limit - old)"
    "memory h' = foldl apply_entry (memory h) (map (move_entry old limit new) (concat txs))"
    using replay_frames_of [OF assms(1-3)] by blast
  then show ?thesis
    by (intro exI [of _ h']) (simp add: txn_log_replay_def replay_frames_end [OF assms(4,5)])
qed

theorem durable_log_recovery_witness:
  "\<forall>h :: heap. \<exists>h'. txn_log_replay h
      (Some (frame_of 4096 8192 [(4096, 0, 5)] @ take 30 (frame_of 4096 8192 [(4128, 1, 4096)])))
      65536 4096 = (h', True) \<and> memory h' = apply_entry (memory h) (65536, 0, 5)"
proof
  fix h :: heap
  have s: "storable_log 4096 8192 [(4096, 0, 5)]"
    by (simp add: storable_log_def durable_entry_ok_def is_object_ptr_def storable_value_def)
  have n: "30 < length (frame_of 4096 8192 [(4128, 1, 4096)])"
    by (simp add: frame_of_def frame_bytes_def frame_header_def)
  have "move_entry 4096 8192 65536 (4096, 0, 5) = (65536, 0, 5)"
    by (simp add: move_entry_def relocate_def is_object_ptr_def)
  then show "\<exists>h'. txn_log_replay h
      (Some (frame_of 4096 8192 [(4096, 0, 5)] @ take 30 (frame_of 4096 8192 [(4128, 1, 4096)])))
      65536 4096 = (h', True) \<and> memory h' = apply_entry (memory h) (65536, 0, 5)"
    using durable_log_recovery [of 4096 8192 "[[(4096, 0, 5)]]" 30 "[(4128, 1, 4096)]" h 65536] s n
    by simp
qed

text \<open>
  C33. When there is a log and the file can be opened, \<^verbatim>\<open>txn_log_append_fsync\<close> only ever extends the
  file by a prefix of one frame, the encoding of the log's entries; it reports success only when the whole frame was written and synced, and
  without write errors it does. A log entry whose object is outside the heap is refused and nothing
  is written.
\<close>

theorem append_writes_one_frame:
  assumes "log \<noteq> 0" and "open_ok d" and "txn_log_append_fsync d file m log old limit = (ok, file')"
  shows "(\<exists>n. file' = Some ((case file of None \<Rightarrow> [] | Some bs \<Rightarrow> bs) @
        take n (frame_of old limit (log_entries m log))) \<and>
      (ok \<longrightarrow> length (frame_of old limit (log_entries m log)) \<le> n \<and> fsync_ok d) \<and>
      ((\<exists>(obj, f, v) \<in> set (log_entries m log). \<not> (is_object_ptr obj \<and> old \<le> obj \<and> obj < limit)) \<longrightarrow>
        n = 0 \<and> \<not> ok)) \<and>
    (write_budget d = None \<and> fsync_ok d \<and>
      (\<forall>(obj, f, v) \<in> set (log_entries m log). is_object_ptr obj \<and> old \<le> obj \<and> obj < limit) \<longrightarrow> ok)"
proof (cases "\<forall>(obj, f, v) \<in> set (log_entries m log). is_object_ptr obj \<and> old \<le> obj \<and> obj < limit")
  case True
  then have fb: "frame_body m log old limit = Some (encode_entries old limit (log_entries m log))"
    by (simp add: frame_body_eq)
  have "m log = 0 \<longrightarrow> encode_entries old limit (log_entries m log) = []" by (simp add: log_entries_def)
  then show ?thesis
    using append_body [OF assms(1,2) fb assms(3) frame_of_log] True by fastforce
next
  case False
  then have "frame_body m log old limit = None" by (auto simp: frame_body_eq)
  then have "\<not> ok \<and> file' = Some (case file of None \<Rightarrow> [] | Some bs \<Rightarrow> bs)"
    using assms(1-3) by (simp add: txn_log_append_fsync_def Let_def)
  then show ?thesis using False by (intro conjI exI [of _ 0]) auto
qed

theorem append_writes_one_frame_witness:
  "fst (txn_log_append_fsync \<lparr>open_ok = True, write_budget = None, fsync_ok = True\<rparr> None demo_log
     8192 4096 8192)"
proof -
  obtain ok file' where r: "txn_log_append_fsync \<lparr>open_ok = True, write_budget = None, fsync_ok = True\<rparr>
      None demo_log 8192 4096 8192 = (ok, file')" by fastforce
  show ?thesis
    using append_writes_one_frame [OF _ _ r] by (simp add: r demo_log_entries is_object_ptr_def)
qed

end
