(* ===== verification/Frames.thy ===== *)
theory Frames
  imports Objects "HOL-Library.Monad_Syntax"
begin

text \<open>
  The Smalltalk stack: pushing and popping (\<^verbatim>\<open>src/c_vm/stack_ops.c\<close>), method activation, context
  activation and return (\<^verbatim>\<open>src/c_vm/frame.c\<close>), and the small-step helpers of
  \<^verbatim>\<open>src/c_vm/bytecode.c\<close>. The C functions update \<^verbatim>\<open>*sp_ptr\<close>, \<^verbatim>\<open>*fp_ptr\<close> and \<^verbatim>\<open>*ip_ptr\<close>; here they
  return the new memory and registers. \<^verbatim>\<open>raise(SIGTRAP)\<close>, whose default action ends the process,
  is \<open>None\<close>. The stack grows downwards and pointer comparisons are unsigned.
\<close>

section \<open>Frame layout\<close>

definition FRAME_SAVED_IP :: int where [simp]: "FRAME_SAVED_IP = 1"
definition FRAME_SAVED_FP :: int where [simp]: "FRAME_SAVED_FP = 0"
definition FRAME_METHOD :: int where [simp]: "FRAME_METHOD = -1"
definition FRAME_FLAGS :: int where [simp]: "FRAME_FLAGS = -2"
definition FRAME_CONTEXT :: int where [simp]: "FRAME_CONTEXT = -3"
definition FRAME_RECEIVER :: int where [simp]: "FRAME_RECEIVER = -4"
definition FP_TEMP_BASE_WORDS :: u64 where [simp]: "FP_TEMP_BASE_WORDS = 5"
definition FP_ARG_BASE_WORDS :: u64 where [simp]: "FP_ARG_BASE_WORDS = 2"
definition FRAME_FLAGS_HAS_CONTEXT_MASK :: u64 where [simp]: "FRAME_FLAGS_HAS_CONTEXT_MASK = 1"
definition FRAME_FLAGS_BLOCK_CLOSURE_MASK :: u64 where [simp]: "FRAME_FLAGS_BLOCK_CLOSURE_MASK = 2"
definition FRAME_FLAGS_NUM_ARGS_SHIFT :: nat where [simp]: "FRAME_FLAGS_NUM_ARGS_SHIFT = 8"
definition FRAME_FLAGS_IS_BLOCK_SHIFT :: nat where [simp]: "FRAME_FLAGS_IS_BLOCK_SHIFT = 16"

definition CM_PRIMITIVE :: u64 where [simp]: "CM_PRIMITIVE = 0"
definition CM_NUM_ARGS :: u64 where [simp]: "CM_NUM_ARGS = 1"
definition CM_NUM_TEMPS :: u64 where [simp]: "CM_NUM_TEMPS = 2"
definition CM_LITERALS :: u64 where [simp]: "CM_LITERALS = 3"
definition CM_BYTECODES :: u64 where [simp]: "CM_BYTECODES = 4"
definition CM_SOURCE :: u64 where [simp]: "CM_SOURCE = 5"

definition CONTEXT_SENDER :: u64 where [simp]: "CONTEXT_SENDER = 0"
definition CONTEXT_IP :: u64 where [simp]: "CONTEXT_IP = 1"
definition CONTEXT_METHOD :: u64 where [simp]: "CONTEXT_METHOD = 2"
definition CONTEXT_RECEIVER :: u64 where [simp]: "CONTEXT_RECEIVER = 3"
definition CONTEXT_HOME :: u64 where [simp]: "CONTEXT_HOME = 4"
definition CONTEXT_CLOSURE :: u64 where [simp]: "CONTEXT_CLOSURE = 5"
definition CONTEXT_FLAGS :: u64 where [simp]: "CONTEXT_FLAGS = 6"
definition CONTEXT_NUM_ARGS :: u64 where [simp]: "CONTEXT_NUM_ARGS = 7"
definition CONTEXT_NUM_TEMPS :: u64 where [simp]: "CONTEXT_NUM_TEMPS = 8"
definition CONTEXT_STACK_SIZE :: u64 where [simp]: "CONTEXT_STACK_SIZE = 9"
definition CONTEXT_VAR_BASE :: u64 where [simp]: "CONTEXT_VAR_BASE = 10"

section \<open>stack\_ops.c\<close>

text \<open>\<^verbatim>\<open>stack_push\<close> also records the low limit: (memory, \<^verbatim>\<open>smalltalk_stack_limit_low\<close>, sp).\<close>

definition stack_push :: "mem \<Rightarrow> u64 \<Rightarrow> u64 \<Rightarrow> u64 \<Rightarrow> (mem \<times> u64 \<times> u64) option" where
  "stack_push m sp stack_base value =
     (let sp' = slot sp (-1)
      in if sp' < stack_base then None else Some (m(sp' := value), stack_base, sp'))"

definition stack_pop :: "mem \<Rightarrow> u64 \<Rightarrow> u64 \<times> u64" where
  "stack_pop m sp = (m sp, slot sp 1)"

definition stack_top :: "mem \<Rightarrow> u64 \<Rightarrow> u64" where
  "stack_top m sp = m sp"

section \<open>frame.c\<close>

text \<open>\<^verbatim>\<open>*--sp = value\<close>, and the unchecked \<^verbatim>\<open>push\<close> and \<^verbatim>\<open>pop\<close> of bytecode.c and interpret.c.\<close>

definition push :: "mem \<times> u64 \<Rightarrow> u64 \<Rightarrow> mem \<times> u64" where
  "push ms value = (let sp = slot (snd ms) (-1) in ((fst ms)(sp := value), sp))"

definition pop :: "mem \<Rightarrow> u64 \<Rightarrow> u64 \<times> u64" where
  "pop m sp = (m sp, slot sp 1)"

definition decode_smallint_field :: "u64 \<Rightarrow> u64" where
  "decode_smallint_field value =
     (if value AND TAG_MASK = TAG_SMALLINT then signed_drop_bit SMALLINT_SHIFT value else 0)"

definition context_num_args :: "mem \<Rightarrow> u64 \<Rightarrow> u64" where
  "context_num_args m context = decode_smallint_field (OBJ_FIELD m context CONTEXT_NUM_ARGS)"

definition context_num_temps :: "mem \<Rightarrow> u64 \<Rightarrow> u64" where
  "context_num_temps m context = decode_smallint_field (OBJ_FIELD m context CONTEXT_NUM_TEMPS)"

definition context_stack_size :: "mem \<Rightarrow> u64 \<Rightarrow> u64" where
  "context_stack_size m context = decode_smallint_field (OBJ_FIELD m context CONTEXT_STACK_SIZE)"

definition activate_method ::
  "mem \<Rightarrow> u64 \<Rightarrow> u64 \<Rightarrow> u64 \<Rightarrow> u64 \<Rightarrow> u64 \<Rightarrow> u64 \<Rightarrow> u64 \<Rightarrow> (mem \<times> u64 \<times> u64) option" where
  "activate_method m limit_low sp caller_fp saved_ip method num_args num_temps =
     (let required_words = num_temps + 6
      in if slot sp (- uint required_words) < limit_low then None
         else
           let receiver = m (slot sp (uint num_args));
               ms = push (m, sp) saved_ip;
               ms = push ms caller_fp;
               fp = snd ms;
               ms = push ms method;
               ms = push ms (push_bit FRAME_FLAGS_NUM_ARGS_SHIFT num_args);
               ms = push ms 0;
               ms = push ms receiver;
               ms = fold (\<lambda>_ ms. push ms 0) [0..<unat num_temps] ms
           in Some (fst ms, snd ms, fp))"

definition frame_receiver :: "mem \<Rightarrow> u64 \<Rightarrow> u64" where
  "frame_receiver m fp = m (slot fp FRAME_RECEIVER)"

definition frame_method :: "mem \<Rightarrow> u64 \<Rightarrow> u64" where
  "frame_method m fp = m (slot fp FRAME_METHOD)"

definition frame_flags :: "mem \<Rightarrow> u64 \<Rightarrow> u64" where
  "frame_flags m fp = m (slot fp FRAME_FLAGS)"

definition frame_num_args :: "mem \<Rightarrow> u64 \<Rightarrow> u64" where
  "frame_num_args m fp = drop_bit FRAME_FLAGS_NUM_ARGS_SHIFT (m (slot fp FRAME_FLAGS)) AND 255"

definition frame_is_block :: "mem \<Rightarrow> u64 \<Rightarrow> u64" where
  "frame_is_block m fp = drop_bit FRAME_FLAGS_IS_BLOCK_SHIFT (m (slot fp FRAME_FLAGS)) AND 255"

definition frame_has_context :: "mem \<Rightarrow> u64 \<Rightarrow> u64" where
  "frame_has_context m fp = m (slot fp FRAME_FLAGS) AND FRAME_FLAGS_HAS_CONTEXT_MASK"

text \<open>The slots of temporaries and arguments: \<^verbatim>\<open>fp[-(5 + index)]\<close>, \<^verbatim>\<open>fp[2 + (num_args - 1 - index)]\<close>.\<close>

definition temp_slot :: "u64 \<Rightarrow> u64 \<Rightarrow> u64" where
  "temp_slot fp index = slot fp (- uint (FP_TEMP_BASE_WORDS + index))"

definition frame_temp :: "mem \<Rightarrow> u64 \<Rightarrow> u64 \<Rightarrow> u64" where
  "frame_temp m fp index = m (temp_slot fp index)"

definition frame_arg :: "mem \<Rightarrow> u64 \<Rightarrow> u64 \<Rightarrow> u64" where
  "frame_arg m fp index =
     (let num_args = frame_num_args m fp
      in m (slot fp (uint (FP_ARG_BASE_WORDS + (num_args - 1 - index)))))"

definition frame_store_temp :: "mem \<Rightarrow> u64 \<Rightarrow> u64 \<Rightarrow> u64 \<Rightarrow> mem" where
  "frame_store_temp m fp index value = m(temp_slot fp index := value)"

definition activate_context ::
  "mem \<Rightarrow> u64 \<Rightarrow> u64 \<Rightarrow> u64 \<Rightarrow> u64 \<Rightarrow> u64 \<Rightarrow> (mem \<times> u64 \<times> u64) option" where
  "activate_context m limit_low sp fp saved_ip context =
     (if context = 0 \<or> context AND TAG_MASK \<noteq> TAG_OBJECT then None
      else
        let num_args = context_num_args m context;
            num_temps = context_num_temps m context;
            stack_size = context_stack_size m context
        in if slot sp (- uint (num_args + 1 + stack_size)) < limit_low then None
        else do {
          let ms = push (m, sp) (OBJ_FIELD m context CONTEXT_RECEIVER);
          let ms = fold (\<lambda>index ms. push ms (OBJ_FIELD (fst ms) context (CONTEXT_VAR_BASE + of_nat index)))
                     [0..<unat num_args] ms;
          (m, sp, fp) \<leftarrow> activate_method (fst ms) limit_low (snd ms) fp saved_ip
                     (OBJ_FIELD (fst ms) context CONTEXT_METHOD) num_args num_temps;
          let saved_flags = decode_smallint_field (OBJ_FIELD m context CONTEXT_FLAGS);
          let m = m(slot fp FRAME_FLAGS := m (slot fp FRAME_FLAGS) OR
                     (FRAME_FLAGS_HAS_CONTEXT_MASK OR
                      (saved_flags AND push_bit FRAME_FLAGS_IS_BLOCK_SHIFT 255)));
          let m = m(slot fp FRAME_FLAGS := m (slot fp FRAME_FLAGS) AND NOT FRAME_FLAGS_BLOCK_CLOSURE_MASK);
          let m = m(slot fp FRAME_CONTEXT := context);
          let m = fold (\<lambda>index m. m(temp_slot fp (of_nat index) :=
                          OBJ_FIELD m context (CONTEXT_VAR_BASE + num_args + of_nat index)))
                     [0..<unat num_temps] m;
          if stack_size \<noteq> 0
          then let new_sp = slot sp (- uint stack_size)
               in if new_sp < limit_low then None
                  else Some (fold (\<lambda>index m. m(slot new_sp (int index) :=
                          OBJ_FIELD m context (CONTEXT_VAR_BASE + num_args + num_temps + of_nat index)))
                     [0..<unat stack_size] m, new_sp, fp)
          else Some (m, sp, fp)
        })"

text \<open>\<^verbatim>\<open>frame_return\<close> returns the memory, sp, fp and ip of the caller.\<close>

definition frame_return :: "mem \<Rightarrow> u64 \<Rightarrow> u64 \<Rightarrow> u64 \<Rightarrow> (mem \<times> u64 \<times> u64 \<times> u64) option" where
  "frame_return m limit_low fp return_value =
     (let num_args = frame_num_args m fp;
          new_sp = slot fp (uint (FP_ARG_BASE_WORDS + num_args));
          caller_fp = m (slot fp FRAME_SAVED_FP);
          m = m(new_sp := return_value)
      in if caller_fp \<noteq> 0 then Some (m, new_sp, caller_fp, m (slot fp FRAME_SAVED_IP))
         else
           let context = m (slot fp FRAME_CONTEXT);
               sender_oop = OBJ_FIELD m context CONTEXT_SENDER
           in if m (slot fp FRAME_FLAGS) AND FRAME_FLAGS_HAS_CONTEXT_MASK \<noteq> 0 \<and>
                 sender_oop AND TAG_MASK = TAG_OBJECT \<and> sender_oop \<noteq> 0
              then do {
                (m, sp, fp) \<leftarrow> activate_context m limit_low new_sp 0 0 sender_oop;
                let sender_sp = slot sp (-1);
                let m = m(sender_sp := return_value);
                Some (m, sender_sp, fp, OBJ_FIELD m sender_oop CONTEXT_IP)
              }
              else Some (m, new_sp, 0, 0))"

section \<open>bytecode.c\<close>

definition bc_push_self :: "mem \<Rightarrow> u64 \<Rightarrow> u64 \<Rightarrow> mem \<times> u64" where
  "bc_push_self m sp fp = push (m, sp) (m (slot fp FRAME_RECEIVER))"

definition bc_push_temp :: "mem \<Rightarrow> u64 \<Rightarrow> u64 \<Rightarrow> u64 \<Rightarrow> mem \<times> u64" where
  "bc_push_temp m sp fp index = push (m, sp) (m (temp_slot fp index))"

definition bc_push_inst_var :: "mem \<Rightarrow> u64 \<Rightarrow> u64 \<Rightarrow> u64 \<Rightarrow> mem \<times> u64" where
  "bc_push_inst_var m sp fp field_index =
     (let receiver = m (slot fp FRAME_RECEIVER)
      in push (m, sp) (OBJ_FIELD m receiver field_index))"

definition bc_push_literal :: "mem \<Rightarrow> u64 \<Rightarrow> u64 \<Rightarrow> u64 \<Rightarrow> mem \<times> u64" where
  "bc_push_literal m sp fp literal_index =
     (let method = m (slot fp FRAME_METHOD);
          literals = OBJ_FIELD m method CM_LITERALS
      in push (m, sp) (OBJ_FIELD m literals literal_index))"

definition bc_store_temp :: "mem \<Rightarrow> u64 \<Rightarrow> u64 \<Rightarrow> u64 \<Rightarrow> mem \<times> u64" where
  "bc_store_temp m sp fp index =
     (let (value, sp) = pop m sp in (m(temp_slot fp index := value), sp))"

definition bc_store_inst_var :: "mem \<Rightarrow> u64 \<Rightarrow> u64 \<Rightarrow> u64 \<Rightarrow> mem \<times> u64" where
  "bc_store_inst_var m sp fp field_index =
     (let (value, sp) = pop m sp;
          receiver = m (slot fp FRAME_RECEIVER)
      in (set_field m receiver field_index value, sp))"

text \<open>\<^verbatim>\<open>bc_return_stack_top\<close>: the new memory, sp, fp and ip.\<close>

definition bc_return_stack_top :: "mem \<Rightarrow> u64 \<Rightarrow> u64 \<Rightarrow> mem \<times> u64 \<times> u64 \<times> u64" where
  "bc_return_stack_top m sp fp =
     (let return_value = m sp;
          flags = m (slot fp FRAME_FLAGS);
          num_args = drop_bit FRAME_FLAGS_NUM_ARGS_SHIFT flags AND 255;
          new_sp = slot fp (uint (FP_ARG_BASE_WORDS + num_args));
          m = m(new_sp := return_value)
      in (m, new_sp, m (slot fp FRAME_SAVED_FP), m (slot fp FRAME_SAVED_IP)))"

definition bc_duplicate :: "mem \<Rightarrow> u64 \<Rightarrow> mem \<times> u64" where
  "bc_duplicate m sp = push (m, sp) (m sp)"

definition bc_pop :: "u64 \<Rightarrow> u64" where
  "bc_pop sp = slot sp 1"

section \<open>Pushing a list of words\<close>

lemma push_simps [simp]:
  "push (m, sp) v = (m(slot sp (-1) := v), slot sp (-1))"
  "snd (push ms v) = slot (snd ms) (-1)"
  by (simp_all add: push_def Let_def)

definition push_all :: "mem \<times> u64 \<Rightarrow> u64 list \<Rightarrow> mem \<times> u64" where
  "push_all ms vs = foldl push ms vs"

lemma push_all_Nil [simp]: "push_all ms [] = ms"
  by (simp add: push_all_def)

lemma push_all_Cons: "push_all ms (v # vs) = push_all (push ms v) vs"
  by (simp add: push_all_def)

lemma push_all_append: "push_all ms (vs @ ws) = push_all (push_all ms vs) ws"
  by (simp add: push_all_def)

lemma snd_push_all [simp]: "snd (push_all ms vs) = slot (snd ms) (- int (length vs))"
  by (induction vs arbitrary: ms) (simp_all add: push_all_Cons algebra_simps)

lemma slot_Suc_down: "slot sp (- 1 - int (Suc k)) = slot (slot sp (-1)) (- 1 - int k)"
  unfolding slot_slot by (rule arg_cong [where f = "slot sp"]) simp

lemma push_all_other:
  "(\<And>j. j < length vs \<Longrightarrow> a \<noteq> slot sp (- 1 - int j)) \<Longrightarrow> fst (push_all (m, sp) vs) a = m a"
proof (induction vs arbitrary: m sp)
  case (Cons v vs)
  have "a \<noteq> slot sp (-1)" using Cons.prems [of 0] by simp
  moreover have "a \<noteq> slot (slot sp (-1)) (- 1 - int j)" if "j < length vs" for j
    using Cons.prems [of "Suc j"] that unfolding slot_Suc_down by simp
  ultimately show ?case using Cons.IH [of "slot sp (-1)"] by (simp add: push_all_Cons)
qed simp

lemma push_all_nth:
  "i < length vs \<Longrightarrow> length vs < 2 ^ 60 \<Longrightarrow> fst (push_all (m, sp) vs) (slot sp (- 1 - int i)) = vs ! i"
proof (induction vs arbitrary: m sp i)
  case (Cons v vs)
  show ?case
  proof (cases i)
    case 0
    have "slot sp (-1) \<noteq> slot (slot sp (-1)) (- 1 - int j)" if "j < length vs" for j
      using that Cons.prems(2) by (simp add: slot_eq_iff)
    then show ?thesis using 0 by (simp add: push_all_Cons push_all_other)
  next
    case (Suc k)
    then show ?thesis
      using Cons.IH [of k _ "slot sp (-1)"] Cons.prems unfolding Suc slot_Suc_down
      by (simp add: push_all_Cons)
  qed
qed simp

lemma fold_push_const: "fold (\<lambda>_ ms. push ms v) [0..<n] ms = push_all ms (replicate n v)"
proof (induction n)
  case (Suc n)
  then show ?case by (simp add: push_all_append push_all_Cons flip: replicate_append_same)
qed simp

section \<open>What a call leaves on the stack\<close>

lemma take_bit_drop_push: "take_bit 8 (drop_bit 8 (push_bit 8 na)) = take_bit 8 (na :: u64)"
  by (rule bit_word_eqI) (auto simp: bit_simps)

lemma num_args_flags: "na < 256 \<Longrightarrow> drop_bit 8 (push_bit 8 na) AND 255 = (na :: u64)"
  by (simp only: take_bit_8_eq take_bit_drop_push take_bit_8_small)

lemma fresh_flags:
  "na < 256 \<Longrightarrow> drop_bit 16 (push_bit 8 na) AND 255 = (0 :: u64)"
  "push_bit 8 na AND 1 = (0 :: u64)" "push_bit 8 na AND 2 = (0 :: u64)"
proof -
  assume "na < 256"
  then have t: "take_bit 8 na = na" by (rule take_bit_8_small)
  have "drop_bit 16 (push_bit 8 (take_bit 8 na)) = 0"
    by (rule bit_word_eqI) (auto simp: bit_simps)
  then show "drop_bit 16 (push_bit 8 na) AND 255 = (0 :: u64)" by (simp add: t)
next
  show "push_bit 8 na AND 1 = (0 :: u64)"
    by (rule bit_word_eqI) (auto simp: bit_simps bit_1_iff)
  have "bit (2 :: int) n \<longleftrightarrow> n = 1" for n using bit_exp_iff [of 1 n, where ?'a = int] by auto
  then show "push_bit 8 na AND 2 = (0 :: u64)"
    by (intro bit_word_eqI) (auto simp: bit_simps)
qed

text \<open>The words a method activation pushes, from the highest address down.\<close>

definition frame_words :: "mem \<Rightarrow> u64 \<Rightarrow> u64 \<Rightarrow> u64 \<Rightarrow> u64 \<Rightarrow> u64 \<Rightarrow> u64 \<Rightarrow> u64 list" where
  "frame_words m sp caller_fp saved_ip method num_args num_temps =
     [saved_ip, caller_fp, method, push_bit 8 num_args, 0, m (slot sp (uint num_args))] @
     replicate (unat num_temps) 0"

lemma length_frame_words [simp]: "length (frame_words m sp cfp ip meth na nt) = 6 + unat nt"
  by (simp add: frame_words_def)

lemma activate_method_eq:
  "activate_method m limit_low sp cfp ip meth na nt =
     (if slot sp (- uint (nt + 6)) < limit_low then None
      else Some (fst (push_all (m, sp) (frame_words m sp cfp ip meth na nt)),
                 slot sp (- 6 - uint nt), slot sp (-2)))"
proof -
  have s: "push_all (m, sp) (frame_words m sp cfp ip meth na nt) =
      fold (\<lambda>_ ms. push ms 0) [0..<unat nt]
        (push (push (push (push (push (push (m, sp) ip) cfp) meth) (push_bit 8 na)) 0)
          (m (slot sp (uint na))))"
    by (simp add: frame_words_def push_all_append push_all_Cons fold_push_const)
  have "snd (push_all (m, sp) (frame_words m sp cfp ip meth na nt)) = slot sp (- 6 - uint nt)"
    unfolding snd_push_all by (rule arg_cong2 [where f = slot]) simp_all
  then show ?thesis unfolding activate_method_def Let_def s by simp
qed

lemma activated_nth:
  assumes "i < 6 + unat nt" and "nt < 2 ^ 32"
  shows "fst (push_all (m, sp) (frame_words m sp cfp ip meth na nt)) (slot sp (- 1 - int i)) =
    frame_words m sp cfp ip meth na nt ! i"
proof (rule push_all_nth)
  have "unat nt < 2 ^ 32" using assms(2) by (simp add: word_less_nat_alt)
  then show "length (frame_words m sp cfp ip meth na nt) < 2 ^ 60" by simp
qed (use assms in simp)

lemma activated_other:
  assumes "\<And>k. 1 \<le> k \<Longrightarrow> k \<le> 6 + uint nt \<Longrightarrow> a \<noteq> slot sp (- k)"
  shows "fst (push_all (m, sp) (frame_words m sp cfp ip meth na nt)) a = m a"
proof (rule push_all_other)
  fix j assume "j < length (frame_words m sp cfp ip meth na nt)"
  then show "a \<noteq> slot sp (- 1 - int j)"
    using assms [of "1 + int j"] of_nat_less_iff [of j "6 + unat nt", where ?'a = int]
    by (simp add: algebra_simps)
qed

lemma arg_index: "i < na \<Longrightarrow> uint (na - 1 - i) = uint na - 1 - uint (i :: u64)"
proof -
  assume "i < na"
  then have lt: "uint i < uint na" by (simp add: word_less_def)
  then have "1 \<le> uint na" using uint_u64_range(1) [of i] by linarith
  then have "uint (na - 1) = uint na - 1" using uint_sub_lem [of 1 na] by simp
  moreover from this lt have "uint (na - 1 - i) = uint (na - 1) - uint i"
    using uint_sub_lem [of i "na - 1"] by simp
  ultimately show ?thesis by simp
qed

lemma uint_plus_small: "x < 2 ^ 32 \<Longrightarrow> k < 256 \<Longrightarrow> uint (k + x) = uint k + uint (x :: u64)"
  by (simp add: uint_word_ariths word_less_def)


text \<open>The memory after an activation, and what its frame pointer reads there.\<close>

definition activated :: "mem \<Rightarrow> u64 \<Rightarrow> u64 \<Rightarrow> u64 \<Rightarrow> u64 \<Rightarrow> u64 \<Rightarrow> u64 \<Rightarrow> mem" where
  "activated m sp cfp ip meth na nt = fst (push_all (m, sp) (frame_words m sp cfp ip meth na nt))"

lemma activate_method_Some:
  "activate_method m limit_low sp cfp ip meth na nt = Some (m', sp', fp') \<longleftrightarrow>
     \<not> slot sp (- uint (nt + 6)) < limit_low \<and> m' = activated m sp cfp ip meth na nt \<and>
     sp' = slot sp (- 6 - uint nt) \<and> fp' = slot sp (-2)"
  by (auto simp: activate_method_eq activated_def)

lemma activated_control:
  assumes "nt < 2 ^ 32"
  shows "activated m sp cfp ip meth na nt (slot sp (- 1)) = ip"
    "activated m sp cfp ip meth na nt (slot sp (- 2)) = cfp"
    "activated m sp cfp ip meth na nt (slot sp (- 3)) = meth"
    "activated m sp cfp ip meth na nt (slot sp (- 4)) = push_bit 8 na"
    "activated m sp cfp ip meth na nt (slot sp (- 5)) = 0"
    "activated m sp cfp ip meth na nt (slot sp (- 6)) = m (slot sp (uint na))"
  using activated_nth [OF _ assms, of 0] activated_nth [OF _ assms, of 1]
    activated_nth [OF _ assms, of 2] activated_nth [OF _ assms, of 3]
    activated_nth [OF _ assms, of 4] activated_nth [OF _ assms, of 5]
  by (simp_all add: frame_words_def activated_def)

lemma activated_num_args:
  "nt < 2 ^ 32 \<Longrightarrow> na < 256 \<Longrightarrow>
    frame_num_args (activated m sp cfp ip meth na nt) (slot sp (-2)) = na"
  by (simp add: frame_num_args_def activated_control num_args_flags)

lemma activated_temp:
  assumes "i < nt" and nt: "nt < 2 ^ 32"
  shows "frame_temp (activated m sp cfp ip meth na nt) (slot sp (-2)) i = 0"
proof -
  have "i < 2 ^ 32" using assms by (rule less_trans)
  then have u: "uint (5 + i) = 5 + uint i" by (simp add: uint_plus_small)
  have "temp_slot (slot sp (-2)) i = slot sp (- 1 - int (6 + unat i))"
    unfolding temp_slot_def FP_TEMP_BASE_WORDS_def u slot_slot
    by (rule arg_cong [where f = "slot sp"]) simp
  moreover have "unat i < unat nt" using assms(1) by (simp add: word_less_nat_alt)
  ultimately show ?thesis
    using activated_nth [OF _ nt, of "6 + unat i"]
    by (simp add: frame_temp_def activated_def frame_words_def nth_append)
qed

lemma activated_above:
  assumes "nt < 2 ^ 32" and "0 \<le> k" and "k < 2 ^ 32"
  shows "activated m sp cfp ip meth na nt (slot sp k) = m (slot sp k)"
  unfolding activated_def
proof (rule activated_other)
  fix j assume j: "1 \<le> j" "j \<le> 6 + uint nt"
  moreover have "uint nt < 2 ^ 32" using assms(1) by (simp add: word_less_def)
  ultimately show "slot sp k \<noteq> slot sp (- j)"
    using assms(2,3) by (subst slot_eq_iff) auto
qed

lemma activated_arg:
  assumes "i < na" and na: "na < 256" and nt: "nt < 2 ^ 32"
  shows "frame_arg (activated m sp cfp ip meth na nt) (slot sp (-2)) i =
    m (slot sp (uint (na - 1 - i)))"
proof -
  let ?m = "activated m sp cfp ip meth na nt"
  have "uint na < 256" using na by (simp add: word_less_def)
  then have lt: "uint (na - 1 - i) < 256"
    using arg_index [OF assms(1)] uint_u64_range(1) [of i] by linarith
  have "uint (2 + (na - 1 - i)) = uint (2 :: u64) + uint (na - 1 - i)"
    by (rule uint_plus_small) (use lt in \<open>simp_all add: word_less_def\<close>)
  then have u: "uint (2 + (na - 1 - i)) = 2 + uint (na - 1 - i)" by simp
  have "frame_arg ?m (slot sp (-2)) i = ?m (slot (slot sp (-2)) (2 + uint (na - 1 - i)))"
    unfolding frame_arg_def Let_def activated_num_args [OF nt na] FP_ARG_BASE_WORDS_def u
    by (rule refl)
  also have "\<dots> = ?m (slot sp (uint (na - 1 - i)))"
    unfolding slot_slot by (rule arg_cong [where f = ?m], rule arg_cong [where f = "slot sp"]) simp
  finally show ?thesis using activated_above [OF nt _, of "uint (na - 1 - i)"] lt by simp
qed

section \<open>A downward stack of words\<close>

text \<open>Pushing a list and popping \<open>n\<close> words, for any push and pop operation.\<close>

primrec push_list :: "(mem \<times> u64 \<Rightarrow> u64 \<Rightarrow> (mem \<times> u64) option) \<Rightarrow>
    mem \<times> u64 \<Rightarrow> u64 list \<Rightarrow> (mem \<times> u64) option" where
  "push_list psh ms [] = Some ms"
| "push_list psh ms (v # vs) = (case psh ms v of None \<Rightarrow> None | Some ms' \<Rightarrow> push_list psh ms' vs)"

primrec pop_list :: "(mem \<Rightarrow> u64 \<Rightarrow> u64 \<times> u64) \<Rightarrow> mem \<Rightarrow> u64 \<Rightarrow> nat \<Rightarrow> u64 list \<times> u64" where
  "pop_list pp m sp 0 = ([], sp)"
| "pop_list pp m sp (Suc n) =
     (let (v, sp') = pp m sp; (vs, sp'') = pop_list pp m sp' n in (v # vs, sp''))"

text \<open>\<^verbatim>\<open>stack_push\<close> against a fixed stack base, as the tests and the primitives use it.\<close>

definition push_from_base :: "u64 \<Rightarrow> mem \<times> u64 \<Rightarrow> u64 \<Rightarrow> (mem \<times> u64) option" where
  "push_from_base base ms v = map_option (\<lambda>(m, _, sp). (m, sp)) (stack_push (fst ms) (snd ms) base v)"

text \<open>
  The interface every stack of the VM offers: a push that may refuse, and a pop. A push that
  succeeds moves the stack pointer down one slot, stores there and changes nothing else; a pop
  reads the top slot and moves up.
\<close>

locale word_stack =
  fixes push_op :: "mem \<times> u64 \<Rightarrow> u64 \<Rightarrow> (mem \<times> u64) option"
    and pop_op :: "mem \<Rightarrow> u64 \<Rightarrow> u64 \<times> u64"
  assumes push_effect: "push_op (m, sp) v = Some (m', sp') \<Longrightarrow>
      sp' = slot sp (-1) \<and> m' = m(slot sp (-1) := v)"
    and pop_effect: "pop_op m sp = (m sp, slot sp 1)"
begin

lemma push_list_eq_push_all:
  "push_list push_op ms vs = Some ms' \<Longrightarrow> ms' = push_all ms vs"
proof (induction vs arbitrary: ms)
  case (Cons v vs)
  obtain m sp where ms: "ms = (m, sp)" by (cases ms)
  from Cons.prems obtain m1 sp1 where p: "push_op (m, sp) v = Some (m1, sp1)"
    and l: "push_list push_op (m1, sp1) vs = Some ms'"
    by (auto simp: ms split: option.splits)
  from push_effect [OF p] Cons.IH [OF l] show ?case
    by (simp add: ms push_all_Cons)
qed simp

lemma pop_list_nth:
  "pop_list pop_op m sp n = (map (\<lambda>i. m (slot sp (int i))) [0..<n], slot sp (int n))"
proof (induction n arbitrary: sp)
  case (Suc n)
  have "map (\<lambda>i. m (slot sp (int i))) [0..<Suc n] =
      m sp # map (\<lambda>i. m (slot (slot sp 1) (int i))) [0..<n]"
    by (simp add: upt_conv_Cons map_Suc_upt [symmetric] comp_def del: upt_Suc)
  then show ?case
    by (simp add: pop_effect [of m sp] Suc [of "slot sp 1"] del: upt_Suc)
qed simp

lemma pops_reverse_pushes:
  assumes "push_list push_op (m, sp) vs = Some (m', sp')" and "length vs < 2 ^ 60"
  shows "pop_list pop_op m' sp' (length vs) = (rev vs, sp)"
proof -
  have e: "(m', sp') = push_all (m, sp) vs" by (rule push_list_eq_push_all [OF assms(1)])
  then have sp': "sp' = slot sp (- int (length vs))" and m': "m' = fst (push_all (m, sp) vs)"
    by (metis snd_conv snd_push_all) (metis fst_conv e)
  have "m' (slot sp' (int i)) = rev vs ! i" if i: "i < length vs" for i
  proof -
    have "slot sp' (int i) = slot sp (- 1 - int (length vs - Suc i))"
      unfolding sp' slot_slot by (rule arg_cong [where f = "slot sp"]) (use i in simp)
    then have "m' (slot sp' (int i)) = vs ! (length vs - Suc i)"
      using push_all_nth [of "length vs - Suc i" vs m sp] i assms(2) by (simp only: m')
    then show ?thesis using i by (simp add: rev_nth)
  qed
  then have "map (\<lambda>i. m' (slot sp' (int i))) [0..<length vs] = rev vs"
    by (intro nth_equalityI) simp_all
  then show ?thesis by (simp add: pop_list_nth) (simp add: sp')
qed

end

interpretation cstack: word_stack "push_from_base base" stack_pop for base
  by unfold_locales
    (auto simp: push_from_base_def stack_push_def stack_pop_def Let_def split: if_splits)

interpretation ustack: word_stack "\<lambda>ms v. Some (push ms v)" pop
  by unfold_locales (auto simp: push_def pop_def Let_def)

section \<open>Properties\<close>

text \<open>
  C35. After \<^verbatim>\<open>activate_method\<close> (fewer than 256 arguments) the new frame reads back what the call
  pushed: receiver, method, argument count, the arguments in order, zeroed temporaries, no
  context and no block flag, and the caller's ip and fp.
\<close>

theorem activate_method_frame:
  assumes "activate_method m limit_low sp caller_fp saved_ip method num_args num_temps =
      Some (m', sp', fp')"
    and "num_args < 256" and "num_temps < 2 ^ 32"
  shows "frame_receiver m' fp' = m (slot sp (uint num_args)) \<and>
    frame_method m' fp' = method \<and> frame_num_args m' fp' = num_args \<and>
    frame_is_block m' fp' = 0 \<and> frame_has_context m' fp' = 0 \<and>
    m' (slot fp' FRAME_SAVED_IP) = saved_ip \<and> m' (slot fp' FRAME_SAVED_FP) = caller_fp \<and>
    (\<forall>i < num_temps. frame_temp m' fp' i = 0) \<and>
    (\<forall>i < num_args. frame_arg m' fp' i = m (slot sp (uint (num_args - 1 - i)))) \<and>
    fp' = slot sp (-2) \<and> sp' = slot sp (- 6 - uint num_temps)"
  using assms activated_temp [of _ num_temps] activated_arg [of _ num_args num_temps]
  by (simp add: activate_method_Some frame_receiver_def frame_method_def frame_is_block_def
      frame_has_context_def activated_control activated_num_args fresh_flags)

theorem activate_method_frame_witness:
  "frame_arg (activated ((\<lambda>_. 0)(4096 := 44, 4104 := 33, 4112 := 22)) 4096 0 0 800 2 1) 4080 0 = 33"
proof -
  let ?m = "(\<lambda>_. 0)(4096 := 44, 4104 := 33, 4112 := 22) :: mem"
  have a: "activate_method ?m 1024 4096 0 0 800 2 1 =
      Some (activated ?m 4096 0 0 800 2 1, slot 4096 (-7), slot 4096 (-2))"
    by (simp add: activate_method_Some slot_def)
  show ?thesis
    using activate_method_frame [OF a] by (simp add: slot_def)
qed

text \<open>
  \<^verbatim>\<open>stack_push\<close> traps exactly when the slot below sp lies under the stack base; a list of
  words pushed without a trap is popped back in reverse order and leaves sp where it was.
\<close>

theorem stack_push_pop_lifo:
  assumes "length vs < 2 ^ 60"
  shows "(stack_push m sp base v = None \<longleftrightarrow> slot sp (-1) < base) \<and>
    (\<forall>m' sp'. push_list (push_from_base base) (m, sp) vs = Some (m', sp') \<longrightarrow>
      pop_list stack_pop m' sp' (length vs) = (rev vs, sp))"
  using assms cstack.pops_reverse_pushes by (simp add: stack_push_def Let_def)

theorem stack_push_pop_lifo_witness:
  "\<exists>m' sp'. push_list (push_from_base 1000) (\<lambda>_. 0, 2000) [7, 8, 9] = Some (m', sp') \<and>
    pop_list stack_pop m' sp' 3 = ([9, 8, 7], 2000)"
proof -
  obtain m' sp' where "push_list (push_from_base 1000) (\<lambda>_. 0, 2000) [7, 8, 9] = Some (m', sp')"
    by (simp add: push_from_base_def stack_push_def slot_def Let_def)
  moreover from this have "pop_list stack_pop m' sp' (length [7, 8, 9 :: u64]) = ([9, 8, 7], 2000)"
    using stack_push_pop_lifo [of "[7, 8, 9]" "\<lambda>_. 0" 2000 1000 0]
    by (simp del: push_list.simps pop_list.simps)
  moreover have "length [7, 8, 9 :: u64] = 3" by simp
  ultimately show ?thesis by metis
qed

text \<open>
  \<^verbatim>\<open>activate_method\<close> traps exactly when the six control words and the temporaries do not fit
  above the stack limit, and otherwise writes only between the limit and the caller's sp.
\<close>

theorem activate_method_stays_in_stack:
  assumes "8 * (uint num_temps + 6) \<le> uint sp"
  shows "(activate_method m limit_low sp caller_fp saved_ip method num_args num_temps = None
      \<longleftrightarrow> uint sp - 8 * (uint num_temps + 6) < uint limit_low) \<and>
    (\<forall>m' sp' fp' a. activate_method m limit_low sp caller_fp saved_ip method num_args num_temps =
        Some (m', sp', fp') \<longrightarrow> m' a \<noteq> m a \<longrightarrow> limit_low \<le> a \<and> a < sp)"
proof -
  have u: "uint (slot sp (- k)) = uint sp - 8 * k" if "0 \<le> k" "k \<le> uint num_temps + 6" for k
    by (rule uint_slot_down) (use that assms in auto)
  have n6: "uint (num_temps + 6) = uint num_temps + 6"
    using assms uint_u64_range(2) [of sp]
    by (subst uint_add_lem [THEN iffD1]) (simp_all del: uint_u64_range)
  have trap: "slot sp (- uint (num_temps + 6)) < limit_low \<longleftrightarrow>
      uint sp - 8 * (uint num_temps + 6) < uint limit_low"
    unfolding n6 word_less_def by (subst u) auto
  have "limit_low \<le> a \<and> a < sp"
    if s: "\<not> slot sp (- uint (num_temps + 6)) < limit_low"
      and w: "activated m sp caller_fp saved_ip method num_args num_temps a \<noteq> m a" for a
  proof -
    obtain k where k: "1 \<le> k" "k \<le> 6 + uint num_temps" "a = slot sp (- k)"
      using w activated_other unfolding activated_def by blast
    then have "uint a = uint sp - 8 * k" using u [of k] by simp
    moreover have "uint limit_low \<le> uint sp - 8 * (uint num_temps + 6)"
      using s trap by simp
    ultimately show ?thesis using k by (simp add: word_less_def word_le_def)
  qed
  then show ?thesis using trap 
    by (simp add: activate_method_Some) (simp add: activate_method_eq)
qed

theorem activate_method_stays_in_stack_witness:
  "activate_method (\<lambda>_. 0) 1024 1088 0 0 800 0 3 = None \<and>
   activate_method (\<lambda>_. 0) 1024 1088 0 0 800 0 2 \<noteq> None"
  using activate_method_stays_in_stack [of 3 1088 "\<lambda>_. 0" 1024 0 0 800 0]
    activate_method_stays_in_stack [of 2 1088 "\<lambda>_. 0" 1024 0 0 800 0] by simp

text \<open>
  C27. Call and return: if a method body that was activated from a frame leaves its own saved fp,
  saved ip and flags in place, then both \<^verbatim>\<open>frame_return\<close> and \<^verbatim>\<open>bc_return_stack_top\<close> resume the
  caller at the saved ip with the result in the slot that held the receiver, the arguments popped,
  and no other word of memory changed.
\<close>

theorem call_return_protocol:
  assumes "activate_method m limit_low sp caller_fp saved_ip method num_args num_temps =
      Some (m1, sp1, fp)"
    and "num_args < 256" and "num_temps < 2 ^ 32" and "caller_fp \<noteq> 0"
    and "m2 (slot fp FRAME_SAVED_FP) = m1 (slot fp FRAME_SAVED_FP)"
    and "m2 (slot fp FRAME_SAVED_IP) = m1 (slot fp FRAME_SAVED_IP)"
    and "m2 (slot fp FRAME_FLAGS) = m1 (slot fp FRAME_FLAGS)"
  shows "frame_return m2 limit_low' fp value =
      Some (m2(slot sp (uint num_args) := value), slot sp (uint num_args), caller_fp, saved_ip) \<and>
    (m2 sp2 = value \<longrightarrow> bc_return_stack_top m2 sp2 fp =
      (m2(slot sp (uint num_args) := value), slot sp (uint num_args), caller_fp, saved_ip))"
proof -
  have fp: "fp = slot sp (-2)" and m1: "m1 = activated m sp caller_fp saved_ip method num_args num_temps"
    using assms(1) by (simp_all add: activate_method_Some)
  have flags: "m2 (slot fp (-2)) = push_bit 8 num_args"
    and sfp: "m2 fp = caller_fp" and sip: "m2 (slot fp 1) = saved_ip"
    using assms(3,5-7) by (simp_all add: fp m1 activated_control)
  have na: "frame_num_args m2 fp = num_args"
    using flags assms(2) by (simp add: frame_num_args_def num_args_flags)
  have lt: "uint num_args < 256" using assms(2) by (simp add: word_less_def)
  then have u: "uint (2 + num_args) = 2 + uint num_args"
    using uint_plus_small [of num_args 2] by (simp add: word_less_def)
  have top: "slot fp (2 + uint num_args) = slot sp (uint num_args)"
    unfolding fp slot_slot by (rule arg_cong [where f = "slot sp"]) simp
  have "slot sp k \<noteq> slot sp (uint num_args)" if "- 3 < k" "k < 0" for k
    using lt uint_ge_0 [of num_args] that by (intro slot_neq) linarith+
  from this [of "-2"] this [of "-1"]
  have ne: "fp \<noteq> slot sp (uint num_args)" "slot fp 1 \<noteq> slot sp (uint num_args)"
    unfolding fp slot_slot by simp_all
  show ?thesis
    using flags sfp sip assms(2,4) ne
    by (simp add: frame_return_def bc_return_stack_top_def Let_def na u top num_args_flags)
qed

theorem call_return_protocol_witness:
  "frame_return (activated (\<lambda>_. 5) 4096 9000 777 800 2 1) 0 4080 42 =
    Some ((activated (\<lambda>_. 5) 4096 9000 777 800 2 1)(4112 := 42), 4112, 9000, 777)"
proof -
  let ?m = "activated (\<lambda>_. 5) 4096 9000 777 800 2 1"
  have a: "activate_method (\<lambda>_. 5) 1024 4096 9000 777 800 2 1 = Some (?m, slot 4096 (-7), slot 4096 (-2))"
    by (simp add: activate_method_Some slot_def)
  have "frame_return ?m 0 (slot 4096 (-2)) 42 =
      Some (?m(slot 4096 (uint (2 :: u64)) := 42), slot 4096 (uint (2 :: u64)), 9000, 777)"
    by (rule call_return_protocol [OF a, THEN conjunct1]) simp_all
  then show ?thesis by (simp add: slot_def)
qed

end
