(* ===== verification/Machine.thy ===== *)
theory Machine
  imports Durable_Log Frames
begin

text \<open>
  The state of the running virtual machine: the heap, the registers of the current \<^verbatim>\<open>interpret\<close>
  call, the globals of \<^verbatim>\<open>src/c/primitives.c\<close> and \<^verbatim>\<open>src/c_vm/interpret.c\<close> (symbol table, chains
  of exception handlers, ensure frames and transaction logs), the files, and the answers of the
  operating system. Results of running code are \<open>outcome\<close>s: it returns, is stopped by SIGTRAP,
  leaves by \<^verbatim>\<open>longjmp\<close>, or does not return within the fuel.
\<close>

section \<open>What the operating system answers\<close>

datatype write_result = Wrote nat | Interrupted | Write_failed

text \<open>
  The answers to the system calls of one primitive: the bytes a \<^verbatim>\<open>read\<close> delivers (\<open>None\<close> an error),
  the results of successive \<^verbatim>\<open>write\<close>s (when they run out, everything is written), the disk under
  the durable log, whether \<^verbatim>\<open>unlink\<close> succeeds, the address \<^verbatim>\<open>malloc\<close> returns for a loaded heap, and
  how far writing a checkpoint gets.
\<close>

record os_answer =
  read_answer :: "u8 list option"
  write_answers :: "write_result list"
  log_disk :: disk
  unlink_ok :: bool
  malloc_answer :: u64
  temp_opens :: bool
  temp_metadata_ok :: bool
  temp_page_ok :: "nat \<Rightarrow> bool"
  temp_sync_ok :: bool
  rename_ok :: bool
  dir_sync_ok :: bool

section \<open>Chains of interpreter frames\<close>

text \<open>
  \<^verbatim>\<open>ExceptionHandlerFrame\<close> and \<^verbatim>\<open>EnsureFrame\<close>. They live on the C stack; here each is a list element
  with an identity, and the slots they point to are their own fields. The lists are the chains
  through \<^verbatim>\<open>previous\<close>, innermost first.
\<close>

record handler_frame =
  handler_id :: nat
  exception_class :: u64
  handler_block :: u64
  handler_saved_sp :: u64
  handler_saved_fp :: u64
  handler_saved_ip :: u64
  handler_saved_base :: u64
  handler_arg_count :: u64
  signaled_exception :: u64

record ensure_frame =
  ensure_id :: nat
  ensure_saved_ip :: u64
  ensure_saved_base :: u64
  signaled_class :: u64
  signaled_payload :: u64

section \<open>The machine\<close>

text \<open>
  \<open>vm_sp\<close> and \<open>vm_fp\<close> are \<^verbatim>\<open>*sp_ptr\<close> and \<^verbatim>\<open>*fp_ptr\<close>; \<open>vm_ip\<close>, \<open>vm_base\<close> and \<open>vm_class_table\<close> the locals
  \<^verbatim>\<open>ip\<close>, \<^verbatim>\<open>bytecode_base\<close> and \<^verbatim>\<open>class_table\<close> of the running \<^verbatim>\<open>interpret\<close>. \<open>c_stack\<close> is where the next
  C array on the C stack ends.
\<close>

record vm = heap +
  vm_sp :: u64
  vm_fp :: u64
  vm_ip :: u64
  vm_base :: u64
  vm_class_table :: u64
  stack_limit_low :: u64
  symbol_table :: u64
  symbol_class :: u64
  context_class :: u64
  smalltalk_dictionary :: u64
  handlers :: "handler_frame list"
  ensures :: "ensure_frame list"
  txn_logs :: "u64 list"
  next_frame_id :: nat
  c_stack :: u64
  cannot_return_after :: u64
  files :: "u8 list \<Rightarrow> u8 list option"
  log_path_override :: "u8 list option"
  force_dir_fsync_failure :: bool
  console :: "(u64 \<times> u8 list) list"
  os_answers :: "nat \<Rightarrow> os_answer"
  os_calls :: nat

text \<open>Consume the answer to the next request.\<close>

definition os_now :: "vm \<Rightarrow> os_answer" where
  "os_now s = os_answers s (os_calls s)"

definition os_next :: "vm \<Rightarrow> vm" where
  "os_next s = s\<lparr>os_calls := Suc (os_calls s)\<rparr>"

section \<open>Outcomes\<close>

datatype 'a outcome =
    Done 'a vm
  | Trap vm
  | Longjmp nat vm
  | No_result

text \<open>Sequencing: continue with a returned value, pass everything else on.\<close>

fun and_then :: "'a outcome \<Rightarrow> ('a \<Rightarrow> vm \<Rightarrow> 'b outcome) \<Rightarrow> 'b outcome" where
  "and_then (Done v s) k = k v s"
| "and_then (Trap s) k = Trap s"
| "and_then (Longjmp i s) k = Longjmp i s"
| "and_then No_result k = No_result"

datatype PrimitiveResult = PRIMITIVE_SUCCEEDED | PRIMITIVE_FAILED | PRIMITIVE_UNSUPPORTED

lemma and_then_Done [simp]: "and_then p Done = p"
  by (cases p) simp_all

lemma and_then_assoc: "and_then (and_then p k) l = and_then p (\<lambda>v s. and_then (k v s) l)"
  by (cases p) simp_all

lemma and_then_eq_Done:
  "and_then p k = Done v s \<longleftrightarrow> (\<exists>v' s'. p = Done v' s' \<and> k v' s' = Done v s)"
  by (cases p) simp_all

lemma and_then_cong [fundef_cong]:
  "p = p' \<Longrightarrow> (\<And>v s. p' = Done v s \<Longrightarrow> k v s = k' v s) \<Longrightarrow> and_then p k = and_then p' k'"
  by (cases p') simp_all

section \<open>C strings\<close>

text \<open>A C string is its bytes up to the terminating 0; \<open>c_string\<close> is a string literal.\<close>

definition c_string :: "string \<Rightarrow> u8 list" where
  "c_string s = map of_char s"

definition until_nul :: "u8 list \<Rightarrow> u8 list" where
  "until_nul bs = takeWhile (\<lambda>b. b \<noteq> 0) bs"

text \<open>The bytes of a byte object.\<close>

definition object_bytes :: "mem \<Rightarrow> u64 \<Rightarrow> u8 list" where
  "object_bytes m obj = bytes_of m (slot obj 3) (unat (OBJ_SIZE m obj))"

section \<open>The path of the durable log\<close>

definition DEFAULT_DURABLE_TXN_LOG_PATH :: "u8 list" where
  "DEFAULT_DURABLE_TXN_LOG_PATH = c_string ''/tmp/arlo_transactions.log''"

definition txn_durable_log_path :: "vm \<Rightarrow> u8 list" where
  "txn_durable_log_path s =
     (case log_path_override s of Some path \<Rightarrow> path | None \<Rightarrow> DEFAULT_DURABLE_TXN_LOG_PATH)"

text \<open>\<open>None\<close> is a null path. The buffer takes 1023 bytes and the terminator.\<close>

definition txn_set_durable_log_path :: "u8 list option \<Rightarrow> vm \<Rightarrow> vm" where
  "txn_set_durable_log_path path s =
     (case path of
        None \<Rightarrow> s\<lparr>log_path_override := None\<rparr>
      | Some bytes \<Rightarrow>
          if bytes = [] then s\<lparr>log_path_override := None\<rparr>
          else if length bytes + 1 > 1024 then s
          else s\<lparr>log_path_override := Some bytes\<rparr>)"

text \<open>The file operations of the durable log on the file at its path.\<close>

definition vm_log_append :: "u64 \<Rightarrow> u64 \<Rightarrow> u64 \<Rightarrow> vm \<Rightarrow> bool \<times> vm" where
  "vm_log_append log heap_start heap_limit s =
     (let path = txn_durable_log_path s;
          (ok, file) = txn_log_append_fsync (log_disk (os_now s)) (files s path) (memory s) log
                         heap_start heap_limit
      in (ok, os_next (s\<lparr>files := (files s)(path := file)\<rparr>)))"

definition vm_log_replay :: "u64 \<Rightarrow> u64 \<Rightarrow> vm \<Rightarrow> vm \<times> bool" where
  "vm_log_replay heap_start heap_used s =
     txn_log_replay s (files s (txn_durable_log_path s)) heap_start heap_used"

definition vm_log_clear :: "vm \<Rightarrow> bool \<times> vm" where
  "vm_log_clear s =
     (let path = txn_durable_log_path s;
          (ok, file) = txn_durable_log_clear (unlink_ok (os_now s)) (files s path)
      in (ok, os_next (s\<lparr>files := (files s)(path := file)\<rparr>)))"

section \<open>A machine at rest\<close>

text \<open>The state examples start from: given memory and object memories, everything else empty.\<close>

definition idle_vm :: "mem \<Rightarrow> om_entry list \<Rightarrow> vm" where
  "idle_vm m oms = \<lparr>memory = m, gc_contexts = [], simple_oms = oms,
     vm_sp = 0, vm_fp = 0, vm_ip = 0, vm_base = 0, vm_class_table = 0, stack_limit_low = 0,
     symbol_table = 0, symbol_class = 0, context_class = 0, smalltalk_dictionary = 0,
     handlers = [], ensures = [], txn_logs = [], next_frame_id = 0, c_stack = 0,
     cannot_return_after = 0, files = (\<lambda>_. None), log_path_override = None,
     force_dir_fsync_failure = False, console = [],
     os_answers = (\<lambda>_. \<lparr>read_answer = None, write_answers = [],
       log_disk = \<lparr>open_ok = True, write_budget = None, fsync_ok = True\<rparr>, unlink_ok = True,
       malloc_answer = 65536, temp_opens = True, temp_metadata_ok = True, temp_page_ok = (\<lambda>_. True),
       temp_sync_ok = True, rename_ok = True, dir_sync_ok = True\<rparr>),
     os_calls = 0\<rparr>"

lemma idle_vm_simps [simp]:
  "memory (idle_vm m oms) = m" "simple_oms (idle_vm m oms) = oms" "gc_contexts (idle_vm m oms) = []"
  "handlers (idle_vm m oms) = []" "ensures (idle_vm m oms) = []" "txn_logs (idle_vm m oms) = []"
  by (simp_all add: idle_vm_def)

end
