(* ===== verification/Allocation.thy ===== *)
theory Allocation
  imports Object_Memory
begin

text \<open>
  What \<^verbatim>\<open>om_init\<close>, \<^verbatim>\<open>om_alloc\<close> and \<^verbatim>\<open>om_next_object\<close> achieve together. The abstract object
  memory is the list of (offset, bytes) of the objects allocated so far, in address order;
  \<open>layout\<close> says that memory, allocator words and page tables are exactly what that list
  determines. Allocation appends to the list, the walk enumerates it.
\<close>

section \<open>Well-formed object memories\<close>

definition entry_ok :: "om_entry \<Rightarrow> bool" where
  "entry_ok e \<longleftrightarrow>
     om_start e \<noteq> 0 \<and> unat (om_start e) \<le> unat (om_end e) \<and>
     unat (om_start e) + 4096 * unat (page_counts e) < 2 ^ 62 \<and>
     unat (page_counts e) = (unat (om_end e) - unat (om_start e) + 4095) div 4096 \<and>
     length (page_used e) = unat (page_counts e) \<and> length (page_first e) = unat (page_counts e) \<and>
     length (page_covering e) = unat (page_counts e) \<and> length (page_dirty e) = unat (page_counts e) \<and>
     length (page_state e) = unat (page_counts e) \<and> length (page_reusable e) = unat (page_counts e)"

definition om_ok :: "'a heap_scheme \<Rightarrow> u64 \<Rightarrow> nat \<Rightarrow> bool" where
  "om_ok h om i \<longleftrightarrow>
     om_registration_index h om = Some i \<and> entry_ok (simple_oms h ! i) \<and>
     memory h (slot om 1) = om_end (simple_oms h ! i) \<and>
     om_start (simple_oms h ! i) \<le> memory h om \<and> memory h om \<le> om_end (simple_oms h ! i) \<and>
     (om < om_start (simple_oms h ! i) \<or> om_end (simple_oms h ! i) \<le> om) \<and>
     (slot om 1 < om_start (simple_oms h ! i) \<or> om_end (simple_oms h ! i) \<le> slot om 1)"

lemma om_okD:
  assumes "om_ok h om i"
  shows "om_registered_start h om = om_start (simple_oms h ! i)"
    "om_registered_end h om = om_end (simple_oms h ! i)"
    "om_page_count h om = page_counts (simple_oms h ! i)"
    "i < length (simple_oms h)" "simple_om (simple_oms h ! i) = om"
  using assms index_where_SomeD [of "\<lambda>e. simple_om e = om" "simple_oms h" i]
  by (auto simp: om_ok_def om_registered_start_def om_registered_end_def om_page_count_def
      om_registration_index_def)

lemma unat_page_start:
  assumes "om_ok h om i" and "p < unat (page_counts (simple_oms h ! i))"
  shows "unat (om_page_start h om (of_nat p)) = unat (om_start (simple_oms h ! i)) + 4096 * p"
proof -
  let ?e = "simple_oms h ! i"
  have e: "entry_ok ?e" using assms(1) by (simp add: om_ok_def)
  have p: "unat (of_nat p :: u64) = p"
    using assms(2) unat_u64_less [of "page_counts ?e"] by (simp add: unat_of_nat)
  have b: "unat (om_start ?e) + 4096 * p < 2 ^ 62"
    using e assms(2) by (simp add: entry_ok_def)
  have m: "unat (of_nat p * 4096 :: u64) = 4096 * p"
    using b p by (subst unat_mult_lem [THEN iffD1]) simp_all
  have "unat (om_start ?e + of_nat p * 4096) = unat (om_start ?e) + 4096 * p"
    using b m by (subst unat_add_lem [THEN iffD1]) simp_all
  moreover have "\<not> page_counts ?e \<le> of_nat p"
    using assms(2) p by (simp add: word_le_nat_alt)
  ultimately show ?thesis
    using e by (simp add: om_page_start_def om_okD [OF assms(1)] entry_ok_def)
qed

lemma page_id_of:
  assumes "om_ok h om i" and "om_start (simple_oms h ! i) \<le> a" and "a < om_end (simple_oms h ! i)"
  shows "om_page_id_for_address h om a = (a - om_start (simple_oms h ! i)) div 4096"
    "unat (om_page_id_for_address h om a) = (unat a - unat (om_start (simple_oms h ! i))) div 4096"
    "om_page_id_for_address h om a \<noteq> UINT64_MAX"
proof -
  let ?s = "om_start (simple_oms h ! i)"
  have "?s \<noteq> 0" using assms(1) by (simp add: om_ok_def entry_ok_def)
  then show q: "om_page_id_for_address h om a = (a - ?s) div 4096"
    using assms(2,3) by (auto simp: om_page_id_for_address_def om_okD [OF assms(1)] Let_def not_less)
  show u: "unat (om_page_id_for_address h om a) = (unat a - unat ?s) div 4096"
    unfolding q using assms(2) by (simp add: unat_div unat_sub)
  have "unat (om_page_id_for_address h om a) < 2 ^ 64 div 4096"
    unfolding u using unat_u64_less [of a] by (simp add: less_mult_imp_div_less)
  moreover have "unat UINT64_MAX \<ge> 2 ^ 64 div 4096" by (simp add: UINT64_MAX_def)
  ultimately show "om_page_id_for_address h om a \<noteq> UINT64_MAX" by auto
qed

section \<open>Writing the header and the fields\<close>

lemma fold_zero_fields:
  assumes "k < 2 ^ 64"
  shows "fold (\<lambda>i m. set_field m obj (of_nat i) 0) [0..<k] m a =
    (if \<exists>i < k. a = slot obj (3 + int i) then 0 else m a)"
  using assms
proof (induction k)
  case (Suc k)
  have u: "uint (of_nat k :: u64) = int k" using Suc.prems by (simp add: uint_nat unat_u64_of_nat)
  show ?case using Suc
    by (auto simp: set_field_def field_addr_def u less_Suc_eq)
qed simp

lemma zeroed_words: "unat slot_words < 2 ^ 61 \<Longrightarrow> unat (slot_words * WORD_BYTES) div 8 = unat slot_words"
  by (subst unat_u64_times) simp_all

lemma write_object_zeroes:
  assumes "unat slot_words < 2 ^ 61"
  shows "write_object m obj c f s slot_words a = (if \<exists>i < unat slot_words. a = slot obj (3 + int i) then 0
    else (m(obj := c, slot obj 1 := f, slot obj 2 := s)) a)"
  unfolding write_object_def zeroed_words [OF assms]
  using assms by (subst fold_zero_fields) simp_all

lemma write_object_cell:
  assumes "unat slot_words < 2 ^ 60"
  shows "write_object m obj c f s slot_words (slot obj 0) = c"
    "write_object m obj c f s slot_words (slot obj 1) = f"
    "write_object m obj c f s slot_words (slot obj 2) = s"
    "j < unat slot_words \<Longrightarrow> write_object m obj c f s slot_words (slot obj (3 + int j)) = 0"
  using assms
  by (auto simp: write_object_zeroes slot_eq_iff slot_eq_self_iff)

lemma write_object_other:
  assumes "unat slot_words < 2 ^ 60"
    and "\<And>j. j < 3 + unat slot_words \<Longrightarrow> a \<noteq> slot obj (int j)"
  shows "write_object m obj c f s slot_words a = m a"
proof -
  have "a \<noteq> slot obj (3 + int j)" if "j < unat slot_words" for j
    using assms(2) [of "3 + j"] that by simp
  moreover have "a \<noteq> slot obj 0" "a \<noteq> slot obj 1" "a \<noteq> slot obj 2"
    using assms(2) [of 0] assms(2) [of 1] assms(2) [of 2] by simp_all
  ultimately show ?thesis
    using assms(1) by (auto simp: write_object_zeroes)
qed

section \<open>Where the next object goes\<close>

text \<open>Bytes of an object of the given format and size, and the offset at which it is placed.\<close>

definition request_bytes :: "u64 \<Rightarrow> u64 \<Rightarrow> nat" where
  "request_bytes format n =
     8 * (3 + (if format = FORMAT_BYTES then (unat n + 7) div 8 else unat n))"

definition place :: "nat \<Rightarrow> nat \<Rightarrow> nat" where
  "place off n =
     (if off mod 4096 \<noteq> 0 \<and> n \<le> 4096 \<and> 4096 - off mod 4096 < n
      then 4096 * ((off + 4095) div 4096) else off)"

lemma unat_slot_words:
  assumes "unat n < 2 ^ 50"
  shows "8 * (3 + unat (slot_words_for f n)) = request_bytes f n"
    "unat (slot_words_for f n) \<le> unat n" "unat (slot_words_for f n) < 2 ^ 50"
proof -
  have u: "unat (n + 7) = unat n + 7" using assms by (simp add: unat_u64_plus)
  have "unat ((7 + n) div 8) = unat (n + 7) div unat (8 :: u64)"
    by (simp only: unat_div add.commute [of 7 n])
  then have d: "unat ((7 + n) div 8) = (unat n + 7) div 8" using u by simp
  show "8 * (3 + unat (slot_words_for f n)) = request_bytes f n"
    using d by (simp add: slot_words_for_def request_bytes_def add.commute)
  have le: "(unat n + 7) div 8 \<le> unat n" by presburger
  show *: "unat (slot_words_for f n) \<le> unat n"
    using d le by (simp add: slot_words_for_def add.commute)
  then show "unat (slot_words_for f n) < 2 ^ 50" using assms by simp
qed

lemma unat_total_bytes:
  assumes "unat n < 2 ^ 50"
  shows "unat (OBJ_HEADER_WORDS + slot_words_for f n) = 3 + unat (slot_words_for f n)"
    "unat ((OBJ_HEADER_WORDS + slot_words_for f n) * WORD_BYTES) = request_bytes f n"
proof -
  note w = unat_slot_words [OF assms, of f]
  show u: "unat (OBJ_HEADER_WORDS + slot_words_for f n) = 3 + unat (slot_words_for f n)"
    using w by (simp add: unat_u64_plus)
  show "unat ((OBJ_HEADER_WORDS + slot_words_for f n) * WORD_BYTES) = request_bytes f n"
    using w u by (subst unat_u64_times) simp_all
qed

lemma request_bytes_bounds:
  "unat n < 2 ^ 50 \<Longrightarrow> request_bytes f n < 2 ^ 54" "24 \<le> request_bytes f n"
  using unat_slot_words [of n f] by (auto simp: request_bytes_def)

lemma place_bounds: "off \<le> place off n" "place off n < off + 4096"
  by (auto simp: place_def)

lemma place_not_spanning:
  assumes "0 < n" and "n \<le> 4096"
  shows "place off n div 4096 = (place off n + n - 1) div 4096"
proof (cases "off mod 4096 \<noteq> 0 \<and> 4096 - off mod 4096 < n")
  case True
  then have "place off n = 4096 * ((off + 4095) div 4096)" using assms by (simp add: place_def)
  moreover have "(4096 * q + n - 1) div 4096 = q" for q
    using assms by (intro div_nat_eqI) auto
  ultimately show ?thesis by simp
next
  case False
  then have p: "place off n = off" and b: "off mod 4096 + n \<le> 4096"
    using assms by (auto simp: place_def)
  have "off + n \<le> 4096 * (off div 4096) + 4096" "4096 * (off div 4096) \<le> off"
    using b mult_div_mod_eq [of 4096 off] by linarith+
  then have "(off + n - 1) div 4096 = off div 4096"
    using assms by (intro div_nat_eqI) auto
  then show ?thesis unfolding p by simp
qed

lemma om_ok_bounds:
  assumes "om_ok h om i"
  shows "unat (om_start (simple_oms h ! i)) \<le> unat (memory h om)"
    "unat (memory h om) \<le> unat (om_end (simple_oms h ! i))"
    "unat (om_end (simple_oms h ! i)) < 2 ^ 62"
    "unat (om_end (simple_oms h ! i)) \<le>
      unat (om_start (simple_oms h ! i)) + 4096 * unat (page_counts (simple_oms h ! i))"
    "om_start (simple_oms h ! i) \<noteq> 0"
    "unat (om_start (simple_oms h ! i)) + 4096 * unat (page_counts (simple_oms h ! i)) < 2 ^ 62"
proof -
  let ?s = "om_start (simple_oms h ! i)" and ?e = "om_end (simple_oms h ! i)"
  let ?c = "unat (page_counts (simple_oms h ! i))"
  have ok: "?s \<noteq> 0" "unat ?s \<le> unat ?e" "unat ?s + 4096 * ?c < 2 ^ 62"
    "?c = (unat ?e - unat ?s + 4095) div 4096" "?s \<le> memory h om" "memory h om \<le> ?e"
    using assms unfolding om_ok_def entry_ok_def by blast+
  show "?s \<noteq> 0" by (rule ok(1))
  show "unat ?s + 4096 * ?c < 2 ^ 62" by (rule ok(3))
  show "unat ?s \<le> unat (memory h om)" "unat (memory h om) \<le> unat ?e"
    using ok(5,6) unfolding word_le_nat_alt by blast+
  have "d \<le> 4096 * ((d + 4095) div 4096)" for d :: nat
    using mult_div_mod_eq [of 4096 "d + 4095"] mod_less_divisor [of 4096 "d + 4095", OF zero_less_numeral]
    by linarith
  from this [of "unat ?e - unat ?s"] show e: "unat ?e \<le> unat ?s + 4096 * ?c"
    using ok(2,4) by linarith
  then show "unat ?e < 2 ^ 62" using ok(3) by linarith
qed

lemma unat_bump_object:
  assumes "om_ok h om i" and that: "n < 2 ^ 54"
  shows "unat (bump_object h om (of_nat n)) = unat (om_start (simple_oms h ! i)) +
      place (unat (memory h om) - unat (om_start (simple_oms h ! i))) n"
proof -
  let ?s = "om_start (simple_oms h ! i)" and ?f = "memory h om"
  let ?off = "unat ?f - unat ?s"
  note b = om_ok_bounds [OF assms(1)]
  have rel: "unat (?f - ?s) = ?off" using b by (simp add: unat_sub word_le_nat_alt)
  have small: "?off < 2 ^ 62" using b by linarith
  have po: "unat ((?f - ?s) mod 4096) = ?off mod 4096" by (simp add: unat_mod rel)
  then have left: "unat (4096 - (?f - ?s) mod 4096) = 4096 - ?off mod 4096"
    by (subst unat_sub) (simp_all add: word_le_nat_alt)
  have nb: "unat (of_nat n :: u64) = n" using that by (simp add: unat_u64_of_nat)
  have r: "unat (?f - ?s + 4095) = ?off + 4095"
    using small by (simp add: unat_u64_plus rel)
  have d4: "unat ((?f - ?s + 4095) div 4096) = (?off + 4095) div 4096"
    by (simp add: unat_div r)
  have q: "unat ((?f - ?s + 4095) div 4096 * 4096) = (?off + 4095) div 4096 * 4096"
    using small by (subst unat_u64_times) (simp_all add: d4)
  have "(?off + 4095) div 4096 * 4096 \<le> ?off + 4095" by simp
  then have next_page: "unat (?s + (?f - ?s + 4095) div 4096 * 4096) =
      unat ?s + 4096 * ((?off + 4095) div 4096)"
    using small b by (subst unat_u64_plus) (simp_all add: q)
  have z: "(?f - ?s) mod 4096 \<noteq> 0 \<longleftrightarrow> ?off mod 4096 \<noteq> 0" using po by (simp only: word_unat_eq_iff unat_0)
  have c: "of_nat n \<le> (4096 :: u64) \<longleftrightarrow> n \<le> 4096" by (simp add: word_le_nat_alt nb)
  have d: "4096 - (?f - ?s) mod 4096 < of_nat n \<longleftrightarrow> 4096 - ?off mod 4096 < n"
    by (simp only: word_less_nat_alt left nb)
  have e: "x + OM_PAGE_BYTES - 1 = x + 4095" for x by simp
  show ?thesis
    using b next_page unfolding bump_object_def Let_def e
    by (simp add: om_okD [OF assms(1)] z c d place_def)
qed

section \<open>The effect of om\_alloc\<close>

text \<open>The tail of \<^verbatim>\<open>om_alloc\<close>: the page loop over \<open>pages\<close> and the new free pointer.\<close>

definition alloc_done ::
  "'a heap_scheme \<Rightarrow> u64 \<Rightarrow> nat \<Rightarrow> mem \<Rightarrow> u64 \<Rightarrow> nat \<Rightarrow> nat \<Rightarrow> 'a heap_scheme" where
  "alloc_done h om i m object ofs n =
     update_om (h\<lparr>memory := m\<rparr>) i
       (fold (alloc_page_entry (\<lambda>p. om_page_start h om (of_nat p)) object (object + of_nat n)
                (ofs div 4096))
          [ofs div 4096 ..< Suc ((ofs + n - 1) div 4096)])"

lemma om_alloc_cases:
  fixes h :: "'a heap_scheme"
  assumes ok: "om_ok h om i" and sz: "unat obj_size < 2 ^ 50"
    and n: "n = request_bytes f obj_size"
    and obj: "object = (case reusable_page h om (of_nat n) of
        Some p \<Rightarrow> om_page_start h om (of_nat p) | None \<Rightarrow> bump_object h om (of_nat n))"
    and ofs: "unat object = unat (om_start (simple_oms h ! i)) + ofs" "ofs < 2 ^ 63"
  shows "om_alloc h om c f obj_size =
    (if unat (om_end (simple_oms h ! i)) < unat object + n then (h, 0)
     else
       let m = write_object (memory h) object c f obj_size (slot_words_for f obj_size);
           m = (if reusable_page h om (of_nat n) = None then m(om := object + of_nat n) else m)
       in (alloc_done h om i m object ofs n, object))"
proof -
  let ?e = "simple_oms h ! i" and ?tb = "(OBJ_HEADER_WORDS + slot_words_for f obj_size) * WORD_BYTES"
  note b = om_ok_bounds [OF ok] and r = om_okD [OF ok]
  have reg: "om_registration_index h om = Some i" "memory h (slot om 1) = om_end ?e"
    using ok by (simp_all add: om_ok_def)
  have nb: "n < 2 ^ 54" "24 \<le> n" using request_bytes_bounds(1) [OF sz] request_bytes_bounds(2) n by simp_all
  have un: "unat (of_nat n :: u64) = n" using nb by (simp add: unat_u64_of_nat)
  have tb: "?tb = of_nat n"
    unfolding word_unat_eq_iff unat_total_bytes(2) [OF sz] n [symmetric] un by (rule refl)
  have nf: "slot object (uint (OBJ_HEADER_WORDS + slot_words_for f obj_size)) = object + of_nat n"
    unfolding slot_def tb [symmetric] by (simp add: mult.commute del: of_int_add)
  have "om_start ?e \<noteq> 0" using b by blast
  then have core: "om_alloc h om c f obj_size =
    (if object + of_nat n > om_end ?e then (h, 0)
     else
       let m = write_object (memory h) object c f obj_size (slot_words_for f obj_size);
           h' = update_om (h\<lparr>memory := m\<rparr>) i
             (fold (alloc_page_entry (\<lambda>p. om_page_start h om (of_nat p)) object (object + of_nat n)
                      (unat (om_page_id_for_address h om object)))
                (page_range (om_page_id_for_address h om object)
                   (om_page_id_for_address h om (object + of_nat n - 1))));
           h' = (if reusable_page h om (of_nat n) = None
                 then h'\<lparr>memory := (memory h')(om := object + of_nat n)\<rparr> else h')
       in (h', object))"
    unfolding om_alloc_def Let_def tb reg obj [symmetric] nf by simp
  have small: "unat object + n < 18446744073709551616" using b(1-3) nb(1) ofs by simp
  then have u: "unat (object + of_nat n) = unat object + n" by (simp add: unat_u64_plus un)
  then have "object + of_nat n \<noteq> 0" using nb by (metis add_is_0 not_numeral_le_zero unat_0)
  then have u1: "unat (object + of_nat n - 1) = unat object + n - 1"
    using u by (simp add: unat_minus_one)
  have fits: "object + of_nat n > om_end ?e \<longleftrightarrow> unat (om_end ?e) < unat object + n"
    unfolding word_less_nat_alt u by (rule refl)
  show ?thesis
  proof (cases "unat (om_end ?e) < unat object + n")
    case False
    have p1: "unat (om_page_id_for_address h om object) = ofs div 4096"
      using False nb ofs
      by (subst page_id_of(2) [OF ok]) (simp_all add: word_le_nat_alt word_less_nat_alt)
    have p2: "unat (om_page_id_for_address h om (object + of_nat n - 1)) = (ofs + n - 1) div 4096"
      using False nb ofs
      by (subst page_id_of(2) [OF ok]) (simp_all add: word_le_nat_alt word_less_nat_alt u1)
    show ?thesis
      using False fits by (simp add: core Let_def page_range_def p1 p2 alloc_done_def update_om_def)
  qed (simp add: core fits)
qed

definition target_object :: "'a heap_scheme \<Rightarrow> u64 \<Rightarrow> nat \<Rightarrow> u64" where
  "target_object h om n = (case reusable_page h om (of_nat n) of
     Some p \<Rightarrow> om_page_start h om (of_nat p) | None \<Rightarrow> bump_object h om (of_nat n))"

lemma find_SomeD: "List.find P xs = Some x \<Longrightarrow> x \<in> set xs \<and> P x"
  by (induction xs) (auto split: if_splits)

lemma reusable_page_bound:
  assumes "om_ok h om i" and "reusable_page h om n = Some p"
  shows "p < unat (page_counts (simple_oms h ! i))"
proof -
  have "om_registration_index h om = Some i" using assms(1) by (simp add: om_ok_def)
  then show ?thesis
    using assms(2) by (auto simp: reusable_page_def Let_def dest!: find_SomeD split: if_splits)
qed

lemma target_object_offset:
  assumes ok: "om_ok h om i" and n: "n < 2 ^ 54"
  obtains ofs where "unat (target_object h om n) = unat (om_start (simple_oms h ! i)) + ofs"
    "ofs < 2 ^ 63"
    "reusable_page h om (of_nat n) = None \<Longrightarrow>
      ofs = place (unat (memory h om) - unat (om_start (simple_oms h ! i))) n"
    "\<And>p. reusable_page h om (of_nat n) = Some p \<Longrightarrow> ofs = 4096 * p"
proof (cases "reusable_page h om (of_nat n)")
  case None
  let ?off = "unat (memory h om) - unat (om_start (simple_oms h ! i))"
  show ?thesis
  proof (rule that [of "place ?off n"])
    show "unat (target_object h om n) = unat (om_start (simple_oms h ! i)) + place ?off n"
      using unat_bump_object [OF ok n] None by (simp add: target_object_def)
    show "place ?off n < 2 ^ 63"
      using place_bounds(2) [of ?off n] om_ok_bounds(2,3) [OF ok] by simp
  qed (use None in simp_all)
next
  case (Some p)
  show ?thesis
  proof (rule that [of "4096 * p"])
    have p: "p < unat (page_counts (simple_oms h ! i))" by (rule reusable_page_bound [OF ok Some])
    then show "unat (target_object h om n) = unat (om_start (simple_oms h ! i)) + 4096 * p"
      using unat_page_start [OF ok p] Some by (simp add: target_object_def)
    show "4096 * p < 2 ^ 63" using p om_ok_bounds(6) [OF ok] by simp
  qed (use Some in simp_all)
qed

lemma alloc_done_simps [simp]:
  "memory (alloc_done h om i m object ofs n) = m"
  "om_registration_index (alloc_done h om i m object ofs n) om' = om_registration_index h om'"
  "gc_contexts (alloc_done h om i m object ofs n) = gc_contexts h"
  "j \<noteq> i \<Longrightarrow> simple_oms (alloc_done h om i m object ofs n) ! j = simple_oms h ! j"
  "length (simple_oms (alloc_done h om i m object ofs n)) = length (simple_oms h)"
  by (simp_all add: alloc_done_def registration_update_om)

lemma alloc_done_entry [simp]:
  assumes "om_ok h om i"
  shows "om_start (simple_oms (alloc_done h om i m object ofs n) ! i) = om_start (simple_oms h ! i)"
    "om_end (simple_oms (alloc_done h om i m object ofs n) ! i) = om_end (simple_oms h ! i)"
    "page_counts (simple_oms (alloc_done h om i m object ofs n) ! i) = page_counts (simple_oms h ! i)"
  using om_okD(4) [OF assms] by (simp_all add: alloc_done_def)

lemma alloc_page_entry_lengths:
  "length (page_used (alloc_page_entry ps os oe sp p e)) = length (page_used e)"
  "length (page_first (alloc_page_entry ps os oe sp p e)) = length (page_first e)"
  "length (page_covering (alloc_page_entry ps os oe sp p e)) = length (page_covering e)"
  "length (page_state (alloc_page_entry ps os oe sp p e)) = length (page_state e)"
  "length (page_reusable (alloc_page_entry ps os oe sp p e)) = length (page_reusable e)"
  by (simp_all add: alloc_page_entry_def Let_def)

lemma entry_ok_fold:
  "entry_ok (fold (alloc_page_entry ps os oe sp) qs e) \<longleftrightarrow> entry_ok e"
proof -
  have "entry_ok (alloc_page_entry ps os oe sp p e) \<longleftrightarrow> entry_ok e" for p e
    by (simp add: entry_ok_def alloc_page_entry_lengths)
  then show ?thesis by (induction qs arbitrary: e) simp_all
qed

lemma om_ok_alloc_done:
  assumes "om_ok h om i" and "m (slot om 1) = memory h (slot om 1)"
    and "om_start (simple_oms h ! i) \<le> m om" and "m om \<le> om_end (simple_oms h ! i)"
  shows "om_ok (alloc_done h om i m object ofs n) om i"
proof -
  have "entry_ok (simple_oms (alloc_done h om i m object ofs n) ! i)"
    using assms(1) om_okD(4) [OF assms(1)] by (simp add: alloc_done_def entry_ok_fold om_ok_def)
  then show ?thesis
    using assms by (simp add: om_ok_def)
qed

text \<open>The words of an object lie in its bytes.\<close>

lemma object_words_in_bytes:
  assumes "n = 8 * k" and "unat object + n < 2 ^ 64" and "j < k"
  shows "unat (slot object (int j)) = unat object + 8 * j"
    "object \<le> slot object (int j)" "unat (slot object (int j)) < unat object + n"
  using assms by (simp_all add: unat_slot word_le_nat_alt)

lemma om_outside:
  assumes "om_ok h om i" and "om_start (simple_oms h ! i) \<le> a" and "a < om_end (simple_oms h ! i)"
  shows "a \<noteq> om" "a \<noteq> slot om 1"
  using assms unfolding om_ok_def by auto

lemma om_alloc_result:
  fixes h :: "'a heap_scheme"
  assumes ok: "om_ok h om i" and sz: "unat obj_size < 2 ^ 50"
    and n: "n = request_bytes f obj_size"
  obtains ofs m where "unat (target_object h om n) = unat (om_start (simple_oms h ! i)) + ofs"
    "ofs < 2 ^ 63"
    "reusable_page h om (of_nat n) = None \<Longrightarrow>
      ofs = place (unat (memory h om) - unat (om_start (simple_oms h ! i))) n"
    "\<And>p. reusable_page h om (of_nat n) = Some p \<Longrightarrow> ofs = 4096 * p"
    "m = (let m = write_object (memory h) (target_object h om n) c f obj_size (slot_words_for f obj_size)
          in if reusable_page h om (of_nat n) = None then m(om := target_object h om n + of_nat n) else m)"
    "om_alloc h om c f obj_size =
      (if unat (om_end (simple_oms h ! i)) < unat (target_object h om n) + n then (h, 0)
       else (alloc_done h om i m (target_object h om n) ofs n, target_object h om n))"
proof -
  have nb: "n < 2 ^ 54" using request_bytes_bounds(1) [OF sz] n by simp
  obtain ofs where ofs: "unat (target_object h om n) = unat (om_start (simple_oms h ! i)) + ofs"
    "ofs < 2 ^ 63"
    "reusable_page h om (of_nat n) = None \<Longrightarrow>
      ofs = place (unat (memory h om) - unat (om_start (simple_oms h ! i))) n"
    "\<And>p. reusable_page h om (of_nat n) = Some p \<Longrightarrow> ofs = 4096 * p"
    using target_object_offset [OF ok nb] by blast
  show ?thesis
    by (rule that [OF ofs refl])
      (simp_all add: om_alloc_cases [OF ok sz n target_object_def ofs(1,2)] Let_def)
qed

lemma om_alloc_null:
  assumes ok: "om_ok h om i" and sz: "unat obj_size < 2 ^ 50" and alloc: "om_alloc h om c f obj_size = (h', 0)"
  shows "h' = h"
proof -
  let ?t = "target_object h om (request_bytes f obj_size)"
  obtain ofs m where t: "unat ?t = unat (om_start (simple_oms h ! i)) + ofs"
    and e: "om_alloc h om c f obj_size =
      (if unat (om_end (simple_oms h ! i)) < unat ?t + request_bytes f obj_size then (h, 0)
       else (alloc_done h om i m ?t ofs (request_bytes f obj_size), ?t))"
    using om_alloc_result [OF ok sz refl] by metis
  have "?t \<noteq> 0" using t om_ok_bounds(5) [OF ok] by (auto simp: unat_eq_zero)
  then show ?thesis using e alloc by (auto split: if_splits)
qed

text \<open>What a successful allocation leaves in memory.\<close>

lemma om_alloc_memory:
  fixes h :: "'a heap_scheme"
  assumes ok: "om_ok h om i" and sz: "unat obj_size < 2 ^ 50"
    and n: "n = request_bytes f obj_size" and k: "k = unat (slot_words_for f obj_size)"
    and alloc: "om_alloc h om c f obj_size = (h', object)" and nonnull: "object \<noteq> 0"
  shows "unat object + n \<le> unat (om_end (simple_oms h ! i))"
    "unat (om_start (simple_oms h ! i)) \<le> unat object"
    "memory h' (slot object 0) = c" "memory h' (slot object 1) = f" "memory h' (slot object 2) = obj_size"
    "\<And>j. j < k \<Longrightarrow> memory h' (slot object (3 + int j)) = 0"
    "\<And>a. a \<noteq> om \<Longrightarrow> (\<And>j. j < 3 + k \<Longrightarrow> a \<noteq> slot object (int j)) \<Longrightarrow> memory h' a = memory h a"
    "om_ok h' om i" "\<And>j. j \<noteq> i \<Longrightarrow> simple_oms h' ! j = simple_oms h ! j"
proof -
  note w = unat_slot_words [OF sz, of f]
  obtain ofs m where r: "unat (target_object h om n) = unat (om_start (simple_oms h ! i)) + ofs"
    and m: "m = (let m = write_object (memory h) (target_object h om n) c f obj_size (slot_words_for f obj_size)
          in if reusable_page h om (of_nat n) = None then m(om := target_object h om n + of_nat n) else m)"
    and e: "om_alloc h om c f obj_size =
      (if unat (om_end (simple_oms h ! i)) < unat (target_object h om n) + n then (h, 0)
       else (alloc_done h om i m (target_object h om n) ofs n, target_object h om n))"
    using om_alloc_result [OF ok sz n] by metis
  show fits: "unat object + n \<le> unat (om_end (simple_oms h ! i))"
    using e alloc nonnull by (simp split: if_splits)
  have t: "target_object h om n = object" and h': "h' = alloc_done h om i m object ofs n"
    using e alloc nonnull by (auto split: if_splits)
  show start: "unat (om_start (simple_oms h ! i)) \<le> unat object" using r t by simp
  have nk: "n = 8 * (3 + k)" using w n k by simp
  have bound: "unat object + n < 2 ^ 64" using fits om_ok_bounds(3) [OF ok] by simp
  have "om_start (simple_oms h ! i) \<le> slot object (int j) \<and> slot object (int j) < om_end (simple_oms h ! i)"
    if "j < 3 + k" for j
    using object_words_in_bytes [OF nk bound that] start fits
    by (simp add: word_le_nat_alt word_less_nat_alt)
  then have ne: "slot object (int j) \<noteq> om" "slot object (int j) \<noteq> slot om 1" if "j < 3 + k" for j
    using om_outside [OF ok] that by blast+
  have k60: "unat (slot_words_for f obj_size) < 2 ^ 60" using w by simp
  note cells = write_object_cell [OF k60, where m = "memory h" and obj = object and c = c and f = f
      and s = obj_size]
  have mem: "memory h' (slot object (int j)) =
      write_object (memory h) object c f obj_size (slot_words_for f obj_size) (slot object (int j))"
    if "j < 3 + k" for j
    using ne(1) [OF that] by (simp add: h' m t Let_def)
  show "memory h' (slot object 0) = c" "memory h' (slot object 1) = f"
    "memory h' (slot object 2) = obj_size"
    using mem [of 0] mem [of 1] mem [of 2] cells by simp_all
  show "memory h' (slot object (3 + int j)) = 0" if "j < k" for j
    using mem [of "3 + j"] cells(4) [of j] that k by simp
  show "memory h' a = memory h a"
    if "a \<noteq> om" and "\<And>j. j < 3 + k \<Longrightarrow> a \<noteq> slot object (int j)" for a
    using write_object_other [OF k60, of a object] that by (simp add: h' m t Let_def k)
  have other: "write_object (memory h) object c f obj_size (slot_words_for f obj_size) a = memory h a"
    if "\<And>j. j < 3 + k \<Longrightarrow> a \<noteq> slot object (int j)" for a
    by (rule write_object_other [OF k60]) (use that k in auto)
  have n64: "unat (of_nat n :: u64) = n" using bound by (simp add: unat_u64_of_nat)
  have nf: "unat (object + of_nat n) = unat object + n"
    using bound by (simp add: unat_u64_plus n64)
  show "om_ok h' om i"
    unfolding h'
  proof (rule om_ok_alloc_done [OF ok])
    have o: "om \<noteq> slot object (int j)" "slot om 1 \<noteq> slot object (int j)" if "j < 3 + k" for j
      using ne [OF that] by auto
    have "slot om 1 \<noteq> om" by (simp add: slot_eq_self_iff)
    then show "m (slot om 1) = memory h (slot om 1)"
      using other o(2) by (simp add: m t Let_def)
    show "om_start (simple_oms h ! i) \<le> m om"
      using other [of om] o(1) start om_ok_bounds(1) [OF ok]
      by (simp add: m t Let_def word_le_nat_alt nf)
    show "m om \<le> om_end (simple_oms h ! i)"
      using other [of om] o(1) fits om_ok_bounds(2) [OF ok]
      by (simp add: m t Let_def word_le_nat_alt nf)
  qed
  show "simple_oms h' ! j = simple_oms h ! j" if "j \<noteq> i" for j using that by (simp add: h')
qed

end
