(* ===== verification/Heap_Layout.thy ===== *)
theory Heap_Layout
  imports Allocation
begin

text \<open>
  The page tables and the walk over objects, against the list of allocated objects. An object is
  its offset from the heap start and its size in bytes; \<open>chained\<close> says each was placed by the
  bump pointer behind its predecessor, \<open>spec_row\<close> what a page's table entries must then be, and
  \<open>layout\<close> that a heap realises such a list.
\<close>

section \<open>The abstract object memory\<close>

fun chained :: "nat \<Rightarrow> (nat \<times> nat) list \<Rightarrow> bool" where
  "chained off [] = True"
| "chained off ((ofs, n) # objs) = (ofs = place off n \<and> 0 < n \<and> chained (ofs + n) objs)"

fun end_of :: "nat \<Rightarrow> (nat \<times> nat) list \<Rightarrow> nat" where
  "end_of off [] = off"
| "end_of off ((ofs, n) # objs) = end_of (ofs + n) objs"

text \<open>The allocator on this level: append behind the last object, or refuse.\<close>

definition abs_alloc :: "nat \<Rightarrow> (nat \<times> nat) list \<Rightarrow> nat \<Rightarrow> (nat \<times> nat) list option" where
  "abs_alloc cap objs n =
     (let ofs = place (end_of 0 objs) n in if ofs + n \<le> cap then Some (objs @ [(ofs, n)]) else None)"

definition covers :: "nat \<Rightarrow> nat \<times> nat \<Rightarrow> bool" where
  "covers p obj = (fst obj < 4096 * (p + 1) \<and> 4096 * p < fst obj + snd obj)"

definition used_in :: "nat \<Rightarrow> nat \<times> nat \<Rightarrow> nat" where
  "used_in p obj = min (fst obj + snd obj) (4096 * (p + 1)) - 4096 * p"

definition address_of :: "u64 \<Rightarrow> (nat \<times> nat) option \<Rightarrow> u64" where
  "address_of start obj = (case obj of None \<Rightarrow> 0 | Some (ofs, _) \<Rightarrow> start + of_nat ofs)"

definition used_of :: "nat \<Rightarrow> (nat \<times> nat) list \<Rightarrow> nat" where
  "used_of p objs = foldl max 0 (map (used_in p) (filter (covers p) objs))"

definition state_of :: "nat \<Rightarrow> (nat \<times> nat) list \<Rightarrow> u8" where
  "state_of p objs = (case List.find (covers p) (rev objs) of None \<Rightarrow> OM_PAGE_STATE_FREE
     | Some (ofs, _) \<Rightarrow> if ofs div 4096 = p then OM_PAGE_STATE_HEAD else OM_PAGE_STATE_CONTINUATION)"

text \<open>A page's row: covering object, first object start, used bytes, state, reusable flag.\<close>

type_synonym row = "u64 \<times> u64 \<times> u64 \<times> u8 \<times> u8"

definition spec_row :: "u64 \<Rightarrow> (nat \<times> nat) list \<Rightarrow> nat \<Rightarrow> row" where
  "spec_row start objs p =
     (address_of start (List.find (covers p) objs),
      address_of start (List.find (\<lambda>obj. fst obj div 4096 = p) objs),
      of_nat (used_of p objs), state_of p objs, 0)"

definition row_of :: "om_entry \<Rightarrow> nat \<Rightarrow> row" where
  "row_of e p = (page_covering e ! p, page_first e ! p, page_used e ! p, page_state e ! p,
     page_reusable e ! p)"

definition layout :: "'a heap_scheme \<Rightarrow> u64 \<Rightarrow> nat \<Rightarrow> (nat \<times> nat) list \<Rightarrow> bool" where
  "layout h om i objs \<longleftrightarrow>
     om_ok h om i \<and> chained 0 objs \<and>
     unat (om_start (simple_oms h ! i)) + end_of 0 objs \<le> unat (om_end (simple_oms h ! i)) \<and>
     memory h om = om_start (simple_oms h ! i) + of_nat (end_of 0 objs) \<and>
     (\<forall>p < unat (page_counts (simple_oms h ! i)).
        row_of (simple_oms h ! i) p = spec_row (om_start (simple_oms h ! i)) objs p) \<and>
     (\<forall>(ofs, n) \<in> set objs. 24 \<le> n \<and>
        unat (om_object_bytes (memory h) (om_start (simple_oms h ! i) + of_nat ofs)) = n)"

section \<open>Chains\<close>

lemma end_of_append [simp]: "end_of off (objs @ objs') = end_of (end_of off objs) objs'"
  by (induction off objs rule: end_of.induct) simp_all

lemma chained_append [simp]:
  "chained off (objs @ objs') \<longleftrightarrow> chained off objs \<and> chained (end_of off objs) objs'"
  by (induction off objs rule: chained.induct) auto

lemma chained_bounds:
  "chained off objs \<Longrightarrow> off \<le> end_of off objs \<and>
    (\<forall>(ofs, n) \<in> set objs. off \<le> ofs \<and> 0 < n \<and> ofs + n \<le> end_of off objs)"
proof (induction off objs rule: chained.induct)
  case (2 off ofs n objs)
  then have IH: "ofs + n \<le> end_of (ofs + n) objs \<and>
      (\<forall>(x, k) \<in> set objs. ofs + n \<le> x \<and> 0 < k \<and> x + k \<le> end_of (ofs + n) objs)"
    by auto
  moreover have "off \<le> ofs" using 2 place_bounds(1) [of off n] by simp
  ultimately show ?case using 2 by fastforce
qed simp

section \<open>Page rows\<close>

definition row_step :: "u64 \<Rightarrow> u64 \<Rightarrow> u64 \<Rightarrow> nat \<Rightarrow> nat \<Rightarrow> row \<Rightarrow> row" where
  "row_step page_start os oe start_page p = (\<lambda>(covering, first, used, state, reusable).
     (let used_end = if oe < page_start + 4096 then oe else page_start + 4096;
          used_bytes = if used_end > page_start then used_end - page_start else 0
      in (if covering = 0 then os else covering,
          if p = start_page \<and> first = 0 then os else first,
          if used < used_bytes then used_bytes else used,
          if p = start_page then 1 else 2, 0)))"

definition tables_length :: "om_entry \<Rightarrow> nat \<Rightarrow> bool" where
  "tables_length e n \<longleftrightarrow> length (page_covering e) = n \<and> length (page_first e) = n \<and>
     length (page_used e) = n \<and> length (page_state e) = n \<and> length (page_reusable e) = n"

lemma row_of_alloc_page_entry:
  assumes "tables_length e c" and "p < c"
  shows "row_of (alloc_page_entry ps os oe sp p e) p = row_step (ps p) os oe sp p (row_of e p)"
    "q \<noteq> p \<Longrightarrow> row_of (alloc_page_entry ps os oe sp p e) q = row_of e q"
    "tables_length (alloc_page_entry ps os oe sp p e) c"
  using assms
  by (simp_all add: row_of_def row_step_def alloc_page_entry_def Let_def tables_length_def)

lemma row_of_fold:
  assumes "tables_length e c" and "distinct qs" and "\<forall>p \<in> set qs. p < c"
  shows "row_of (fold (alloc_page_entry ps os oe sp) qs e) q =
      (if q \<in> set qs then row_step (ps q) os oe sp q (row_of e q) else row_of e q)"
  using assms
proof (induction qs arbitrary: e)
  case (Cons p qs)
  have r: "row_of (alloc_page_entry ps os oe sp p e) q =
      (if q = p then row_step (ps p) os oe sp p (row_of e p) else row_of e q)" for q
    using row_of_alloc_page_entry(1,2) Cons.prems by auto
  have "tables_length (alloc_page_entry ps os oe sp p e) c"
    using row_of_alloc_page_entry(3) Cons.prems by auto
  then show ?case using Cons by (simp add: r)
qed simp

lemma find_append:
  "List.find P (xs @ ys) = (case List.find P xs of None \<Rightarrow> List.find P ys | Some x \<Rightarrow> Some x)"
  by (induction xs) auto

lemma covers_iff:
  assumes "0 < n"
  shows "covers p (ofs, n) \<longleftrightarrow> p \<in> set [ofs div 4096 ..< Suc ((ofs + n - 1) div 4096)]"
proof -
  have "ofs < 4096 * (p + 1) \<longleftrightarrow> ofs div 4096 < p + 1"
    by (metis div_less_iff_less_mult mult.commute zero_less_numeral)
  moreover have "4096 * p \<le> ofs + n - 1 \<longleftrightarrow> p \<le> (ofs + n - 1) div 4096"
    by (metis less_eq_div_iff_mult_less_eq mult.commute zero_less_numeral)
  moreover have "4096 * p < ofs + n \<longleftrightarrow> 4096 * p \<le> ofs + n - 1" using assms by linarith
  ultimately show ?thesis by (simp add: covers_def less_Suc_eq_le del: upt_Suc)
qed

lemma address_of_eq_0:
  assumes "start \<noteq> 0" and "\<And>ofs n. obj = Some (ofs, n) \<Longrightarrow> unat start + ofs < 2 ^ 63"
  shows "address_of start obj = 0 \<longleftrightarrow> obj = None"
proof (cases obj)
  case (Some x)
  obtain ofs n where x: "x = (ofs, n)" by (cases x)
  have b: "unat start + ofs < 2 ^ 63" using assms(2) Some x by simp
  then have "unat (of_nat ofs :: u64) = ofs" by (simp add: unat_u64_of_nat)
  then have "unat (start + of_nat ofs) = unat start + ofs" using b by (simp add: unat_u64_plus)
  moreover have "unat start \<noteq> 0" using assms(1) by (metis unsigned_0 unsigned_eq_0_iff)
  ultimately have "start + of_nat ofs \<noteq> 0" by (metis add_is_0 unat_0)
  then show ?thesis by (simp add: address_of_def Some x)
qed (simp add: address_of_def)

lemma used_of_snoc:
  "used_of p (objs @ [x]) = (if covers p x then max (used_of p objs) (used_in p x) else used_of p objs)"
  by (simp add: used_of_def)

lemma used_of_le: "used_of p objs \<le> 4096"
proof -
  have "foldl max 0 (map (used_in p) objs) \<le> 4096" for objs
    by (induction objs rule: rev_induct) (auto simp: used_in_def)
  then show ?thesis by (simp add: used_of_def)
qed

lemma used_bytes_word:
  fixes page_start :: u64
  assumes "unat page_start = s + 4096 * p" and "unat oe = s + ofs + n"
    and "s + 4096 * p < 2 ^ 63" and "covers p (ofs, n)"
  shows "(let used_end = if oe < page_start + 4096 then oe else page_start + 4096
      in if used_end > page_start then used_end - page_start else 0) = of_nat (used_in p (ofs, n))"
proof -
  have e: "unat (page_start + 4096) = s + 4096 * p + 4096"
    using assms by (simp add: unat_u64_plus)
  let ?stop = "if oe < page_start + 4096 then oe else page_start + 4096"
  have m: "unat ?stop = s + min (ofs + n) (4096 * (p + 1))"
    using assms by (simp add: word_less_nat_alt e)
  have "s + 4096 * p < s + min (ofs + n) (4096 * (p + 1))"
    using assms(4) by (simp add: covers_def)
  then have lt: "page_start < ?stop"
    by (simp only: word_less_nat_alt [of page_start ?stop] m assms(1))
  have "unat (?stop - page_start) = unat ?stop - unat page_start"
    by (rule unat_sub) (rule less_imp_le [OF lt])
  also have "\<dots> = used_in p (ofs, n)"
    unfolding m assms(1) by (simp add: used_in_def)
  also have "\<dots> = unat (of_nat (used_in p (ofs, n)) :: u64)"
    by (simp add: unat_u64_of_nat used_in_def)
  finally have "?stop - page_start = of_nat (used_in p (ofs, n))"
    by (simp only: word_unat_eq_iff)
  then show ?thesis using lt by (simp add: Let_def)
qed

lemma covers_starts: "0 < n \<Longrightarrow> ofs div 4096 = p \<Longrightarrow> covers p (ofs, n)"
  by (auto simp: covers_iff div_le_mono)

lemma find_not_snoc: "\<not> P x \<Longrightarrow> List.find P (xs @ [x]) = List.find P xs"
  by (simp add: find_append split: option.splits)

lemma spec_row_snoc_other:
  assumes "0 < n" and "\<not> covers p (ofs, n)"
  shows "spec_row start (objs @ [(ofs, n)]) p = spec_row start objs p"
proof -
  have "ofs div 4096 \<noteq> p" using assms covers_starts by blast
  then have "List.find (\<lambda>obj. fst obj div 4096 = p) (objs @ [(ofs, n)]) =
      List.find (\<lambda>obj. fst obj div 4096 = p) objs"
    by (intro find_not_snoc) simp
  then show ?thesis
    using assms(2) by (simp add: spec_row_def find_not_snoc used_of_snoc state_of_def)
qed

lemma address_find_snoc:
  assumes "start \<noteq> 0" and "\<forall>(x, k) \<in> set objs. unat start + x < 2 ^ 63"
  shows "address_of start (List.find P (objs @ [(ofs, n)])) =
    (if address_of start (List.find P objs) = 0 \<and> P (ofs, n) then start + of_nat ofs
     else address_of start (List.find P objs))"
proof -
  have "unat start + x < 2 ^ 63" if "List.find P objs = Some (x, k)" for x k
    using find_SomeD [OF that] assms(2) by auto
  then have "address_of start (List.find P objs) = 0 \<longleftrightarrow> List.find P objs = None"
    using address_of_eq_0 [OF assms(1)] by blast
  then show ?thesis
    by (cases "List.find P objs") (simp_all add: find_append address_of_def)
qed

lemma spec_row_snoc:
  assumes start: "start \<noteq> 0" "\<forall>(x, k) \<in> set objs. unat start + x < 2 ^ 63"
    and ps: "unat page_start = unat start + 4096 * p" "unat start + 4096 * p < 2 ^ 63"
    and oe: "unat oe = unat start + ofs + n"
    and c: "covers p (ofs, n)"
  shows "row_step page_start (start + of_nat ofs) oe (ofs div 4096) p (spec_row start objs p) =
    spec_row start (objs @ [(ofs, n)]) p"
proof -
  note ub = used_bytes_word [OF ps(1) oe ps(2) c]
  have "(of_nat (used_of p objs) :: u64) < of_nat (used_in p (ofs, n)) \<longleftrightarrow>
      used_of p objs < used_in p (ofs, n)"
    using used_of_le [of p objs]
    by (simp add: word_less_nat_alt unat_u64_of_nat used_in_def)
  then show ?thesis
    using c by (simp add: row_step_def spec_row_def ub [unfolded Let_def] Let_def
        address_find_snoc [OF start] used_of_snoc state_of_def max_def)
qed

section \<open>Allocation keeps the layout\<close>

lemma layoutD:
  assumes "layout h om i objs"
  shows "om_ok h om i" "chained 0 objs"
    "memory h om = om_start (simple_oms h ! i) + of_nat (end_of 0 objs)"
  using assms by (simp_all add: layout_def)

lemma unat_start_plus:
  assumes "om_ok h om i" and "unat (om_start (simple_oms h ! i)) + k \<le> unat (om_end (simple_oms h ! i))"
  shows "unat (om_start (simple_oms h ! i) + of_nat k) = unat (om_start (simple_oms h ! i)) + k"
proof -
  have "unat (om_end (simple_oms h ! i)) < 2 ^ 62" using om_ok_bounds [OF assms(1)] by blast
  then have "k < 2 ^ 62" using assms(2) by linarith
  then have "unat (of_nat k :: u64) = k" by (simp add: unat_u64_of_nat)
  then show ?thesis using assms(2) unat_u64_less [of "om_end (simple_oms h ! i)"]
    by (simp add: unat_u64_plus)
qed

lemma layout_end:
  assumes "layout h om i objs"
  shows "unat (memory h om) = unat (om_start (simple_oms h ! i)) + end_of 0 objs"
    "unat (om_start (simple_oms h ! i)) + end_of 0 objs \<le> unat (om_end (simple_oms h ! i))"
proof -
  show b: "unat (om_start (simple_oms h ! i)) + end_of 0 objs \<le> unat (om_end (simple_oms h ! i))"
    using assms by (simp add: layout_def)
  show "unat (memory h om) = unat (om_start (simple_oms h ! i)) + end_of 0 objs"
    unfolding layoutD(3) [OF assms] by (rule unat_start_plus [OF layoutD(1) [OF assms] b])
qed

lemma layout_no_reuse:
  assumes "layout h om i objs"
  shows "reusable_page h om n = None"
proof -
  have "om_registration_index h om = Some i" using assms by (simp add: layout_def om_ok_def)
  moreover have "page_reusable (simple_oms h ! i) ! p = 0" if "p < unat (page_counts (simple_oms h ! i))" for p
    using assms that by (simp add: layout_def row_of_def spec_row_def)
  ultimately show ?thesis
    by (auto simp: reusable_page_def Let_def find_None_iff)
qed

lemma layout_object_bounds:
  assumes "layout h om i objs" and "(ofs, n) \<in> set objs"
  shows "ofs + n \<le> end_of 0 objs" "24 \<le> n"
    "unat (om_start (simple_oms h ! i) + of_nat ofs) = unat (om_start (simple_oms h ! i)) + ofs"
    "unat (om_object_bytes (memory h) (om_start (simple_oms h ! i) + of_nat ofs)) = n"
proof -
  show e: "ofs + n \<le> end_of 0 objs"
    using chained_bounds [OF layoutD(2) [OF assms(1)]] assms(2) by blast
  then show "unat (om_start (simple_oms h ! i) + of_nat ofs) = unat (om_start (simple_oms h ! i)) + ofs"
    using layout_end(2) [OF assms(1)] by (intro unat_start_plus [OF layoutD(1) [OF assms(1)]]) simp
  show "24 \<le> n" "unat (om_object_bytes (memory h) (om_start (simple_oms h ! i) + of_nat ofs)) = n"
    using assms by (auto simp: layout_def)
qed

text \<open>The abstract outcome of an allocation, and the new object's place.\<close>

lemma layout_target:
  assumes l: "layout h om i objs" and sz: "unat obj_size < 2 ^ 50" and n: "n = request_bytes f obj_size"
    and ofs: "ofs = place (end_of 0 objs) n"
  shows "unat (target_object h om n) = unat (om_start (simple_oms h ! i)) + ofs"
    "target_object h om n = om_start (simple_oms h ! i) + of_nat ofs"
proof -
  have nb: "n < 2 ^ 54" using request_bytes_bounds(1) [OF sz] n by simp
  show u: "unat (target_object h om n) = unat (om_start (simple_oms h ! i)) + ofs"
    using unat_bump_object [OF layoutD(1) [OF l] nb] layout_end(1) [OF l]
    by (simp add: target_object_def layout_no_reuse [OF l] ofs)
  have "ofs < 2 ^ 63"
    using place_bounds(2) [of "end_of 0 objs" n] layout_end(2) [OF l] om_ok_bounds(3) [OF layoutD(1) [OF l]]
    by (simp add: ofs)
  then have "unat (om_start (simple_oms h ! i) + of_nat ofs) = unat (om_start (simple_oms h ! i)) + ofs"
    using om_ok_bounds(2,3) [OF layoutD(1) [OF l]] om_ok_bounds(1) [OF layoutD(1) [OF l]]
    by (simp add: unat_u64_plus unat_u64_of_nat)
  then show "target_object h om n = om_start (simple_oms h ! i) + of_nat ofs"
    using u by (simp add: word_unat_eq_iff)
qed

lemma page_in_table:
  assumes ok: "om_ok h om i" and "0 < n"
    and fits: "unat (om_start (simple_oms h ! i)) + ofs + n \<le> unat (om_end (simple_oms h ! i))"
    and "covers p (ofs, n)"
  shows "p < unat (page_counts (simple_oms h ! i))"
proof -
  have "4096 * p < ofs + n" using assms(4) by (simp add: covers_def)
  moreover have "ofs + n \<le> 4096 * unat (page_counts (simple_oms h ! i))"
    using fits om_ok_bounds(4) [OF ok] by linarith
  ultimately show ?thesis by linarith
qed

lemma layout_rows_alloc:
  assumes l: "layout h om i objs" and n: "0 < n"
    and fits: "unat (om_start (simple_oms h ! i)) + ofs + n \<le> unat (om_end (simple_oms h ! i))"
    and p: "p < unat (page_counts (simple_oms h ! i))"
    and obj: "object = om_start (simple_oms h ! i) + of_nat ofs"
  shows "row_of (simple_oms (alloc_done h om i m object ofs n) ! i) p =
    spec_row (om_start (simple_oms h ! i)) (objs @ [(ofs, n)]) p"
proof -
  let ?e = "simple_oms h ! i" and ?s = "om_start (simple_oms h ! i)"
  let ?f = "alloc_page_entry (\<lambda>p. om_page_start h om (of_nat p)) object (object + of_nat n) (ofs div 4096)"
  let ?qs = "[ofs div 4096 ..< Suc ((ofs + n - 1) div 4096)]"
  note ok = layoutD(1) [OF l]
  have inr: "q \<in> set ?qs \<longleftrightarrow> covers q (ofs, n)" for q using covers_iff [OF n] by blast
  have tl: "tables_length ?e (unat (page_counts ?e))"
    using ok by (simp add: tables_length_def om_ok_def entry_ok_def)
  have r: "row_of ?e p = spec_row ?s objs p" using l p by (simp add: layout_def)
  have fold: "row_of (fold ?f ?qs ?e) p = (if p \<in> set ?qs
      then row_step (om_page_start h om (of_nat p)) object (object + of_nat n) (ofs div 4096) p (row_of ?e p)
      else row_of ?e p)"
    by (rule row_of_fold [OF tl]) (use inr page_in_table [OF ok n fits] in auto)
  have step: "row_step (om_page_start h om (of_nat p)) object (object + of_nat n) (ofs div 4096) p
      (spec_row ?s objs p) = spec_row ?s (objs @ [(ofs, n)]) p" if c: "covers p (ofs, n)"
    unfolding obj
  proof (rule spec_row_snoc [OF om_ok_bounds(5) [OF ok]])
    show "\<forall>(x, k)\<in>set objs. unat ?s + x < 2 ^ 63"
      using layout_object_bounds(1) [OF l] layout_end(2) [OF l] om_ok_bounds(3) [OF ok] by fastforce
    show "unat (om_page_start h om (of_nat p)) = unat ?s + 4096 * p" by (rule unat_page_start [OF ok p])
    show "unat ?s + 4096 * p < 2 ^ 63" using om_ok_bounds(6) [OF ok] p by simp
    have "?s + of_nat ofs + of_nat n = ?s + of_nat (ofs + n)" by simp
    then show "unat (?s + of_nat ofs + of_nat n) = unat ?s + ofs + n"
      using unat_start_plus [OF ok, of "ofs + n"] fits by (simp only: add.assoc)
  qed (rule c)
  have "row_of (fold ?f ?qs ?e) p = spec_row ?s (objs @ [(ofs, n)]) p"
  proof (cases "covers p (ofs, n)")
    case True
    then show ?thesis unfolding fold inr r using step by simp
  next
    case False
    then show ?thesis unfolding fold inr r using spec_row_snoc_other [OF n False] by simp
  qed
  then show ?thesis using om_okD(4) [OF ok] by (simp add: alloc_done_def)
qed

text \<open>Allocation keeps the bytes of every earlier object, hence their sizes.\<close>

lemma layout_sizes_alloc:
  assumes l: "layout h om i objs" and sz: "unat obj_size < 2 ^ 50" and n: "n = request_bytes f obj_size"
    and alloc: "om_alloc h om c f obj_size = (h', object)" and nonnull: "object \<noteq> 0"
    and ofs: "unat object = unat (om_start (simple_oms h ! i)) + ofs" "end_of 0 objs \<le> ofs"
    and x: "(x, k) \<in> set objs"
  shows "om_object_bytes (memory h') (om_start (simple_oms h ! i) + of_nat x) =
    om_object_bytes (memory h) (om_start (simple_oms h ! i) + of_nat x)"
proof -
  let ?obj = "om_start (simple_oms h ! i) + of_nat x"
  note ok = layoutD(1) [OF l] and ob = layout_object_bounds [OF l x]
  note am = om_alloc_memory [OF ok sz n refl alloc nonnull]
  have nk: "n = 8 * (3 + unat (slot_words_for f obj_size))" using unat_slot_words [OF sz] n by simp
  have keep: "memory h' (slot ?obj (int j)) = memory h (slot ?obj (int j))" if j: "j < 3" for j
  proof (rule am(7))
    have lo: "unat (om_start (simple_oms h ! i)) + x + 24 \<le> unat (om_end (simple_oms h ! i))"
      using ob layout_end(2) [OF l] by linarith
    have u: "unat (slot ?obj (int j)) = unat (om_start (simple_oms h ! i)) + x + 8 * j"
      using j lo om_ok_bounds(3) [OF ok] ob(3) by (subst unat_slot) simp_all
    then show "slot ?obj (int j) \<noteq> om"
      using om_outside(1) [OF ok, of "slot ?obj (int j)"] lo j
      by (simp add: word_le_nat_alt word_less_nat_alt)
    fix q assume q: "q < 3 + unat (slot_words_for f obj_size)"
    have "unat object + n < 2 ^ 64" using am(1) om_ok_bounds(3) [OF ok] by simp
    then have "unat object \<le> unat (slot object (int q))"
      using object_words_in_bytes(2) [OF nk _ q] by (simp add: word_le_nat_alt)
    moreover have "x + 8 * j < ofs" using ob j ofs(2) by linarith
    ultimately show "slot ?obj (int j) \<noteq> slot object (int q)" using u ofs(1) by auto
  qed
  have "OBJ_FORMAT (memory h') ?obj = OBJ_FORMAT (memory h) ?obj"
    "OBJ_SIZE (memory h') ?obj = OBJ_SIZE (memory h) ?obj"
    using keep [of 1] keep [of 2] by (simp_all add: OBJ_FORMAT_def OBJ_SIZE_def)
  then show ?thesis by (simp add: om_object_bytes_def om_object_words_def)
qed

lemma layout_alloc:
  assumes l: "layout h om i objs" and sz: "unat obj_size < 2 ^ 50"
    and alloc: "om_alloc h om c f obj_size = (h', object)"
  shows "case abs_alloc (unat (om_end (simple_oms h ! i)) - unat (om_start (simple_oms h ! i))) objs
        (request_bytes f obj_size) of
      None \<Rightarrow> object = 0 \<and> h' = h
    | Some objs' \<Rightarrow> object = om_start (simple_oms h ! i) + of_nat (fst (last objs')) \<and> object \<noteq> 0 \<and>
        om_start (simple_oms h' ! i) = om_start (simple_oms h ! i) \<and>
        om_end (simple_oms h' ! i) = om_end (simple_oms h ! i) \<and> layout h' om i objs'"
proof -
  define n where n: "n = request_bytes f obj_size"
  define ofs where ofs: "ofs = place (end_of 0 objs) n"
  let ?s = "om_start (simple_oms h ! i)" and ?e = "om_end (simple_oms h ! i)"
  note ok = layoutD(1) [OF l] and t = layout_target [OF l sz n ofs]
  have n24: "24 \<le> n" using request_bytes_bounds(2) n by simp
  obtain ofs' m where r: "unat (target_object h om n) = unat ?s + ofs'"
    and m0: "m = (let m = write_object (memory h) (target_object h om n) c f obj_size (slot_words_for f obj_size)
          in if reusable_page h om (of_nat n) = None then m(om := target_object h om n + of_nat n) else m)"
    and e: "om_alloc h om c f obj_size =
      (if unat ?e < unat (target_object h om n) + n then (h, 0)
       else (alloc_done h om i m (target_object h om n) ofs' n, target_object h om n))"
    using om_alloc_result [OF ok sz n] by metis
  have [simp]: "ofs' = ofs" using r t(1) by simp
  have m: "m om = target_object h om n + of_nat n"
    by (simp add: m0 Let_def layout_no_reuse [OF l])
  show ?thesis
  proof (cases "unat ?e < unat ?s + ofs + n")
    case True
    then have "abs_alloc (unat ?e - unat ?s) objs n = None"
      using n24 by (simp add: abs_alloc_def Let_def flip: ofs)
    then show ?thesis using e alloc t(1) True by (simp flip: n)
  next
    case False
    have a: "abs_alloc (unat ?e - unat ?s) objs n = Some (objs @ [(ofs, n)])"
      using False by (simp add: abs_alloc_def Let_def flip: ofs)
    have nn: "object \<noteq> 0" and h': "h' = alloc_done h om i m object ofs n" and obj: "object = ?s + of_nat ofs"
      using e alloc t False om_ok_bounds(5) [OF ok] by (auto simp: unat_eq_zero split: if_splits)
    have "end_of 0 objs \<le> ofs" using place_bounds(1) ofs by simp
    note am = om_alloc_memory [OF ok sz n refl alloc nn]
    have rows: "row_of (simple_oms h' ! i) p = spec_row ?s (objs @ [(ofs, n)]) p"
      if "p < unat (page_counts (simple_oms h ! i))" for p
      unfolding h' by (rule layout_rows_alloc [OF l _ _ that obj]) (use n24 False in simp_all)
    have size_new: "unat (om_object_bytes (memory h') (?s + of_nat ofs)) = n"
      using am(4,5) unat_total_bytes(2) [OF sz, of f] nn
      by (simp add: om_object_bytes_def om_object_words_def OBJ_FORMAT_def OBJ_SIZE_def n
          slot_words_for_def flip: obj split: if_splits)
    have sizes: "unat (om_object_bytes (memory h') (?s + of_nat x)) = k \<and> 24 \<le> k"
      if "(x, k) \<in> set objs" for x k
      using layout_sizes_alloc [OF l sz n alloc nn _ \<open>end_of 0 objs \<le> ofs\<close> that] t
        layout_object_bounds(2,4) [OF l that] obj by simp
    have free: "memory h' om = ?s + of_nat (ofs + n)"
      using m obj t by (simp add: h')
    have "chained 0 (objs @ [(ofs, n)])" using layoutD(2) [OF l] n24 by (simp add: ofs)
    then have "layout h' om i (objs @ [(ofs, n)])"
      using am(8) rows sizes size_new n24 False free unfolding layout_def
      by (simp add: h' ok) fastforce
    then show ?thesis using a nn obj by (simp add: h' ok flip: n)
  qed
qed

section \<open>The walk over objects\<close>

lemma used_of_ge: "x \<in> set objs \<Longrightarrow> covers p x \<Longrightarrow> used_in p x \<le> used_of p objs"
proof -
  assume "x \<in> set objs" "covers p x"
  moreover have "y \<in> set ys \<Longrightarrow> y \<le> foldl max 0 ys" for y and ys :: "nat list"
    by (induction ys rule: rev_induct) (auto simp: max_def)
  ultimately show ?thesis by (simp add: used_of_def)
qed

lemma used_of_bound:
  assumes "\<And>x. x \<in> set objs \<Longrightarrow> covers p x \<Longrightarrow> used_in p x \<le> b"
  shows "used_of p objs \<le> b"
proof -
  have bnd: "(\<And>y. y \<in> set ys \<Longrightarrow> y \<le> b) \<Longrightarrow> foldl max 0 ys \<le> b" for ys :: "nat list"
    by (induction ys rule: rev_induct) auto
  show ?thesis unfolding used_of_def by (rule bnd) (use assms in auto)
qed

lemma page_split:
  obtains q r where "x = 4096 * q + r" "r < 4096" "x div 4096 = q" "x mod 4096 = (r :: nat)"
  by (rule that [of "x div 4096" "x mod 4096"]) simp_all

lemma chained_split:
  assumes "chained 0 (pre @ (ofs, n) # post)"
  shows "(x, k) \<in> set pre \<Longrightarrow> x + k \<le> ofs" "(x, k) \<in> set post \<Longrightarrow> ofs + n \<le> x"
    "end_of 0 (pre @ (ofs, n) # post) = end_of (ofs + n) post"
    "chained (ofs + n) post" "0 < n"
proof -
  have c: "chained 0 pre" "ofs = place (end_of 0 pre) n" "chained (ofs + n) post" "0 < n"
    using assms by auto
  then show "chained (ofs + n) post" "0 < n" by blast+
  show "x + k \<le> ofs" if "(x, k) \<in> set pre"
    using chained_bounds [OF c(1)] that place_bounds(1) [of "end_of 0 pre" n] c(2) by fastforce
  show "ofs + n \<le> x" if "(x, k) \<in> set post"
    using chained_bounds [OF c(3)] that by fastforce
qed simp

text \<open>The page-table facts that decide where the next object starts.\<close>

lemma next_contiguous:
  assumes "(ofs + n, n') \<in> set objs" and "0 < n'"
  shows "(ofs + n) mod 4096 < used_of ((ofs + n) div 4096) objs"
proof -
  let ?p = "(ofs + n) div 4096"
  have c: "covers ?p (ofs + n, n')" by (rule covers_starts [OF assms(2) refl])
  obtain q r where "ofs + n = 4096 * q + r" "r < 4096" "?p = q" "(ofs + n) mod 4096 = r"
    by (rule page_split)
  then have "(ofs + n) mod 4096 < used_in ?p (ofs + n, n')"
    using assms(2) by (simp add: used_in_def min_def)
  then show ?thesis using used_of_ge [OF assms(1) c] by linarith
qed

lemma next_skipped:
  assumes c: "chained 0 (pre @ (ofs, n) # (ofs', n') # post)" and skip: "ofs' \<noteq> ofs + n"
  shows "ofs' = 4096 * Suc ((ofs + n) div 4096)"
    "used_of ((ofs + n) div 4096) (pre @ (ofs, n) # (ofs', n') # post) \<le> (ofs + n) mod 4096"
    "List.find (\<lambda>obj. fst obj div 4096 = Suc ((ofs + n) div 4096)) (pre @ (ofs, n) # (ofs', n') # post)
      = Some (ofs', n')"
proof -
  let ?p = "(ofs + n) div 4096"
  note sp = chained_split [OF c]
  have pl: "ofs' = place (ofs + n) n'" using sp(4) by simp
  then have ne: "(ofs + n) mod 4096 \<noteq> 0" and o0: "ofs' = 4096 * ((ofs + n + 4095) div 4096)"
    using skip by (auto simp: place_def split: if_splits)
  obtain q r where qr: "ofs + n = 4096 * q + r" "r < 4096" "?p = q" "(ofs + n) mod 4096 = r"
    by (rule page_split)
  then have "(ofs + n + 4095) div 4096 = Suc ?p"
    using ne by (intro div_nat_eqI) simp_all
  then show o': "ofs' = 4096 * Suc ?p" using o0 by simp
  have lt: "ofs + n < ofs'"
    using o' qr by simp
  show "used_of ?p (pre @ (ofs, n) # (ofs', n') # post) \<le> (ofs + n) mod 4096"
  proof (rule used_of_bound)
    fix x assume x: "x \<in> set (pre @ (ofs, n) # (ofs', n') # post)" and cov: "covers ?p x"
    obtain a k where a: "x = (a, k)" by (cases x)
    have "a < ofs'" using cov o' by (simp add: covers_def a)
    then have "(a, k) \<in> set pre \<or> (a, k) = (ofs, n)"
      using x sp(4) chained_bounds [of "ofs' + n'" post] by (fastforce simp: a)
    then have "a + k \<le> ofs + n" using sp(1) [of a k] by auto
    then have "used_in ?p x \<le> ofs + n - 4096 * ?p" by (simp add: used_in_def a)
    then show "used_in ?p x \<le> (ofs + n) mod 4096" using qr by simp
  qed
  have "a div 4096 \<noteq> Suc ?p" if "a \<le> ofs + n" for a
    using div_le_mono [OF that, of 4096] by simp
  moreover have "a \<le> ofs + n" if "(a, k) \<in> set pre" for a k
    using sp(1) [OF that] by linarith
  ultimately have "List.find (\<lambda>obj. fst obj div 4096 = Suc ?p) pre = None"
    by (auto simp: find_None_iff)
  moreover have "ofs div 4096 \<noteq> Suc ?p" using div_le_mono [of ofs "ofs + n" 4096] by simp
  ultimately show "List.find (\<lambda>obj. fst obj div 4096 = Suc ?p) (pre @ (ofs, n) # (ofs', n') # post)
      = Some (ofs', n')"
    by (simp add: find_append o')
qed

lemma layout_rowD:
  assumes "layout h om i objs" and "p < unat (page_counts (simple_oms h ! i))"
  shows "page_used (simple_oms h ! i) ! p = of_nat (used_of p objs)"
    "page_first (simple_oms h ! i) ! p =
      address_of (om_start (simple_oms h ! i)) (List.find (\<lambda>obj. fst obj div 4096 = p) objs)"
proof -
  have "row_of (simple_oms h ! i) p = spec_row (om_start (simple_oms h ! i)) objs p"
    using assms by (simp add: layout_def)
  then show "page_used (simple_oms h ! i) ! p = of_nat (used_of p objs)"
    "page_first (simple_oms h ! i) ! p =
      address_of (om_start (simple_oms h ! i)) (List.find (\<lambda>obj. fst obj div 4096 = p) objs)"
    by (simp_all add: row_of_def spec_row_def)
qed

lemma om_page_used_bytes_eq:
  assumes "layout h om i objs" and "p < unat (page_counts (simple_oms h ! i))" and "unat page_id = p"
  shows "om_page_used_bytes h om page_id = of_nat (used_of p objs)"
proof -
  have "om_registration_index h om = Some i" using layoutD(1) [OF assms(1)] by (simp add: om_ok_def)
  then show ?thesis
    using assms(2,3) layout_rowD(1) [OF assms(1,2)]
    by (simp add: om_page_used_bytes_def page_table_get_def word_le_nat_alt)
qed

text \<open>\<^verbatim>\<open>om_next_object\<close> up to its page-table search.\<close>

lemma next_object_unfold:
  assumes l: "layout h om i objs" and x: "(ofs, n) \<in> set objs"
    and lt: "ofs + n < end_of 0 objs"
  defines "p \<equiv> (ofs + n) div 4096"
  shows "om_next_object h om (om_start (simple_oms h ! i) + of_nat ofs) =
    (if (ofs + n) mod 4096 < used_of p objs then om_start (simple_oms h ! i) + of_nat (ofs + n)
     else case List.find (\<lambda>page_id. page_first (simple_oms h ! i) ! page_id \<noteq> 0)
         [Suc p ..< unat (page_counts (simple_oms h ! i))] of
       None \<Rightarrow> 0 | Some page_id \<Rightarrow> page_first (simple_oms h ! i) ! page_id)"
proof -
  let ?s = "om_start (simple_oms h ! i)"
  let ?next = "?s + of_nat (ofs + n)"
  note ok = layoutD(1) [OF l] and ob = layout_object_bounds [OF l x]
  have reg: "om_registration_index h om = Some i" using ok by (simp add: om_ok_def)
  have u: "unat ?next = unat ?s + (ofs + n)"
    using layout_end(2) [OF l] lt by (intro unat_start_plus [OF ok]) simp
  have obj: "?s + of_nat ofs \<noteq> 0"
    using ob(3) om_ok_bounds(5) [OF ok] by (metis add_is_0 unsigned_0 unsigned_eq_0_iff)
  have "om_object_bytes (memory h) (?s + of_nat ofs) = of_nat n"
    using ob(4) by (metis of_nat_unat_word)
  then have nxt: "?s + of_nat ofs + om_object_bytes (memory h) (?s + of_nat ofs) = ?next"
    by simp
  have below: "\<not> ?next \<ge> memory h om"
    using u layout_end(1) [OF l] lt by (simp add: word_le_nat_alt)
  have inr: "?s \<le> ?next" "?next < om_end (simple_oms h ! i)"
    using u layout_end(2) [OF l] lt by (simp_all add: word_le_nat_alt word_less_nat_alt)
  note pg = page_id_of [OF ok inr]
  have up: "unat (om_page_id_for_address h om ?next) = p" using pg(2) u by (simp add: p_def)
  have pc: "p < unat (page_counts (simple_oms h ! i))"
    using om_ok_bounds(4) [OF ok] inr u by (simp add: p_def word_less_nat_alt less_mult_imp_div_less)
  have "om_page_id_for_address h om ?next = of_nat p" using up by (metis of_nat_unat_word)
  then have ps: "unat (om_page_start h om (om_page_id_for_address h om ?next)) = unat ?s + 4096 * p"
    using unat_page_start [OF ok pc] by simp
  have d: "unat (?next - om_page_start h om (om_page_id_for_address h om ?next)) = (ofs + n) mod 4096"
    using u ps by (subst unat_sub) (simp_all add: word_le_nat_alt p_def minus_mult_div_eq_mod)
  have uu: "unat (of_nat (used_of p objs) :: u64) = used_of p objs"
    using used_of_le [of p objs] by (simp add: unat_u64_of_nat)
  have cmp: "?next - om_page_start h om (om_page_id_for_address h om ?next)
      < om_page_used_bytes h om (om_page_id_for_address h om ?next) \<longleftrightarrow>
      (ofs + n) mod 4096 < used_of p objs"
    by (simp only: word_less_nat_alt om_page_used_bytes_eq [OF l pc up] d uu)
  show ?thesis
    unfolding om_next_object_def Let_def nxt if_not_P [OF obj] if_not_P [OF below] if_not_P [OF pg(3)]
      cmp reg up by simp
qed

lemma find_first: "a < b \<Longrightarrow> P a \<Longrightarrow> List.find P [a ..< b] = Some a"
  by (simp add: upt_conv_Cons)

lemma next_object_last:
  assumes l: "layout h om i objs" and x: "(ofs, n) \<in> set objs" and e: "end_of 0 objs = ofs + n"
  shows "om_next_object h om (om_start (simple_oms h ! i) + of_nat ofs) = 0"
proof -
  have "om_object_bytes (memory h) (om_start (simple_oms h ! i) + of_nat ofs) = of_nat n"
    using layout_object_bounds(4) [OF l x] by (rule of_nat_unat_word)
  then have "om_start (simple_oms h ! i) + of_nat ofs +
      om_object_bytes (memory h) (om_start (simple_oms h ! i) + of_nat ofs) = memory h om"
    using layoutD(3) [OF l] e by simp
  then show ?thesis by (simp add: om_next_object_def)
qed

lemma next_object_next:
  assumes l: "layout h om i objs" and objs: "objs = pre @ (ofs, n) # (ofs', n') # post"
  shows "om_next_object h om (om_start (simple_oms h ! i) + of_nat ofs) =
    om_start (simple_oms h ! i) + of_nat ofs'"
proof -
  let ?s = "om_start (simple_oms h ! i)" and ?p = "(ofs + n) div 4096"
  note c = layoutD(2) [OF l, unfolded objs] and ok = layoutD(1) [OF l]
  note sp = chained_split [OF c]
  have x: "(ofs, n) \<in> set objs" and x': "(ofs', n') \<in> set objs" by (simp_all add: objs)
  have n': "0 < n'" using sp(4) by simp
  have le: "ofs' + n' \<le> end_of 0 objs" by (rule layout_object_bounds(1) [OF l x'])
  have ge: "ofs + n \<le> ofs'" using sp(2) [of ofs' n'] by simp
  note un = next_object_unfold [OF l x order.strict_trans2 [OF _ le]]
  show ?thesis
  proof (cases "ofs' = ofs + n")
    case True
    then show ?thesis using un next_contiguous [of ofs n n' objs] x' n' ge by simp
  next
    case False
    note sk = next_skipped [OF c False]
    have pc: "Suc ?p < unat (page_counts (simple_oms h ! i))"
      by (rule page_in_table [OF ok n', where ofs = ofs'])
        (use sk(1) n' le layout_end(2) [OF l] in \<open>auto simp: covers_def\<close>)
    have f: "page_first (simple_oms h ! i) ! Suc ?p = ?s + of_nat ofs'"
      using layout_rowD(2) [OF l pc] sk(3) by (simp add: objs address_of_def)
    moreover have "?s + of_nat ofs' \<noteq> 0"
      using layout_object_bounds(3) [OF l x'] om_ok_bounds(5) [OF ok]
      by (metis add_is_0 unsigned_0 unsigned_eq_0_iff)
    ultimately have "List.find (\<lambda>p. page_first (simple_oms h ! i) ! p \<noteq> 0)
        [Suc ?p ..< unat (page_counts (simple_oms h ! i))] = Some (Suc ?p)"
      by (intro find_first [OF pc]) simp
    then show ?thesis using un sk(2) f n' ge by (simp add: objs del: upt_Suc)
  qed
qed

section \<open>A fresh object memory\<close>

lemma unat_page_count:
  assumes "unat n < 2 ^ 61"
  shows "unat ((n + OM_PAGE_BYTES - 1) div OM_PAGE_BYTES) = (unat n + 4095) div 4096"
proof -
  have "n + OM_PAGE_BYTES - 1 = n + 4095" by simp
  moreover have "unat (4095 + n) = unat n + 4095" using assms by (simp add: unat_u64_plus)
  ultimately show ?thesis by (simp add: unat_div)
qed

lemma fresh_om_entry_ok:
  assumes "buffer \<noteq> 0" and "unat buffer + unat n < 2 ^ 61"
  shows "entry_ok (fresh_om_entry om buffer n)"
    "om_start (fresh_om_entry om buffer n) = buffer" "om_end (fresh_om_entry om buffer n) = buffer + n"
    "simple_om (fresh_om_entry om buffer n) = om"
proof -
  have u: "unat (buffer + n) = unat buffer + unat n" using assms(2) by (simp add: unat_u64_plus)
  have n: "unat n < 2 ^ 61" using assms(2) by simp
  have "4096 * ((unat n + 4095) div 4096) \<le> unat n + 4095" by simp
  then have "unat buffer + 4096 * ((unat n + 4095) div 4096) < 2 ^ 62" using assms(2) by simp
  then show "entry_ok (fresh_om_entry om buffer n)"
    using assms(1) u
    by (simp add: entry_ok_def fresh_om_entry_def Let_def unat_page_count [OF n, simplified])
qed (simp_all add: fresh_om_entry_def Let_def)

lemma layout_om_init:
  fixes h :: "'a heap_scheme"
  assumes "buffer \<noteq> 0" and "unat buffer + unat n < 2 ^ 61"
    and out: "om < buffer \<or> buffer + n \<le> om" "slot om 1 < buffer \<or> buffer + n \<le> slot om 1"
    and room: "om_registration_index h om \<noteq> None \<or> length (simple_oms h) < MAX_REGISTERED_GC_CONTEXTS"
  obtains i where "layout (om_init h buffer n om) om i []"
    "simple_oms (om_init h buffer n om) ! i = fresh_om_entry om buffer n"
proof -
  let ?e = "fresh_om_entry om buffer n" and ?h' = "om_init h buffer n om"
  note fe = fresh_om_entry_ok [OF assms(1,2), where om = om]
  obtain i where i: "om_registration_index ?h' om = Some i" "simple_oms ?h' ! i = ?e"
  proof (cases "om_registration_index h om")
    case (Some j)
    then have "j < length (simple_oms h)" "index_where (\<lambda>e. simple_om e = om) (simple_oms h) = Some j"
      using index_where_SomeD unfolding om_registration_index_def by fast+
    then show ?thesis
      using Some fe(4) that [of j]
      by (simp add: om_init_def Let_def om_registration_index_def index_where_update)
  next
    case None
    then show ?thesis
      using room fe(4) that [of "length (simple_oms h)"]
      by (simp add: om_init_def Let_def om_registration_index_def index_where_append)
  qed
  have mem: "memory ?h' om = buffer" "memory ?h' (slot om 1) = buffer + n"
    by (auto simp: om_init_def Let_def slot_eq_self_iff split: option.splits)
  have u: "unat (buffer + n) = unat buffer + unat n" using assms(2) by (simp add: unat_u64_plus)
  have ok: "om_ok ?h' om i"
    using i mem fe out u by (simp add: om_ok_def word_le_nat_alt)
  have "row_of ?e p = spec_row buffer [] p" if "p < unat (page_counts ?e)" for p
    using that by (simp add: row_of_def spec_row_def fresh_om_entry_def Let_def address_of_def
        used_of_def state_of_def)
  then have "layout ?h' om i []"
    using ok i mem fe u by (simp add: layout_def)
  then show ?thesis using that i(2) by blast
qed

end
