(* ===== verification/Symbols.thy ===== *)
theory Symbols
  imports Machine Heap_Layout
begin

text \<open>
  The rest of \<^verbatim>\<open>src/c/primitives.c\<close> apart from the durable log and the contexts: the symbol table,
  the Smalltalk dictionary, the queries on classes and methods, strings and file descriptors.
\<close>

section \<open>Selectors as tokens\<close>

definition selector_token_from_cstring :: "u8 list \<Rightarrow> u64" where
  "selector_token_from_cstring selector =
     (let hash = foldl fnv32_byte_step 2166136261 (until_nul selector)
      in tag_smallint (ucast (hash AND 0x1FFFFFFF)))"

definition cannot_return_selector_oop :: u64 where
  "cannot_return_selector_oop = selector_token_from_cstring (c_string ''cannotReturn:'')"

section \<open>Byte objects\<close>

definition get_byte_obj_data :: "mem \<Rightarrow> u64 \<Rightarrow> u8 list \<times> u64" where
  "get_byte_obj_data m obj = (object_bytes m obj, OBJ_SIZE m obj)"

definition copy_oop_bytes_to_cstring :: "mem \<Rightarrow> u64 \<Rightarrow> u64 \<Rightarrow> u8 list option" where
  "copy_oop_bytes_to_cstring m oop buffer_size =
     (if \<not> is_object_ptr oop \<or> buffer_size = 0 then None
      else if OBJ_FORMAT m oop \<noteq> FORMAT_BYTES \<or> OBJ_SIZE m oop \<ge> buffer_size then None
      else Some (until_nul (object_bytes m oop)))"

section \<open>Method dictionaries and the Smalltalk dictionary\<close>

definition method_dict_size :: "mem \<Rightarrow> u64 \<Rightarrow> u64" where
  "method_dict_size m method_dict_oop =
     (if \<not> is_object_ptr method_dict_oop then 0 else OBJ_SIZE m method_dict_oop)"

text \<open>The loop steps by two while the index is below the size, so an odd size reads one more slot.\<close>

definition method_dict_lookup_local :: "mem \<Rightarrow> u64 \<Rightarrow> u64 \<Rightarrow> u64" where
  "method_dict_lookup_local m method_dict selector =
     (if \<not> is_object_ptr method_dict then 0
      else case List.find (\<lambda>i. OBJ_FIELD m method_dict (of_nat (2 * i)) = selector)
                  [0..<(unat (OBJ_SIZE m method_dict) + 1) div 2] of
             None \<Rightarrow> 0
           | Some i \<Rightarrow> OBJ_FIELD m method_dict (of_nat (2 * i) + 1))"

text \<open>The associations object and the tally of the Smalltalk dictionary.\<close>

definition smalltalk_dictionary_bindings :: "vm \<Rightarrow> (u64 \<times> u64) option" where
  "smalltalk_dictionary_bindings s =
     (if smalltalk_dictionary s = 0 then None
      else
        let associations_oop = OBJ_FIELD (memory s) (smalltalk_dictionary s) 0;
            tally_oop = OBJ_FIELD (memory s) (smalltalk_dictionary s) 1
        in if \<not> is_object_ptr associations_oop \<or> \<not> is_smallint tally_oop then None
           else Some (associations_oop, untag_smallint tally_oop))"

text \<open>The first association whose field \<open>probe\<close> is the given value; the result is its field \<open>answer\<close>.\<close>

definition find_association :: "mem \<Rightarrow> u64 \<Rightarrow> u64 \<Rightarrow> u64 \<Rightarrow> u64 \<Rightarrow> u64 \<Rightarrow> u64" where
  "find_association m associations tally probe wanted answer =
     (case List.find (\<lambda>i. let assoc = OBJ_FIELD m associations (of_nat i)
                          in is_object_ptr assoc \<and> OBJ_FIELD m assoc probe = wanted)
             [0..<unat tally] of
        None \<Rightarrow> TAGGED_NIL
      | Some i \<Rightarrow> OBJ_FIELD m (OBJ_FIELD m associations (of_nat i)) answer)"

definition smalltalk_find_association_by_key :: "vm \<Rightarrow> u64 \<Rightarrow> u64" where
  "smalltalk_find_association_by_key s key =
     (if \<not> is_object_ptr key then TAGGED_NIL
      else case smalltalk_dictionary_bindings s of
        None \<Rightarrow> TAGGED_NIL
      | Some (associations, tally) \<Rightarrow> find_association (memory s) associations tally 0 key 1)"

definition smalltalk_find_association_by_value :: "vm \<Rightarrow> u64 \<Rightarrow> u64" where
  "smalltalk_find_association_by_value s val =
     (if \<not> is_object_ptr val then TAGGED_NIL
      else case smalltalk_dictionary_bindings s of
        None \<Rightarrow> TAGGED_NIL
      | Some (associations, tally) \<Rightarrow> find_association (memory s) associations tally 1 val 0)"

section \<open>The symbol table\<close>

text \<open>The first symbol of the table with exactly these bytes.\<close>

definition symbol_matches :: "mem \<Rightarrow> u8 list \<Rightarrow> u64 \<Rightarrow> bool" where
  "symbol_matches m text symbol_obj \<longleftrightarrow>
     is_object_ptr symbol_obj \<and> OBJ_SIZE m symbol_obj = of_nat (length text) \<and>
     bytes_of m (slot symbol_obj 3) (length text) = text"

definition find_symbol :: "mem \<Rightarrow> u64 \<Rightarrow> u8 list \<Rightarrow> u64 option" where
  "find_symbol m table text =
     map_option (\<lambda>i. OBJ_FIELD m table (of_nat i))
       (List.find (\<lambda>i. symbol_matches m text (OBJ_FIELD m table (of_nat i)))
          [0..<unat (OBJ_SIZE m table)])"

definition free_symbol_slot :: "mem \<Rightarrow> u64 \<Rightarrow> u64 \<Rightarrow> nat option" where
  "free_symbol_slot m table table_size =
     List.find (\<lambda>i. OBJ_FIELD m table (of_nat i) = TAGGED_NIL) [0..<unat table_size]"

definition lookup_cstring_symbol :: "vm \<Rightarrow> u8 list \<Rightarrow> u64" where
  "lookup_cstring_symbol s text =
     (if symbol_table s = 0 \<or> symbol_class s = 0 then TAGGED_NIL
      else case find_symbol (memory s) (symbol_table s) (until_nul text) of
        None \<Rightarrow> TAGGED_NIL | Some symbol_obj \<Rightarrow> symbol_obj)"

definition intern_cstring_symbol :: "u64 \<Rightarrow> u8 list \<Rightarrow> vm \<Rightarrow> vm \<times> u64" where
  "intern_cstring_symbol om text s =
     (if symbol_table s = 0 \<or> symbol_class s = 0 then (s, TAGGED_NIL)
      else
        let existing = lookup_cstring_symbol s text
        in if existing \<noteq> TAGGED_NIL then (s, existing)
           else
             let text = until_nul text;
                 table_size = OBJ_SIZE (memory s) (symbol_table s);
                 (s, symbol_obj) = om_alloc s om (symbol_class s) FORMAT_BYTES (of_nat (length text))
             in if symbol_obj = 0 then (s, TAGGED_NIL)
                else
                  let m = put_bytes (memory s) (slot symbol_obj 3) text
                  in case free_symbol_slot m (symbol_table s) table_size of
                       None \<Rightarrow> (s\<lparr>memory := m\<rparr>, TAGGED_NIL)
                     | Some i \<Rightarrow>
                         (s\<lparr>memory := set_field m (symbol_table s) (of_nat i) symbol_obj\<rparr>, symbol_obj))"

text \<open>The receiver itself becomes the symbol when none has its bytes.\<close>

definition prim_string_as_symbol :: "u64 \<Rightarrow> vm \<Rightarrow> vm \<times> u64" where
  "prim_string_as_symbol receiver s =
     (if \<not> is_object_ptr receiver then (s, TAGGED_NIL)
      else if symbol_table s = 0 \<or> symbol_class s = 0 then (s, TAGGED_NIL)
      else
        let m = memory s; (bytes, recv_size) = get_byte_obj_data m receiver;
            table_size = OBJ_SIZE m (symbol_table s)
        in case find_symbol m (symbol_table s) bytes of
             Some existing_symbol \<Rightarrow> (s, existing_symbol)
           | None \<Rightarrow>
               (case free_symbol_slot m (symbol_table s) table_size of
                  None \<Rightarrow> (s, TAGGED_NIL)
                | Some i \<Rightarrow>
                    (s\<lparr>memory := set_field (m(slot receiver 0 := symbol_class s))
                                   (symbol_table s) (of_nat i) receiver\<rparr>, receiver)))"

section \<open>Classes and methods\<close>

definition smalltalk_lookup_global_value :: "vm \<Rightarrow> u8 list \<Rightarrow> u64" where
  "smalltalk_lookup_global_value s name =
     (let key = lookup_cstring_symbol s name
      in if key = TAGGED_NIL then TAGGED_NIL else smalltalk_find_association_by_key s key)"

definition class_name_symbol_for_class :: "vm \<Rightarrow> u64 \<Rightarrow> u64" where
  "class_name_symbol_for_class s class_oop = smalltalk_find_association_by_value s class_oop"

definition prim_class_superclass :: "mem \<Rightarrow> u64 \<Rightarrow> u64" where
  "prim_class_superclass m receiver =
     (if \<not> is_object_ptr receiver then TAGGED_NIL else OBJ_FIELD m receiver CLASS_SUPERCLASS)"

definition prim_class_name :: "vm \<Rightarrow> u64 \<Rightarrow> u64" where
  "prim_class_name s receiver = class_name_symbol_for_class s receiver"

definition prim_class_includes_selector :: "mem \<Rightarrow> u64 \<Rightarrow> u64 \<Rightarrow> u64" where
  "prim_class_includes_selector m receiver selector =
     (if \<not> is_object_ptr receiver \<or> \<not> is_object_ptr selector then TAGGED_FALSE
      else if method_dict_lookup_local m (OBJ_FIELD m receiver CLASS_METHOD_DICT) selector \<noteq> 0
      then TAGGED_TRUE else TAGGED_FALSE)"

definition prim_class_instance_variable_names :: "mem \<Rightarrow> u64 \<Rightarrow> u64" where
  "prim_class_instance_variable_names m receiver =
     (if \<not> is_object_ptr receiver then TAGGED_NIL else OBJ_FIELD m receiver CLASS_INST_VARS)"

definition prim_smalltalk_globals :: "vm \<Rightarrow> u64" where
  "prim_smalltalk_globals s =
     (if smalltalk_dictionary s = 0 then TAGGED_NIL else smalltalk_dictionary s)"

definition prim_method_source_for_class_selector :: "vm \<Rightarrow> u64 \<Rightarrow> u64 \<Rightarrow> u64" where
  "prim_method_source_for_class_selector s class_name selector =
     (case copy_oop_bytes_to_cstring (memory s) class_name 64 of
        None \<Rightarrow> TAGGED_NIL
      | Some class_name_text \<Rightarrow>
          let klass = smalltalk_lookup_global_value s class_name_text
          in if \<not> is_object_ptr klass then TAGGED_NIL
             else
               let method = method_dict_lookup_local (memory s)
                              (OBJ_FIELD (memory s) klass CLASS_METHOD_DICT) selector
               in if \<not> is_object_ptr method then TAGGED_NIL
                  else
                    let source = OBJ_FIELD (memory s) method CM_SOURCE
                    in if is_object_ptr source then source else TAGGED_NIL)"

section \<open>File descriptors\<close>

text \<open>
  \<^verbatim>\<open>read\<close> answers with its result after the interrupted calls, at most the requested bytes. A
  negative count is refused, so that \<open>requested\<close> is not negative as a signed number.
\<close>

definition prim_read_fd_count :: "u64 \<Rightarrow> u64 \<Rightarrow> u64 \<Rightarrow> vm \<Rightarrow> vm \<times> u64" where
  "prim_read_fd_count fd count om s =
     (if \<not> is_smallint fd \<or> \<not> is_smallint count then (s, TAGGED_NIL)
      else
        let requested = untag_smallint count
        in if sint requested < 0 then (s, TAGGED_NIL)
           else
             let string_class = smalltalk_lookup_global_value s (c_string ''String'')
             in if string_class = 0 \<or> \<not> is_object_ptr string_class then (s, TAGGED_NIL)
                else
                  let (s, string) = om_alloc s om string_class FORMAT_BYTES requested
                  in if string = 0 then (s, TAGGED_NIL)
                     else if requested = 0 then (s, string)
                     else case read_answer (os_now s) of
                       None \<Rightarrow> (os_next s, TAGGED_NIL)
                     | Some bytes \<Rightarrow>
                         let bytes = take (unat requested) bytes; s = os_next s
                         in if bytes = [] then (s, TAGGED_NIL)
                            else (s\<lparr>memory := (put_bytes (memory s) (slot string 3) bytes)
                                     (slot string 2 := of_nat (length bytes))\<rparr>, string))"

text \<open>The write loop: what is left to write, the results of the calls, what has been written.\<close>

fun write_loop :: "u8 list \<Rightarrow> write_result list \<Rightarrow> u8 list \<Rightarrow> u8 list \<times> bool" where
  "write_loop bytes answers written =
     (if bytes = [] then (written, True)
      else case answers of
        [] \<Rightarrow> (written @ bytes, True)
      | Interrupted # answers \<Rightarrow> write_loop bytes answers written
      | Write_failed # answers \<Rightarrow> (written, False)
      | Wrote n # answers \<Rightarrow>
          if n = 0 then (written, False)
          else write_loop (drop n bytes) answers (written @ take n bytes))"

declare write_loop.simps [simp del]

definition prim_write_fd_string :: "u64 \<Rightarrow> u64 \<Rightarrow> vm \<Rightarrow> vm \<times> u64" where
  "prim_write_fd_string fd string s =
     (if \<not> is_smallint fd \<or> \<not> is_object_ptr string then (s, TAGGED_NIL)
      else if OBJ_FORMAT (memory s) string \<noteq> FORMAT_BYTES then (s, TAGGED_NIL)
      else
        let bytes = object_bytes (memory s) string;
            (written, ok) = write_loop bytes (write_answers (os_now s)) [];
            s = os_next (s\<lparr>console := console s @ [(scast (ucast (untag_smallint fd) :: u32), written)]\<rparr>)
        in (s, if ok then tag_smallint (OBJ_SIZE (memory s) string) else TAGGED_NIL))"

section \<open>Strings and symbols\<close>

definition prim_string_eq :: "mem \<Rightarrow> u64 \<Rightarrow> u64 \<Rightarrow> u64" where
  "prim_string_eq m receiver arg =
     (if \<not> is_object_ptr receiver \<or> \<not> is_object_ptr arg then TAGGED_FALSE
      else
        let (recv_data, recv_size) = get_byte_obj_data m receiver;
            (arg_data, arg_size) = get_byte_obj_data m arg
        in if recv_size \<noteq> arg_size then TAGGED_FALSE
           else if recv_data = arg_data then TAGGED_TRUE else TAGGED_FALSE)"

definition prim_string_hash_fnv :: "mem \<Rightarrow> u64 \<Rightarrow> u64" where
  "prim_string_hash_fnv m receiver =
     (if \<not> is_object_ptr receiver then tag_smallint 0
      else
        let (data, data_size) = get_byte_obj_data m receiver
        in tag_smallint (ucast (foldl fnv32_byte_step 0x811C9DC5 data)))"

definition prim_symbol_eq :: "u64 \<Rightarrow> u64 \<Rightarrow> u64" where
  "prim_symbol_eq receiver arg = (if receiver = arg then TAGGED_TRUE else TAGGED_FALSE)"

end
