(* ===== verification/Tokens.thy ===== *)
theory Tokens
  imports Symbols
begin

text \<open>
  The tokenizer of the bootstrap compiler (\<^verbatim>\<open>src/c/bootstrap_compiler.c\<close>): the tokens, the scanner
  over a C string, and the one-token lookahead of its parsers. Source text is the list of
  characters before the terminator; reading at or past the end gives the terminator \<open>NUL\<close>. The
  buffers of a token hold 511 characters and the terminator. \<^verbatim>\<open>int64_t\<close> values are 64-bit words.
\<close>

section \<open>Tokens\<close>

datatype BTokenType =
    BTOK_EOF
  | BTOK_IDENTIFIER
  | BTOK_KEYWORD
  | BTOK_INTEGER
  | BTOK_CHARACTER
  | BTOK_STRING
  | BTOK_SYMBOL
  | BTOK_SELECTOR
  | BTOK_BLOCK_LITERAL
  | BTOK_LITERAL_ARRAY
  | BTOK_CLASS_REF
  | BTOK_SPECIAL

record BToken =
  token_type :: BTokenType
  token_text :: string
  int_value :: u64

record BTokenizer =
  source :: string
  index :: nat

definition NUL :: char where
  "NUL = CHR 0x00"

text \<open>The tests of \<^verbatim>\<open>ctype.h\<close> in the C locale.\<close>

definition isdigit :: "char \<Rightarrow> bool" where
  "isdigit c \<longleftrightarrow> (let n = of_char c :: nat in 48 \<le> n \<and> n \<le> 57)"

definition isalpha :: "char \<Rightarrow> bool" where
  "isalpha c \<longleftrightarrow> (let n = of_char c :: nat in 65 \<le> n \<and> n \<le> 90 \<or> 97 \<le> n \<and> n \<le> 122)"

definition isalnum :: "char \<Rightarrow> bool" where
  "isalnum c \<longleftrightarrow> isalpha c \<or> isdigit c"

definition isspace :: "char \<Rightarrow> bool" where
  "isspace c \<longleftrightarrow> (let n = of_char c :: nat in n = 32 \<or> 9 \<le> n \<and> n \<le> 13)"

definition is_binary_selector_char :: "char \<Rightarrow> bool" where
  "is_binary_selector_char c \<longleftrightarrow> c \<in> set ''+-*/<>=~&|@%,?''"

text \<open>The blanks between tokens: space, tab, newline, carriage return.\<close>

definition is_blank :: "char \<Rightarrow> bool" where
  "is_blank c \<longleftrightarrow> c = CHR '' '' \<or> c = CHR 0x09 \<or> c = CHR 0x0A \<or> c = CHR 0x0D"

section \<open>The scanner\<close>

definition char_at :: "string \<Rightarrow> nat \<Rightarrow> char" where
  "char_at s i = (if i < length s then s ! i else NUL)"

definition peek :: "BTokenizer \<Rightarrow> char" where
  "peek t = char_at (source t) (index t)"

definition advance :: "BTokenizer \<Rightarrow> char \<times> BTokenizer" where
  "advance t = (let c = peek t in (c, if c \<noteq> NUL then t\<lparr>index := Suc (index t)\<rparr> else t))"

text \<open>
  \<open>scan P\<close> is the loop \<^verbatim>\<open>while (P(peek(t))) c = advance(t)\<close>: the characters it consumes and the
  tokenizer after it. No test it is used with accepts the terminator.
\<close>

definition scan :: "(char \<Rightarrow> bool) \<Rightarrow> BTokenizer \<Rightarrow> string \<times> BTokenizer" where
  "scan P t = (let cs = takeWhile P (drop (index t) (source t)) in (cs, t\<lparr>index := index t + length cs\<rparr>))"

definition skip_comment :: "BTokenizer \<Rightarrow> BTokenizer" where
  "skip_comment t =
     (let (_, t) = advance t;
          (_, t) = scan (\<lambda>c. c \<noteq> NUL \<and> c \<noteq> CHR 0x22) t
      in if peek t = CHR 0x22 then snd (advance t) else t)"

lemma index_advance: "index (snd (advance t)) = (if peek t = NUL then index t else Suc (index t))"
  by (simp add: advance_def Let_def)

lemma source_advance [simp]: "source (snd (advance t)) = source t"
  by (simp add: advance_def Let_def)

lemma source_scan [simp]: "source (snd (scan P t)) = source t"
  by (simp add: scan_def Let_def)

lemma index_scan: "index t \<le> index (snd (scan P t))"
  by (simp add: scan_def Let_def)

lemma peek_bound: "peek t \<noteq> NUL \<Longrightarrow> index t < length (source t)"
  by (simp add: peek_def char_at_def split: if_splits)

lemma index_skip_comment:
  assumes "peek t = CHR 0x22"
  shows "index t < index (skip_comment t)"
proof -
  let ?a = "snd (advance t)"
  let ?b = "snd (scan (\<lambda>c. c \<noteq> NUL \<and> c \<noteq> CHR 0x22) ?a)"
  have "index t < index ?a" using assms by (simp add: index_advance NUL_def)
  also have "index ?a \<le> index ?b" by (rule index_scan)
  also have "index ?b \<le> index (skip_comment t)"
    by (simp add: skip_comment_def Let_def index_advance split: prod.split)
  finally show ?thesis .
qed

function skip_whitespace :: "BTokenizer \<Rightarrow> BTokenizer" where
  "skip_whitespace t =
     (if is_blank (peek t) then skip_whitespace (snd (advance t))
      else if peek t = CHR 0x22 then skip_whitespace (skip_comment t)
      else t)"
  by auto

lemma source_skip_comment [simp]: "source (skip_comment t) = source t"
  by (simp add: skip_comment_def Let_def split: prod.split) (metis source_advance source_scan snd_conv)

lemma blank_not_NUL: "is_blank c \<Longrightarrow> c \<noteq> NUL"
  by (auto simp: is_blank_def NUL_def)

termination skip_whitespace
proof (relation "measure (\<lambda>t. length (source t) - index t)")
  fix t
  assume "is_blank (peek t)"
  then show "(snd (advance t), t) \<in> measure (\<lambda>t. length (source t) - index t)"
    using peek_bound [of t] by (auto simp: index_advance dest: blank_not_NUL)
next
  fix t
  assume "\<not> is_blank (peek t)" "peek t = CHR 0x22"
  then show "(skip_comment t, t) \<in> measure (\<lambda>t. length (source t) - index t)"
    using peek_bound [of t] index_skip_comment [of t] by (auto simp: NUL_def)
qed simp

declare skip_whitespace.simps [simp del]

definition make_token :: "BTokenType \<Rightarrow> BToken" where
  "make_token type = \<lparr>token_type = type, token_text = '''', int_value = 0\<rparr>"

text \<open>What a token buffer takes of a text: \<^verbatim>\<open>sizeof(token.text) - 1\<close> characters.\<close>

definition TOKEN_TEXT_SIZE :: nat where
  "TOKEN_TEXT_SIZE = 512"

definition text_token :: "BTokenType \<Rightarrow> string \<Rightarrow> BToken" where
  "text_token type s = (make_token type)\<lparr>token_text := take (TOKEN_TEXT_SIZE - 1) s\<rparr>"

definition digit_value :: "char \<Rightarrow> u64" where
  "digit_value c = of_char c - 48"

text \<open>The value of a number wraps at 64 bits; in C the overflow of the signed product is undefined.\<close>

definition decimal_value :: "string \<Rightarrow> u64" where
  "decimal_value ds = foldl (\<lambda>v c. v * 10 + digit_value c) 0 ds"

definition is_word_char :: "char \<Rightarrow> bool" where
  "is_word_char c \<longleftrightarrow> isalnum c \<or> c = CHR ''_''"

definition is_symbol_char :: "char \<Rightarrow> bool" where
  "is_symbol_char c \<longleftrightarrow> isalnum c \<or> c = CHR ''_'' \<or> c = CHR '':''"

text \<open>The characters of a string literal behind its opening quote; a doubled quote stands for one.\<close>

function scan_string :: "BTokenizer \<Rightarrow> string \<times> BTokenizer" where
  "scan_string t =
     (if peek t = NUL then ('''', t)
      else
        let c = peek t; t1 = snd (advance t)
        in if c = CHR 0x27 then
             (if peek t1 = CHR 0x27 then
                let (cs, t') = scan_string (snd (advance t1)) in (CHR 0x27 # cs, t')
              else ('''', t1))
           else let (cs, t') = scan_string t1 in (c # cs, t'))"
  by auto

termination scan_string
  by (relation "measure (\<lambda>t. length (source t) - index t)")
    (auto simp: index_advance NUL_def intro!: diff_less_mono2 peek_bound [unfolded NUL_def])

declare scan_string.simps [simp del]

section \<open>Reading one token\<close>

definition bt_init :: "string \<Rightarrow> BTokenizer" where
  "bt_init s = \<lparr>source = s, index = 0\<rparr>"

definition integer_token :: "BTokenizer \<Rightarrow> BToken \<times> BTokenizer" where
  "integer_token t =
     (let (ds, t) = scan isdigit t
      in ((text_token BTOK_INTEGER ds)\<lparr>int_value := decimal_value ds\<rparr>, t))"

definition character_token :: "BTokenizer \<Rightarrow> BToken \<times> BTokenizer" where
  "character_token t =
     (let (_, t) = advance t;
          (c, t) = advance t
      in if c = NUL then (make_token BTOK_EOF, t)
         else ((make_token BTOK_CHARACTER)\<lparr>token_text := [c], int_value := of_char c\<rparr>, t))"

definition word_token :: "BTokenizer \<Rightarrow> BToken \<times> BTokenizer" where
  "word_token t =
     (let (cs, t) = scan is_word_char t
      in if peek t = CHR '':'' then
           let (c, t) = advance t in (text_token BTOK_KEYWORD (cs @ [c]), t)
         else (text_token BTOK_IDENTIFIER cs, t))"

definition string_token :: "BTokenizer \<Rightarrow> BToken \<times> BTokenizer" where
  "string_token t =
     (let (_, t) = advance t;
          (cs, t) = scan_string t
      in (text_token BTOK_STRING cs, t))"

definition symbol_token :: "BTokenizer \<Rightarrow> BToken \<times> BTokenizer" where
  "symbol_token t =
     (let (_, t) = advance t;
          (cs, t) = scan (if is_symbol_char (peek t) then is_symbol_char else is_binary_selector_char) t
      in (text_token BTOK_SYMBOL cs, t))"

definition two_char_token :: "BTokenizer \<Rightarrow> BToken \<times> BTokenizer" where
  "two_char_token t =
     (let (a, t) = advance t; (b, t) = advance t in (text_token BTOK_SPECIAL [a, b], t))"

definition special_token :: "BTokenizer \<Rightarrow> BToken \<times> BTokenizer" where
  "special_token t =
     (if peek t = CHR '':'' \<and> char_at (source t) (index t + 1) = CHR ''='' then two_char_token t
      else let (c, t) = advance t in (text_token BTOK_SPECIAL [c], t))"

definition bt_next :: "BTokenizer \<Rightarrow> BToken \<times> BTokenizer" where
  "bt_next t =
     (let t = skip_whitespace t; c = peek t
      in if c = NUL then (make_token BTOK_EOF, t)
         else if isdigit c then integer_token t
         else if c = CHR ''$'' then character_token t
         else if isalpha c \<or> c = CHR ''_'' then word_token t
         else if c = CHR 0x27 then string_token t
         else if c = CHR ''#'' then
           (if char_at (source t) (index t + 1) = CHR ''('' then two_char_token t else symbol_token t)
         else special_token t)"

text \<open>The decimal text of a number, as \<^verbatim>\<open>%d\<close> prints it.\<close>

fun decimal_text :: "nat \<Rightarrow> string" where
  "decimal_text n =
     (if n < 10 then [char_of (48 + n)] else decimal_text (n div 10) @ [char_of (48 + n mod 10)])"

declare decimal_text.simps [simp del]

section \<open>Parsers: one token of lookahead\<close>

record BParser =
  tokenizer :: BTokenizer
  buffered :: "BToken option"

definition bp_init :: "string \<Rightarrow> BParser" where
  "bp_init s = \<lparr>tokenizer = bt_init s, buffered = None\<rparr>"

definition bp_next :: "BParser \<Rightarrow> BToken \<times> BParser" where
  "bp_next p =
     (case buffered p of
        Some token \<Rightarrow> (token, p\<lparr>buffered := None\<rparr>)
      | None \<Rightarrow> let (token, t) = bt_next (tokenizer p) in (token, p\<lparr>tokenizer := t\<rparr>))"

definition bp_unread :: "BToken \<Rightarrow> BParser \<Rightarrow> BParser" where
  "bp_unread token p = p\<lparr>buffered := Some token\<rparr>"

text \<open>The tests \<^verbatim>\<open>token.type == BTOK_SPECIAL && strcmp(token.text, s) == 0\<close> and the like.\<close>

definition is_special_text :: "BToken \<Rightarrow> string \<Rightarrow> bool" where
  "is_special_text token s \<longleftrightarrow> token_type token = BTOK_SPECIAL \<and> token_text token = s"

definition is_binary_token :: "BToken \<Rightarrow> bool" where
  "is_binary_token token \<longleftrightarrow>
     token_type token = BTOK_SPECIAL \<and> length (token_text token) = 1 \<and>
     is_binary_selector_char (hd (token_text token))"

definition is_terminator :: "BToken \<Rightarrow> bool" where
  "is_terminator token \<longleftrightarrow> is_special_text token ''.'' \<or> is_special_text token '')'' \<or> is_special_text token '']''"

section \<open>Reading moves forward\<close>

text \<open>\<open>later t t'\<close>: \<open>t'\<close> is \<open>t\<close> after reading some characters.\<close>

definition later :: "BTokenizer \<Rightarrow> BTokenizer \<Rightarrow> bool" where
  "later t t' \<longleftrightarrow> source t' = source t \<and> index t \<le> index t' \<and>
     (index t \<le> length (source t) \<longrightarrow> index t' \<le> length (source t))"

named_theorems later_intros \<open>functions that read forward\<close>

lemma later_refl [later_intros]: "later t t"
  by (simp add: later_def)

lemma later_trans: "later t t' \<Longrightarrow> later t' t'' \<Longrightarrow> later t t''"
  by (auto simp: later_def)

lemma later_advance [later_intros]: "later t (snd (advance t))"
  using peek_bound [of t] by (auto simp: later_def index_advance)

lemma length_takeWhile_drop: "i \<le> length s \<Longrightarrow> i + length (takeWhile P (drop i s)) \<le> length s"
  using length_takeWhile_le [of P "drop i s"] by simp

lemma later_scan [later_intros]: "later t (snd (scan P t))"
  by (auto simp: later_def scan_def Let_def length_takeWhile_drop)

lemma later_skip_comment [later_intros]: "later t (skip_comment t)"
proof -
  let ?a = "snd (advance t)"
  let ?b = "snd (scan (\<lambda>c. c \<noteq> NUL \<and> c \<noteq> CHR 0x22) ?a)"
  have "later t ?b" by (rule later_trans [OF later_advance later_scan])
  then have "later t (if peek ?b = CHR 0x22 then snd (advance ?b) else ?b)"
    using later_trans [OF _ later_advance] by simp
  then show ?thesis by (simp add: skip_comment_def Let_def split_def)
qed

lemma later_skip_whitespace [later_intros]: "later t (skip_whitespace t)"
proof (induction t rule: skip_whitespace.induct)
  case (1 t)
  show ?case
    using 1 later_trans [OF later_advance [of t]] later_trans [OF later_skip_comment [of t]] later_refl
    by (subst skip_whitespace.simps) auto
qed

lemma later_scan_string [later_intros]: "later t (snd (scan_string t))"
proof (induction t rule: scan_string.induct)
  case (1 t)
  let ?t1 = "snd (advance t)"
  consider "peek t = NUL" | "peek t = CHR 0x27" "peek ?t1 = CHR 0x27" | "peek t = CHR 0x27" "peek ?t1 \<noteq> CHR 0x27"
    | "peek t \<noteq> NUL" "peek t \<noteq> CHR 0x27" by blast
  then show ?case
  proof cases
    case 1
    then show ?thesis by (simp add: scan_string.simps [of t] later_refl)
  next
    case 2
    have "later t (snd (scan_string (snd (advance ?t1))))"
      using "1.IH"(1) [OF _ refl refl] 2 later_trans [OF later_trans [OF later_advance later_advance]]
      by (simp add: NUL_def)
    then show ?thesis using 2 by (simp add: scan_string.simps [of t] NUL_def Let_def split_def)
  next
    case 3
    then show ?thesis by (simp add: scan_string.simps [of t] NUL_def Let_def later_advance)
  next
    case 4
    have "later t (snd (scan_string ?t1))"
      using "1.IH"(2) [OF _ refl refl] 4 later_trans [OF later_advance] by simp
    then show ?thesis using 4 by (simp add: scan_string.simps [of t] Let_def split_def)
  qed
qed

text \<open>A token that is not the end of the text consumes at least one character.\<close>

lemma later_special_token: "later t (snd (special_token t))"
  using later_trans [OF later_advance later_advance]
  by (simp add: special_token_def two_char_token_def Let_def split_def later_advance)

lemma later_tokens [later_intros]:
  "later t (snd (integer_token t))" "later t (snd (character_token t))" "later t (snd (word_token t))"
  "later t (snd (string_token t))" "later t (snd (symbol_token t))" "later t (snd (two_char_token t))"
proof -
  show "later t (snd (integer_token t))"
    by (simp add: integer_token_def Let_def split_def later_scan)
  show "later t (snd (character_token t))"
    using later_trans [OF later_advance later_advance] by (simp add: character_token_def Let_def split_def)
  show "later t (snd (word_token t))"
    using later_scan later_trans [OF later_scan later_advance]
    by (simp add: word_token_def Let_def split_def)
  show "later t (snd (string_token t))"
    using later_trans [OF later_advance later_scan_string] by (simp add: string_token_def Let_def split_def)
  show "later t (snd (symbol_token t))"
    using later_trans [OF later_advance later_scan] by (simp add: symbol_token_def Let_def split_def)
  show "later t (snd (two_char_token t))"
    using later_trans [OF later_advance later_advance] by (simp add: two_char_token_def Let_def split_def)
qed

lemma later_bt_next [later_intros]: "later t (snd (bt_next t))"
proof -
  let ?t = "skip_whitespace t"
  have "later ?t (snd (bt_next t))"
    by (simp add: bt_next_def Let_def later_tokens later_special_token later_refl)
  then show ?thesis by (rule later_trans [OF later_skip_whitespace])
qed

lemma scan_moves:
  assumes "P (peek t)" and "peek t \<noteq> NUL"
  shows "index t < index (snd (scan P t))"
proof -
  have i: "index t < length (source t)" by (rule peek_bound [OF assms(2)])
  then have "drop (index t) (source t) = peek t # drop (Suc (index t)) (source t)"
    by (simp add: Cons_nth_drop_Suc peek_def char_at_def)
  then show ?thesis using assms(1) by (simp add: scan_def Let_def)
qed

lemma moves_then: "index t < index t' \<Longrightarrow> later t' t'' \<Longrightarrow> index t < index t''"
  by (simp add: later_def)

lemma advance_moves: "peek t \<noteq> NUL \<Longrightarrow> later (snd (advance t)) t' \<Longrightarrow> index t < index t'"
  by (simp add: index_advance later_def)

lemma word_token_moves: "is_word_char (peek t) \<Longrightarrow> peek t \<noteq> NUL \<Longrightarrow> index t < index (snd (word_token t))"
  using scan_moves [of is_word_char t] moves_then [OF scan_moves [of is_word_char t] later_advance]
  by (simp add: word_token_def Let_def split_def)

lemma tokens_move:
  assumes "peek t \<noteq> NUL"
  shows "isdigit (peek t) \<Longrightarrow> index t < index (snd (integer_token t))"
    "index t < index (snd (character_token t))" "index t < index (snd (string_token t))"
    "index t < index (snd (symbol_token t))" "index t < index (snd (two_char_token t))"
    "index t < index (snd (special_token t))"
proof -
  note moves = advance_moves [OF assms]
  show "isdigit (peek t) \<Longrightarrow> index t < index (snd (integer_token t))"
    using scan_moves [of isdigit t] assms by (simp add: integer_token_def Let_def split_def)
  show "index t < index (snd (character_token t))"
    using moves [OF later_advance] by (simp add: character_token_def Let_def split_def)
  show "index t < index (snd (string_token t))"
    using moves [OF later_scan_string] by (simp add: string_token_def Let_def split_def)
  show "index t < index (snd (symbol_token t))"
    using moves [OF later_scan] by (simp add: symbol_token_def Let_def split_def)
  show two: "index t < index (snd (two_char_token t))"
    using moves [OF later_advance] by (simp add: two_char_token_def Let_def split_def)
  show "index t < index (snd (special_token t))"
    using two moves [OF later_refl] by (simp add: special_token_def Let_def split_def)
qed

lemma bt_next_moves:
  assumes "token_type (fst (bt_next t)) \<noteq> BTOK_EOF"
  shows "index t < index (snd (bt_next t))"
proof -
  let ?t = "skip_whitespace t"
  have c: "peek ?t \<noteq> NUL" using assms by (auto simp: bt_next_def make_token_def Let_def)
  have w: "isalpha (peek ?t) \<or> peek ?t = CHR ''_'' \<Longrightarrow> index ?t < index (snd (word_token ?t))"
    by (rule word_token_moves [OF _ c]) (auto simp: is_word_char_def isalnum_def)
  have "index ?t < index (snd (bt_next t))"
    using tokens_move [OF c] w c by (simp add: bt_next_def Let_def)
  then show ?thesis using later_skip_whitespace [of t] by (simp add: later_def)
qed

end
