(* ===== verification/Lsp_Text.thy ===== *)
theory Lsp_Text
  imports Tokens
begin

text \<open>
  The text layer of the language server (\<^verbatim>\<open>tools/smalltalk_lsp.c\<close>): C strings and the string
  buffer, JSON strings written and read, URIs and file names, positions and tokens in a document,
  and the framing of messages on the streams. A C string is the list of its characters before the
  terminator. \<^verbatim>\<open>malloc\<close> and \<^verbatim>\<open>realloc\<close> are taken to succeed; what the code leaves undefined in C is
  a result of its own.
\<close>

section \<open>Results\<close>

text \<open>
  \<open>Undefined\<close>: the code reads outside a string, follows a null pointer or frees memory twice.
  \<open>Exited\<close>: it calls \<^verbatim>\<open>exit\<close>. \<open>Stuck\<close>: a loop over a cyclic chain of superclasses does not end.
\<close>

datatype 'a result =
    Returned 'a
  | Undefined
  | Exited nat
  | Stuck

fun result_then :: "'a result \<Rightarrow> ('a \<Rightarrow> 'b result) \<Rightarrow> 'b result" where
  "result_then (Returned v) k = k v"
| "result_then Undefined k = Undefined"
| "result_then (Exited n) k = Exited n"
| "result_then Stuck k = Stuck"

section \<open>The C library\<close>

text \<open>\<^verbatim>\<open>strstr\<close> and \<^verbatim>\<open>strchr\<close>: the text from the first match on. (\<^verbatim>\<open>strchr\<close> for a character that is not the terminator.)\<close>

fun strstr :: "string \<Rightarrow> string \<Rightarrow> string option" where
  "strstr [] pattern = (if pattern = [] then Some [] else None)"
| "strstr (c # cs) pattern =
     (if take (length pattern) (c # cs) = pattern then Some (c # cs) else strstr cs pattern)"

fun strchr :: "string \<Rightarrow> char \<Rightarrow> string option" where
  "strchr [] c = None"
| "strchr (d # ds) c = (if d = c then Some (d # ds) else strchr ds c)"

text \<open>What \<^verbatim>\<open>snprintf\<close> and \<^verbatim>\<open>strncpy\<close> leave in a buffer of a given size.\<close>

definition cut :: "nat \<Rightarrow> string \<Rightarrow> string" where
  "cut capacity s = take (capacity - 1) s"

definition isupper :: "char \<Rightarrow> bool" where
  "isupper c \<longleftrightarrow> (let n = of_char c :: nat in 65 \<le> n \<and> n \<le> 90)"

definition isxdigit :: "char \<Rightarrow> bool" where
  "isxdigit c \<longleftrightarrow> isdigit c \<or> (let n = of_char c :: nat in 65 \<le> n \<and> n \<le> 70 \<or> 97 \<le> n \<and> n \<le> 102)"

text \<open>Numbers as \<^verbatim>\<open>%zu\<close>, \<^verbatim>\<open>%d\<close> print them, and a digit of \<^verbatim>\<open>%02X\<close> and \<^verbatim>\<open>%04x\<close>.\<close>

fun print_nat :: "nat \<Rightarrow> string" where
  "print_nat n = (if n < 10 then [char_of (48 + n)] else print_nat (n div 10) @ [char_of (48 + n mod 10)])"

declare print_nat.simps [simp del]

definition print_int :: "int \<Rightarrow> string" where
  "print_int i = (if i < 0 then CHR ''-'' # print_nat (nat (- i)) else print_nat (nat i))"

definition hex_digit :: "nat \<Rightarrow> nat \<Rightarrow> char" where
  "hex_digit ten n = (if n < 10 then char_of (48 + n) else char_of (ten + n - 10))"

definition hex_upper :: "nat \<Rightarrow> char" where
  "hex_upper = hex_digit 65"

definition hex_lower :: "nat \<Rightarrow> char" where
  "hex_lower = hex_digit 97"

text \<open>
  \<^verbatim>\<open>strtol\<close> and \<^verbatim>\<open>strtoull\<close> with base 10: blanks, a sign, digits; \<open>None\<close> when there is no number.
  A value out of range is the nearest one of the type.
\<close>

definition digits_value :: "string \<Rightarrow> nat" where
  "digits_value ds = foldl (\<lambda>n c. n * 10 + (of_char c - 48)) 0 ds"

definition scan_number :: "string \<Rightarrow> (bool \<times> nat) option" where
  "scan_number s =
     (let s = dropWhile isspace s;
          negative = (char_at s 0 = CHR ''-'');
          digits = takeWhile isdigit (if negative \<or> char_at s 0 = CHR ''+'' then drop 1 s else s)
      in if digits = [] then None else Some (negative, digits_value digits))"

definition strtol :: "string \<Rightarrow> int option" where
  "strtol s =
     map_option (\<lambda>(negative, n). max (- (2 ^ 63)) (min (2 ^ 63 - 1) (if negative then - int n else int n)))
       (scan_number s)"

definition strtoull :: "string \<Rightarrow> u64" where
  "strtoull s =
     (case scan_number s of
        None \<Rightarrow> 0
      | Some (negative, n) \<Rightarrow>
          if n \<ge> 2 ^ 64 then - 1 else if negative then - of_nat n else of_nat n)"

section \<open>The string buffer\<close>

text \<open>
  \<open>None\<close> is the null \<^verbatim>\<open>data\<close> of a buffer nothing was appended to. Appending, even of the empty
  text, allocates it. \<open>sb_reserve\<close> gives the capacity after it.
\<close>

type_synonym string_buffer = "string option"

function sb_grow :: "nat \<Rightarrow> nat \<Rightarrow> nat" where
  "sb_grow capacity needed =
     (if capacity = 0 \<or> needed \<le> capacity then capacity else sb_grow (2 * capacity) needed)"
  by auto
termination
  by (relation "measure (\<lambda>(capacity, needed). needed - capacity)") auto

declare sb_grow.simps [simp del]

definition sb_reserve :: "nat \<Rightarrow> nat \<Rightarrow> nat" where
  "sb_reserve capacity needed =
     (if needed \<le> capacity then capacity else sb_grow (if capacity = 0 then 256 else capacity) needed)"

definition sb_init :: string_buffer where
  "sb_init = None"

definition sb_append :: "string_buffer \<Rightarrow> string \<Rightarrow> string_buffer" where
  "sb_append buffer text = Some (case buffer of None \<Rightarrow> text | Some data \<Rightarrow> data @ text)"

section \<open>JSON strings\<close>

definition backslash :: char where
  "backslash = CHR 0x5C"

definition quote :: char where
  "quote = CHR 0x22"

fun json_char :: "char \<Rightarrow> string" where
  "json_char ch =
     (if ch = backslash then [backslash, backslash]
      else if ch = quote then [backslash, quote]
      else if ch = CHR 0x0A then [backslash, CHR ''n'']
      else if ch = CHR 0x0D then [backslash, CHR ''r'']
      else if ch = CHR 0x09 then [backslash, CHR ''t'']
      else if (of_char ch :: nat) < 32 then
        [backslash, CHR ''u'', CHR ''0'', CHR ''0'', hex_lower (of_char ch div 16), hex_lower (of_char ch mod 16)]
      else [ch])"

declare json_char.simps [simp del]

definition json_string :: "string \<Rightarrow> string" where
  "json_string text = [quote] @ concat (map json_char text) @ [quote]"

definition sb_append_json_string :: "string_buffer \<Rightarrow> string \<Rightarrow> string_buffer" where
  "sb_append_json_string buffer text =
     sb_append (foldl (\<lambda>b ch. sb_append b (json_char ch)) (sb_append buffer [quote]) text) [quote]"

definition hex_value :: "char \<Rightarrow> int" where
  "hex_value c =
     (let n = of_char c :: int
      in if 48 \<le> n \<and> n \<le> 57 then n - 48
         else if 97 \<le> n \<and> n \<le> 102 then 10 + n - 97
         else if 65 \<le> n \<and> n \<le> 70 then 10 + n - 65
         else -1)"

text \<open>The character of two hexadecimal digits, \<^verbatim>\<open>(char)((hi << 4) | lo)\<close>.\<close>

definition hex_char :: "char \<Rightarrow> char \<Rightarrow> char" where
  "hex_char hi lo = char_of (nat (hex_value hi * 16 + hex_value lo))"

text \<open>
  The loop of \<^verbatim>\<open>extract_json_string_value\<close> behind the opening quote. Only \<^verbatim>\<open>\u00XX\<close> is decoded, any
  other code point is a question mark.
\<close>

definition unicode_char :: "string \<Rightarrow> char" where
  "unicode_char ds =
     (if ds ! 0 = CHR ''0'' \<and> ds ! 1 = CHR ''0'' then hex_char (ds ! 2) (ds ! 3) else CHR ''?'')"

fun decode_json_string :: "string_buffer \<Rightarrow> string \<Rightarrow> string_buffer option" where
  "decode_json_string decoded [] = None"
| "decode_json_string decoded (c # cs) =
     (if c = quote then Some decoded
      else if c \<noteq> backslash then decode_json_string (sb_append decoded [c]) cs
      else case cs of
             [] \<Rightarrow> None
           | e # rest \<Rightarrow>
               if e = quote \<or> e = backslash \<or> e = CHR ''/'' then decode_json_string (sb_append decoded [e]) rest
               else if e = CHR ''n'' then decode_json_string (sb_append decoded [CHR 0x0A]) rest
               else if e = CHR ''r'' then decode_json_string (sb_append decoded [CHR 0x0D]) rest
               else if e = CHR ''t'' then decode_json_string (sb_append decoded [CHR 0x09]) rest
               else if e = CHR ''u'' then
                 if length rest \<ge> 4 \<and> list_all isxdigit (take 4 rest)
                 then decode_json_string (sb_append decoded [unicode_char rest]) (drop 4 rest)
                 else None
               else None)"

text \<open>
  The value behind the first textual occurrence of the key in quotes, wherever it stands in the
  message: up to the next colon and the blanks after it.
\<close>

definition key_pattern :: "string \<Rightarrow> string" where
  "key_pattern key = cut 64 ([quote] @ key @ [quote])"

definition value_of_key :: "string \<Rightarrow> string \<Rightarrow> string option" where
  "value_of_key json key =
     (case strstr json (key_pattern key) of
        None \<Rightarrow> None
      | Some cursor \<Rightarrow>
          (case strchr (drop (length (key_pattern key)) cursor) (CHR '':'') of
             None \<Rightarrow> None
           | Some cursor \<Rightarrow> Some (dropWhile isspace (drop 1 cursor))))"

definition extract_json_string_value :: "string \<Rightarrow> string \<Rightarrow> string_buffer option" where
  "extract_json_string_value json key =
     (case value_of_key json key of
        None \<Rightarrow> None
      | Some cursor \<Rightarrow>
          if char_at cursor 0 \<noteq> quote then None else decode_json_string sb_init (drop 1 cursor))"

text \<open>The value is cut to an \<^verbatim>\<open>int\<close>.\<close>

definition extract_json_int_value :: "string \<Rightarrow> string \<Rightarrow> int option" where
  "extract_json_int_value json key =
     (case value_of_key json key of
        None \<Rightarrow> None
      | Some cursor \<Rightarrow> map_option (\<lambda>v. sint (word_of_int v :: 32 word)) (strtol cursor))"

text \<open>The text of an id as it stands in the message: a string with its quotes, or up to a comma or brace.\<close>

fun quoted_rest :: "string \<Rightarrow> string" where
  "quoted_rest [] = []"
| "quoted_rest (c # cs) =
     (if c = backslash \<and> cs \<noteq> [] then c # hd cs # quoted_rest (drop 1 cs)
      else if c = quote then [c]
      else c # quoted_rest cs)"

definition extract_json_id :: "string \<Rightarrow> nat \<Rightarrow> string option" where
  "extract_json_id json capacity =
     (case strstr json (quote # ''id'' @ [quote]) of
        None \<Rightarrow> None
      | Some cursor \<Rightarrow>
          (case strchr cursor (CHR '':'') of
             None \<Rightarrow> None
           | Some cursor \<Rightarrow>
               let cursor = dropWhile isspace (drop 1 cursor);
                   id = (if char_at cursor 0 = quote then quote # quoted_rest (drop 1 cursor)
                         else rev (dropWhile isspace (rev
                                (takeWhile (\<lambda>c. c \<noteq> CHR '','' \<and> c \<noteq> CHR 0x7D) cursor))))
               in if length id = 0 \<or> length id \<ge> capacity then None else Some id))"

section \<open>URIs and file names\<close>

fun decode_percent :: "string_buffer \<Rightarrow> string \<Rightarrow> string_buffer" where
  "decode_percent path [] = path"
| "decode_percent path (c # cs) =
     (if c = CHR ''%'' \<and> length cs \<ge> 2 \<and> isxdigit (cs ! 0) \<and> isxdigit (cs ! 1)
      then decode_percent (sb_append path [hex_char (cs ! 0) (cs ! 1)]) (drop 2 cs)
      else decode_percent (sb_append path [c]) cs)"

text \<open>\<open>None\<close> is the null pointer, also for an empty path. A decoded \<^verbatim>\<open>%00\<close> ends the path as a C string.\<close>

definition uri_to_path :: "string \<Rightarrow> string option" where
  "uri_to_path uri =
     (if take 7 uri \<noteq> ''file://'' then None
      else map_option (takeWhile (\<lambda>c. c \<noteq> NUL)) (decode_percent sb_init (drop 7 uri)))"

text \<open>The text of one character of a file name, and the loop that fills the buffer.\<close>

definition path_char :: "char \<Rightarrow> string" where
  "path_char ch =
     (if isalnum ch \<or> ch = CHR ''_'' \<or> ch = CHR ''-'' then [ch]
      else [CHR ''_'', hex_upper (of_char ch div 16), hex_upper (of_char ch mod 16)])"

fun sanitize_from :: "string \<Rightarrow> string \<Rightarrow> nat \<Rightarrow> string" where
  "sanitize_from output [] capacity = output"
| "sanitize_from output (ch # input) capacity =
     (if length output + 5 < capacity then sanitize_from (output @ path_char ch) input capacity else output)"

definition sanitize_path_component :: "string \<Rightarrow> nat \<Rightarrow> string" where
  "sanitize_path_component input capacity = sanitize_from [] input capacity"

section \<open>Positions and tokens\<close>

text \<open>\<^verbatim>\<open>strchr(binary, ch) != NULL\<close>, which is true for the terminator too.\<close>

definition is_binary_char :: "char \<Rightarrow> bool" where
  "is_binary_char ch \<longleftrightarrow> ch \<in> set (''!%&*+,/<=>?@'' @ [backslash] @ ''|-~'') \<or> ch = NUL"

fun offset_from :: "int \<Rightarrow> int \<Rightarrow> int \<Rightarrow> int \<Rightarrow> string \<Rightarrow> nat" where
  "offset_from current_line current_character line character [] = 0"
| "offset_from current_line current_character line character (c # cs) =
     (if current_line = line \<and> current_character = character then 0
      else if c = CHR 0x0A then Suc (offset_from (current_line + 1) 0 line character cs)
      else Suc (offset_from current_line (current_character + 1) line character cs))"

definition offset_for_position :: "string \<Rightarrow> int \<Rightarrow> int \<Rightarrow> nat" where
  "offset_for_position text line character = offset_from 0 0 line character text"

text \<open>The loops that move \<^verbatim>\<open>start\<close> back and \<^verbatim>\<open>end\<close> forward over the characters of a class.\<close>

definition back_over :: "(char \<Rightarrow> bool) \<Rightarrow> string \<Rightarrow> nat \<Rightarrow> nat" where
  "back_over P text start = start - length (takeWhile P (rev (take start text)))"

definition forward_over :: "(char \<Rightarrow> bool) \<Rightarrow> string \<Rightarrow> nat \<Rightarrow> nat" where
  "forward_over P text finish = finish + length (takeWhile P (drop finish text))"

function keyword_end :: "string \<Rightarrow> nat \<Rightarrow> nat" where
  "keyword_end text finish =
     (if char_at text finish = CHR '':'' then keyword_end text (forward_over is_word_char text (finish + 1))
      else finish)"
  by auto
termination
  by (relation "measure (\<lambda>(text, finish). length text - finish)")
     (auto simp: char_at_def NUL_def forward_over_def split: if_splits)

declare keyword_end.simps [simp del]

definition token_between :: "string \<Rightarrow> nat \<Rightarrow> nat \<Rightarrow> nat \<Rightarrow> string option" where
  "token_between text start finish capacity =
     (if finish \<le> start \<or> finish - start \<ge> capacity then None
      else Some (take (finish - start) (drop start text)))"

text \<open>
  On a number sign \<^verbatim>\<open>start\<close> is behind it and \<^verbatim>\<open>end\<close> on it, so there is no token. The loop
  over binary characters does not stop at the terminator: when it gets there it reads on behind
  the text.
\<close>

definition extract_token_at_position :: "string \<Rightarrow> int \<Rightarrow> int \<Rightarrow> nat \<Rightarrow> string option result" where
  "extract_token_at_position text line character capacity =
     (let offset = offset_for_position text line character
      in if capacity = 0 \<or> text = [] then Returned None
         else
           let offset = (if char_at text offset = NUL \<and> offset > 0 then offset - 1 else offset);
               c = char_at text offset
           in if c = NUL then Returned None
              else if isalpha c \<or> c = CHR ''#'' then
                let start = back_over is_word_char text (if c = CHR ''#'' then offset + 1 else offset);
                    finish = keyword_end text (forward_over is_word_char text offset)
                in Returned (token_between text start finish capacity)
              else if is_binary_char c then
                let start = back_over is_binary_char text offset;
                    finish = forward_over is_binary_char text offset
                in if finish = length text then Undefined
                   else Returned (token_between text start finish capacity)
              else Returned None)"

section \<open>Messages on the streams\<close>

text \<open>\<^verbatim>\<open>fgets\<close>: a line with its newline, or the characters the buffer takes; \<open>None\<close> at the end.\<close>

definition fgets :: "nat \<Rightarrow> string \<Rightarrow> (string \<times> string) option" where
  "fgets capacity input =
     (if input = [] then None
      else let n = min (capacity - 1) (length (takeWhile (\<lambda>c. c \<noteq> CHR 0x0A) input) + 1)
           in Some (take n input, drop n input))"

definition LINE_SIZE :: nat where
  "LINE_SIZE = 1024"

definition CRLF :: string where
  "CRLF = [CHR 0x0D, CHR 0x0A]"

text \<open>
  The header lines: the length they give and the stream behind the empty line; \<open>None\<close> when a
  line is too long. The flag is \<^verbatim>\<open>saw_header\<close>.
\<close>

function read_headers :: "bool \<Rightarrow> u64 \<Rightarrow> string \<Rightarrow> (bool \<times> u64 \<times> string) option" where
  "read_headers saw_header content_length input =
     (case fgets LINE_SIZE input of
        None \<Rightarrow> Some (saw_header, content_length, input)
      | Some (raw, rest) \<Rightarrow>
          let line = takeWhile (\<lambda>c. c \<noteq> NUL) raw
          in if line = [CHR 0x0A] \<or> line = CRLF then Some (True, content_length, rest)
             else
               let content_length = (if take 15 line = ''Content-Length:''
                                     then strtoull (drop 15 line) else content_length)
               in if length line = LINE_SIZE - 1 \<and> last line \<noteq> CHR 0x0A then None
                  else read_headers True content_length rest)"
  by auto
termination
  by (relation "measure (\<lambda>(saw, n, input). length input)")
     (auto simp: fgets_def LINE_SIZE_def Let_def split: if_splits)

declare read_headers.simps [simp del]

text \<open>
  The message as a C string and the stream behind it. \<^verbatim>\<open>malloc(content_length + 1)\<close> wraps to a
  buffer of no bytes for the largest length, and \<^verbatim>\<open>fread\<close> then writes behind it.
\<close>

definition read_message :: "string \<Rightarrow> (string \<times> string) option result" where
  "read_message input =
     (case read_headers False 0 input of
        None \<Rightarrow> Returned None
      | Some (saw_header, content_length, rest) \<Rightarrow>
          if \<not> saw_header \<or> content_length = 0 then Returned None
          else if content_length = - 1 \<and> rest \<noteq> [] then Undefined
          else if length rest < unat content_length then Returned None
          else Returned (Some (takeWhile (\<lambda>c. c \<noteq> NUL) (take (unat content_length) rest),
                               drop (unat content_length) rest)))"

definition write_response :: "string \<Rightarrow> string" where
  "write_response body = ''Content-Length: '' @ print_nat (length body) @ CRLF @ CRLF @ body"

end
