(* ===== verification/Lsp.thy ===== *)
theory Lsp
  imports Lsp_Text Frames
begin

text \<open>
  The language server of \<^verbatim>\<open>tools/smalltalk_lsp.c\<close>: its queries on classes and methods of the live
  image, the table of open documents, the files it writes for methods, the handlers of the
  requests, and the loop over the messages. Files are the \<^const>\<open>files\<close> of the machine.
\<close>

section \<open>The server\<close>

text \<open>
  The answers of the operating system to the requests of one operation: which directories exist
  after \<^verbatim>\<open>mkdir\<close>, whether the file opens, how much of it is written (\<open>None\<close> everything), and whether
  a response can be written.
\<close>

record disk_answer =
  mkdir_ok :: "string \<Rightarrow> bool"
  open_ok :: bool
  written :: "nat option"
  response_ok :: bool

record open_document =
  document_uri :: string
  document_text :: string

record materialized_method =
  materialized_uri :: string
  materialized_class :: string
  materialized_selector :: string
  materialized_class_side :: bool

record query_result =
  result_class :: string
  result_selector :: string
  result_class_side :: bool
  result_uri :: string
  symbol_kind :: int

record lsp_server =
  world_vm :: vm
  world_om :: u64
  world_smalltalk_dict :: u64
  open_documents :: "open_document list"
  materialized :: "materialized_method list"
  shutdown_requested :: bool
  disk_answers :: "nat \<Rightarrow> disk_answer"
  disk_calls :: nat

definition MAX_OPEN_DOCUMENTS :: nat where "MAX_OPEN_DOCUMENTS = 128"
definition MAX_MATERIALIZED_METHODS :: nat where "MAX_MATERIALIZED_METHODS = 1024"
definition MAX_QUERY_RESULTS :: nat where "MAX_QUERY_RESULTS = 256"
definition PATH_MAX :: nat where "PATH_MAX = 4096"

definition LIVE_IMAGE_ROOT :: string where
  "LIVE_IMAGE_ROOT = ''/tmp/armlivingobjects-live-image''"

definition server_memory :: "lsp_server \<Rightarrow> mem" where
  "server_memory s = memory (world_vm s)"

definition disk_now :: "lsp_server \<Rightarrow> disk_answer" where
  "disk_now s = disk_answers s (disk_calls s)"

definition disk_next :: "lsp_server \<Rightarrow> lsp_server" where
  "disk_next s = s\<lparr>disk_calls := Suc (disk_calls s)\<rparr>"

definition write_file :: "string \<Rightarrow> string \<Rightarrow> lsp_server \<Rightarrow> lsp_server" where
  "write_file path contents s =
     s\<lparr>world_vm := world_vm s\<lparr>files := (files (world_vm s))(c_string path := Some (c_string contents))\<rparr>\<rparr>"

section \<open>Classes and methods of the live image\<close>

definition chars_of :: "u8 list \<Rightarrow> string" where
  "chars_of bytes = map (\<lambda>b. char_of (unat b)) bytes"

definition copy_bytes_to_cstring :: "mem \<Rightarrow> u64 \<Rightarrow> u64 \<Rightarrow> string option" where
  "copy_bytes_to_cstring m oop capacity =
     (if \<not> is_object_ptr oop \<or> capacity = 0 then None
      else if OBJ_FORMAT m oop \<noteq> FORMAT_BYTES then None
      else if OBJ_SIZE m oop \<ge> capacity then None
      else Some (chars_of (until_nul (object_bytes m oop))))"

definition dup_oop_bytes :: "mem \<Rightarrow> u64 \<Rightarrow> string option" where
  "dup_oop_bytes m oop =
     (if \<not> is_object_ptr oop then None
      else if OBJ_FORMAT m oop \<noteq> FORMAT_BYTES then None
      else Some (chars_of (until_nul (object_bytes m oop))))"

text \<open>The associations of the Smalltalk dictionary of the world, as far as its tally goes.\<close>

definition world_associations :: "lsp_server \<Rightarrow> u64 list" where
  "world_associations s =
     (let m = server_memory s;
          associations = OBJ_FIELD m (world_smalltalk_dict s) 0;
          tally = OBJ_FIELD m (world_smalltalk_dict s) 1
      in if \<not> is_object_ptr associations \<or> \<not> is_smallint tally then []
         else map (\<lambda>i. OBJ_FIELD m associations (of_nat i)) [0..<nat (sint (untag_smallint tally))])"

definition lookup_class_by_name :: "lsp_server \<Rightarrow> string \<Rightarrow> u64" where
  "lookup_class_by_name s name =
     (let m = server_memory s
      in case List.find (\<lambda>assoc. is_object_ptr assoc \<and>
                 copy_bytes_to_cstring m (OBJ_FIELD m assoc 0) 64 = Some name \<and>
                 is_object_ptr (OBJ_FIELD m assoc 1)) (world_associations s) of
           None \<Rightarrow> 0
         | Some assoc \<Rightarrow> OBJ_FIELD m assoc 1)"

text \<open>The selector and method of each pair of a method dictionary.\<close>

definition method_entries :: "mem \<Rightarrow> u64 \<Rightarrow> (u64 \<times> u64) list" where
  "method_entries m method_dict =
     (if \<not> is_object_ptr method_dict then []
      else map (\<lambda>i. (OBJ_FIELD m method_dict (of_nat (2 * i)), OBJ_FIELD m method_dict (of_nat (2 * i) + 1)))
             [0..<unat (OBJ_SIZE m method_dict) div 2])"

definition local_method_lookup :: "mem \<Rightarrow> u64 \<Rightarrow> u64 \<Rightarrow> u64" where
  "local_method_lookup m klass selector_oop =
     (if klass = 0 \<or> klass = TAGGED_NIL then 0
      else case List.find (\<lambda>(selector, method). selector = selector_oop \<and> is_object_ptr method)
                  (method_entries m (OBJ_FIELD m klass CLASS_METHOD_DICT)) of
             None \<Rightarrow> 0
           | Some (_, method) \<Rightarrow> method)"

text \<open>The method and the class that has it, 0 and 0 when no superclass has one.\<close>

partial_function (option) find_method_owner :: "mem \<Rightarrow> u64 \<Rightarrow> u64 \<Rightarrow> (u64 \<times> u64) option" where
  "find_method_owner m klass selector_oop =
     (if klass \<noteq> 0 \<and> klass \<noteq> TAGGED_NIL then
        if local_method_lookup m klass selector_oop \<noteq> 0
        then Some (local_method_lookup m klass selector_oop, klass)
        else find_method_owner m (OBJ_FIELD m klass CLASS_SUPERCLASS) selector_oop
      else Some (0, 0))"

definition oop_equals_cstring_symbol :: "mem \<Rightarrow> u64 \<Rightarrow> string \<Rightarrow> bool" where
  "oop_equals_cstring_symbol m symbol_oop text \<longleftrightarrow> copy_bytes_to_cstring m symbol_oop 128 = Some text"

definition copy_registered_class_name :: "lsp_server \<Rightarrow> u64 \<Rightarrow> bool \<Rightarrow> u64 \<Rightarrow> string option" where
  "copy_registered_class_name s target class_side capacity =
     (let m = server_memory s
      in case List.find (\<lambda>assoc. is_object_ptr assoc \<and>
                 (let klass = OBJ_FIELD m assoc 1
                  in is_object_ptr klass \<and> (if class_side then OBJ_CLASS m klass = target else klass = target)))
                (world_associations s) of
           None \<Rightarrow> None
         | Some assoc \<Rightarrow> copy_bytes_to_cstring m (OBJ_FIELD m assoc 0) capacity)"

definition count_local_methods :: "mem \<Rightarrow> u64 \<Rightarrow> int" where
  "count_local_methods m klass =
     (if klass = 0 \<or> klass = TAGGED_NIL then 0
      else
        let method_dict = OBJ_FIELD m klass CLASS_METHOD_DICT
        in if \<not> is_object_ptr method_dict then 0
           else sint (ucast (OBJ_SIZE m method_dict div 2) :: 32 word))"

section \<open>Open documents\<close>

definition current_document_find :: "open_document list \<Rightarrow> string \<Rightarrow> nat option" where
  "current_document_find documents uri =
     List.find (\<lambda>i. document_uri (documents ! i) = uri) [0..<length documents]"

definition set_open_document :: "string \<Rightarrow> string \<Rightarrow> lsp_server \<Rightarrow> bool \<times> lsp_server" where
  "set_open_document uri text s =
     (let document = \<lparr>document_uri = uri, document_text = text\<rparr>
      in case current_document_find (open_documents s) uri of
           Some i \<Rightarrow> (True, s\<lparr>open_documents := (open_documents s)[i := document]\<rparr>)
         | None \<Rightarrow>
             if length (open_documents s) \<ge> MAX_OPEN_DOCUMENTS then (False, s)
             else (True, s\<lparr>open_documents := open_documents s @ [document]\<rparr>))"

definition close_open_document :: "string \<Rightarrow> lsp_server \<Rightarrow> lsp_server" where
  "close_open_document uri s =
     (case current_document_find (open_documents s) uri of
        None \<Rightarrow> s
      | Some i \<Rightarrow>
          s\<lparr>open_documents := take i (open_documents s) @ drop (i + 1) (open_documents s)\<rparr>)"

definition read_uri_text :: "lsp_server \<Rightarrow> string \<Rightarrow> string option" where
  "read_uri_text s uri =
     (case current_document_find (open_documents s) uri of
        Some i \<Rightarrow> Some (document_text (open_documents s ! i))
      | None \<Rightarrow>
          (case uri_to_path uri of
             None \<Rightarrow> None
           | Some path \<Rightarrow>
               (case files (world_vm s) (c_string path) of
                  None \<Rightarrow> None
                | Some bytes \<Rightarrow> Some (chars_of (until_nul bytes)))))"

section \<open>Methods as files\<close>

definition ensure_directory :: "(string \<Rightarrow> bool) \<Rightarrow> string \<Rightarrow> bool" where
  "ensure_directory made path \<longleftrightarrow>
     length path < PATH_MAX \<and>
     list_all (\<lambda>i. path ! i = CHR ''/'' \<longrightarrow> made (take i path)) [1..<length path] \<and>
     made path"

definition find_materialized :: "lsp_server \<Rightarrow> string \<Rightarrow> materialized_method option" where
  "find_materialized s uri = List.find (\<lambda>e. materialized_uri e = uri) (materialized s)"

definition method_directory :: "string \<Rightarrow> bool \<Rightarrow> string" where
  "method_directory class_name class_side =
     cut PATH_MAX (LIVE_IMAGE_ROOT @ ''/'' @ sanitize_path_component class_name 128 @
                   (if class_side then ''.class'' else []))"

definition method_path :: "string \<Rightarrow> string \<Rightarrow> bool \<Rightarrow> string" where
  "method_path class_name selector class_side =
     cut PATH_MAX (method_directory class_name class_side @ ''/'' @ sanitize_path_component selector 256 @ ''.st'')"

definition materialize_method_source ::
  "string \<Rightarrow> string \<Rightarrow> bool \<Rightarrow> string \<Rightarrow> lsp_server \<Rightarrow> string option \<times> lsp_server" where
  "materialize_method_source class_name selector class_side src s =
     (case List.find (\<lambda>e. materialized_class e = class_name \<and> materialized_selector e = selector \<and>
                          materialized_class_side e = class_side) (materialized s) of
        Some entry \<Rightarrow> (Some (materialized_uri entry), s)
      | None \<Rightarrow>
          let answer = disk_now s;
              s = disk_next s;
              path = method_path class_name selector class_side
          in if \<not> ensure_directory (mkdir_ok answer) LIVE_IMAGE_ROOT \<or>
                \<not> ensure_directory (mkdir_ok answer) (method_directory class_name class_side)
             then (None, s)
             else if \<not> open_ok answer then (None, s)
             else
               (case written answer of
                 Some n \<Rightarrow> (None, write_file path (take n src) s)
               | None \<Rightarrow>
                   let s = write_file path src s;
                       entry = \<lparr>materialized_uri = cut PATH_MAX (''file://'' @ path),
                                materialized_class = cut 64 class_name,
                                materialized_selector = cut 128 selector,
                                materialized_class_side = class_side\<rparr>
                   in if length (materialized s) \<ge> MAX_MATERIALIZED_METHODS then (None, s)
                      else (Some (materialized_uri entry), s\<lparr>materialized := materialized s @ [entry]\<rparr>)))"

definition selector_lines :: "mem \<Rightarrow> u64 \<Rightarrow> string" where
  "selector_lines m method_dict =
     concat (map (\<lambda>(selector, method). case copy_bytes_to_cstring m selector 128 of
                    None \<Rightarrow> [] | Some text \<Rightarrow> text @ [CHR 0x0A])
               (method_entries m method_dict))"

definition superclass_name :: "lsp_server \<Rightarrow> u64 \<Rightarrow> string" where
  "superclass_name s klass =
     (let m = server_memory s; superclass = OBJ_FIELD m klass CLASS_SUPERCLASS
      in if \<not> is_object_ptr superclass then ''nil''
         else case copy_bytes_to_cstring m (prim_class_name (world_vm s) superclass) 64 of
                None \<Rightarrow> ''nil'' | Some name \<Rightarrow> name)"

definition class_summary :: "lsp_server \<Rightarrow> string \<Rightarrow> u64 \<Rightarrow> string" where
  "class_summary s class_name klass =
     (let m = server_memory s;
          name = (case copy_bytes_to_cstring m (prim_class_name (world_vm s) klass) 64 of
                    None \<Rightarrow> class_name | Some name \<Rightarrow> name)
      in [quote] @ ''Live image class summary'' @ [quote, CHR 0x0A] @ name @ [CHR 0x0A] @
         ''superclass: '' @ superclass_name s klass @ [CHR 0x0A, CHR 0x0A] @
         [quote] @ ''Instance methods'' @ [quote, CHR 0x0A] @
         selector_lines m (OBJ_FIELD m klass CLASS_METHOD_DICT) @
         [CHR 0x0A, quote] @ ''Class methods'' @ [quote, CHR 0x0A] @
         selector_lines m (OBJ_FIELD m (OBJ_CLASS m klass) CLASS_METHOD_DICT))"

text \<open>The path of the summary; how much of it is written is not looked at.\<close>

definition materialize_class_summary :: "string \<Rightarrow> lsp_server \<Rightarrow> string option \<times> lsp_server" where
  "materialize_class_summary class_name s =
     (let klass = lookup_class_by_name s class_name
      in if klass = 0 then (None, s)
         else
           let answer = disk_now s;
               s = disk_next s;
               directory = cut PATH_MAX (LIVE_IMAGE_ROOT @ ''/'' @ sanitize_path_component class_name 128);
               path = cut PATH_MAX (directory @ ''/class-summary.st'');
               summary = class_summary s class_name klass
           in if \<not> ensure_directory (mkdir_ok answer) LIVE_IMAGE_ROOT \<or>
                 \<not> ensure_directory (mkdir_ok answer) directory then (None, s)
              else if \<not> open_ok answer then (None, s)
              else (Some path,
                    write_file path (case written answer of None \<Rightarrow> summary | Some n \<Rightarrow> take n summary) s))"

section \<open>Workspace symbols\<close>

definition add_query_result ::
  "string \<Rightarrow> string \<Rightarrow> bool \<Rightarrow> string \<Rightarrow> int \<Rightarrow> query_result list \<Rightarrow> query_result list" where
  "add_query_result class_name selector class_side uri kind results =
     (if length results \<ge> MAX_QUERY_RESULTS then results
      else results @ [\<lparr>result_class = cut 64 class_name, result_selector = cut 128 selector,
                        result_class_side = class_side, result_uri = cut PATH_MAX uri, symbol_kind = kind\<rparr>])"

text \<open>\<open>None\<close> is the null query.\<close>

definition matches_query :: "string option \<Rightarrow> string \<Rightarrow> string \<Rightarrow> bool \<Rightarrow> bool" where
  "matches_query query class_name selector class_side =
     (case query of
        None \<Rightarrow> True
      | Some q \<Rightarrow>
          q = [] \<or>
          (let full_name = cut 256 (class_name @ (if class_side then '' class'' else []) @ ''>>'' @ selector)
           in strstr class_name q \<noteq> None \<or> strstr selector q \<noteq> None \<or> strstr full_name q \<noteq> None))"

text \<open>One of the two loops over a method dictionary, and the loop over the classes.\<close>

fun collect_methods ::
  "string option \<Rightarrow> string \<Rightarrow> bool \<Rightarrow> (u64 \<times> u64) list \<Rightarrow> query_result list \<Rightarrow> lsp_server \<Rightarrow>
   query_result list \<times> lsp_server" where
  "collect_methods query class_name class_side [] results s = (results, s)"
| "collect_methods query class_name class_side ((selector_oop, method) # entries) results s =
     (if length results \<ge> MAX_QUERY_RESULTS then (results, s)
      else
        case copy_bytes_to_cstring (server_memory s) selector_oop 128 of
          None \<Rightarrow> collect_methods query class_name class_side entries results s
        | Some selector \<Rightarrow>
            if \<not> matches_query query class_name selector class_side
            then collect_methods query class_name class_side entries results s
            else
              case dup_oop_bytes (server_memory s) (OBJ_FIELD (server_memory s) method CM_SOURCE) of
                None \<Rightarrow> collect_methods query class_name class_side entries results s
              | Some src \<Rightarrow>
                  (case materialize_method_source class_name selector class_side src s of
                     (None, s) \<Rightarrow> collect_methods query class_name class_side entries results s
                   | (Some uri, s) \<Rightarrow>
                       collect_methods query class_name class_side entries
                         (add_query_result class_name selector class_side uri 6 results) s))"

fun collect_classes ::
  "string option \<Rightarrow> u64 list \<Rightarrow> query_result list \<Rightarrow> lsp_server \<Rightarrow> query_result list \<times> lsp_server" where
  "collect_classes query [] results s = (results, s)"
| "collect_classes query (assoc # assocs) results s =
     (if length results \<ge> MAX_QUERY_RESULTS then (results, s)
      else if \<not> is_object_ptr assoc then collect_classes query assocs results s
      else
        let m = server_memory s; klass = OBJ_FIELD m assoc 1
        in case copy_bytes_to_cstring m (OBJ_FIELD m assoc 0) 64 of
             None \<Rightarrow> collect_classes query assocs results s
           | Some class_name \<Rightarrow>
               if \<not> is_object_ptr klass then collect_classes query assocs results s
               else
                 let (results, s) = collect_methods query class_name False
                       (method_entries m (OBJ_FIELD m klass CLASS_METHOD_DICT)) results s;
                     (results, s) = collect_methods query class_name True
                       (method_entries m (OBJ_FIELD m (OBJ_CLASS m klass) CLASS_METHOD_DICT)) results s
                 in collect_classes query assocs results s)"

definition collect_workspace_symbols ::
  "string option \<Rightarrow> lsp_server \<Rightarrow> query_result list \<times> lsp_server" where
  "collect_workspace_symbols query s = collect_classes query (world_associations s) [] s"

section \<open>Hover and definition\<close>

text \<open>The class of the method a document shows, and its side; 0 when the document is another file.\<close>

definition infer_current_class :: "lsp_server \<Rightarrow> string \<Rightarrow> u64 \<times> bool" where
  "infer_current_class s uri =
     (case find_materialized s uri of
        None \<Rightarrow> (0, False)
      | Some entry \<Rightarrow> (lookup_class_by_name s (materialized_class entry), materialized_class_side entry))"

definition intern_token :: "string \<Rightarrow> lsp_server \<Rightarrow> lsp_server \<times> u64" where
  "intern_token token s =
     (let (machine, selector_oop) = intern_cstring_symbol (world_om s) (c_string token) (world_vm s)
      in (s\<lparr>world_vm := machine\<rparr>, selector_oop))"

text \<open>The method a selector finds from the current class, \<open>(0, 0)\<close> when there is no current class.\<close>

definition method_from_class :: "lsp_server \<Rightarrow> u64 \<times> bool \<Rightarrow> u64 \<Rightarrow> (u64 \<times> u64) result" where
  "method_from_class s current selector_oop =
     (let (current_class, class_side) = current; m = server_memory s
      in if current_class = 0 then Returned (0, 0)
         else case find_method_owner m (if class_side then OBJ_CLASS m current_class else current_class)
                     selector_oop of
                None \<Rightarrow> Stuck
              | Some found \<Rightarrow> Returned found)"

definition class_hover :: "lsp_server \<Rightarrow> string \<Rightarrow> string option" where
  "class_hover s name =
     (let m = server_memory s; klass = lookup_class_by_name s name
      in if \<not> isupper (char_at name 0) \<or> klass = 0 then None
         else case copy_bytes_to_cstring m (prim_class_name (world_vm s) klass) 64 of
                None \<Rightarrow> None
              | Some class_name \<Rightarrow>
                  Some (''Class '' @ class_name @ [CHR 0x0A] @ ''superclass: '' @ superclass_name s klass @
                        [CHR 0x0A] @ ''instance methods: '' @ print_int (count_local_methods m klass) @
                        [CHR 0x0A] @ ''class methods: '' @ print_int (count_local_methods m (OBJ_CLASS m klass))))"

definition build_hover_text_for_selector ::
  "string \<Rightarrow> string \<Rightarrow> lsp_server \<Rightarrow> (string option \<times> lsp_server) result" where
  "build_hover_text_for_selector uri selector s =
     (let current = infer_current_class s uri;
          class_side = snd current;
          (s, selector_oop) = intern_token selector s
      in result_then (method_from_class s current selector_oop)
           (\<lambda>(method, owner).
              if method = 0 then Returned (class_hover s selector, s)
              else
                let owner_name = (case copy_registered_class_name s owner class_side 64 of
                                    None \<Rightarrow> ''Unknown'' | Some name \<Rightarrow> name)
                in case dup_oop_bytes (server_memory s) (OBJ_FIELD (server_memory s) method CM_SOURCE) of
                     None \<Rightarrow> Returned (None, s)
                   | Some src \<Rightarrow>
                       Returned (Some (owner_name @ (if class_side then '' class'' else []) @ ''>>'' @ selector @
                                       [CHR 0x0A, CHR 0x0A] @ src), s)))"

text \<open>The JSON text of a location: the URI as it is already written as JSON.\<close>

definition json_range :: string where
  "json_range = '',\"range\":{\"start\":{\"line\":0,\"character\":0},\"end\":{\"line\":0,\"character\":0}}}''"

definition json_location :: "string \<Rightarrow> string" where
  "json_location uri_json = ''{\"uri\":'' @ uri_json @ json_range"

fun join_with_commas :: "string list \<Rightarrow> string" where
  "join_with_commas [] = []"
| "join_with_commas [x] = x"
| "join_with_commas (x # y # ys) = x @ '','' @ join_with_commas (y # ys)"

text \<open>The methods with the selector of the token, wherever the workspace has them.\<close>

definition workspace_locations :: "string \<Rightarrow> lsp_server \<Rightarrow> string option \<times> lsp_server" where
  "workspace_locations token s =
     (let (results, s) = collect_workspace_symbols (Some token) s;
          found = filter (\<lambda>r. result_selector r = token) results
      in (if found = [] then None
          else Some (join_with_commas (map (\<lambda>r. json_location (json_string (result_uri r))) found)), s))"

definition other_locations :: "string \<Rightarrow> lsp_server \<Rightarrow> string option \<times> lsp_server" where
  "other_locations token s =
     (if \<not> isupper (char_at token 0) then workspace_locations token s
      else case materialize_class_summary token s of
             (Some path, s) \<Rightarrow> (Some (json_location ([quote] @ ''file://'' @ path @ [quote])), s)
           | (None, s) \<Rightarrow> workspace_locations token s)"

text \<open>
  \<open>None\<close> when nothing is found. When the method of the current class cannot be written to its
  file, its source is freed a second time.
\<close>

definition build_definition_locations ::
  "string \<Rightarrow> string \<Rightarrow> lsp_server \<Rightarrow> (string option \<times> lsp_server) result" where
  "build_definition_locations uri token s =
     (let current = infer_current_class s uri;
          class_side = snd current;
          (s, selector_oop) = intern_token token s
      in if fst current = 0 \<or> \<not> oop_equals_cstring_symbol (server_memory s) selector_oop token
         then Returned (other_locations token s)
         else
           result_then (method_from_class s current selector_oop)
             (\<lambda>(method, owner).
                if method = 0 then Returned (other_locations token s)
                else
                  case (dup_oop_bytes (server_memory s) (OBJ_FIELD (server_memory s) method CM_SOURCE),
                        copy_registered_class_name s owner class_side 64) of
                    (Some src, Some owner_name) \<Rightarrow>
                      (case materialize_method_source owner_name token class_side src s of
                         (Some method_uri, s) \<Rightarrow> Returned (Some (json_location (json_string method_uri)), s)
                       | (None, s) \<Rightarrow> Undefined)
                  | _ \<Rightarrow> Returned (other_locations token s)))"

section \<open>Responses\<close>

definition build_success_response :: "string \<Rightarrow> string \<Rightarrow> string" where
  "build_success_response request_id result_json =
     ''{\"jsonrpc\":\"2.0\",\"id\":'' @ request_id @ '',\"result\":'' @ result_json @ ''}''"

definition build_error_response :: "string \<Rightarrow> int \<Rightarrow> string \<Rightarrow> string" where
  "build_error_response request_id code message =
     ''{\"jsonrpc\":\"2.0\",\"id\":'' @ request_id @ '',\"error\":{\"code\":'' @ print_int code @
     '',\"message\":'' @ json_string message @ ''}}''"

section \<open>The handlers\<close>

text \<open>
  The result of a handler: whether the server goes on, the response, and the server after it. A
  text that was found but is empty is a null pointer, \<open>Some None\<close>.
\<close>

type_synonym handled = "(bool \<times> string option \<times> lsp_server) result"

definition respond :: "string \<Rightarrow> lsp_server \<Rightarrow> handled" where
  "respond response s = Returned (True, Some response, s)"

definition handle_initialize :: "string \<Rightarrow> lsp_server \<Rightarrow> handled" where
  "handle_initialize request_id s =
     respond (build_success_response request_id
       (''{\"capabilities\":{\"textDocumentSync\":1,\"hoverProvider\":true,\"definitionProvider\":true,'' @
        ''\"workspaceSymbolProvider\":true},\"serverInfo\":{\"name\":\"smalltalk_lsp\",\"version\":\"0.1\"}}'')) s"

text \<open>The names of the symbols are not escaped.\<close>

definition json_symbol :: "query_result \<Rightarrow> string" where
  "json_symbol r =
     ''{\"name\":'' @ [quote] @ result_class r @ (if result_class_side r then '' class'' else []) @ ''>>'' @
     result_selector r @ [quote] @ '',\"kind\":'' @ print_int (symbol_kind r) @ '',\"location\":{\"uri\":'' @
     json_string (result_uri r) @ json_range @ '',\"containerName\":'' @
     json_string (if result_class_side r then ''class side'' else ''instance side'') @ ''}''"

text \<open>
  A text of the message, used as a C string: a null character that was decoded from \<^verbatim>\<open>\u0000\<close> ends it. (A
  text that was found but is empty is a null pointer, one that begins with a null character is not.)
\<close>

definition json_text :: "string \<Rightarrow> string \<Rightarrow> string_buffer option" where
  "json_text message key = map_option (map_option (takeWhile (\<lambda>c. c \<noteq> NUL))) (extract_json_string_value message key)"

definition handle_workspace_symbol :: "string \<Rightarrow> string \<Rightarrow> lsp_server \<Rightarrow> handled" where
  "handle_workspace_symbol request_id message s =
     (let query = (case json_text message ''query'' of None \<Rightarrow> None | Some text \<Rightarrow> text);
          (results, s) = collect_workspace_symbols query s
      in respond (build_success_response request_id (''['' @ join_with_commas (map json_symbol results) @ '']'')) s)"

text \<open>
  An empty URI or text is passed on to \<^verbatim>\<open>strcmp\<close> or \<^verbatim>\<open>strdup\<close> as a null pointer, an empty text unless the
  table is full and the document is not in it.
\<close>

definition handle_did_open :: "string \<Rightarrow> lsp_server \<Rightarrow> handled" where
  "handle_did_open message s =
     (case (json_text message ''uri'', json_text message ''text'') of
        (Some (Some uri), Some (Some text)) \<Rightarrow>
          (let (ok, s) = set_open_document uri text s in Returned (ok, None, s))
      | (Some (Some uri), Some None) \<Rightarrow>
          if current_document_find (open_documents s) uri = None \<and> length (open_documents s) \<ge> MAX_OPEN_DOCUMENTS
          then Returned (False, None, s) else Undefined
      | (Some None, Some _) \<Rightarrow> Undefined
      | _ \<Rightarrow> Returned (False, None, s))"

definition handle_did_change :: "string \<Rightarrow> lsp_server \<Rightarrow> handled" where
  "handle_did_change message s =
     (case (json_text message ''uri'', json_text message ''text'') of
        (Some (Some uri), Some (Some text)) \<Rightarrow>
          (let (ok, s) = set_open_document uri text s in Returned (ok, None, s))
      | (Some (Some uri), Some None) \<Rightarrow>
          if current_document_find (open_documents s) uri = None \<and> length (open_documents s) \<ge> MAX_OPEN_DOCUMENTS
          then Returned (False, None, s) else Undefined
      | (Some None, Some _) \<Rightarrow> Undefined
      | _ \<Rightarrow> Returned (False, None, s))"

definition handle_did_close :: "string \<Rightarrow> lsp_server \<Rightarrow> handled" where
  "handle_did_close message s =
     (case json_text message ''uri'' of
        None \<Rightarrow> Returned (False, None, s)
      | Some (Some uri) \<Rightarrow> Returned (True, None, close_open_document uri s)
      | Some None \<Rightarrow> if open_documents s = [] then Returned (True, None, s) else Undefined)"

text \<open>The document and position of a request, looked up in this order.\<close>

definition position_params :: "string \<Rightarrow> (string_buffer \<times> int \<times> int) option" where
  "position_params message =
     (case json_text message ''uri'' of
        None \<Rightarrow> None
      | Some uri \<Rightarrow>
          (case extract_json_int_value message ''line'' of
             None \<Rightarrow> None
           | Some line \<Rightarrow>
               (case extract_json_int_value message ''character'' of
                  None \<Rightarrow> None
                | Some character \<Rightarrow> Some (uri, line, character))))"

definition handle_hover :: "string \<Rightarrow> string \<Rightarrow> lsp_server \<Rightarrow> handled" where
  "handle_hover request_id message s =
     (case position_params message of
        None \<Rightarrow> respond (build_error_response request_id (-32602) ''hover params missing uri or position'') s
      | Some (None, line, character) \<Rightarrow> Undefined
      | Some (Some uri, line, character) \<Rightarrow>
          (case read_uri_text s uri of
             None \<Rightarrow> respond (build_success_response request_id ''null'') s
           | Some text \<Rightarrow>
               result_then (extract_token_at_position text line character 128)
                 (\<lambda>token. case token of
                    None \<Rightarrow> respond (build_success_response request_id ''null'') s
                  | Some token \<Rightarrow>
                      result_then (build_hover_text_for_selector uri token s)
                        (\<lambda>(hover, s). case hover of
                           None \<Rightarrow> respond (build_success_response request_id ''null'') s
                         | Some hover \<Rightarrow>
                             respond (build_success_response request_id
                               (''{\"contents\":{\"kind\":\"plaintext\",\"value\":'' @ json_string hover @ ''}}'')) s))))"

definition handle_definition :: "string \<Rightarrow> string \<Rightarrow> lsp_server \<Rightarrow> handled" where
  "handle_definition request_id message s =
     (case position_params message of
        None \<Rightarrow> respond (build_error_response request_id (-32602) ''definition params missing uri or position'') s
      | Some (None, line, character) \<Rightarrow> Undefined
      | Some (Some uri, line, character) \<Rightarrow>
          (case read_uri_text s uri of
             None \<Rightarrow> respond (build_success_response request_id ''[]'') s
           | Some text \<Rightarrow>
               result_then (extract_token_at_position text line character 128)
                 (\<lambda>token. case token of
                    None \<Rightarrow> respond (build_success_response request_id ''[]'') s
                  | Some token \<Rightarrow>
                      result_then (build_definition_locations uri token s)
                        (\<lambda>(locations, s).
                           respond (build_success_response request_id
                             (case locations of None \<Rightarrow> ''[]'' | Some text \<Rightarrow> ''['' @ text @ '']'')) s))))"

definition handle_shutdown :: "string \<Rightarrow> lsp_server \<Rightarrow> handled" where
  "handle_shutdown request_id s = respond (build_success_response request_id ''null'') (s\<lparr>shutdown_requested := True\<rparr>)"

text \<open>A request is answered only when it has an id; \<open>answered\<close> is \<^verbatim>\<open>has_id ? ... : 1\<close>.\<close>

definition answered :: "string option \<Rightarrow> (string \<Rightarrow> lsp_server \<Rightarrow> handled) \<Rightarrow> lsp_server \<Rightarrow> handled" where
  "answered request_id handle s = (case request_id of None \<Rightarrow> Returned (True, None, s) | Some request_id \<Rightarrow> handle request_id s)"

definition dispatch :: "string \<Rightarrow> string option \<Rightarrow> string \<Rightarrow> lsp_server \<Rightarrow> handled" where
  "dispatch method request_id message s =
     (if method = ''initialize'' then answered request_id handle_initialize s
      else if method = ''workspace/symbol'' then answered request_id (\<lambda>request_id. handle_workspace_symbol request_id message) s
      else if method = ''textDocument/didOpen'' then handle_did_open message s
      else if method = ''textDocument/didChange'' then handle_did_change message s
      else if method = ''textDocument/didClose'' then handle_did_close message s
      else if method = ''textDocument/hover'' then answered request_id (\<lambda>request_id. handle_hover request_id message) s
      else if method = ''textDocument/definition'' then answered request_id (\<lambda>request_id. handle_definition request_id message) s
      else if method = ''shutdown'' then answered request_id handle_shutdown s
      else if method = ''exit'' then Exited (if shutdown_requested s then 0 else 1)
      else if method = ''initialized'' then Returned (True, None, s)
      else answered request_id (\<lambda>request_id. respond (build_error_response request_id (-32601) ''method not implemented'')) s)"

definition handle_message :: "string \<Rightarrow> lsp_server \<Rightarrow> handled" where
  "handle_message message s =
     (let request_id = extract_json_id message 64
      in case json_text message ''method'' of
           None \<Rightarrow> answered request_id (\<lambda>request_id. respond (build_error_response request_id (-32600) ''request missing method'')) s
         | Some None \<Rightarrow> Undefined
         | Some (Some method) \<Rightarrow> dispatch (cut 128 method) request_id message s)"

section \<open>The loop over the messages\<close>

lemma read_headers_rest:
  "read_headers saw n input = Some (saw', n', rest) \<Longrightarrow> length rest \<le> length input"
proof (induction saw n input rule: read_headers.induct)
  case (1 saw n input)
  show ?case
  proof (cases "fgets LINE_SIZE input")
    case None
    then show ?thesis using "1.prems" by (simp add: read_headers.simps)
  next
    case (Some line)
    obtain raw tail where line: "line = (raw, tail)" by (cases line)
    have "length tail \<le> length input"
      using Some line by (auto simp: fgets_def Let_def split: if_splits)
    let ?l = "takeWhile (\<lambda>c. c \<noteq> NUL) raw"
    define m where "m = (if take 15 ?l = ''Content-Length:'' then strtoull (drop 15 ?l) else n)"
    note IH = "1.IH" [OF Some line [symmetric] refl _ m_def]
    have "Some (saw', n', rest) =
      (if ?l = [CHR 0x0A] \<or> ?l = CRLF then Some (True, n, tail)
       else if length ?l = LINE_SIZE - 1 \<and> last ?l \<noteq> CHR 0x0A then None else read_headers True m tail)"
      using "1.prems" unfolding read_headers.simps [of saw n input] Some line m_def Let_def option.case prod.case
      by (rule sym)
    then have "length rest \<le> length tail"
      using IH by (auto split: if_split_asm)
    then show ?thesis using \<open>length tail \<le> length input\<close> by (rule le_trans)
  qed
qed

lemma read_message_rest:
  assumes "read_message input = Returned (Some (message, rest))"
  shows "length rest < length input"
proof -
  obtain n tail where "read_headers False 0 input = Some (True, n, tail)" "n \<noteq> 0"
    "unat n \<le> length tail" "rest = drop (unat n) tail"
    using assms by (auto simp: read_message_def not_less split: option.splits if_splits)
  then show ?thesis
    using read_headers_rest [of False 0 input True n tail] unat_gt_0 [of n] by auto
qed

text \<open>What the server has written, and the server, when its input ends or a handler fails.\<close>

function serve :: "lsp_server \<Rightarrow> string \<Rightarrow> string \<Rightarrow> (string \<times> lsp_server) result" where
  "serve s input output =
     (case read_message input of
        Returned None \<Rightarrow> Returned (output, s)
      | Returned (Some (message, rest)) \<Rightarrow>
          (case handle_message message s of
             Returned (False, response, s) \<Rightarrow> Returned (output, s)
           | Returned (True, None, s) \<Rightarrow> serve s rest output
           | Returned (True, Some response, s) \<Rightarrow>
               if response_ok (disk_now s) then serve (disk_next s) rest (output @ write_response response)
               else Returned (output, disk_next s)
           | Undefined \<Rightarrow> Undefined
           | Exited n \<Rightarrow> Exited n
           | Stuck \<Rightarrow> Stuck)
      | Undefined \<Rightarrow> Undefined
      | Exited n \<Rightarrow> Exited n
      | Stuck \<Rightarrow> Stuck)"
  by pat_completeness auto
termination
  by (relation "measure (\<lambda>(s, input, output). length input)") (auto dest: read_message_rest)

declare serve.simps [simp del]

end
