(* ===== verification/Lsp_Laws.thy ===== *)
theory Lsp_Laws
  imports Lsp
begin

text \<open>
  Laws of the language server: JSON strings written and read back, the framing of messages, the
  table of open documents as a map, and the tokens found at a position.
\<close>

text \<open>A server with one open document and an empty world, for the examples.\<close>

definition demo_server :: lsp_server where
  "demo_server = \<lparr>world_vm = idle_vm (\<lambda>_. 0) [], world_om = 0, world_smalltalk_dict = 0,
     open_documents = [\<lparr>document_uri = ''a'', document_text = ''x''\<rparr>], materialized = [],
     shutdown_requested = False,
     disk_answers = (\<lambda>_. \<lparr>mkdir_ok = (\<lambda>_. True), open_ok = True, written = None, response_ok = True\<rparr>),
     disk_calls = 0\<rparr>"

section \<open>JSON strings\<close>

lemma sb_append_append [simp]: "sb_append (sb_append b x) y = sb_append b (x @ y)"
  by (simp add: sb_append_def split: option.split)

lemma foldl_sb_append: "foldl (\<lambda>b x. sb_append b (f x)) (sb_append b y) xs = sb_append b (y @ concat (map f xs))"
  by (induction xs arbitrary: y) simp_all

lemma sb_append_json_string_eq: "sb_append_json_string b text = sb_append b (json_string text)"
  by (simp add: sb_append_json_string_def foldl_sb_append json_string_def)

lemma of_char_char_of_nat: "n < 256 \<Longrightarrow> (of_char (char_of n) :: nat) = n"
  by (simp add: of_char_of)

lemma of_char_int: "(of_char c :: int) = int (of_char c)"
  by (simp add: of_nat_of_char)

lemma hex_lower_digit:
  assumes "n < 16"
  shows "isxdigit (hex_lower n)" and "hex_value (hex_lower n) = int n"
  using assms
  by (auto simp: isxdigit_def isdigit_def hex_lower_def hex_digit_def hex_value_def Let_def of_char_int
      of_char_char_of_nat)

lemma nat_of_hex_digits: "nat (int (n div 16) * 16 + int (n mod 16)) = n"
proof -
  have "int (n div 16) * 16 + int (n mod 16) = int (n div 16 * 16 + n mod 16)"
    by (simp only: of_nat_add of_nat_mult of_nat_numeral)
  then show ?thesis by (simp only: div_mult_mod_eq nat_int)
qed

lemma decode_json_char:
  "decode_json_string b (json_char ch @ rest) = decode_json_string (sb_append b [ch]) rest"
proof (cases "(of_char ch :: nat) < 32 \<and> ch \<notin> {CHR 0x0A, CHR 0x0D, CHR 0x09}")
  case True
  let ?n = "of_char ch :: nat"
  have char: "ch \<noteq> backslash" "ch \<noteq> quote" using True by (auto simp: backslash_def quote_def)
  have json: "json_char ch = [backslash, CHR ''u'', CHR ''0'', CHR ''0'',
      hex_lower (?n div 16), hex_lower (?n mod 16)]"
    using True char by (simp add: json_char.simps)
  have digits: "?n div 16 < 16" "?n mod 16 < 16" using True by auto
  have "hex_char (hex_lower (?n div 16)) (hex_lower (?n mod 16)) = char_of (nat (int (?n div 16) * 16 + int (?n mod 16)))"
    by (simp only: hex_char_def hex_lower_digit(2) [OF digits(1)] hex_lower_digit(2) [OF digits(2)])
  also have "nat (int (?n div 16) * 16 + int (?n mod 16)) = ?n"
    by (rule nat_of_hex_digits)
  finally have "hex_char (hex_lower (?n div 16)) (hex_lower (?n mod 16)) = ch" by simp
  moreover have "isxdigit (CHR ''0'')" by (simp add: isxdigit_def isdigit_def)
  ultimately show ?thesis
    using hex_lower_digit(1) [OF digits(1)] hex_lower_digit(1) [OF digits(2)]
    by (simp add: json backslash_def quote_def unicode_char_def)
qed (auto simp: json_char.simps backslash_def quote_def)

lemma decode_json_chars:
  "decode_json_string b (concat (map json_char cs) @ quote # rest) =
     Some (if cs = [] then b else sb_append b cs)"
proof (induction cs arbitrary: b)
  case (Cons ch cs)
  then show ?case by (simp add: decode_json_char)
qed simp

lemma strstr_first:
  assumes "pattern \<noteq> []" and "strstr (before @ butlast pattern) pattern = None"
  shows "strstr (before @ pattern @ rest) pattern = Some (pattern @ rest)"
  using assms(2)
proof (induction before)
  case Nil
  then show ?case using assms(1) by (cases pattern) auto
next
  case (Cons c before)
  have "c # before @ pattern @ rest = (c # before @ butlast pattern) @ (last pattern # rest)"
    using append_butlast_last_id [OF assms(1)] by (metis append.assoc append_Cons append_Nil)
  moreover have "length pattern \<le> length (c # before @ butlast pattern)" using assms(1) by simp
  ultimately have "take (length pattern) (c # before @ pattern @ rest) =
      take (length pattern) (c # before @ butlast pattern)"
    by (simp only: take_append) simp
  then show ?case using Cons by (auto split: if_splits)
qed

lemma key_pattern_ne: "key_pattern key \<noteq> []"
  by (simp add: key_pattern_def cut_def)

lemma value_of_key_first:
  assumes "strstr (before @ butlast (key_pattern key)) (key_pattern key) = None"
  shows "value_of_key (before @ key_pattern key @ CHR '':'' # val) key = Some (dropWhile isspace val)"
  using strstr_first [OF key_pattern_ne assms] by (simp add: value_of_key_def)

text \<open>
  C5. What the server writes as a JSON string, its own parser of messages reads back, for every
  text: the backslash, the quote, the control characters and the bytes above 127 included, with any
  blanks in front of it, at the first occurrence of the key. Only the empty text comes back as the
  null pointer.
\<close>

theorem json_string_roundtrip:
  assumes "strstr (before @ butlast (key_pattern key)) (key_pattern key) = None"
    and "list_all isspace blanks"
  shows "extract_json_string_value
           (before @ key_pattern key @ CHR '':'' # blanks @ the (sb_append_json_string sb_init val) @ after) key =
         Some (if val = [] then None else Some val)"
proof -
  have blanks: "dropWhile isspace (blanks @ quote # rest) = quote # rest" for rest
    using assms(2) by (induction blanks) (auto simp: quote_def isspace_def)
  have "value_of_key (before @ key_pattern key @ CHR '':'' # blanks @ json_string val @ after) key =
      Some (quote # concat (map json_char val) @ quote # after)"
    using value_of_key_first [OF assms(1), of "blanks @ json_string val @ after"] blanks
    by (simp add: json_string_def)
  then show ?thesis
    by (simp add: sb_append_json_string_eq extract_json_string_value_def char_at_def decode_json_chars
        sb_append_def sb_init_def)
qed

theorem json_string_roundtrip_witness:
  "extract_json_string_value
     (''{\"uri\":1,'' @ key_pattern ''text'' @ CHR '':'' # '' '' @
      the (sb_append_json_string sb_init [quote, backslash, CHR 0x01, CHR 0x0A, CHR 0xE9]) @ ''}'') ''text'' =
   Some (Some [quote, backslash, CHR 0x01, CHR 0x0A, CHR 0xE9])"
proof -
  have "strstr (''{\"uri\":1,'' @ butlast (key_pattern ''text'')) (key_pattern ''text'') = None"
    by code_simp
  moreover have "list_all isspace '' ''" by code_simp
  ultimately show ?thesis by (subst json_string_roundtrip) simp_all
qed

section \<open>Message framing\<close>

lemma print_nat_digits: "list_all isdigit (print_nat n) \<and> print_nat n \<noteq> []"
proof (induction n rule: print_nat.induct)
  case (1 n)
  have digit: "k < 10 \<Longrightarrow> isdigit (char_of (48 + k))" for k :: nat
    by (simp add: isdigit_def of_char_char_of_nat)
  show ?case
  proof (cases "n < 10")
    case True
    then show ?thesis using digit [OF True] by (subst (1 2) print_nat.simps) simp
  next
    case False
    then show ?thesis using "1.IH" digit [of "n mod 10"] by (subst (1 2) print_nat.simps) simp
  qed
qed

lemma digits_value_print: "digits_value (print_nat n) = n"
proof (induction n rule: print_nat.induct)
  case (1 n)
  then show ?case
    by (subst print_nat.simps) (simp add: digits_value_def of_char_char_of_nat)
qed

lemma length_print_nat: "n < 10 ^ k \<Longrightarrow> 0 < k \<Longrightarrow> length (print_nat n) \<le> k"
proof (induction n arbitrary: k rule: print_nat.induct)
  case (1 n)
  show ?case
  proof (cases "n < 10")
    case True
    then show ?thesis using "1.prems" by (subst print_nat.simps) simp
  next
    case False
    then obtain j where k: "k = Suc j" "0 < j"
      using "1.prems" by (cases k; cases "k - 1") auto
    have "n div 10 < 10 ^ j" using "1.prems"(1) k by (simp add: less_mult_imp_div_less)
    then show ?thesis using "1.IH" [OF False] k False by (subst print_nat.simps) simp
  qed
qed

lemma fgets_line:
  assumes "CHR 0x0A \<notin> set line" and "length line + 1 < capacity"
  shows "fgets capacity (line @ CHR 0x0A # tail) = Some (line @ [CHR 0x0A], tail)"
proof -
  have "takeWhile (\<lambda>c. c \<noteq> CHR 0x0A) (line @ CHR 0x0A # tail) = line"
    using assms(1) by (induction line) auto
  moreover have "min (capacity - 1) (length line + 1) = length line + 1" using assms(2) by simp
  ultimately show ?thesis by (simp add: fgets_def)
qed

lemma strtoull_print:
  assumes "n < 2 ^ 64"
  shows "strtoull (CHR '' '' # print_nat n @ CRLF) = of_nat n"
proof -
  obtain d ds where ds: "print_nat n = d # ds" "isdigit d"
    using print_nat_digits [of n] by (cases "print_nat n") auto
  have d: "d \<noteq> CHR ''-''" "d \<noteq> CHR ''+''" "\<not> isspace d"
    using ds(2) by (auto simp: isdigit_def isspace_def Let_def)
  have "takeWhile isdigit (print_nat n @ CRLF) = print_nat n"
    using print_nat_digits [of n] by (subst takeWhile_append2) (auto simp: list_all_iff CRLF_def isdigit_def)
  then have "scan_number (CHR '' '' # print_nat n @ CRLF) = Some (False, n)"
    using ds d digits_value_print [of n] by (simp add: scan_number_def char_at_def isspace_def)
  then show ?thesis using assms by (simp add: strtoull_def)
qed

lemma header_line:
  assumes "n < 2 ^ 64"
  defines "line \<equiv> ''Content-Length: '' @ print_nat n @ [CHR 0x0D]"
  shows "read_headers False 0 (line @ CHR 0x0A # tail) = read_headers True (of_nat n) tail"
proof -
  have digit: "isdigit c \<Longrightarrow> c \<noteq> CHR 0x0A \<and> c \<noteq> NUL" for c by (auto simp: isdigit_def NUL_def)
  have plain: "CHR 0x0A \<notin> set line" "NUL \<notin> set line"
    using print_nat_digits [of n] digit by (auto simp: line_def list_all_iff NUL_def)
  have "length (print_nat n) \<le> 20" using assms(1) by (intro length_print_nat) auto
  then have "length line + 1 < LINE_SIZE" by (simp add: line_def LINE_SIZE_def)
  then have fgets: "fgets LINE_SIZE (line @ CHR 0x0A # tail) = Some (line @ [CHR 0x0A], tail)"
    using plain(1) by (rule fgets_line [rotated])
  have whole: "takeWhile (\<lambda>c. c \<noteq> NUL) (line @ [CHR 0x0A]) = line @ [CHR 0x0A]"
    using plain(2) by (auto simp: takeWhile_eq_all_conv NUL_def)
  have shape: "line @ [CHR 0x0A] \<noteq> [CHR 0x0A]" "line @ [CHR 0x0A] \<noteq> CRLF"
    "take 15 (line @ [CHR 0x0A]) = ''Content-Length:''"
    "drop 15 (line @ [CHR 0x0A]) = CHR '' '' # print_nat n @ CRLF"
    by (simp_all add: line_def CRLF_def)
  show ?thesis
    unfolding read_headers.simps [of False 0] fgets option.case prod.case whole Let_def
    using shape strtoull_print [OF assms(1)] by simp
qed

lemma empty_line: "read_headers saw n (CRLF @ tail) = Some (True, n, tail)"
proof -
  have "fgets LINE_SIZE ([CHR 0x0D] @ CHR 0x0A # tail) = Some ([CHR 0x0D] @ [CHR 0x0A], tail)"
    by (rule fgets_line) (simp_all add: LINE_SIZE_def)
  then show ?thesis by (simp add: read_headers.simps [of saw n] CRLF_def NUL_def)
qed

text \<open>A message written by \<^verbatim>\<open>write_response\<close> is read back by \<^verbatim>\<open>read_message\<close>, and what stands behind it is left.\<close>

lemma message_framing_roundtrip:
  assumes "NUL \<notin> set body" and "body \<noteq> []" and "length body < 2 ^ 64 - 1"
  shows "read_message (write_response body @ rest) = Returned (Some (body, rest))"
proof -
  let ?n = "of_nat (length body) :: u64"
  have n: "unat ?n = length body" using assms(3) by (simp add: unat_of_nat)
  have "?n \<noteq> 0" using n assms(2) by (metis length_0_conv unat_0)
  moreover have "?n \<noteq> - 1"
  proof
    assume "?n = - 1"
    then have "length body = unat (- 1 :: u64)" using n by simp
    then show False using assms(3) by (simp add: unsigned_minus_1_eq_mask mask_eq_exp_minus_1)
  qed
  moreover have "read_headers False 0 (write_response body @ rest) = Some (True, ?n, body @ rest)"
    using header_line [of "length body" "CRLF @ body @ rest"] empty_line assms(3)
    by (simp add: write_response_def CRLF_def)
  moreover have "takeWhile (\<lambda>c. c \<noteq> NUL) body = body"
    using assms(1) by (auto simp: takeWhile_eq_all_conv)
  ultimately show ?thesis by (simp add: read_message_def n)
qed

text \<open>What the server does with a list of messages, without the byte streams.\<close>

fun session :: "lsp_server \<Rightarrow> string list \<Rightarrow> string \<Rightarrow> (string \<times> lsp_server) result" where
  "session s [] output = Returned (output, s)"
| "session s (m # ms) output =
     result_then (handle_message m s)
       (\<lambda>(go_on, response, s).
          if \<not> go_on then Returned (output, s)
          else case response of
                 None \<Rightarrow> session s ms output
               | Some r \<Rightarrow>
                   if response_ok (disk_now s) then session (disk_next s) ms (output @ write_response r)
                   else Returned (output, disk_next s))"

definition plain_message :: "string \<Rightarrow> bool" where
  "plain_message m \<longleftrightarrow> NUL \<notin> set m \<and> m \<noteq> [] \<and> length m < 2 ^ 64 - 1"

lemma read_message_end: "read_message [] = Returned None"
  by (simp add: read_message_def read_headers.simps fgets_def)

text \<open>
  C4. On a stream of messages, each behind a header with its length, the server handles the
  messages one after the other and in order, each exactly as it was sent, and stops at the end of
  the stream; its output is the responses, framed, in the order of the requests.
\<close>

theorem serve_handles_messages_in_order:
  assumes "list_all plain_message ms"
  shows "serve s (concat (map write_response ms)) out = session s ms out"
  using assms
proof (induction ms arbitrary: s out)
  case Nil
  then show ?case by (simp add: serve.simps read_message_end)
next
  case (Cons m ms)
  then have "read_message (write_response m @ concat (map write_response ms)) =
      Returned (Some (m, concat (map write_response ms)))"
    by (intro message_framing_roundtrip) (simp_all add: plain_message_def)
  then show ?case using Cons
    by (subst serve.simps) (auto split: result.split option.split bool.split)
qed

theorem serve_handles_messages_in_order_witness:
  "serve demo_server
     (concat (map write_response [''{\"id\":1,\"method\":\"initialize\"}'', ''{\"method\":\"initialized\"}''])) [] =
   session demo_server [''{\"id\":1,\"method\":\"initialize\"}'', ''{\"method\":\"initialized\"}''] []"
  by (rule serve_handles_messages_in_order) (simp add: plain_message_def NUL_def)

section \<open>Requests and responses\<close>

text \<open>The methods that are requests, and so are answered: all but the notifications and \<^verbatim>\<open>exit\<close>.\<close>

definition is_request :: "string \<Rightarrow> bool" where
  "is_request method \<longleftrightarrow>
     method \<notin> {''textDocument/didOpen'', ''textDocument/didChange'', ''textDocument/didClose'', ''exit'', ''initialized''}"

definition response_to :: "string \<Rightarrow> handled \<Rightarrow> bool" where
  "response_to request_id handled \<longleftrightarrow>
     (case handled of
        Returned (go_on, response, s) \<Rightarrow>
          go_on \<and> (\<exists>answer. response = Some (''{\"jsonrpc\":\"2.0\",\"id\":'' @ request_id @ '','' @ answer @ ''}''))
      | Exited n \<Rightarrow> False
      | _ \<Rightarrow> True)"

lemma response_to_respond:
  "response_to request_id (respond (build_success_response request_id v) s)"
  "response_to request_id (respond (build_error_response request_id code message) s)"
  by (auto simp: response_to_def respond_def build_success_response_def build_error_response_def)

lemma response_to_then:
  "(\<And>n. x \<noteq> Exited n) \<Longrightarrow> (\<And>v. response_to request_id (k v)) \<Longrightarrow>
    response_to request_id (result_then x k)"
  by (cases x) (auto simp: response_to_def)

lemma never_exited:
  "extract_token_at_position cs line character capacity \<noteq> Exited n"
  "method_from_class s current selector_oop \<noteq> Exited n"
  by (auto simp: extract_token_at_position_def method_from_class_def Let_def split: prod.split option.split)

lemma result_then_eq_Exited:
  "result_then x k = Exited n \<longleftrightarrow> x = Exited n \<or> (\<exists>v. x = Returned v \<and> k v = Exited n)"
  by (cases x) auto

lemma build_never_exits:
  "build_hover_text_for_selector uri selector s \<noteq> Exited n"
  "build_definition_locations uri token s \<noteq> Exited n"
  by (auto simp: build_hover_text_for_selector_def build_definition_locations_def Let_def
      result_then_eq_Exited never_exited split: prod.splits option.splits if_splits)

lemma respond_returns: "\<exists>r s'. respond response s = Returned (True, Some r, s')"
  by (simp add: respond_def)

lemma response_to_hover: "response_to request_id (handle_hover request_id message s)"
  unfolding handle_hover_def
  by (auto intro!: response_to_then simp: response_to_respond never_exited build_never_exits split: option.split prod.split)
     (simp_all add: response_to_def)

lemma response_to_definition: "response_to request_id (handle_definition request_id message s)"
  unfolding handle_definition_def
  by (auto intro!: response_to_then simp: response_to_respond never_exited build_never_exits split: option.split prod.split)
     (simp_all add: response_to_def)

text \<open>
  C25. A request with an id gets one response, which carries that id, and the server goes on; only
  hover and definition can fail to return. A request without an id gets no response and changes
  nothing. The id and the method are those that \<^verbatim>\<open>extract_json_id\<close> and \<open>json_text\<close>
  find: the first occurrence of the name in the message, an id of fewer than 64 characters, the method
  up to its first null character and cut to its buffer.
\<close>

theorem requests_are_answered:
  assumes "json_text message ''method'' = Some (Some method)"
    and "is_request (cut 128 method)"
  shows "case extract_json_id message 64 of
      None \<Rightarrow> handle_message message s = Returned (True, None, s)
    | Some request_id \<Rightarrow>
        response_to request_id (handle_message message s) \<and>
        (cut 128 method \<notin> {''textDocument/hover'', ''textDocument/definition''} \<longrightarrow>
          (\<exists>response s'. handle_message message s = Returned (True, Some response, s')))"
proof -
  have "handle_message message s = dispatch (cut 128 method) (extract_json_id message 64) message s"
    using assms(1) by (simp add: handle_message_def)
  then show ?thesis using assms(2)
    by (auto simp: dispatch_def answered_def is_request_def response_to_hover response_to_definition
        handle_initialize_def handle_workspace_symbol_def handle_shutdown_def Let_def response_to_respond
        respond_returns split: option.split prod.split)
qed

theorem requests_are_answered_witness:
  "response_to ''7'' (handle_message ''{\"id\":7,\"method\":\"shutdown\"}'' demo_server)"
proof -
  have "json_text ''{\"id\":7,\"method\":\"shutdown\"}'' ''method'' = Some (Some ''shutdown'')"
    by code_simp
  moreover have "is_request (cut 128 ''shutdown'')" by code_simp
  moreover have "extract_json_id ''{\"id\":7,\"method\":\"shutdown\"}'' 64 = Some ''7''" by code_simp
  ultimately show ?thesis
    using requests_are_answered [of "''{\"id\":7,\"method\":\"shutdown\"}''" "''shutdown''" demo_server] by simp
qed

section \<open>Open documents\<close>

definition document_entries :: "lsp_server \<Rightarrow> (string \<times> string) list" where
  "document_entries s = map (\<lambda>d. (document_uri d, document_text d)) (open_documents s)"

text \<open>The table as the map it stands for, and its invariant: no URI twice, at most 128 entries.\<close>

definition document_map :: "lsp_server \<Rightarrow> string \<rightharpoonup> string" where
  "document_map s = map_of (document_entries s)"

definition documents_ok :: "lsp_server \<Rightarrow> bool" where
  "documents_ok s \<longleftrightarrow>
     distinct (map fst (document_entries s)) \<and> length (document_entries s) \<le> MAX_OPEN_DOCUMENTS"

lemma map_of_update:
  "distinct (map fst xs) \<Longrightarrow> i < length xs \<Longrightarrow> fst (xs ! i) = k \<Longrightarrow>
    map_of (xs[i := (k, v)]) = (map_of xs)(k \<mapsto> v)"
proof (induction xs arbitrary: i)
  case (Cons x xs)
  show ?case
  proof (cases i)
    case 0
    then show ?thesis using Cons.prems by auto
  next
    case (Suc j)
    then have "fst x \<noteq> k" using Cons.prems by auto
    then show ?thesis using Suc Cons by (cases x) (auto simp: fun_upd_twist)
  qed
qed simp

lemma map_of_remove:
  "distinct (map fst xs) \<Longrightarrow> i < length xs \<Longrightarrow> fst (xs ! i) = k \<Longrightarrow>
    map_of (take i xs @ drop (Suc i) xs) = (map_of xs)(k := None)"
proof (induction xs arbitrary: i)
  case (Cons x xs)
  then show ?case
  proof (cases i)
    case 0
    then have "map_of xs k = None" using Cons.prems by (auto simp: map_of_eq_None_iff)
    then show ?thesis using 0 Cons.prems by (auto simp: fun_eq_iff)
  next
    case (Suc j)
    then have "fst x \<noteq> k" using Cons.prems by auto
    then show ?thesis using Suc Cons by (cases x) (auto simp: fun_upd_twist)
  qed
qed simp

lemma map_fst_update: "i < length xs \<Longrightarrow> fst (xs ! i) = k \<Longrightarrow> map fst (xs[i := (k, v)]) = map fst xs"
  by (metis fst_conv list_update_id map_update)

lemma document_entries_simps:
  "document_entries (s\<lparr>open_documents := (open_documents s)[i := d]\<rparr>) =
     (document_entries s)[i := (document_uri d, document_text d)]"
  "document_entries (s\<lparr>open_documents := open_documents s @ [d]\<rparr>) =
     document_entries s @ [(document_uri d, document_text d)]"
  "document_entries (s\<lparr>open_documents := take i (open_documents s) @ drop (Suc i) (open_documents s)\<rparr>) =
     take i (document_entries s) @ drop (Suc i) (document_entries s)"
  "length (open_documents s) = length (document_entries s)"
  by (simp_all add: document_entries_def map_update take_map drop_map)

lemma current_document_find_Some:
  assumes "current_document_find (open_documents s) uri = Some i"
  shows "i < length (document_entries s)" and "fst (document_entries s ! i) = uri"
    and "document_entries s ! i = (uri, document_text (open_documents s ! i))"
  using assms by (auto simp: current_document_find_def document_entries_def find_Some_iff)

lemma current_document_find_None:
  "current_document_find (open_documents s) uri = None \<longleftrightarrow> document_map s uri = None"
  unfolding current_document_find_def document_map_def document_entries_def map_of_eq_None_iff find_None_iff
  by (auto simp: image_image in_set_conv_nth [of _ "open_documents s"] image_iff dest: nth_mem)

lemma documents_remove_ok:
  assumes "distinct (map fst xs)" and "length xs \<le> n"
  shows "distinct (map fst (take i xs @ drop (Suc i) xs)) \<and> length (take i xs @ drop (Suc i) xs) \<le> n"
proof -
  have "map fst (take i xs @ drop (Suc i) xs) = take i (map fst xs) @ drop (Suc i) (map fst xs)"
    by (simp add: take_map drop_map)
  moreover have "set (take i (map fst xs)) \<inter> set (drop (Suc i) (map fst xs)) = {}"
    using assms(1) by (intro set_take_disj_set_drop_if_distinct) auto
  ultimately show ?thesis using assms by (simp del: map_append)
qed

lemma read_open_document:
  assumes "documents_ok s" and "document_map s uri = Some val"
  shows "read_uri_text s uri = Some val"
proof (cases "current_document_find (open_documents s) uri")
  case None
  then show ?thesis using assms(2) current_document_find_None [of s uri] by simp
next
  case (Some i)
  note found = current_document_find_Some [OF Some]
  then have "(uri, document_text (open_documents s ! i)) \<in> set (document_entries s)"
    by (metis nth_mem)
  then have "document_map s uri = Some (document_text (open_documents s ! i))"
    using assms(1) by (simp add: document_map_def documents_ok_def)
  then show ?thesis using assms(2) Some by (simp add: read_uri_text_def)
qed

text \<open>
  C24. The table of open documents is a finite map: opening or changing a document updates its text
  unless a new document does not fit into the table, which is then left alone; closing one removes
  it and only it; both keep the table without duplicates and within its size, and the text of an
  open document is the one last given for it.
\<close>

theorem documents_refine_map:
  assumes "documents_ok s"
  shows "(let (ok, s') = set_open_document uri val s
          in documents_ok s' \<and>
             (ok \<longleftrightarrow> document_map s uri \<noteq> None \<or> card (dom (document_map s)) < MAX_OPEN_DOCUMENTS) \<and>
             (if ok then document_map s' = (document_map s)(uri \<mapsto> val) \<and> read_uri_text s' uri = Some val
              else s' = s)) \<and>
         (let s' = close_open_document uri s
          in documents_ok s' \<and> document_map s' = (document_map s)(uri := None))"
proof -
  let ?xs = "document_entries s"
  have distinct: "distinct (map fst ?xs)" and len: "length ?xs \<le> MAX_OPEN_DOCUMENTS"
    using assms by (auto simp: documents_ok_def)
  have card: "card (dom (document_map s)) = length ?xs"
    using distinct_card [OF distinct] by (simp add: document_map_def dom_map_of_conv_image_fst)
  show ?thesis
  proof (cases "current_document_find (open_documents s) uri")
    case None
    then have new: "document_map s uri = None" by (simp add: current_document_find_None)
    then have fresh: "uri \<notin> fst ` set ?xs" by (simp add: document_map_def map_of_eq_None_iff)
    let ?s = "s\<lparr>open_documents := open_documents s @ [\<lparr>document_uri = uri, document_text = val\<rparr>]\<rparr>"
    have "document_map ?s = (document_map s)(uri \<mapsto> val)"
      using new by (auto simp: document_map_def document_entries_simps map_add_def fun_eq_iff split: option.split)
    moreover have "documents_ok ?s" if "length ?xs < MAX_OPEN_DOCUMENTS"
      using that distinct fresh by (simp add: documents_ok_def document_entries_simps)
    ultimately show ?thesis
      using None new card assms read_open_document [of ?s]
      by (auto simp: set_open_document_def close_open_document_def document_entries_simps(4) fun_upd_idem)
  next
    case (Some i)
    note found = current_document_find_Some [OF Some]
    let ?s = "s\<lparr>open_documents := (open_documents s)[i := \<lparr>document_uri = uri, document_text = val\<rparr>]\<rparr>"
    let ?c = "s\<lparr>open_documents := take i (open_documents s) @ drop (Suc i) (open_documents s)\<rparr>"
    have old: "document_map s uri \<noteq> None" using Some current_document_find_None [of s uri] by auto
    have "document_map ?s = (document_map s)(uri \<mapsto> val)"
      using map_of_update [OF distinct found(1,2)] by (simp add: document_map_def document_entries_simps)
    moreover have "documents_ok ?s"
      using distinct len map_fst_update [OF found(1,2)] by (simp add: documents_ok_def document_entries_simps)
    moreover have "document_map ?c = (document_map s)(uri := None)"
      using map_of_remove [OF distinct found(1,2)] by (simp add: document_map_def document_entries_simps)
    moreover have "documents_ok ?c"
      using documents_remove_ok [OF distinct len] by (simp add: documents_ok_def document_entries_simps)
    ultimately show ?thesis
      using Some old read_open_document [of ?s] by (simp add: set_open_document_def close_open_document_def)
  qed
qed

theorem documents_refine_map_witness:
  "fst (set_open_document ''b'' ''y'' demo_server) \<and>
   document_map (snd (set_open_document ''b'' ''y'' demo_server)) = (document_map demo_server)(''b'' \<mapsto> ''y'') \<and>
   read_uri_text (snd (set_open_document ''b'' ''y'' demo_server)) ''b'' = Some ''y'' \<and>
   document_map (close_open_document ''b'' demo_server) = (document_map demo_server)(''b'' := None)"
proof -
  have "documents_ok demo_server"
    by (simp add: documents_ok_def document_entries_def demo_server_def MAX_OPEN_DOCUMENTS_def)
  moreover have "fst (set_open_document ''b'' ''y'' demo_server)" by code_simp
  ultimately show ?thesis
    using documents_refine_map [of demo_server "''b''" "''y''"] by (auto simp: Let_def split: prod.splits)
qed

section \<open>Tokens at a position\<close>

lemma back_over_le: "back_over P cs start \<le> start"
  by (simp add: back_over_def)

lemma forward_over_ge: "finish \<le> forward_over P cs finish"
  by (simp add: forward_over_def)

lemma forward_over_le: "finish \<le> length cs \<Longrightarrow> forward_over P cs finish \<le> length cs"
  using length_takeWhile_le [of P "drop finish cs"] by (simp add: forward_over_def)

lemma forward_over_gt: "i < length cs \<Longrightarrow> P (cs ! i) \<Longrightarrow> i < forward_over P cs i"
  by (simp add: forward_over_def Cons_nth_drop_Suc [symmetric])

lemma forward_over_all:
  "i \<le> length cs \<Longrightarrow> forward_over P cs i = length cs \<longleftrightarrow> list_all P (drop i cs)"
proof -
  let ?d = "drop i cs"
  assume "i \<le> length cs"
  then have "forward_over P cs i = length cs \<longleftrightarrow> length (takeWhile P ?d) = length ?d"
    by (auto simp: forward_over_def)
  also have "\<dots> \<longleftrightarrow> takeWhile P ?d = ?d"
    using takeWhile_eq_take [of P ?d] by (metis order_refl take_all)
  also have "\<dots> \<longleftrightarrow> list_all P ?d" by (auto simp: takeWhile_eq_all_conv list_all_iff)
  finally show ?thesis .
qed

lemma keyword_end_bounds:
  "finish \<le> length cs \<Longrightarrow> finish \<le> keyword_end cs finish \<and> keyword_end cs finish \<le> length cs"
proof (induction cs finish rule: keyword_end.induct)
  case (1 cs finish)
  show ?case
  proof (cases "char_at cs finish = CHR '':''")
    case True
    then have "finish + 1 \<le> length cs" by (auto simp: char_at_def NUL_def split: if_splits)
    then show ?thesis
      using "1.IH" [OF True forward_over_le] True forward_over_ge [of "finish + 1" is_word_char cs]
      by (subst (1 2) keyword_end.simps) simp
  qed (use "1.prems" in \<open>simp add: keyword_end.simps\<close>)
qed

lemma offset_from_le: "offset_from l c line character cs \<le> length cs"
  by (induction cs arbitrary: l c) auto

lemma token_between_Some:
  assumes "token_between cs start finish capacity = Some tok" and "start \<le> i" and "i < finish"
    and "finish \<le> length cs"
  shows "tok \<noteq> [] \<and> length tok < capacity \<and>
    (\<exists>before after. cs = before @ tok @ after \<and> length before \<le> i \<and> i < length before + length tok)"
proof -
  have tok: "tok = take (finish - start) (drop start cs)" and "start < finish" "finish - start < capacity"
    using assms(1) by (auto simp: token_between_def split: if_splits)
  moreover have "cs = take start cs @ tok @ drop finish cs"
    using tok \<open>start < finish\<close>
    by (metis append_take_drop_id drop_drop le_add_diff_inverse2 less_imp_le)
  ultimately show ?thesis using assms(2-4)
    by (intro conjI exI [of _ "take start cs"] exI [of _ "drop finish cs"]) auto
qed

text \<open>The character a position names: behind the end it is the last one.\<close>

definition position_index :: "string \<Rightarrow> int \<Rightarrow> int \<Rightarrow> nat" where
  "position_index cs line character = min (offset_for_position cs line character) (length cs - 1)"

lemma nth_not_NUL: "NUL \<notin> set cs \<Longrightarrow> i < length cs \<Longrightarrow> cs ! i \<noteq> NUL"
  by (metis nth_mem)

lemma position_index_eq:
  assumes "NUL \<notin> set cs" and "cs \<noteq> []"
  shows "(if char_at cs (offset_for_position cs line character) = NUL \<and> offset_for_position cs line character > 0
          then offset_for_position cs line character - 1 else offset_for_position cs line character) =
         position_index cs line character"
    and "position_index cs line character < length cs"
proof -
  define i where "i = offset_for_position cs line character"
  have "i \<le> length cs" by (simp add: i_def offset_for_position_def offset_from_le)
  moreover have "char_at cs i = NUL \<longleftrightarrow> length cs \<le> i"
    using nth_not_NUL [OF assms(1), of i] by (auto simp: char_at_def)
  ultimately have "(if char_at cs i = NUL \<and> i > 0 then i - 1 else i) = min i (length cs - 1)"
    using assms(2) by (cases cs) (auto simp: min_def)
  then show "(if char_at cs (offset_for_position cs line character) = NUL \<and> offset_for_position cs line character > 0
          then offset_for_position cs line character - 1 else offset_for_position cs line character) =
         position_index cs line character"
    by (simp only: i_def position_index_def)
  show "position_index cs line character < length cs"
    using assms(2) by (cases cs) (auto simp: position_index_def min_def)
qed

lemma char_classes:
  "isalpha c \<Longrightarrow> is_word_char c" "c = CHR ''#'' \<Longrightarrow> \<not> is_word_char c"
  "isalpha c \<or> c = CHR ''#'' \<Longrightarrow> \<not> is_binary_char c"
  by (auto simp: is_word_char_def isalnum_def isalpha_def isdigit_def is_binary_char_def backslash_def NUL_def)

text \<open>On a number sign there is no token: it would end before it starts.\<close>

lemma number_sign_token:
  assumes "i < length cs" and "cs ! i = CHR ''#''"
  shows "token_between cs (back_over is_word_char cs (i + 1))
    (keyword_end cs (forward_over is_word_char cs i)) capacity = None"
proof -
  have "back_over is_word_char cs (i + 1) = i + 1"
    using assms char_classes(2) by (simp add: back_over_def take_Suc_conv_app_nth)
  moreover have "forward_over is_word_char cs i = i"
    using assms char_classes(2) by (simp add: forward_over_def Cons_nth_drop_Suc [symmetric])
  moreover have "keyword_end cs i = i"
    using assms by (simp add: keyword_end.simps char_at_def)
  ultimately show ?thesis by (simp add: token_between_def)
qed

lemma extract_token_eq:
  assumes "NUL \<notin> set cs" and "\<not> (cs = [] \<or> capacity = 0)"
  shows "extract_token_at_position cs line character capacity =
      (let i = position_index cs line character
       in if isalpha (cs ! i) \<or> cs ! i = CHR ''#'' then
            Returned (token_between cs
              (back_over is_word_char cs (if cs ! i = CHR ''#'' then i + 1 else i))
              (keyword_end cs (forward_over is_word_char cs i)) capacity)
          else if is_binary_char (cs ! i) then
            if forward_over is_binary_char cs i = length cs then Undefined
            else Returned (token_between cs (back_over is_binary_char cs i) (forward_over is_binary_char cs i) capacity)
          else Returned None)"
proof -
  define i where "i = position_index cs line character"
  have "i < length cs" using position_index_eq(2) [OF assms(1)] assms(2) by (simp add: i_def)
  then have "char_at cs i = cs ! i" "cs ! i \<noteq> NUL"
    using nth_not_NUL [OF assms(1)] by (simp_all add: char_at_def)
  then show ?thesis
    using position_index_eq(1) [OF assms(1), of line character] assms(2)
    unfolding extract_token_at_position_def Let_def i_def [symmetric] by simp
qed

text \<open>
  C26. A token found at a position is a piece of the text that is not empty, fits its buffer and
  covers the position. The search reads behind the end of the text exactly when only binary
  characters stand between the position and the end.
\<close>

theorem token_at_position:
  assumes "NUL \<notin> set cs"
  shows "(extract_token_at_position cs line character capacity = Undefined \<longleftrightarrow>
           cs \<noteq> [] \<and> capacity \<noteq> 0 \<and> list_all is_binary_char (drop (position_index cs line character) cs)) \<and>
         (\<forall>tok. extract_token_at_position cs line character capacity = Returned (Some tok) \<longrightarrow>
           tok \<noteq> [] \<and> length tok < capacity \<and>
           (\<exists>before after. cs = before @ tok @ after \<and> length before \<le> position_index cs line character \<and>
              position_index cs line character < length before + length tok))"
proof (cases "cs = [] \<or> capacity = 0")
  case True
  then show ?thesis by (auto simp: extract_token_at_position_def)
next
  case False
  define i where "i = position_index cs line character"
  have i: "i < length cs" using position_index_eq(2) [OF assms] False by (simp add: i_def)
  have drop: "drop i cs = cs ! i # drop (Suc i) cs" using i by (simp add: Cons_nth_drop_Suc)
  note whole = extract_token_eq [OF assms False, of line character, unfolded Let_def, folded i_def]
  consider "cs ! i = CHR ''#''" | "isalpha (cs ! i)" "cs ! i \<noteq> CHR ''#''" | "is_binary_char (cs ! i)"
    | "\<not> isalpha (cs ! i)" "cs ! i \<noteq> CHR ''#''" "\<not> is_binary_char (cs ! i)" by blast
  then show ?thesis
  proof cases
    case 1
    then show ?thesis
      using number_sign_token [OF i] char_classes(3) drop False by (simp add: whole i_def [symmetric])
  next
    case 2
    have bounds: "forward_over is_word_char cs i \<le> keyword_end cs (forward_over is_word_char cs i)"
      "keyword_end cs (forward_over is_word_char cs i) \<le> length cs"
      using keyword_end_bounds forward_over_le i by auto
    then have "i < keyword_end cs (forward_over is_word_char cs i)"
      using 2 char_classes(1) forward_over_gt [OF i] less_le_trans by blast
    then show ?thesis
      using token_between_Some [OF _ back_over_le _ bounds(2)] 2 char_classes(3) drop False
      by (simp add: whole i_def [symmetric])
  next
    case 3
    then have "\<not> isalpha (cs ! i)" "cs ! i \<noteq> CHR ''#''" using char_classes(3) by blast+
    then show ?thesis
      using token_between_Some [OF _ back_over_le forward_over_gt [where P = is_binary_char, OF i 3] forward_over_le] 3 i False
        forward_over_all [OF less_imp_le [OF i], of is_binary_char]
      by (simp add: whole i_def [symmetric])
  next
    case 4
    then show ?thesis using drop False by (simp add: whole i_def [symmetric])
  qed
qed

theorem token_at_position_witness:
  "extract_token_at_position ''x at: y'' 0 3 128 = Returned (Some ''at:'') \<and>
   (\<exists>before after. ''x at: y'' = before @ ''at:'' @ after \<and>
      length before \<le> position_index ''x at: y'' 0 3 \<and> position_index ''x at: y'' 0 3 < length before + 3)"
proof -
  have found: "extract_token_at_position ''x at: y'' 0 3 128 = Returned (Some ''at:'')" by code_simp
  have "NUL \<notin> set ''x at: y''" by (simp add: NUL_def)
  from token_at_position [OF this, of 0 3 128] found show ?thesis by auto
qed

end
