(* ===== verification/Method_Parser.thy ===== *)
theory Method_Parser
  imports Tokens
begin

text \<open>
  The parsers of \<^verbatim>\<open>src/c/bootstrap_compiler.c\<close> that produce no code: \<open>bc_parse_method_body\<close>, which
  checks and counts, \<open>bc_parse_method_header\<close>, and \<open>bc_parse_method_chunks\<close>, which splits a file in
  bang-separated chunks. A C function that changes its state and answers 1 or 0 is a function
  from the state to an \<open>attempt\<close>.
\<close>

section \<open>Attempts\<close>

text \<open>
  \<open>Succeeds\<close> and \<open>Fails\<close> are the answers 1 and 0 with the state they leave, \<open>Overruns\<close> a write behind
  the end of an array, \<open>Runs_out\<close> that the fuel of a recursion is used up.
\<close>

datatype 's attempt = Succeeds 's | Fails 's | Overruns | Runs_out

fun and_also :: "'s attempt \<Rightarrow> ('s \<Rightarrow> 's attempt) \<Rightarrow> 's attempt" where
  "and_also (Succeeds s) k = k s"
| "and_also (Fails s) k = Fails s"
| "and_also Overruns k = Overruns"
| "and_also Runs_out k = Runs_out"

lemma and_also_cong [fundef_cong]:
  "a = a' \<Longrightarrow> (\<And>s. a' = Succeeds s \<Longrightarrow> k s = k' s) \<Longrightarrow> and_also a k = and_also a' k'"
  by (cases a') simp_all

lemma and_also_eq_Succeeds:
  "and_also a k = Succeeds s \<longleftrightarrow> (\<exists>s'. a = Succeeds s' \<and> k s' = Succeeds s)"
  by (cases a) simp_all

section \<open>Methods\<close>

datatype BMethodKind = BMETHOD_UNARY | BMETHOD_BINARY | BMETHOD_KEYWORD

record BMethodHeader =
  kind :: BMethodKind
  selector :: string
  arg_names :: "string list"

record BMethodBody =
  temp_names :: "string list"
  assignment_count :: nat
  return_count :: nat
  literal_integer_count :: nat
  literal_character_count :: nat
  literal_string_count :: nat
  literal_symbol_count :: nat
  message_send_count :: nat

text \<open>A name copied with \<^verbatim>\<open>strncpy\<close> to a buffer of \<open>n\<close> zeroed bytes.\<close>

definition name_in :: "nat \<Rightarrow> string \<Rightarrow> string" where
  "name_in n s = take (n - 1) s"

definition NAME_SIZE :: nat where
  "NAME_SIZE = 32"

definition MAX_TEMPS :: nat where
  "MAX_TEMPS = 16"

definition MAX_ARGS :: nat where
  "MAX_ARGS = 8"

definition empty_body :: BMethodBody where
  "empty_body = \<lparr>temp_names = [], assignment_count = 0, return_count = 0,
     literal_integer_count = 0, literal_character_count = 0, literal_string_count = 0,
     literal_symbol_count = 0, message_send_count = 0\<rparr>"

definition empty_header :: BMethodHeader where
  "empty_header = \<lparr>kind = BMETHOD_UNARY, selector = '''', arg_names = []\<rparr>"

text \<open>A parser with the body it fills in.\<close>

record parse_state =
  parser :: BParser
  body :: BMethodBody

definition next_token :: "'a parse_state_scheme \<Rightarrow> BToken \<times> 'a parse_state_scheme" where
  "next_token s = (let (token, p) = bp_next (parser s) in (token, s\<lparr>parser := p\<rparr>))"

definition unread :: "BToken \<Rightarrow> 'a parse_state_scheme \<Rightarrow> 'a parse_state_scheme" where
  "unread token s = s\<lparr>parser := bp_unread token (parser s)\<rparr>"

abbreviation is_eof :: "BToken \<Rightarrow> bool" where
  "is_eof token \<equiv> token_type token = BTOK_EOF"

abbreviation is_identifier :: "BToken \<Rightarrow> bool" where
  "is_identifier token \<equiv> token_type token = BTOK_IDENTIFIER"

abbreviation is_keyword :: "BToken \<Rightarrow> bool" where
  "is_keyword token \<equiv> token_type token = BTOK_KEYWORD"

definition is_literal_token :: "BToken \<Rightarrow> bool" where
  "is_literal_token token \<longleftrightarrow>
     token_type token \<in> {BTOK_INTEGER, BTOK_CHARACTER, BTOK_STRING, BTOK_SYMBOL}"

text \<open>
  What is left to read: two for each character, one for a token that was given back. Every token
  but the end of the text brings it down.
\<close>

definition pending :: "BParser \<Rightarrow> nat" where
  "pending p = 2 * (length (source (tokenizer p)) - index (tokenizer p)) +
     (case buffered p of None \<Rightarrow> 0 | Some token \<Rightarrow> if is_eof token then 0 else 1)"

abbreviation left :: "'a parse_state_scheme \<Rightarrow> nat" where
  "left s \<equiv> pending (parser s)"

text \<open>The text in reach of a parser ends where the C string ends.\<close>

lemma bt_next_at_end: "length (source t) \<le> index t \<Longrightarrow> is_eof (fst (bt_next t))"
  by (simp add: bt_next_def skip_whitespace.simps [of t] peek_def char_at_def is_blank_def NUL_def
      make_token_def)

lemma pending_bt_next:
  "(if is_eof (fst (bt_next t)) then 0 else 2) + 2 * (length (source t) - index (snd (bt_next t)))
    \<le> 2 * (length (source t) - index t)"
  using later_bt_next [of t] bt_next_moves [of t] bt_next_at_end [of t] by (auto simp: later_def)

lemma source_bt_next [simp]: "source (snd (bt_next t)) = source t"
  using later_bt_next [of t] by (simp add: later_def)

lemma next_token_left:
  assumes "next_token s = (token, s')"
  shows "left s' \<le> left s" "\<not> is_eof token \<Longrightarrow> left s' < left s"
    "\<not> is_eof token \<Longrightarrow> left (unread token' s') \<le> left s"
proof -
  have both: "left s' + (if is_eof token then 0 else 1) \<le> left s"
    and unread: "\<not> is_eof token \<Longrightarrow> left (unread token' s') \<le> left s"
    using assms pending_bt_next [of "tokenizer (parser s)"]
    by (auto simp: next_token_def unread_def bp_unread_def bp_next_def pending_def split_def
        Let_def split: option.splits)
  show "left s' \<le> left s" "\<not> is_eof token \<Longrightarrow> left s' < left s"
    "\<not> is_eof token \<Longrightarrow> left (unread token' s') \<le> left s"
    using both unread by (auto split: if_splits)
qed

lemma unread_left:
  assumes "next_token s = (token, s')"
  shows "left (unread token s') \<le> left s"
proof (cases "is_eof token")
  case True
  have "left (unread token s') \<le> left s'"
    using True by (simp add: unread_def bp_unread_def pending_def)
  then show ?thesis using next_token_left(1) [OF assms] by simp
qed (use next_token_left(3) [OF assms] in blast)

section \<open>Checking a method body\<close>

text \<open>
  The parser functions call each other and loop. A loop head and a recursive call is a value of
  \<open>parse_call\<close>; each definition gets as \<open>rec\<close> what runs the calls, and \<open>parse_run\<close> ties the knot with
  one unit of fuel per level.
\<close>

datatype parse_call =
    Parse_literal_array
  | Parse_statements "string option"
  | Parse_expression BToken
  | Parse_block_args
  | Expression_rest
  | Keyword_rest

type_synonym parse_rec = "parse_call \<Rightarrow> parse_state \<Rightarrow> parse_state attempt"

definition count_literal :: "BToken \<Rightarrow> parse_state \<Rightarrow> parse_state" where
  "count_literal token s =
     (let b = body s
      in s\<lparr>body :=
        (case token_type token of
           BTOK_INTEGER \<Rightarrow> b\<lparr>literal_integer_count := literal_integer_count b + 1\<rparr>
         | BTOK_CHARACTER \<Rightarrow> b\<lparr>literal_character_count := literal_character_count b + 1\<rparr>
         | BTOK_STRING \<Rightarrow> b\<lparr>literal_string_count := literal_string_count b + 1\<rparr>
         | BTOK_SYMBOL \<Rightarrow> b\<lparr>literal_symbol_count := literal_symbol_count b + 1\<rparr>
         | _ \<Rightarrow> b)\<rparr>)"

definition count_send :: "parse_state \<Rightarrow> parse_state" where
  "count_send s = s\<lparr>body := (body s)\<lparr>message_send_count := message_send_count (body s) + 1\<rparr>\<rparr>"

definition parse_literal_array :: "parse_rec \<Rightarrow> parse_state \<Rightarrow> parse_state attempt" where
  "parse_literal_array rec s =
     (let (token, s) = next_token s
      in if is_eof token then Fails s
         else if is_special_text token '')'' then Succeeds s
         else if is_special_text token ''#('' then
           and_also (rec Parse_literal_array s) (rec Parse_literal_array)
         else if is_literal_token token then rec Parse_literal_array (count_literal token s)
         else Fails s)"

text \<open>The arguments of a block, behind a colon.\<close>

definition parse_block_args :: "parse_rec \<Rightarrow> parse_state \<Rightarrow> parse_state attempt" where
  "parse_block_args rec s =
     (let (arg, s) = next_token s
      in if \<not> is_identifier arg then Fails s
         else
           let (token, s) = next_token s
           in if is_special_text token '':'' then rec Parse_block_args s
              else if is_special_text token ''|'' then Succeeds s
              else Fails s)"

definition parse_block :: "parse_rec \<Rightarrow> parse_state \<Rightarrow> parse_state attempt" where
  "parse_block rec s =
     (let (token, s) = next_token s
      in and_also
           (if is_special_text token '':'' then parse_block_args rec s else Succeeds (unread token s))
           (rec (Parse_statements (Some '']''))))"

definition parse_primary :: "parse_rec \<Rightarrow> parse_state \<Rightarrow> parse_state attempt" where
  "parse_primary rec s =
     (let (token, s) = next_token s
      in if is_eof token then Fails s
         else if is_terminator token then Fails (unread token s)
         else
           let s = count_literal token s
           in if is_special_text token ''('' then
                (let (first, s) = next_token s
                 in if is_eof first then Fails s
                    else and_also (rec (Parse_expression first) s)
                      (\<lambda>s. let (close, s) = next_token s
                           in if is_special_text close '')'' then Succeeds s else Fails s))
              else if is_special_text token ''['' then parse_block rec s
              else if is_special_text token ''#('' then rec Parse_literal_array s
              else Succeeds s)"

definition parse_expression_from_first :: "parse_rec \<Rightarrow> BToken \<Rightarrow> parse_state \<Rightarrow> parse_state attempt" where
  "parse_expression_from_first rec first s =
     and_also
       (if is_special_text first ''['' then parse_block rec s
        else if is_special_text first ''#('' then rec Parse_literal_array s
        else if is_special_text first ''('' then parse_primary rec (unread first s)
        else Succeeds s)
       (\<lambda>s. rec Expression_rest (count_literal first s))"

definition parse_keyword_rest :: "parse_rec \<Rightarrow> parse_state \<Rightarrow> parse_state attempt" where
  "parse_keyword_rest rec s =
     (let (token, s) = next_token s
      in if \<not> is_keyword token then Succeeds (unread token s)
         else and_also (parse_primary rec s) (rec Keyword_rest))"

definition parse_expression_rest :: "parse_rec \<Rightarrow> parse_state \<Rightarrow> parse_state attempt" where
  "parse_expression_rest rec s =
     (let (token, s) = next_token s
      in if is_eof token then Succeeds s
         else if is_terminator token then Succeeds (unread token s)
         else if is_special_text token '';'' then rec Expression_rest s
         else if is_identifier token then rec Expression_rest (count_send s)
         else if is_binary_token token then
           and_also (parse_primary rec (count_send s)) (rec Expression_rest)
         else if is_keyword token then
           and_also (and_also (parse_primary rec (count_send s)) (rec Keyword_rest)) (rec Expression_rest)
         else Fails s)"

text \<open>One statement, whose first token has been read.\<close>

definition parse_statement :: "parse_rec \<Rightarrow> BToken \<Rightarrow> parse_state \<Rightarrow> parse_state attempt" where
  "parse_statement rec token s =
     (if is_identifier token then
        (let (maybe_assign, s) = next_token s
         in if is_special_text maybe_assign '':='' then
              (let s = s\<lparr>body := (body s)\<lparr>assignment_count := assignment_count (body s) + 1\<rparr>\<rparr>;
                   (start, s) = next_token s
               in if is_eof start then Fails s else rec (Parse_expression start) s)
            else rec (Parse_expression token) (unread maybe_assign s))
      else rec (Parse_expression token) s)"

definition parse_statements_until :: "parse_rec \<Rightarrow> string option \<Rightarrow> parse_state \<Rightarrow> parse_state attempt" where
  "parse_statements_until rec terminator s =
     (let (token, s) = next_token s; again = rec (Parse_statements terminator)
      in if is_eof token then (if terminator = None then Succeeds s else Fails s)
         else if terminator \<noteq> None \<and> is_special_text token (the terminator) then Succeeds s
         else if is_special_text token ''.'' then again s
         else if is_special_text token ''^'' then
           (let s = s\<lparr>body := (body s)\<lparr>return_count := return_count (body s) + 1\<rparr>\<rparr>;
                (token, s) = next_token s
            in if is_eof token then Fails s else and_also (parse_statement rec token s) again)
         else and_also (parse_statement rec token s) again)"

fun parse_step :: "parse_rec \<Rightarrow> parse_rec" where
  "parse_step rec Parse_literal_array = parse_literal_array rec"
| "parse_step rec (Parse_statements terminator) = parse_statements_until rec terminator"
| "parse_step rec (Parse_expression first) = parse_expression_from_first rec first"
| "parse_step rec Parse_block_args = parse_block_args rec"
| "parse_step rec Expression_rest = parse_expression_rest rec"
| "parse_step rec Keyword_rest = parse_keyword_rest rec"

primrec parse_run :: "nat \<Rightarrow> parse_rec" where
  "parse_run 0 = (\<lambda>c s. Runs_out)"
| "parse_run (Suc n) = parse_step (parse_run n)"

text \<open>The temporaries between bars; the state is where the name or the closing bar is read.\<close>

function parse_temps :: "'a parse_state_scheme \<Rightarrow> 'a parse_state_scheme attempt" where
  "parse_temps s =
     (let (temp, s') = next_token s
      in if is_special_text temp ''|'' then Succeeds s'
         else if \<not> is_identifier temp \<or> length (temp_names (body s')) \<ge> MAX_TEMPS then Fails s'
         else parse_temps (s'\<lparr>body := (body s')\<lparr>temp_names :=
                temp_names (body s') @ [name_in NAME_SIZE (token_text temp)]\<rparr>\<rparr>))"
  by auto

termination parse_temps
  by (relation "measure (\<lambda>s. left s)") (auto dest!: sym [of "(_, _)"] next_token_left(2))

declare parse_temps.simps [simp del]

definition bc_parse_method_body :: "nat \<Rightarrow> string \<Rightarrow> parse_state attempt" where
  "bc_parse_method_body fuel src =
     (let s = \<lparr>parser = bp_init src, body = empty_body\<rparr>;
          (token, s) = next_token s
      in and_also
           (if is_special_text token ''|'' then
              and_also (parse_temps s) (\<lambda>s. let (token, s) = next_token s in Succeeds (unread token s))
            else Succeeds (unread token s))
           (parse_run fuel (Parse_statements None)))"

section \<open>Parsing a body ends\<close>

text \<open>\<open>ends k a\<close>: an attempt that gave an answer, and on success left at most \<open>k\<close> to read.\<close>

fun ends :: "nat \<Rightarrow> 'a parse_state_scheme attempt \<Rightarrow> bool" where
  "ends k (Succeeds s) = (left s \<le> k)"
| "ends k (Fails s) = True"
| "ends k Overruns = False"
| "ends k Runs_out = False"

lemma ends_mono: "ends i a \<Longrightarrow> i \<le> k \<Longrightarrow> ends k a"
  by (cases a) auto

lemma ends_and_also: "ends i a \<Longrightarrow> (\<And>s. left s \<le> i \<Longrightarrow> ends k (f s)) \<Longrightarrow> ends k (and_also a f)"
  by (cases a) auto

lemma ends_token:
  "(\<And>token s'. next_token s = (token, s') \<Longrightarrow> ends k (f token s')) \<Longrightarrow>
    ends k (let (token, s') = next_token s in f token s')"
  by (cases "next_token s") simp

lemma left_updates [simp]:
  "left (s\<lparr>body := b\<rparr>) = left s" "left (count_literal token t) = left t" "left (count_send t) = left t"
  by (simp_all add: count_literal_def count_send_def Let_def)

definition parse_rank :: "parse_call \<Rightarrow> nat" where
  "parse_rank c = (case c of Parse_expression _ \<Rightarrow> 1 | _ \<Rightarrow> 0)"

lemma parse_rank_simps [simp]:
  "parse_rank Parse_literal_array = 0" "parse_rank (Parse_statements t) = 0"
  "parse_rank (Parse_expression x) = 1" "parse_rank Parse_block_args = 0"
  "parse_rank Expression_rest = 0" "parse_rank Keyword_rest = 0"
  by (simp_all add: parse_rank_def)

definition enough :: "nat \<Rightarrow> parse_rec \<Rightarrow> bool" where
  "enough m rec \<longleftrightarrow> (\<forall>c s. 2 * left s + parse_rank c < m \<longrightarrow> ends (left s) (rec c s))"

lemma ends_if: "(P \<Longrightarrow> ends k a) \<Longrightarrow> (\<not> P \<Longrightarrow> ends k b) \<Longrightarrow> ends k (if P then a else b)"
  by simp

lemma enoughD: "enough m rec \<Longrightarrow> 2 * left s + parse_rank c < m \<Longrightarrow> left s \<le> k \<Longrightarrow> ends k (rec c s)"
  unfolding enough_def by (blast intro: ends_mono)

lemma special_not_eof: "is_special_text token x \<Longrightarrow> \<not> is_eof token"
  by (simp add: is_special_text_def)

lemmas reading = next_token_left unread_left

lemma block_args_end:
  assumes "enough m rec" and "2 * left s < Suc m" and "left s \<le> k"
  shows "ends k (parse_block_args rec s)"
  unfolding parse_block_args_def
proof (rule ends_token, rule ends_if, simp, rule ends_token)
  fix arg s1 token s2
  assume a: "next_token s = (arg, s1)" "\<not> \<not> is_identifier arg" and b: "next_token s1 = (token, s2)"
  have l: "left s1 < left s" "left s2 \<le> left s1" using reading [OF a(1)] reading [OF b] a(2) by auto
  show "ends k (if is_special_text token '':'' then rec Parse_block_args s2
      else if is_special_text token ''|'' then Succeeds s2 else Fails s2)"
    using l assms by (auto intro: enoughD)
qed

lemma block_ends:
  assumes "enough m rec" and "2 * left s < m" and "left s \<le> k"
  shows "ends k (parse_block rec s)"
  unfolding parse_block_def
proof (rule ends_token, rule ends_and_also)
  fix token s1
  assume a: "next_token s = (token, s1)"
  show "ends (left s) (if is_special_text token '':'' then parse_block_args rec s1 else Succeeds (unread token s1))"
    using reading [OF a] assms by (auto intro: block_args_end)
next
  fix s2
  assume "left (s2 :: parse_state) \<le> left s"
  then show "ends k (rec (Parse_statements (Some '']'')) s2)"
    using assms by (intro enoughD [OF assms(1)]) auto
qed

lemma close_ends:
  "left s \<le> k \<Longrightarrow>
    ends k (let (close, s) = next_token s in if is_special_text close '')'' then Succeeds s else Fails s)"
  by (intro ends_token) (auto dest: reading(1))

lemma paren_ends:
  assumes "enough m rec" and "2 * left s < m" and "left s \<le> k"
  shows "ends k (let (first, s) = next_token s
    in if is_eof first then Fails s
       else and_also (rec (Parse_expression first) s)
         (\<lambda>s. let (close, s) = next_token s
              in if is_special_text close '')'' then Succeeds s else Fails s))"
proof (rule ends_token, rule ends_if, simp, rule ends_and_also)
  fix first s1
  assume a: "next_token s = (first, s1)" "\<not> is_eof first"
  show "ends (left s) (rec (Parse_expression first) s1)"
    using reading [OF a(1)] a(2) assms by (intro enoughD [OF assms(1)]) auto
qed (rule close_ends, use assms(3) in simp)

lemma primary_ends:
  assumes "enough m rec" and "2 * left s \<le> Suc m" and "left s \<le> k"
  shows "ends k (parse_primary rec s)"
  unfolding parse_primary_def Let_def [of "count_literal _ _"]
proof (rule ends_token)
  fix token s1
  assume a: "next_token s = (token, s1)"
  show "ends k (if is_eof token then Fails s1
      else if is_terminator token then Fails (unread token s1)
      else if is_special_text token ''('' then
        (let (first, s) = next_token (count_literal token s1)
         in if is_eof first then Fails s
            else and_also (rec (Parse_expression first) s)
              (\<lambda>s. let (close, s) = next_token s
                   in if is_special_text close '')'' then Succeeds s else Fails s))
      else if is_special_text token ''['' then parse_block rec (count_literal token s1)
      else if is_special_text token ''#('' then rec Parse_literal_array (count_literal token s1)
      else Succeeds (count_literal token s1))"
    using reading [OF a] assms
    by (intro ends_if paren_ends [OF assms(1)] block_ends [OF assms(1)] enoughD [OF assms(1)]) auto
qed

text \<open>A parenthesis that was given back is read again.\<close>

lemma next_token_unread: "next_token (unread token s) = (token, s\<lparr>parser := (parser s)\<lparr>buffered := None\<rparr>\<rparr>)"
  by (simp add: next_token_def unread_def bp_unread_def bp_next_def Let_def)

lemma group_ends:
  assumes "enough m rec" and "2 * left s < m" and "left s \<le> k" and "is_special_text first ''(''"
  shows "ends k (parse_primary rec (unread first s))"
proof -
  let ?s = "count_literal first (s\<lparr>parser := (parser s)\<lparr>buffered := None\<rparr>\<rparr>)"
  have "left (s\<lparr>parser := (parser s)\<lparr>buffered := None\<rparr>\<rparr>) \<le> left s" by (simp add: pending_def)
  then have "left ?s \<le> left s" by simp
  then show ?thesis
    using paren_ends [OF assms(1), of ?s k] assms
    by (simp add: parse_primary_def next_token_unread is_terminator_def is_special_text_def Let_def)
qed

lemma expression_ends:
  assumes "enough m rec" and "2 * left s < m" and "left s \<le> k"
  shows "ends k (parse_expression_from_first rec first s)"
  unfolding parse_expression_from_first_def
proof (rule ends_and_also)
  show "ends (left s) (if is_special_text first ''['' then parse_block rec s
      else if is_special_text first ''#('' then rec Parse_literal_array s
      else if is_special_text first ''('' then parse_primary rec (unread first s)
      else Succeeds s)"
    using assms by (intro ends_if block_ends [OF assms(1)] enoughD [OF assms(1)]) (auto intro: group_ends)
next
  fix s1 :: parse_state
  assume "left s1 \<le> left s"
  then show "ends k (rec Expression_rest (count_literal first s1))"
    using assms by (intro enoughD [OF assms(1)]) auto
qed

lemma keyword_rest_ends:
  assumes "enough m rec" and "2 * left s < Suc m" and "left s \<le> k"
  shows "ends k (parse_keyword_rest rec s)"
  unfolding parse_keyword_rest_def
proof (rule ends_token, rule ends_if)
  fix token s1
  assume a: "next_token s = (token, s1)"
  show "ends k (Succeeds (unread token s1))" using reading [OF a] assms by simp
  assume "\<not> \<not> is_keyword token"
  then have l: "left s1 < left s" using reading [OF a] by auto
  show "ends k (and_also (parse_primary rec s1) (rec Keyword_rest))"
    by (rule ends_and_also, rule primary_ends [OF assms(1) _ order_refl])
      (use l assms in \<open>auto intro!: enoughD [OF assms(1)]\<close>)
qed

lemma expression_rest_ends:
  assumes "enough m rec" and "2 * left s < Suc m" and "left s \<le> k"
  shows "ends k (parse_expression_rest rec s)"
  unfolding parse_expression_rest_def
proof (rule ends_token)
  fix token s1
  assume a: "next_token s = (token, s1)"
  have l: "left s1 < left s" if "\<not> is_eof token" using reading [OF a] that by auto
  have primary: "ends (left s1) (parse_primary rec (count_send s1))" if "\<not> is_eof token"
    using l [OF that] assms by (intro primary_ends [OF assms(1)]) auto
  have rest: "ends k (rec Expression_rest t)" if "\<not> is_eof token" "left t \<le> left s1" for t
    using l [OF that(1)] that(2) assms by (intro enoughD [OF assms(1)]) auto
  have keys: "ends (left s1) (rec Keyword_rest t)" if "\<not> is_eof token" "left t \<le> left s1" for t
    using l [OF that(1)] that(2) assms by (intro enoughD [OF assms(1)]) auto
  show "ends k (if is_eof token then Succeeds s1
      else if is_terminator token then Succeeds (unread token s1)
      else if is_special_text token '';'' then rec Expression_rest s1
      else if is_identifier token then rec Expression_rest (count_send s1)
      else if is_binary_token token then
        and_also (parse_primary rec (count_send s1)) (rec Expression_rest)
      else if is_keyword token then
        and_also (and_also (parse_primary rec (count_send s1)) (rec Keyword_rest)) (rec Expression_rest)
      else Fails s1)"
    using reading [OF a] assms(3) l order_trans [OF unread_left [OF a] assms(3)]
    by (intro ends_if ends_and_also [OF primary] ends_and_also [OF ends_and_also [OF primary keys]] rest) auto
qed

lemma literal_array_ends:
  assumes "enough m rec" and "2 * left s < Suc m" and "left s \<le> k"
  shows "ends k (parse_literal_array rec s)"
  unfolding parse_literal_array_def
proof (rule ends_token)
  fix token s1
  assume a: "next_token s = (token, s1)"
  have rest: "ends j (rec Parse_literal_array t)" if "\<not> is_eof token" "left t \<le> left s1" "left s1 \<le> j" for t j
    using reading(2) [OF a that(1)] that assms by (intro enoughD [OF assms(1)]) auto
  show "ends k (if is_eof token then Fails s1
      else if is_special_text token '')'' then Succeeds s1
      else if is_special_text token ''#('' then
        and_also (rec Parse_literal_array s1) (rec Parse_literal_array)
      else if is_literal_token token then rec Parse_literal_array (count_literal token s1)
      else Fails s1)"
    using reading [OF a] assms(3)
    by (intro ends_if ends_and_also [OF rest [OF _ _ order_refl]] rest) auto
qed

lemma statement_ends:
  assumes "enough m rec" and "Suc (2 * left s) < m" and "left s \<le> k"
  shows "ends k (parse_statement rec token s)"
  unfolding parse_statement_def
proof (rule ends_if, rule ends_token)
  fix maybe s1
  assume a: "next_token s = (maybe, s1)"
  show "ends k (if is_special_text maybe '':='' then
        (let s = s1\<lparr>body := (body s1)\<lparr>assignment_count := assignment_count (body s1) + 1\<rparr>\<rparr>;
             (start, s) = next_token s
         in if is_eof start then Fails s else rec (Parse_expression start) s)
      else rec (Parse_expression token) (unread maybe s1))"
    unfolding Let_def [of "_\<lparr>body := _\<rparr>"]
    using reading [OF a] assms
    by (intro ends_if ends_token enoughD [OF assms(1)]) (auto dest!: reading(1))
qed (use assms in \<open>auto intro!: enoughD [OF assms(1)]\<close>)

lemma statements_end:
  assumes "enough m rec" and "2 * left s < Suc m" and "left s \<le> k"
  shows "ends k (parse_statements_until rec terminator s)"
  unfolding parse_statements_until_def
proof (rule ends_token)
  fix token s1
  assume a: "next_token s = (token, s1)"
  let ?again = "rec (Parse_statements terminator)"
  let ?s = "s1\<lparr>body := (body s1)\<lparr>return_count := return_count (body s1) + 1\<rparr>\<rparr>"
  have again: "ends k (?again t)" if "\<not> is_eof token" "left t \<le> left s1" for t
    using reading(2) [OF a that(1)] that(2) assms by (intro enoughD [OF assms(1)]) auto
  have statement: "ends (left s1) (parse_statement rec x t)" if "\<not> is_eof token" "left t \<le> left s1" for x t
    using reading(2) [OF a that(1)] that(2) assms by (intro statement_ends [OF assms(1)]) auto
  have return: "ends k (let (token, s) = next_token ?s
      in if is_eof token then Fails s else and_also (parse_statement rec token s) ?again)"
    if "\<not> is_eof token"
    by (intro ends_token ends_if ends_and_also [OF statement] again that)
      (use reading(1) [of ?s] in auto)
  show "ends k (let again = ?again
      in if is_eof token then (if terminator = None then Succeeds s1 else Fails s1)
         else if terminator \<noteq> None \<and> is_special_text token (the terminator) then Succeeds s1
         else if is_special_text token ''.'' then again s1
         else if is_special_text token ''^'' then
           (let s = ?s; (token, s) = next_token s
            in if is_eof token then Fails s else and_also (parse_statement rec token s) again)
         else and_also (parse_statement rec token s1) again)"
    unfolding Let_def [of ?again] Let_def [of "_\<lparr>body := _\<rparr>"]
    using reading [OF a] assms(3) return
    by (intro ends_if ends_and_also [OF statement] again) auto
qed

lemma parse_step_ends: "enough m rec \<Longrightarrow> enough (Suc m) (parse_step rec)"
  unfolding enough_def [of "Suc m"]
  by (intro allI impI, case_tac c)
    (auto intro: literal_array_ends statements_end expression_ends block_args_end expression_rest_ends
       keyword_rest_ends)

lemma parse_run_ends: "enough n (parse_run n)"
  by (induction n) (simp_all add: enough_def [of 0] parse_step_ends)

lemma parse_temps_end: "left s \<le> k \<Longrightarrow> ends k (parse_temps s)"
proof (induction s rule: parse_temps.induct)
  case (1 s)
  obtain temp s' where n: "next_token s = (temp, s')" by (cases "next_token s")
  have "left s' \<le> k" using reading(1) [OF n] "1.prems" by simp
  then show ?case
    using "1.IH" [OF n [symmetric] refl] by (subst parse_temps.simps) (simp add: n)
qed

lemma ends_answers: "ends k a \<Longrightarrow> a \<noteq> Overruns \<and> a \<noteq> Runs_out"
  by (cases a) auto

text \<open>
  Checking a method body always ends with an answer when the fuel allows four levels of
  recursion and loops for each character of the source.
\<close>

theorem method_body_parse_ends:
  assumes "4 * length src < fuel"
  shows "bc_parse_method_body fuel src \<noteq> Runs_out" and "bc_parse_method_body fuel src \<noteq> Overruns"
proof -
  let ?s = "\<lparr>parser = bp_init src, body = empty_body\<rparr>"
  have l: "left ?s = 2 * length src" by (simp add: pending_def bp_init_def bt_init_def)
  have "ends (left ?s) (bc_parse_method_body fuel src)"
    unfolding bc_parse_method_body_def Let_def [of ?s]
  proof (rule ends_token, rule ends_and_also)
    fix token s1
    assume a: "next_token ?s = (token, s1)"
    show "ends (left ?s) (if is_special_text token ''|'' then
        and_also (parse_temps s1) (\<lambda>s. let (token, s) = next_token s in Succeeds (unread token s))
      else Succeeds (unread token s1))"
      using reading [OF a]
      by (intro ends_if ends_and_also [OF parse_temps_end [OF order_refl]] ends_token)
        (auto dest!: unread_left)
  next
    fix s2 :: parse_state
    assume "left s2 \<le> left ?s"
    then show "ends (left ?s) (parse_run fuel (Parse_statements None) s2)"
      using assms l by (intro enoughD [OF parse_run_ends]) auto
  qed
  then show "bc_parse_method_body fuel src \<noteq> Runs_out" "bc_parse_method_body fuel src \<noteq> Overruns"
    using ends_answers by blast+
qed

end
