(* ===== verification/Method_Source.thy ===== *)
theory Method_Source
  imports Method_Parser
begin

text \<open>
  Method headers and chunk files (\<^verbatim>\<open>bc_parse_method_header\<close> and \<^verbatim>\<open>bc_parse_method_chunks\<close> of
  \<^verbatim>\<open>src/c/bootstrap_compiler.c\<close>). \<open>None\<close> is the answer 0.
\<close>

section \<open>Headers\<close>

definition SELECTOR_SIZE :: nat where
  "SELECTOR_SIZE = 128"

text \<open>The loop over the keywords of a header; \<open>current\<close> is the keyword just read.\<close>

function header_keywords :: "BTokenizer \<Rightarrow> BToken \<Rightarrow> BMethodHeader \<Rightarrow> BMethodHeader option" where
  "header_keywords t current header =
     (if length (arg_names header) \<ge> MAX_ARGS then None
      else
        let (arg, t) = bt_next t
        in if \<not> is_identifier arg then None
           else
             let header = header\<lparr>selector := name_in SELECTOR_SIZE (selector header @ token_text current),
                     arg_names := arg_names header @ [name_in NAME_SIZE (token_text arg)]\<rparr>;
                 (token, t) = bt_next t
             in if is_eof token then Some header
                else if \<not> is_keyword token then None
                else header_keywords t token header)"
  by auto

termination header_keywords
  by (relation "measure (\<lambda>(t, current, header). MAX_ARGS - length (arg_names header))") auto

declare header_keywords.simps [simp del]

definition bc_parse_method_header :: "string \<Rightarrow> BMethodHeader option" where
  "bc_parse_method_header src =
     (let t = bt_init src; (first, t) = bt_next t
      in if is_eof first then None
         else if is_identifier first then
           (let (maybe_eof, t) = bt_next t
            in if \<not> is_eof maybe_eof then None
               else Some (empty_header\<lparr>kind := BMETHOD_UNARY,
                      selector := name_in SELECTOR_SIZE (token_text first)\<rparr>))
         else if token_type first = BTOK_SPECIAL \<and> is_binary_selector_char (char_at (token_text first) 0) then
           (let (second, t) = bt_next t;
                double = token_type second = BTOK_SPECIAL \<and> is_binary_selector_char (char_at (token_text second) 0);
                sel = char_at (token_text first) 0 # (if double then [char_at (token_text second) 0] else []);
                (arg, t) = (if double then bt_next t else (second, t))
            in if \<not> is_identifier arg then None
               else
                 let (maybe_eof, t) = bt_next t
                 in if \<not> is_eof maybe_eof then None
                    else Some (empty_header\<lparr>kind := BMETHOD_BINARY, selector := sel,
                           arg_names := [name_in NAME_SIZE (token_text arg)]\<rparr>))
         else if is_keyword first then header_keywords t first (empty_header\<lparr>kind := BMETHOD_KEYWORD\<rparr>)
         else None)"

section \<open>Chunk files\<close>

record BMethodChunk =
  class_name :: string
  class_side :: bool
  category :: string
  method_source :: string

definition CLASS_NAME_SIZE :: nat where
  "CLASS_NAME_SIZE = 64"

definition METHOD_SOURCE_SIZE :: nat where
  "METHOD_SOURCE_SIZE = 4096"

text \<open>\<^verbatim>\<open>starts_with\<close>, \<^verbatim>\<open>strstr(s, p) != NULL\<close>, and a text without the blanks at its ends.\<close>

fun starts_with :: "string \<Rightarrow> string \<Rightarrow> bool" where
  "starts_with s [] = True"
| "starts_with [] (p # ps) = False"
| "starts_with (c # cs) (p # ps) = (c = p \<and> starts_with cs ps)"

fun contains_text :: "string \<Rightarrow> string \<Rightarrow> bool" where
  "contains_text [] p = starts_with [] p"
| "contains_text (c # cs) p = (starts_with (c # cs) p \<or> contains_text cs p)"

definition trim_blanks :: "string \<Rightarrow> string" where
  "trim_blanks s = rev (dropWhile is_blank (rev (dropWhile is_blank s)))"

definition skip_spaces :: "string \<Rightarrow> string" where
  "skip_spaces s = dropWhile (\<lambda>c. c = CHR '' '' \<or> c = CHR 0x09) s"

text \<open>
  The class, side and category of a segment \<^verbatim>\<open>Name [class] methodsFor: 'category'\<close>: the name and the
  category are cut at 63 characters, and what follows has to fit.
\<close>

definition parse_methods_for :: "string \<Rightarrow> (string \<times> bool \<times> string) option" where
  "parse_methods_for segment =
     (let cls = name_in CLASS_NAME_SIZE (takeWhile is_word_char segment);
          rest = skip_spaces (drop (length cls) segment);
          side = starts_with rest ''class'';
          rest = (if side then skip_spaces (drop 5 rest) else rest)
      in if \<not> starts_with rest ''methodsFor:'' then None
         else
           let rest = skip_spaces (drop 11 rest)
           in if char_at rest 0 \<noteq> CHR 0x27 then None
              else
                let cat = name_in CLASS_NAME_SIZE (takeWhile (\<lambda>c. c \<noteq> CHR 0x27) (drop 1 rest))
                in if char_at (drop 1 rest) (length cat) \<noteq> CHR 0x27 then None
                   else Some (cls, side, cat))"

definition bang :: char where
  "bang = CHR 0x21"

definition before_bang :: "string \<Rightarrow> string" where
  "before_bang s = takeWhile (\<lambda>c. c \<noteq> bang) s"

definition from_bang :: "string \<Rightarrow> string" where
  "from_bang s = dropWhile (\<lambda>c. c \<noteq> bang) s"

text \<open>
  \<open>parse_chunks max src cls side cat chunks\<close>: \<open>src\<close> is the text still to read, then the current class, side
  and category, and the chunks found.
\<close>

function parse_chunks ::
  "nat \<Rightarrow> string \<Rightarrow> string \<Rightarrow> bool \<Rightarrow> string \<Rightarrow> BMethodChunk list \<Rightarrow> BMethodChunk list option" where
  "parse_chunks max_chunks [] cls side cat chunks = Some chunks"
| "parse_chunks max_chunks (c # cs) cls side cat chunks =
     (if c = bang then
        (if from_bang cs = [] then None
         else
           let segment = trim_blanks (before_bang cs); rest = drop 1 (from_bang cs)
           in if segment = [] then parse_chunks max_chunks rest cls side cat chunks
              else if length segment \<ge> METHOD_SOURCE_SIZE then None
              else if contains_text segment ''methodsFor:'' then
                (case parse_methods_for segment of
                   None \<Rightarrow> None
                 | Some (cls, side, cat) \<Rightarrow> parse_chunks max_chunks rest cls side cat chunks)
              else parse_chunks max_chunks rest cls side cat chunks)
      else if cls = [] then parse_chunks max_chunks cs cls side cat chunks
      else if from_bang cs = [] then Some chunks
      else
        let method = trim_blanks (c # before_bang cs)
        in if method = [] then parse_chunks max_chunks (from_bang cs) cls side cat chunks
           else if length chunks \<ge> max_chunks then None
           else if length method \<ge> METHOD_SOURCE_SIZE then None
           else parse_chunks max_chunks (drop 1 (from_bang cs)) cls side cat
             (chunks @ [\<lparr>class_name = cls, class_side = side, category = cat, method_source = method\<rparr>]))"
  by pat_completeness auto

lemma length_from_bang: "length (from_bang s) \<le> length s"
  by (simp add: from_bang_def length_dropWhile_le)

termination parse_chunks
  by (relation "measure (\<lambda>(max_chunks, s, _). length s)")
    (auto simp: less_Suc_eq_le le_diff_conv length_from_bang intro: order_trans [OF length_from_bang])

definition bc_parse_method_chunks :: "string \<Rightarrow> nat \<Rightarrow> BMethodChunk list option" where
  "bc_parse_method_chunks src max_chunks = parse_chunks max_chunks src '''' False '''' []"

end
