(* ===== verification/Codegen.thy ===== *)
theory Codegen
  imports Method_Source
begin

text \<open>
  The code generator of \<^verbatim>\<open>src/c/bootstrap_compiler.c\<close>: one pass over the tokens of a method body
  that emits bytecodes, literals and compiled blocks. A \<open>CgState\<close> is the \<^verbatim>\<open>CgState\<close> of one scope,
  \<open>outer_states\<close> what blocks read of the scopes around them, and \<open>root_blocks\<close> the table of blocks of
  the method, which all its scopes share.
\<close>

section \<open>Compiled code\<close>

record BCompiledBlock =
  bytecodes :: "u8 list"
  arg_count :: nat
  temp_count :: nat
  literals :: "BToken list"

record BCompiledBody = BCompiledBlock +
  inst_var_names :: "string list"
  blocks :: "BCompiledBlock list"

definition empty_block :: BCompiledBlock where
  "empty_block = \<lparr>bytecodes = [], arg_count = 0, temp_count = 0, literals = []\<rparr>"

definition empty_compiled :: BCompiledBody where
  "empty_compiled = \<lparr>bytecodes = [], arg_count = 0, temp_count = 0, literals = [],
     inst_var_names = [], blocks = []\<rparr>"

definition MAX_BYTECODES :: nat where
  "MAX_BYTECODES = 512"

definition MAX_LITERALS :: nat where
  "MAX_LITERALS = 32"

definition MAX_BLOCKS :: nat where
  "MAX_BLOCKS = 16"

definition MAX_INST_VARS :: nat where
  "MAX_INST_VARS = 16"

definition BLOCK_SOURCE_SIZE :: nat where
  "BLOCK_SOURCE_SIZE = 4096"

record cg_scope =
  scope_temps :: "string list"
  scope_args :: "string list option"
  scope_arg_count :: nat
  scope_closure_offset :: nat

record CgState = parse_state +
  compiled :: BCompiledBody
  root_blocks :: "BCompiledBlock list"
  header :: "BMethodHeader option"
  saw_return :: bool
  in_block :: bool
  target_class :: u64
  outer_states :: "cg_scope list"
  local_arg_count :: nat
  closure_offset :: nat
  object_memory :: mem

definition BC_CG_PUSH_LITERAL :: u8 where "BC_CG_PUSH_LITERAL = 0"
definition BC_CG_PUSH_INST_VAR :: u8 where "BC_CG_PUSH_INST_VAR = 1"
definition BC_CG_PUSH_TEMP :: u8 where "BC_CG_PUSH_TEMP = 2"
definition BC_CG_PUSH_SELF :: u8 where "BC_CG_PUSH_SELF = 3"
definition BC_CG_STORE_INST_VAR :: u8 where "BC_CG_STORE_INST_VAR = 4"
definition BC_CG_STORE_TEMP :: u8 where "BC_CG_STORE_TEMP = 5"
definition BC_CG_SEND_MESSAGE :: u8 where "BC_CG_SEND_MESSAGE = 6"
definition BC_CG_RETURN :: u8 where "BC_CG_RETURN = 7"
definition BC_CG_JUMP :: u8 where "BC_CG_JUMP = 8"
definition BC_CG_JUMP_IF_FALSE :: u8 where "BC_CG_JUMP_IF_FALSE = 10"
definition BC_CG_POP :: u8 where "BC_CG_POP = 11"
definition BC_CG_PUSH_CLOSURE :: u8 where "BC_CG_PUSH_CLOSURE = 14"
definition BC_CG_PUSH_ARG :: u8 where "BC_CG_PUSH_ARG = 15"
definition BC_CG_RETURN_NON_LOCAL :: u8 where "BC_CG_RETURN_NON_LOCAL = 16"
definition BC_CG_PUSH_THIS_CONTEXT :: u8 where "BC_CG_PUSH_THIS_CONTEXT = 17"
definition BC_CG_PUSH_GLOBAL :: u8 where "BC_CG_PUSH_GLOBAL = 18"

lemmas bc_cg_codes = BC_CG_PUSH_LITERAL_def BC_CG_PUSH_INST_VAR_def BC_CG_PUSH_TEMP_def BC_CG_PUSH_SELF_def
  BC_CG_STORE_INST_VAR_def BC_CG_STORE_TEMP_def BC_CG_SEND_MESSAGE_def BC_CG_RETURN_def BC_CG_JUMP_def
  BC_CG_JUMP_IF_FALSE_def BC_CG_POP_def BC_CG_PUSH_CLOSURE_def BC_CG_PUSH_ARG_def
  BC_CG_RETURN_NON_LOCAL_def BC_CG_PUSH_THIS_CONTEXT_def BC_CG_PUSH_GLOBAL_def

section \<open>Emitting\<close>

text \<open>The C code does not check the room in \<^verbatim>\<open>bytecodes[512]\<close> and \<^verbatim>\<open>literals[32]\<close>.\<close>

definition cg_emit_byte :: "u8 \<Rightarrow> CgState \<Rightarrow> CgState attempt" where
  "cg_emit_byte b s =
     (if length (bytecodes (compiled s)) \<ge> MAX_BYTECODES then Overruns
      else Succeeds (s\<lparr>compiled := (compiled s)\<lparr>bytecodes := bytecodes (compiled s) @ [b]\<rparr>\<rparr>))"

definition u32_bytes :: "u32 \<Rightarrow> u8 list" where
  "u32_bytes v = [ucast (v AND 0xFF), ucast (drop_bit 8 v AND 0xFF),
     ucast (drop_bit 16 v AND 0xFF), ucast (drop_bit 24 v AND 0xFF)]"

fun emit_bytes :: "u8 list \<Rightarrow> CgState \<Rightarrow> CgState attempt" where
  "emit_bytes [] s = Succeeds s"
| "emit_bytes (b # bs) s = and_also (cg_emit_byte b s) (emit_bytes bs)"

definition cg_emit_u32 :: "u32 \<Rightarrow> CgState \<Rightarrow> CgState attempt" where
  "cg_emit_u32 v = emit_bytes (u32_bytes v)"

text \<open>An opcode with one operand, which the C code gives as an \<^verbatim>\<open>int\<close>.\<close>

definition emit_op :: "u8 \<Rightarrow> nat \<Rightarrow> CgState \<Rightarrow> CgState attempt" where
  "emit_op opcode operand s = and_also (cg_emit_byte opcode s) (cg_emit_u32 (of_nat operand))"

text \<open>The placeholder of a jump; its operand is at the code length before it, plus one.\<close>

definition cg_emit_jump_placeholder :: "u8 \<Rightarrow> CgState \<Rightarrow> CgState attempt" where
  "cg_emit_jump_placeholder opcode s = emit_op opcode 0 s"

definition put_list :: "'a list \<Rightarrow> nat \<Rightarrow> 'a list \<Rightarrow> 'a list" where
  "put_list xs i ys = take i xs @ ys @ drop (i + length ys) xs"

definition cg_patch_u32 :: "nat \<Rightarrow> u32 \<Rightarrow> CgState \<Rightarrow> CgState" where
  "cg_patch_u32 offset v s =
     s\<lparr>compiled := (compiled s)\<lparr>bytecodes := put_list (bytecodes (compiled s)) offset (u32_bytes v)\<rparr>\<rparr>"

text \<open>\<open>None\<close>: the 33rd literal is written behind the table.\<close>

definition cg_literal_index :: "BToken \<Rightarrow> CgState \<Rightarrow> (nat \<times> CgState) option" where
  "cg_literal_index literal s =
     (case index_where (\<lambda>existing. existing = literal) (literals (compiled s)) of
        Some i \<Rightarrow> Some (i, s)
      | None \<Rightarrow>
          let i = length (literals (compiled s))
          in if i \<ge> MAX_LITERALS then None
             else Some (i, s\<lparr>compiled := (compiled s)\<lparr>literals := literals (compiled s) @ [literal]\<rparr>\<rparr>))"

definition emit_with_literal :: "u8 \<Rightarrow> BToken \<Rightarrow> CgState \<Rightarrow> CgState attempt" where
  "emit_with_literal opcode literal s =
     (case cg_literal_index literal s of
        None \<Rightarrow> Overruns
      | Some (i, s) \<Rightarrow> emit_op opcode i s)"

definition cg_emit_push_literal_token :: "BToken \<Rightarrow> CgState \<Rightarrow> CgState attempt" where
  "cg_emit_push_literal_token token s = emit_with_literal BC_CG_PUSH_LITERAL token s"

definition cg_emit_selector_send :: "string \<Rightarrow> nat \<Rightarrow> CgState \<Rightarrow> CgState attempt" where
  "cg_emit_selector_send sel argc s =
     and_also (emit_with_literal BC_CG_SEND_MESSAGE (text_token BTOK_SELECTOR sel) s) (cg_emit_u32 (of_nat argc))"

section \<open>Names\<close>

text \<open>The first position of a name; names in tables are cut at 31 characters, the name is not.\<close>

definition name_index :: "string list \<Rightarrow> string \<Rightarrow> nat option" where
  "name_index names name = index_where (\<lambda>n. n = name) names"

definition cg_temp_index :: "CgState \<Rightarrow> string \<Rightarrow> nat option" where
  "cg_temp_index s name = name_index (temp_names (body s)) name"

definition cg_local_temp_slot :: "CgState \<Rightarrow> nat \<Rightarrow> nat" where
  "cg_local_temp_slot s i = (if \<not> in_block s then i else closure_offset s + local_arg_count s + i)"

fun outer_temp_slot :: "cg_scope list \<Rightarrow> string \<Rightarrow> nat option" where
  "outer_temp_slot [] name = None"
| "outer_temp_slot (outer # rest) name =
     (case name_index (scope_temps outer) name of
        Some i \<Rightarrow> Some (scope_closure_offset outer + scope_arg_count outer + i)
      | None \<Rightarrow> outer_temp_slot rest name)"

definition cg_outer_temp_slot :: "CgState \<Rightarrow> string \<Rightarrow> nat option" where
  "cg_outer_temp_slot s name = outer_temp_slot (outer_states s) name"

fun outer_arg_slot :: "cg_scope list \<Rightarrow> string \<Rightarrow> nat option" where
  "outer_arg_slot [] name = None"
| "outer_arg_slot (outer # rest) name =
     (case scope_args outer of
        None \<Rightarrow> outer_arg_slot rest name
      | Some args \<Rightarrow>
          (case name_index (drop (length args - scope_arg_count outer) args) name of
             Some i \<Rightarrow> Some (scope_closure_offset outer + i)
           | None \<Rightarrow> outer_arg_slot rest name))"

definition cg_outer_arg_slot :: "CgState \<Rightarrow> string \<Rightarrow> nat option" where
  "cg_outer_arg_slot s name = outer_arg_slot (outer_states s) name"

definition cg_arg_index :: "BMethodHeader option \<Rightarrow> string \<Rightarrow> nat option" where
  "cg_arg_index h name = (case h of None \<Rightarrow> None | Some h \<Rightarrow> name_index (arg_names h) name)"

definition bc_name_matches_string_oop :: "mem \<Rightarrow> u64 \<Rightarrow> string \<Rightarrow> bool" where
  "bc_name_matches_string_oop m oop name \<longleftrightarrow>
     oop AND 3 = 0 \<and> oop \<noteq> 0 \<and> OBJ_SIZE m oop = of_nat (length name) \<and>
     bytes_of m (slot oop 3) (length name) = c_string name"

text \<open>The instance variables of a class and its superclasses; \<open>None\<close> when the chain never ends.\<close>

definition own_inst_vars :: "mem \<Rightarrow> u64 \<Rightarrow> u64 option" where
  "own_inst_vars m klass =
     (let ivars = OBJ_FIELD m klass CLASS_INST_VARS
      in if OBJ_SIZE m klass > CLASS_INST_VARS \<and> ivars AND 3 = 0 \<and> ivars \<noteq> 0 then Some ivars else None)"

partial_function (option) bc_class_total_inst_var_count :: "mem \<Rightarrow> u64 \<Rightarrow> nat option" where
  "bc_class_total_inst_var_count m klass =
     (if klass = 0 \<or> klass AND 3 \<noteq> 0 then Some 0
      else
        let super = OBJ_FIELD m klass CLASS_SUPERCLASS;
            own = (case own_inst_vars m klass of None \<Rightarrow> 0 | Some ivars \<Rightarrow> unat (OBJ_SIZE m ivars))
        in if super AND 3 = 0 \<and> super \<noteq> 0
           then Option.bind (bc_class_total_inst_var_count m super) (\<lambda>n. Some (n + own))
           else Some own)"

definition own_inst_var_index :: "mem \<Rightarrow> u64 \<Rightarrow> string \<Rightarrow> nat option" where
  "own_inst_var_index m klass name =
     (case own_inst_vars m klass of
        None \<Rightarrow> None
      | Some ivars \<Rightarrow> List.find (\<lambda>i. bc_name_matches_string_oop m (OBJ_FIELD m ivars (of_nat i)) name)
          [0..<unat (OBJ_SIZE m ivars)])"

partial_function (option) bc_class_inst_var_index :: "mem \<Rightarrow> u64 \<Rightarrow> string \<Rightarrow> nat option option" where
  "bc_class_inst_var_index m klass name =
     (if klass = 0 \<or> klass AND 3 \<noteq> 0 then Some None
      else
        let super = OBJ_FIELD m klass CLASS_SUPERCLASS
        in if super AND 3 = 0 \<and> super \<noteq> 0
           then Option.bind (bc_class_inst_var_index m super name) (\<lambda>found.
             case found of
               Some i \<Rightarrow> Some (Some i)
             | None \<Rightarrow> Option.bind (bc_class_total_inst_var_count m super) (\<lambda>n.
                 Some (map_option (\<lambda>i. n + i) (own_inst_var_index m klass name))))
           else Some (own_inst_var_index m klass name))"

declare bc_class_total_inst_var_count.simps [code] bc_class_inst_var_index.simps [code]

text \<open>Without a target class every unknown name becomes an instance variable, until there are 16.\<close>

definition cg_inst_var_index :: "string \<Rightarrow> CgState \<Rightarrow> (nat option \<times> CgState) option" where
  "cg_inst_var_index name s =
     (if target_class s \<noteq> 0
      then map_option (\<lambda>i. (i, s)) (bc_class_inst_var_index (object_memory s) (target_class s) name)
      else
        let names = inst_var_names (compiled s)
        in case name_index names name of
             Some i \<Rightarrow> Some (Some i, s)
           | None \<Rightarrow>
               if length names \<ge> MAX_INST_VARS then Some (None, s)
               else Some (Some (length names),
                 s\<lparr>compiled := (compiled s)\<lparr>inst_var_names := names @ [name_in NAME_SIZE name]\<rparr>\<rparr>))"

section \<open>Source text\<close>

definition slice :: "string \<Rightarrow> nat \<Rightarrow> nat \<Rightarrow> string" where
  "slice s i j = take (j - i) (drop i s)"

text \<open>
  Read on to the token that closes \<open>depth\<close> open brackets: \<^verbatim>\<open>cg_skip_block_literal\<close> for square
  brackets, the loop of \<^verbatim>\<open>cg_capture_literal_array\<close> for literal arrays.
\<close>

function skip_nested :: "string \<Rightarrow> string \<Rightarrow> nat \<Rightarrow> 'a parse_state_scheme \<Rightarrow> 'a parse_state_scheme attempt" where
  "skip_nested opening closing depth s =
     (if depth = 0 then Succeeds s
      else
        let (token, s') = next_token s
        in if is_eof token then Fails s'
           else skip_nested opening closing
             (if is_special_text token opening then depth + 1
              else if is_special_text token closing then depth - 1 else depth) s')"
  by auto

termination skip_nested
  by (relation "measure (\<lambda>(_, _, _, s). left s)") (auto dest!: sym [of "(_, _)"] next_token_left(2))

declare skip_nested.simps [simp del]

definition cg_skip_block_literal :: "'a parse_state_scheme \<Rightarrow> 'a parse_state_scheme attempt" where
  "cg_skip_block_literal s = skip_nested ''['' '']'' 1 s"

abbreviation position :: "'a parse_state_scheme \<Rightarrow> nat" where
  "position s \<equiv> index (tokenizer (parser s))"

abbreviation source_text :: "'a parse_state_scheme \<Rightarrow> string" where
  "source_text s \<equiv> source (tokenizer (parser s))"

text \<open>The captures answer the text besides the state: \<open>Inl\<close> with the attempt when they do not succeed.\<close>

type_synonym 's capture = "'s attempt + (string \<times> 's)"

definition cg_capture_literal_array :: "nat \<Rightarrow> CgState \<Rightarrow> CgState capture" where
  "cg_capture_literal_array start s =
     (case skip_nested ''#('' '')'' 1 s of
        Succeeds s \<Rightarrow>
          if position s \<le> start \<or> position s - start \<ge> TOKEN_TEXT_SIZE then Inl (Fails s)
          else Inr (slice (source_text s) start (position s), s)
      | failed \<Rightarrow> Inl failed)"

text \<open>The text of a block behind its opening bracket, without the closing one.\<close>

definition cg_capture_block_source_from_open :: "CgState \<Rightarrow> CgState capture" where
  "cg_capture_block_source_from_open s =
     (let start = position s
      in case cg_skip_block_literal s of
           Succeeds s \<Rightarrow>
             if position s \<le> start \<or> position s - 1 - start \<ge> BLOCK_SOURCE_SIZE then Inl (Fails s)
             else Inr (slice (source_text s) start (position s - 1), s)
         | failed \<Rightarrow> Inl failed)"

text \<open>A block that does not compile is tried once more as an expression to return.\<close>

definition cg_trim_bounds :: "string \<Rightarrow> nat \<times> nat" where
  "cg_trim_bounds s =
     (let start = length (takeWhile isspace s);
          trailing = length (takeWhile isspace (rev (drop start s)))
      in (start, length s - trailing))"

definition implicit_return_text :: "string \<Rightarrow> nat \<Rightarrow> nat \<Rightarrow> string" where
  "implicit_return_text raw insertion finish =
     take insertion raw @ '' ^ '' @ slice raw insertion finish"

definition cg_build_implicit_return_source :: "string \<Rightarrow> string option" where
  "cg_build_implicit_return_source raw =
     (let (start, finish) = cg_trim_bounds raw
      in if start = finish then None
         else
           let bars = length (takeWhile (\<lambda>c. c \<noteq> CHR ''|'') (slice raw (start + 1) finish));
               insertion = (if char_at raw start \<noteq> CHR ''|'' then start else start + 1 + bars + 1)
           in if char_at raw start = CHR ''|'' \<and> start + 1 + bars \<ge> finish then None
              else
                let out = implicit_return_text raw insertion finish
                in if length out < BLOCK_SOURCE_SIZE then Some out else None)"

section \<open>Expressions\<close>

datatype cg_call =
    Cg_expression
  | Unary_rest
  | Binary_rest
  | Continuation
  | Keyword_args string nat
  | Cg_statements
  | Codegen_body

type_synonym cg_rec = "cg_call \<Rightarrow> CgState \<Rightarrow> CgState attempt"

definition cg_emit_identifier :: "BToken \<Rightarrow> CgState \<Rightarrow> CgState attempt" where
  "cg_emit_identifier token s =
     (let name = token_text token
      in if name = ''self'' \<or> name = ''super'' then cg_emit_byte BC_CG_PUSH_SELF s
         else if name = ''thisContext'' then cg_emit_byte BC_CG_PUSH_THIS_CONTEXT s
         else if name = ''nil'' \<or> name = ''true'' \<or> name = ''false'' then
           emit_with_literal BC_CG_PUSH_LITERAL token s
         else case cg_temp_index s name of
           Some i \<Rightarrow> emit_op BC_CG_PUSH_TEMP (cg_local_temp_slot s i) s
         | None \<Rightarrow>
        (case cg_arg_index (header s) name of
           Some i \<Rightarrow> emit_op BC_CG_PUSH_ARG i s
         | None \<Rightarrow>
        (case cg_outer_arg_slot s name of
           Some i \<Rightarrow> emit_op BC_CG_PUSH_TEMP i s
         | None \<Rightarrow>
        (case cg_outer_temp_slot s name of
           Some i \<Rightarrow> emit_op BC_CG_PUSH_TEMP i s
         | None \<Rightarrow>
        (case cg_inst_var_index name s of
           None \<Rightarrow> Runs_out
         | Some (Some i, s) \<Rightarrow> emit_op BC_CG_PUSH_INST_VAR i s
         | Some (None, s) \<Rightarrow> emit_with_literal BC_CG_PUSH_GLOBAL (text_token BTOK_CLASS_REF name) s)))))"

definition scope_of :: "CgState \<Rightarrow> cg_scope" where
  "scope_of s = \<lparr>scope_temps = temp_names (body s), scope_args = map_option arg_names (header s),
     scope_arg_count = local_arg_count s, scope_closure_offset = closure_offset s\<rparr>"

text \<open>The state \<^verbatim>\<open>bc_codegen_body_with_outer_state\<close> sets up, for a block of the scope \<open>s\<close>.\<close>

definition block_state :: "string \<Rightarrow> CgState \<Rightarrow> CgState" where
  "block_state src s =
     \<lparr>parser = bp_init src, body = empty_body, compiled = empty_compiled, root_blocks = root_blocks s,
      header = header s, saw_return = False, in_block = True, target_class = target_class s,
      outer_states = scope_of s # outer_states s, local_arg_count = 0,
      closure_offset = closure_offset s + local_arg_count s + length (temp_names (body s)),
      object_memory = object_memory s\<rparr>"

definition store_block :: "nat \<Rightarrow> CgState \<Rightarrow> CgState \<Rightarrow> CgState" where
  "store_block block_index inner s =
     s\<lparr>root_blocks := (root_blocks inner)[block_index := BCompiledBlock.truncate (compiled inner)]\<rparr>"

definition cg_compile_and_store_block :: "cg_rec \<Rightarrow> string \<Rightarrow> nat \<Rightarrow> CgState \<Rightarrow> CgState attempt" where
  "cg_compile_and_store_block rec raw_source block_index s =
     (case rec Codegen_body (block_state raw_source s) of
        Succeeds inner \<Rightarrow> Succeeds (store_block block_index inner s)
      | Overruns \<Rightarrow> Overruns
      | Runs_out \<Rightarrow> Runs_out
      | Fails inner \<Rightarrow>
          (let s = s\<lparr>root_blocks := root_blocks inner\<rparr>
           in case cg_build_implicit_return_source raw_source of
                None \<Rightarrow> Fails s
              | Some src \<Rightarrow>
                  (case rec Codegen_body (block_state src s) of
                     Succeeds inner \<Rightarrow> Succeeds (store_block block_index inner s)
                   | Overruns \<Rightarrow> Overruns
                   | Runs_out \<Rightarrow> Runs_out
                   | Fails inner \<Rightarrow> Fails (s\<lparr>root_blocks := root_blocks inner\<rparr>))))"

definition block_token :: "nat \<Rightarrow> BToken" where
  "block_token i = (text_token BTOK_BLOCK_LITERAL (''block:'' @ decimal_text i))\<lparr>int_value := of_nat i\<rparr>"

definition cg_emit_block :: "cg_rec \<Rightarrow> CgState \<Rightarrow> CgState attempt" where
  "cg_emit_block rec s =
     (let start = position s
      in case cg_skip_block_literal s of
           Succeeds s \<Rightarrow>
             if length (root_blocks s) \<ge> MAX_BLOCKS \<or> position s \<le> start \<or>
                position s - 1 - start \<ge> BLOCK_SOURCE_SIZE then Fails s
             else
               let src = slice (source_text s) start (position s - 1);
                   block_index = length (root_blocks s);
                   s = s\<lparr>root_blocks := root_blocks s @ [empty_block]\<rparr>
               in and_also (cg_compile_and_store_block rec src block_index s)
                    (emit_with_literal BC_CG_PUSH_CLOSURE (block_token block_index))
         | failed \<Rightarrow> failed)"

definition cg_emit_literal_array :: "CgState \<Rightarrow> CgState attempt" where
  "cg_emit_literal_array s =
     (case cg_capture_literal_array (position s - 2) s of
        Inl failed \<Rightarrow> failed
      | Inr (src, s) \<Rightarrow>
          emit_with_literal BC_CG_PUSH_LITERAL ((make_token BTOK_LITERAL_ARRAY)\<lparr>token_text := src\<rparr>) s)"

definition cg_emit_primary_token :: "cg_rec \<Rightarrow> BToken \<Rightarrow> CgState \<Rightarrow> CgState attempt" where
  "cg_emit_primary_token rec token s =
     (if is_identifier token then cg_emit_identifier token s
      else if is_literal_token token then emit_with_literal BC_CG_PUSH_LITERAL token s
      else if is_special_text token ''('' then
        and_also (rec Cg_expression s)
          (\<lambda>s. let (close, s) = next_token s in if is_special_text close '')'' then Succeeds s else Fails s)
      else if is_special_text token ''#('' then cg_emit_literal_array s
      else if is_special_text token ''['' then cg_emit_block rec s
      else Fails s)"

definition cg_parse_primary :: "cg_rec \<Rightarrow> CgState \<Rightarrow> CgState attempt" where
  "cg_parse_primary rec s = (let (token, s) = next_token s in cg_emit_primary_token rec token s)"

text \<open>The loops over unary and binary messages; each round starts at the next token.\<close>

definition cg_unary_rest :: "cg_rec \<Rightarrow> CgState \<Rightarrow> CgState attempt" where
  "cg_unary_rest rec s =
     (let (token, s) = next_token s
      in if \<not> is_identifier token then Succeeds (unread token s)
         else and_also (cg_emit_selector_send (token_text token) 0 s) (rec Unary_rest))"

definition cg_parse_unary_expression :: "cg_rec \<Rightarrow> CgState \<Rightarrow> CgState attempt" where
  "cg_parse_unary_expression rec s = and_also (cg_parse_primary rec s) (rec Unary_rest)"

text \<open>A binary message whose first character has been read.\<close>

definition cg_binary_message :: "cg_rec \<Rightarrow> BToken \<Rightarrow> CgState \<Rightarrow> CgState attempt" where
  "cg_binary_message rec token s =
     (let (second, s) = next_token s;
          double = is_binary_token second;
          sel = token_text token @ (if double then token_text second else '''')
      in and_also (cg_parse_unary_expression rec (if double then s else unread second s))
           (cg_emit_selector_send sel 1))"

definition cg_binary_rest :: "cg_rec \<Rightarrow> CgState \<Rightarrow> CgState attempt" where
  "cg_binary_rest rec s =
     (let (token, s) = next_token s
      in if \<not> is_binary_token token then Succeeds (unread token s)
         else and_also (cg_binary_message rec token s) (rec Binary_rest))"

definition cg_parse_binary_expression :: "cg_rec \<Rightarrow> CgState \<Rightarrow> CgState attempt" where
  "cg_parse_binary_expression rec s = and_also (cg_parse_unary_expression rec s) (rec Binary_rest)"

text \<open>The arguments of a keyword message; \<open>sel\<close> and \<open>argc\<close> are what has been read before the argument.\<close>

definition cg_keyword_args :: "cg_rec \<Rightarrow> string \<Rightarrow> nat \<Rightarrow> CgState \<Rightarrow> CgState attempt" where
  "cg_keyword_args rec sel argc s =
     and_also (cg_parse_binary_expression rec s)
       (\<lambda>s. let (token, s) = next_token s
            in if \<not> is_keyword token then cg_emit_selector_send sel (argc + 1) (unread token s)
               else rec (Keyword_args (name_in SELECTOR_SIZE (sel @ token_text token)) (argc + 1)) s)"

definition cg_parse_expression_continuation :: "cg_rec \<Rightarrow> CgState \<Rightarrow> CgState attempt" where
  "cg_parse_expression_continuation rec s =
     (let (token, s) = next_token s
      in if is_eof token \<or> is_terminator token then Succeeds (unread token s)
         else if is_special_text token '';'' then rec Continuation s
         else if is_identifier token then
           and_also (cg_emit_selector_send (token_text token) 0 s) (rec Continuation)
         else if is_binary_token token then
           and_also (cg_binary_message rec token s) (rec Continuation)
         else if is_keyword token then
           and_also (rec (Keyword_args (name_in SELECTOR_SIZE (token_text token)) 0) s) (rec Continuation)
         else Fails s)"

definition cg_parse_expression :: "cg_rec \<Rightarrow> CgState \<Rightarrow> CgState attempt" where
  "cg_parse_expression rec s = and_also (cg_parse_binary_expression rec s) (rec Continuation)"

section \<open>Statements\<close>

text \<open>Compile another text in place; the parser is restored on every answer.\<close>

fun restoring :: "BParser \<Rightarrow> CgState attempt \<Rightarrow> CgState attempt" where
  "restoring p (Succeeds s) = Succeeds (s\<lparr>parser := p\<rparr>)"
| "restoring p (Fails s) = Fails (s\<lparr>parser := p\<rparr>)"
| "restoring p Overruns = Overruns"
| "restoring p Runs_out = Runs_out"

definition cg_emit_inline_expression :: "cg_rec \<Rightarrow> string \<Rightarrow> CgState \<Rightarrow> CgState attempt" where
  "cg_emit_inline_expression rec src s =
     restoring (parser s)
       (and_also (rec Cg_expression (s\<lparr>parser := bp_init src\<rparr>))
         (\<lambda>s. let (eof, s) = next_token s in if is_eof eof then Succeeds s else Fails s))"

definition cg_emit_inline_statements :: "cg_rec \<Rightarrow> string \<Rightarrow> CgState \<Rightarrow> CgState attempt" where
  "cg_emit_inline_statements rec src s =
     restoring (parser s) (rec Cg_statements (s\<lparr>parser := bp_init src\<rparr>))"

definition nil_token :: BToken where
  "nil_token = text_token BTOK_IDENTIFIER ''nil''"

abbreviation code_length :: "CgState \<Rightarrow> nat" where
  "code_length s \<equiv> length (bytecodes (compiled s))"

text \<open>The loop of \<^verbatim>\<open>whileTrue:\<close>, from its two texts.\<close>

definition emit_loop :: "cg_rec \<Rightarrow> string \<Rightarrow> string \<Rightarrow> CgState \<Rightarrow> CgState attempt" where
  "emit_loop rec condition_source body_source s =
     (let loop_start = code_length s
      in and_also (cg_emit_inline_expression rec condition_source s)
           (\<lambda>s. let exit_patch = code_length s + 1
                in and_also (and_also (and_also (cg_emit_jump_placeholder BC_CG_JUMP_IF_FALSE s)
                     (cg_emit_inline_statements rec body_source))
                     (emit_op BC_CG_JUMP loop_start))
                     (\<lambda>s. cg_emit_push_literal_token nil_token
                            (cg_patch_u32 exit_patch (of_nat (code_length s)) s))))"

definition cg_parse_while_true_statement :: "cg_rec \<Rightarrow> CgState \<Rightarrow> CgState attempt" where
  "cg_parse_while_true_statement rec s =
     (case cg_capture_block_source_from_open s of
        Inl failed \<Rightarrow> failed
      | Inr (condition_source, s) \<Rightarrow>
          let (keyword, s) = next_token s
          in if \<not> (is_keyword keyword \<and> token_text keyword = ''whileTrue:'') then Fails s
             else
               let (body_open, s) = next_token s
               in if \<not> is_special_text body_open ''['' then Fails s
                  else case cg_capture_block_source_from_open s of
                         Inl failed \<Rightarrow> failed
                       | Inr (body_source, s) \<Rightarrow> emit_loop rec condition_source body_source s)"

text \<open>What follows an expression statement: its value is returned at the end of the text, or dropped.\<close>

definition after_expression :: "cg_rec \<Rightarrow> CgState \<Rightarrow> CgState attempt" where
  "after_expression rec s =
     (let (separator, s) = next_token s
      in if is_eof separator then
           and_also (cg_emit_byte BC_CG_RETURN s) (\<lambda>s. Succeeds (s\<lparr>saw_return := True\<rparr>))
         else if \<not> is_special_text separator ''.'' then Fails s
         else and_also (cg_emit_byte BC_CG_POP s) (rec Cg_statements))"

definition after_loop :: "cg_rec \<Rightarrow> CgState \<Rightarrow> CgState attempt" where
  "after_loop rec s =
     (let (separator, s) = next_token s
      in if is_eof separator then Succeeds s
         else if \<not> is_special_text separator ''.'' then Fails s
         else and_also (cg_emit_byte BC_CG_POP s) (rec Cg_statements))"

definition after_assignment :: "cg_rec \<Rightarrow> CgState \<Rightarrow> CgState attempt" where
  "after_assignment rec s =
     (let (separator, s) = next_token s
      in if is_eof separator then Succeeds s
         else if \<not> is_special_text separator ''.'' then Fails s
         else rec Cg_statements s)"

definition return_statement :: "cg_rec \<Rightarrow> CgState \<Rightarrow> CgState attempt" where
  "return_statement rec s =
     and_also (and_also (rec Cg_expression s)
       (\<lambda>s. cg_emit_byte (if in_block s then BC_CG_RETURN_NON_LOCAL else BC_CG_RETURN) s))
       (\<lambda>s. let (eof, s) = next_token (s\<lparr>saw_return := True\<rparr>)
            in if is_eof eof then Succeeds s else Fails s)"

text \<open>A statement that starts with a bracket is a loop, or an expression when that fails.\<close>

definition bracket_statement :: "cg_rec \<Rightarrow> BToken \<Rightarrow> CgState \<Rightarrow> CgState attempt" where
  "bracket_statement rec token s =
     (case cg_parse_while_true_statement rec s of
        Fails s' \<Rightarrow>
          and_also (rec Cg_expression (unread token (s'\<lparr>parser := parser s\<rparr>))) (after_expression rec)
      | Succeeds s' \<Rightarrow> after_loop rec s'
      | failed \<Rightarrow> failed)"

text \<open>The store of an assignment: a temporary, a temporary of an outer scope, an instance variable.\<close>

definition assignment :: "cg_rec \<Rightarrow> string \<Rightarrow> CgState \<Rightarrow> CgState attempt" where
  "assignment rec name s =
     (case cg_temp_index s name of
        Some i \<Rightarrow> and_also (rec Cg_expression s) (\<lambda>s. emit_op BC_CG_STORE_TEMP (cg_local_temp_slot s i) s)
      | None \<Rightarrow>
     (case cg_outer_temp_slot s name of
        Some i \<Rightarrow> and_also (rec Cg_expression s) (emit_op BC_CG_STORE_TEMP i)
      | None \<Rightarrow>
     (case cg_inst_var_index name s of
        None \<Rightarrow> Runs_out
      | Some (None, s) \<Rightarrow> Fails s
      | Some (Some i, s) \<Rightarrow> and_also (rec Cg_expression s) (emit_op BC_CG_STORE_INST_VAR i))))"

definition identifier_statement :: "cg_rec \<Rightarrow> BToken \<Rightarrow> CgState \<Rightarrow> CgState attempt" where
  "identifier_statement rec token s =
     (let (maybe_assign, s) = next_token s
      in if is_special_text maybe_assign '':='' then
           and_also (assignment rec (token_text token) s) (after_assignment rec)
         else
           and_also (and_also (cg_emit_primary_token rec token (unread maybe_assign s)) (rec Continuation))
             (after_expression rec))"

definition cg_parse_statements :: "cg_rec \<Rightarrow> CgState \<Rightarrow> CgState attempt" where
  "cg_parse_statements rec s =
     (let (token, s) = next_token s
      in if is_eof token then Succeeds s
         else if is_special_text token ''.'' then rec Cg_statements s
         else if is_special_text token ''^'' then return_statement rec s
         else if is_special_text token ''['' then bracket_statement rec token s
         else if is_identifier token then identifier_statement rec token s
         else and_also (rec Cg_expression (unread token s)) (after_expression rec))"

section \<open>Bodies\<close>

text \<open>The arguments of a block behind their first colon.\<close>

function block_header :: "BMethodHeader \<Rightarrow> CgState \<Rightarrow> BMethodHeader option \<times> CgState" where
  "block_header h s =
     (let (arg, s1) = next_token s
      in if \<not> is_identifier arg \<or> length (arg_names h) \<ge> MAX_ARGS then (None, s1)
         else
           let h = h\<lparr>arg_names := arg_names h @ [name_in NAME_SIZE (token_text arg)]\<rparr>;
               (token, s2) = next_token s1
           in if is_special_text token '':'' then block_header h s2
              else if is_special_text token ''|'' then (Some h, s2)
              else (None, s2))"
  by auto

termination block_header
  by (relation "measure (\<lambda>(h, s). MAX_ARGS - length (arg_names h))") auto

declare block_header.simps [simp del]

definition cg_parse_block_header :: "CgState \<Rightarrow> BMethodHeader option \<times> CgState" where
  "cg_parse_block_header s =
     (let (token, s) = next_token s
      in if is_special_text token '':'' then block_header empty_header s
         else (Some empty_header, unread token s))"

definition cg_parse_temp_decls :: "CgState \<Rightarrow> CgState attempt" where
  "cg_parse_temp_decls s =
     (let (token, s) = next_token s
      in if is_special_text token ''|'' then parse_temps s else Succeeds (unread token s))"

definition enter_scope :: "CgState \<Rightarrow> CgState attempt" where
  "enter_scope s =
     (if in_block s then
        (case cg_parse_block_header s of
           (None, s) \<Rightarrow> Fails s
         | (Some h, s) \<Rightarrow> Succeeds (s\<lparr>header := Some h, local_arg_count := length (arg_names h)\<rparr>))
      else Succeeds (s\<lparr>local_arg_count :=
             (case header s of None \<Rightarrow> 0 | Some h \<Rightarrow> length (arg_names h))\<rparr>))"

text \<open>A block without a return at its end answers nil.\<close>

definition end_block :: "CgState \<Rightarrow> CgState attempt" where
  "end_block s =
     (if in_block s \<and> \<not> saw_return s then
        and_also (and_also (cg_emit_push_literal_token nil_token s) (cg_emit_byte BC_CG_RETURN))
          (\<lambda>s. Succeeds (s\<lparr>saw_return := True\<rparr>))
      else Succeeds s)"

definition bc_codegen_body_with_outer_state :: "cg_rec \<Rightarrow> CgState \<Rightarrow> CgState attempt" where
  "bc_codegen_body_with_outer_state rec s =
     and_also (and_also (and_also (and_also (enter_scope s) cg_parse_temp_decls) (rec Cg_statements)) end_block)
       (\<lambda>s. let s = s\<lparr>compiled := (compiled s)\<lparr>arg_count := local_arg_count s,
                        temp_count := length (temp_names (body s))\<rparr>\<rparr>
            in if saw_return s then Succeeds s else Fails s)"

fun cg_step :: "cg_rec \<Rightarrow> cg_rec" where
  "cg_step rec Cg_expression = cg_parse_expression rec"
| "cg_step rec Unary_rest = cg_unary_rest rec"
| "cg_step rec Binary_rest = cg_binary_rest rec"
| "cg_step rec Continuation = cg_parse_expression_continuation rec"
| "cg_step rec (Keyword_args sel argc) = cg_keyword_args rec sel argc"
| "cg_step rec Cg_statements = cg_parse_statements rec"
| "cg_step rec Codegen_body = bc_codegen_body_with_outer_state rec"

primrec cg_run :: "nat \<Rightarrow> cg_rec" where
  "cg_run 0 = (\<lambda>c s. Runs_out)"
| "cg_run (Suc n) = cg_step (cg_run n)"

definition method_state :: "mem \<Rightarrow> string \<Rightarrow> BMethodHeader option \<Rightarrow> u64 \<Rightarrow> CgState" where
  "method_state m src h klass =
     \<lparr>parser = bp_init src, body = empty_body, compiled = empty_compiled, root_blocks = [],
      header = h, saw_return = False, in_block = False, target_class = klass,
      outer_states = [], local_arg_count = 0, closure_offset = 0, object_memory = m\<rparr>"

text \<open>The compiled body of a method, with the blocks of all its scopes.\<close>

definition compiled_method :: "CgState \<Rightarrow> BCompiledBody" where
  "compiled_method s = (compiled s)\<lparr>blocks := root_blocks s\<rparr>"

definition bc_codegen_body :: "nat \<Rightarrow> mem \<Rightarrow> string \<Rightarrow> BMethodHeader option \<Rightarrow> u64 \<Rightarrow> CgState attempt" where
  "bc_codegen_body fuel m src h klass = cg_run fuel Codegen_body (method_state m src h klass)"

definition bc_codegen_method_body :: "nat \<Rightarrow> string \<Rightarrow> CgState attempt" where
  "bc_codegen_method_body fuel src = bc_codegen_body fuel (\<lambda>_. 0) src None 0"

end
