(* ===== verification/Install.thy ===== *)
theory Install
  imports Codegen
begin

text \<open>
  From compiled code to objects (\<^verbatim>\<open>src/c/bootstrap_compiler.c\<close>): literals, blocks and methods in the
  heap, and the method dictionaries of classes. Functions that answer a pointer answer 0 for \<^verbatim>\<open>NULL\<close>,
  functions that answer 1 or 0 and an oop answer an option; a write through a null pointer is a
  \<open>Trap\<close>. The bindings that the C code keeps in \<^verbatim>\<open>bc_active_class_bindings\<close> while methods are
  installed are the argument \<open>classes\<close>.
\<close>

section \<open>Classes by name\<close>

definition BC_FORMAT_INDEXABLE :: u64 where [simp]: "BC_FORMAT_INDEXABLE = 1"
definition BC_FORMAT_BYTES :: u64 where [simp]: "BC_FORMAT_BYTES = 2"
definition BC_CLASS_SUPERCLASS :: u64 where [simp]: "BC_CLASS_SUPERCLASS = 0"
definition BC_CLASS_METHOD_DICT :: u64 where [simp]: "BC_CLASS_METHOD_DICT = 1"
definition BC_CLASS_INST_SIZE :: u64 where [simp]: "BC_CLASS_INST_SIZE = 2"
definition BC_CLASS_INST_FORMAT :: u64 where [simp]: "BC_CLASS_INST_FORMAT = 3"
definition BC_CLASS_INST_VARS :: u64 where [simp]: "BC_CLASS_INST_VARS = 4"
definition BC_CM_PRIMITIVE :: u64 where [simp]: "BC_CM_PRIMITIVE = 0"
definition BC_CM_NUM_ARGS :: u64 where [simp]: "BC_CM_NUM_ARGS = 1"
definition BC_CM_NUM_TEMPS :: u64 where [simp]: "BC_CM_NUM_TEMPS = 2"
definition BC_CM_LITERALS :: u64 where [simp]: "BC_CM_LITERALS = 3"
definition BC_CM_BYTECODES :: u64 where [simp]: "BC_CM_BYTECODES = 4"
definition BC_CM_SOURCE :: u64 where [simp]: "BC_CM_SOURCE = 5"
definition BC_ASSOC_KEY :: u64 where [simp]: "BC_ASSOC_KEY = 0"
definition BC_ASSOC_VALUE :: u64 where [simp]: "BC_ASSOC_VALUE = 1"
definition BC_DICT_ASSOCIATIONS :: u64 where [simp]: "BC_DICT_ASSOCIATIONS = 0"
definition BC_DICT_TALLY :: u64 where [simp]: "BC_DICT_TALLY = 1"

record BClassBinding =
  binding_name :: "string option"
  binding_class :: u64

definition bc_find_class_binding :: "BClassBinding list \<Rightarrow> string \<Rightarrow> BClassBinding option" where
  "bc_find_class_binding classes name =
     List.find (\<lambda>b. binding_class b \<noteq> 0 \<and> binding_name b = Some name) classes"

text \<open>The index of the association with a key among the first \<open>tally\<close>.\<close>

definition association_at :: "mem \<Rightarrow> u64 \<Rightarrow> u64 \<Rightarrow> u64 \<Rightarrow> u64 option" where
  "association_at m associations tally key =
     map_option (\<lambda>i. OBJ_FIELD m associations (of_nat i))
       (List.find (\<lambda>i. let a = OBJ_FIELD m associations (of_nat i)
                        in is_object_ptr a \<and> OBJ_FIELD m a BC_ASSOC_KEY = key) [0..<unat tally])"

definition bc_lookup_smalltalk_global :: "vm \<Rightarrow> string \<Rightarrow> u64" where
  "bc_lookup_smalltalk_global s name =
     (let dict = smalltalk_dictionary s; m = memory s
      in if dict = 0 \<or> \<not> is_object_ptr dict then 0
         else
           let key_oop = lookup_cstring_symbol s (c_string name);
               associations_oop = OBJ_FIELD m dict BC_DICT_ASSOCIATIONS;
               tally_oop = OBJ_FIELD m dict BC_DICT_TALLY
           in if key_oop = TAGGED_NIL \<or> \<not> is_object_ptr associations_oop \<or> tally_oop = TAGGED_NIL then 0
              else case association_at m associations_oop (untag_smallint tally_oop) key_oop of
                     None \<Rightarrow> 0
                   | Some a \<Rightarrow>
                       let v = OBJ_FIELD m a BC_ASSOC_VALUE in if is_object_ptr v then v else 0)"

definition bc_lookup_class_named :: "vm \<Rightarrow> BClassBinding list \<Rightarrow> string \<Rightarrow> u64" where
  "bc_lookup_class_named s classes name =
     (case bc_find_class_binding classes name of
        Some binding \<Rightarrow> binding_class binding
      | None \<Rightarrow> bc_lookup_smalltalk_global s name)"

section \<open>Allocating\<close>

definition alloc :: "u64 \<Rightarrow> u64 \<Rightarrow> u64 \<Rightarrow> u64 \<Rightarrow> vm \<Rightarrow> u64 outcome" where
  "alloc om cls fmt n s = (let (s, obj) = om_alloc s om cls fmt n in Done obj s)"

definition store :: "u64 \<Rightarrow> u64 \<Rightarrow> u64 \<Rightarrow> vm \<Rightarrow> vm" where
  "store obj n v s = s\<lparr>memory := set_field (memory s) obj n v\<rparr>"

text \<open>\<open>store_all obj 0 vs\<close> stores the values to the fields from 0 on.\<close>

fun store_all :: "u64 \<Rightarrow> nat \<Rightarrow> u64 list \<Rightarrow> vm \<Rightarrow> vm" where
  "store_all obj i [] s = s"
| "store_all obj i (v # vs) s = store_all obj (Suc i) vs (store obj (of_nat i) v s)"

definition store_bytes :: "u64 \<Rightarrow> u8 list \<Rightarrow> vm \<Rightarrow> vm" where
  "store_bytes obj bs s = s\<lparr>memory := put_bytes (memory s) (slot obj 3) bs\<rparr>"

text \<open>An object that is used without a test for \<^verbatim>\<open>NULL\<close>.\<close>

definition unchecked_alloc :: "u64 \<Rightarrow> u64 \<Rightarrow> u64 \<Rightarrow> u64 \<Rightarrow> vm \<Rightarrow> u64 outcome" where
  "unchecked_alloc om cls fmt n s =
     and_then (alloc om cls fmt n s) (\<lambda>obj s. if obj = 0 then Trap s else Done obj s)"

text \<open>Continue with an object, or answer 0 when there is none.\<close>

definition unless_null :: "u64 outcome \<Rightarrow> (u64 \<Rightarrow> vm \<Rightarrow> u64 outcome) \<Rightarrow> u64 outcome" where
  "unless_null p k = and_then p (\<lambda>obj s. if obj = 0 then Done 0 s else k obj s)"

definition unless_none :: "u64 option outcome \<Rightarrow> (u64 \<Rightarrow> vm \<Rightarrow> 'a option outcome) \<Rightarrow> 'a option outcome" where
  "unless_none p k = and_then p (\<lambda>r s. case r of None \<Rightarrow> Done None s | Some v \<Rightarrow> k v s)"

definition bc_make_byte_string :: "u64 \<Rightarrow> u64 \<Rightarrow> string \<Rightarrow> vm \<Rightarrow> u64 outcome" where
  "bc_make_byte_string om string_class txt s =
     unless_null (alloc om string_class BC_FORMAT_BYTES (of_nat (length txt)) s)
       (\<lambda>obj s. Done obj (store_bytes obj (c_string txt) s))"

section \<open>Associations of the global dictionary\<close>

text \<open>Append an association, in a table of twice the size when the table is full.\<close>

definition append_association ::
  "u64 \<Rightarrow> u64 \<Rightarrow> u64 \<Rightarrow> u64 \<Rightarrow> u64 \<Rightarrow> u64 \<Rightarrow> u64 \<Rightarrow> vm \<Rightarrow> u64 option outcome" where
  "append_association om association_class associations tally key_oop val dict s =
     and_then (alloc om association_class FORMAT_FIELDS 2 s) (\<lambda>association s.
       if association = 0 then Done None s
       else Done (Some association)
         (store dict BC_DICT_TALLY (tag_smallint (tally + 1))
           (store associations tally association
             (store association BC_ASSOC_VALUE val (store association BC_ASSOC_KEY key_oop s)))))"

definition grow_associations :: "u64 \<Rightarrow> u64 \<Rightarrow> u64 \<Rightarrow> u64 \<Rightarrow> vm \<Rightarrow> u64 option outcome" where
  "grow_associations om array_class associations dict s =
     (let size = OBJ_SIZE (memory s) associations;
          new_size = (if size = 0 then 8 else size * 2)
      in and_then (alloc om array_class FORMAT_INDEXABLE new_size s) (\<lambda>grown s.
           if grown = 0 then Done None s
           else Done (Some grown) (store dict BC_DICT_ASSOCIATIONS grown
             (fold (\<lambda>i s. store grown (of_nat i)
                 (if of_nat i < OBJ_SIZE (memory s) associations
                  then OBJ_FIELD (memory s) associations (of_nat i) else TAGGED_NIL) s)
               [0..<unat new_size] s))))"

definition bc_global_association_oop ::
  "u64 \<Rightarrow> u64 \<Rightarrow> u64 \<Rightarrow> string \<Rightarrow> u64 \<Rightarrow> vm \<Rightarrow> u64 option outcome" where
  "bc_global_association_oop om array_class association_class name val s =
     (let dict = smalltalk_dictionary s
      in if dict = 0 \<or> \<not> is_object_ptr dict \<or> array_class = 0 \<or> association_class = 0 then Done None s
         else
           let (s, key_oop) = intern_cstring_symbol om (c_string name) s
           in if key_oop = TAGGED_NIL then Done None s
              else
                let associations_oop = OBJ_FIELD (memory s) dict BC_DICT_ASSOCIATIONS;
                    tally_oop = OBJ_FIELD (memory s) dict BC_DICT_TALLY;
                    tally = (if tally_oop = TAGGED_NIL then 0 else untag_smallint tally_oop)
                in unless_none
                     (if associations_oop \<noteq> TAGGED_NIL then Done (Some associations_oop) s
                      else and_then (alloc om array_class FORMAT_INDEXABLE 8 s) (\<lambda>new s.
                        if new = 0 then Done None s
                        else Done (Some new) (store dict BC_DICT_TALLY (tag_smallint 0)
                          (store dict BC_DICT_ASSOCIATIONS new (store_all new 0 (replicate 8 TAGGED_NIL) s)))))
                     (\<lambda>associations s.
                        if \<not> is_object_ptr associations then Done None s
                        else case association_at (memory s) associations tally key_oop of
                          Some a \<Rightarrow> Done (Some a) (store a BC_ASSOC_VALUE val s)
                        | None \<Rightarrow>
                            unless_none
                              (if tally \<ge> OBJ_SIZE (memory s) associations
                               then grow_associations om array_class associations dict s
                               else Done (Some associations) s)
                              (\<lambda>associations s.
                                 append_association om association_class associations tally key_oop
                                   val dict s)))"

section \<open>Literal arrays\<close>

text \<open>Behind an open literal array: read to the parenthesis that closes it.\<close>

function skip_array :: "nat \<Rightarrow> BTokenizer \<Rightarrow> BTokenizer option" where
  "skip_array depth t =
     (if depth = 0 then Some t
      else
        let (token, t') = bt_next t
        in if is_eof token then None
           else skip_array (if is_special_text token ''#('' then depth + 1
                            else if is_special_text token '')'' then depth - 1 else depth) t')"
  by auto

lemma bt_next_bound:
  assumes "(token, t') = bt_next t" and "\<not> is_eof token"
  shows "source t' = source t" "index t < index t'" "index t' \<le> length (source t)"
proof -
  have t': "t' = snd (bt_next t)" and tk: "token = fst (bt_next t)" using assms(1) by (simp_all add: prod_eq_iff)
  show "source t' = source t" by (simp add: t')
  show "index t < index t'" using bt_next_moves [of t] assms(2) by (simp add: t' tk)
  have "index t \<le> length (source t)"
    using bt_next_at_end [of t] assms(2) tk by (meson nat_le_linear)
  then show "index t' \<le> length (source t)" using later_bt_next [of t] by (simp add: later_def t')
qed

lemma bt_next_less:
  "(token, t') = bt_next t \<Longrightarrow> \<not> is_eof token \<Longrightarrow>
    length (source t') - index t' < length (source t) - index t"
  using bt_next_bound [of token t' t] by simp

termination skip_array
  by (relation "measure (\<lambda>(_, t). length (source t) - index t)") (auto intro: bt_next_less)

declare skip_array.simps [simp del]

text \<open>The elements of a literal array, with the texts of the arrays in it; at most 16.\<close>

definition MAX_ARRAY_ITEMS :: nat where
  "MAX_ARRAY_ITEMS = 16"

function array_items :: "BTokenizer \<Rightarrow> BToken list \<Rightarrow> BToken list option" where
  "array_items t items =
     (let (token, t') = bt_next t
      in if is_eof token then None
         else if is_special_text token '')'' then Some items
         else if length items \<ge> MAX_ARRAY_ITEMS then None
         else if is_special_text token ''#('' then
           (case skip_array 1 t' of
              None \<Rightarrow> None
            | Some t'' \<Rightarrow>
                if index t'' - (index t' - 2) \<ge> TOKEN_TEXT_SIZE then None
                else array_items t'' (items @ [(make_token BTOK_LITERAL_ARRAY)
                       \<lparr>token_text := slice (source t'') (index t' - 2) (index t'')\<rparr>]))
         else array_items t' (items @ [token]))"
  by auto

termination array_items
  by (relation "measure (\<lambda>(_, items). MAX_ARRAY_ITEMS - length items)") auto

declare array_items.simps [simp del]

definition literal_array_items :: "string \<Rightarrow> BToken list option" where
  "literal_array_items src =
     (let (open_token, t) = bt_next (bt_init src)
      in if is_special_text open_token ''#('' then array_items t [] else None)"

section \<open>Literals\<close>

text \<open>The object memory and the classes that every function of the installer passes on.\<close>

record bc_env =
  env_om :: u64
  env_bindings :: "BClassBinding list"
  env_class :: u64
  env_string :: u64
  env_array :: u64
  env_association :: u64

definition symbol_literal :: "bc_env \<Rightarrow> string \<Rightarrow> vm \<Rightarrow> u64 option outcome" where
  "symbol_literal e txt s =
     (let (s, oop) = intern_cstring_symbol (env_om e) (c_string txt) s
      in Done (if oop = TAGGED_NIL then None else Some oop) s)"

definition class_literal :: "bc_env \<Rightarrow> string \<Rightarrow> vm \<Rightarrow> u64 option outcome" where
  "class_literal e txt s =
     (let klass = bc_lookup_class_named s (env_bindings e) txt;
          klass = (if klass = 0 then bc_lookup_smalltalk_global s txt else klass)
      in if klass = 0 \<or> env_association e = 0 then Done None s
         else bc_global_association_oop (env_om e) (env_array e) (env_association e) txt klass s)"

definition bc_literal_token_to_oop :: "bc_env \<Rightarrow> BToken \<Rightarrow> vm \<Rightarrow> u64 option outcome" where
  "bc_literal_token_to_oop e token s =
     (let txt = token_text token
      in case token_type token of
           BTOK_INTEGER \<Rightarrow> Done (Some (tag_smallint (int_value token))) s
         | BTOK_CHARACTER \<Rightarrow> Done (Some (tag_character (int_value token))) s
         | BTOK_STRING \<Rightarrow>
             if env_string e = 0 then Done None s
             else and_then (bc_make_byte_string (env_om e) (env_string e) txt s)
                    (\<lambda>oop s. Done (if oop = 0 then None else Some oop) s)
         | BTOK_SYMBOL \<Rightarrow> symbol_literal e txt s
         | BTOK_SELECTOR \<Rightarrow> symbol_literal e txt s
         | BTOK_CLASS_REF \<Rightarrow> class_literal e txt s
         | BTOK_IDENTIFIER \<Rightarrow>
             Done (if txt = ''nil'' then Some TAGGED_NIL else if txt = ''true'' then Some TAGGED_TRUE
                   else if txt = ''false'' then Some TAGGED_FALSE else None) s
         | _ \<Rightarrow> Done None s)"

text \<open>
  A literal array and its elements from the index \<open>i\<close> on. An array inside it has a shorter text.
\<close>

definition items_bound :: "BToken list \<Rightarrow> nat" where
  "items_bound items =
     foldr (\<lambda>item n. if token_type item = BTOK_LITERAL_ARRAY then max (Suc (length (token_text item))) n else n)
       items 0"

lemma items_bound_simps [simp]:
  "items_bound [] = 0"
  "items_bound (item # items) = (if token_type item = BTOK_LITERAL_ARRAY
     then max (Suc (length (token_text item))) (items_bound items) else items_bound items)"
  "items_bound (items @ [item]) = max (items_bound items)
     (if token_type item = BTOK_LITERAL_ARRAY then Suc (length (token_text item)) else 0)"
  by (simp_all add: items_bound_def) (induction items; auto simp: max.assoc max.commute max.left_commute)

lemma special_array_index:
  assumes "(token, t') = bt_next t" and "is_special_text token ''#(''"
  shows "index t + 2 \<le> index t'"
proof -
  let ?t = "skip_whitespace t"
  have n: "bt_next t = (token, t')" using assms(1) by simp
  have "index ?t + 2 \<le> index t'"
    using n assms(2)
    by (auto simp: bt_next_def Let_def is_special_text_def make_token_def integer_token_def
        character_token_def word_token_def string_token_def symbol_token_def two_char_token_def
        special_token_def text_token_def split_def TOKEN_TEXT_SIZE_def advance_def peek_def char_at_def
        NUL_def split: if_splits)
  moreover have "index t \<le> index ?t" using later_skip_whitespace [of t] by (simp add: later_def)
  ultimately show ?thesis by simp
qed

lemma skip_array_later: "skip_array depth t = Some t' \<Longrightarrow> later t t'"
proof (induction depth t rule: skip_array.induct)
  case (1 depth t)
  obtain token t1 where n: "bt_next t = (token, t1)" by (cases "bt_next t")
  have "later t t1" using later_bt_next [of t] by (simp add: n)
  then show ?case
    using "1.IH" [OF _ n [symmetric] refl] "1.prems" skip_array.simps [of depth t]
    by (auto simp: n later_refl intro: later_trans split: if_splits)
qed

lemma length_slice: "length (slice s i j) \<le> length s - i"
  by (simp add: slice_def)

lemma array_items_bound:
  "array_items t items = Some out \<Longrightarrow> 0 < index t \<Longrightarrow> items_bound items \<le> length (source t) \<Longrightarrow>
    items_bound out \<le> length (source t)"
proof (induction t items rule: array_items.induct)
  case (1 t items)
  obtain token t1 where n: "bt_next t = (token, t1)" by (cases "bt_next t")
  show ?case
  proof (cases "is_eof token \<or> is_special_text token '')'' \<or> length items \<ge> MAX_ARRAY_ITEMS")
    case True
    then show ?thesis
      using "1.prems" by (subst (asm) array_items.simps) (auto simp: n split: if_splits)
  next
    case F: False
    note b = bt_next_bound [OF n [symmetric]]
    show ?thesis
    proof (cases "is_special_text token ''#(''")
      case True
      then obtain t2 where t2: "skip_array 1 t1 = Some t2" and r: "index t2 - (index t1 - 2) < TOKEN_TEXT_SIZE"
        and o: "array_items t2 (items @ [(make_token BTOK_LITERAL_ARRAY)
            \<lparr>token_text := slice (source t2) (index t1 - 2) (index t2)\<rparr>]) = Some out"
        using "1.prems"(1) F by (subst (asm) array_items.simps) (auto simp: n split: option.splits if_splits)
      have l: "later t1 t2" by (rule skip_array_later [OF t2])
      have i: "0 < index t1 - 2" using special_array_index [OF n [symmetric] True] "1.prems"(2) by simp
      have s: "source t2 = source t" using l b(1) F by (simp add: later_def)
      have "Suc (length (slice (source t2) (index t1 - 2) (index t2))) \<le> length (source t)"
        using length_slice [of "source t2" "index t1 - 2" "index t2"] i b(3) F s by simp
      then show ?thesis
        using "1.IH"(1) [OF n [symmetric] refl _ _ _ True t2] o r F "1.prems"(3) s l b(2)
        by (simp add: make_token_def later_def)
    next
      case False
      then have o: "array_items t1 (items @ [token]) = Some out"
        using "1.prems"(1) F by (subst (asm) array_items.simps) (auto simp: n)
      have "token_type token \<noteq> BTOK_LITERAL_ARRAY"
        using n by (auto simp: bt_next_def Let_def make_token_def integer_token_def character_token_def
            word_token_def string_token_def symbol_token_def two_char_token_def special_token_def
            text_token_def split_def split: if_splits)
      then show ?thesis
        using "1.IH"(2) [OF n [symmetric] refl _ _ _ False] o F "1.prems"(3) b by simp
    qed
  qed
qed

lemma literal_array_items_bound:
  assumes "literal_array_items src = Some items"
  shows "items_bound items \<le> length src"
proof -
  obtain token t where n: "bt_next (bt_init src) = (token, t)" by (cases "bt_next (bt_init src)")
  have o: "is_special_text token ''#(''" "array_items t [] = Some items"
    using assms by (auto simp: literal_array_items_def n split: if_splits)
  have "\<not> is_eof token" using o(1) by (simp add: is_special_text_def)
  note b = bt_next_bound [OF n [symmetric] this]
  show ?thesis
    using array_items_bound [OF o(2)] b by (simp add: bt_init_def)
qed

lemma unless_none_cong [fundef_cong]:
  "p = p' \<Longrightarrow> (\<And>v s. p' = Done (Some v) s \<Longrightarrow> k v s = k' v s) \<Longrightarrow> unless_none p k = unless_none p' k'"
  by (cases p') (auto simp: unless_none_def split: option.split)

text \<open>The functions of a literal array: \<open>Inl\<close> its text, \<open>Inr\<close> the elements that are left.\<close>

function materialize :: "bc_env \<Rightarrow> string + (u64 \<times> nat \<times> BToken list) \<Rightarrow> vm \<Rightarrow> u64 option outcome" where
  "materialize e (Inl src) s =
     (case literal_array_items src of
        None \<Rightarrow> Done None s
      | Some items \<Rightarrow>
          and_then (alloc (env_om e) (env_array e) BC_FORMAT_INDEXABLE (of_nat (length items)) s)
            (\<lambda>array s. if array = 0 then Done None s else materialize e (Inr (array, 0, items)) s))"
| "materialize e (Inr (array, i, [])) s = Done (Some array) s"
| "materialize e (Inr (array, i, item # items)) s =
     unless_none
       (if token_type item = BTOK_LITERAL_ARRAY then materialize e (Inl (token_text item)) s
        else bc_literal_token_to_oop e item s)
       (\<lambda>element s. materialize e (Inr (array, Suc i, items)) (store array (of_nat i) element s))"
  by pat_completeness auto

termination materialize
  by (relation "inv_image (less_than <*lex*> less_than <*lex*> less_than)
        (\<lambda>(e, c, s). case c of Inl src \<Rightarrow> (length src, 1 :: nat, 0)
           | Inr (array, i, items) \<Rightarrow> (items_bound items, 0, length items))")
    (auto dest: literal_array_items_bound)

definition bc_materialize_literal_array_oop :: "bc_env \<Rightarrow> string \<Rightarrow> vm \<Rightarrow> u64 option outcome" where
  "bc_materialize_literal_array_oop e src s = materialize e (Inl src) s"

section \<open>Blocks and methods\<close>

text \<open>
  Blocks refer to the blocks in them by their index in the table of the method. The recursion
  takes fuel, one unit for a block.
\<close>

type_synonym block_rec = "BCompiledBlock \<Rightarrow> vm \<Rightarrow> u64 outcome"

definition literal_oop :: "bc_env \<Rightarrow> block_rec \<Rightarrow> BCompiledBlock list \<Rightarrow> bool \<Rightarrow> BToken \<Rightarrow> vm \<Rightarrow> u64 option outcome" where
  "literal_oop e rec root_table in_method literal s =
     (if token_type literal = BTOK_BLOCK_LITERAL then
        (let i = unat (int_value literal)
         in if i \<ge> length root_table then Done None s
            else and_then (rec (root_table ! i) s) (\<lambda>block s. Done (if block = 0 then None else Some block) s))
      else if in_method \<and> token_type literal = BTOK_LITERAL_ARRAY then
        (if env_array e = 0 then Done None s
         else bc_materialize_literal_array_oop e (token_text literal) s)
      else bc_literal_token_to_oop e literal s)"

text \<open>Fill the literals from the index \<open>i\<close> on; the answer is the array, or 0.\<close>

fun fill_literals :: "(BToken \<Rightarrow> vm \<Rightarrow> u64 option outcome) \<Rightarrow> u64 \<Rightarrow> nat \<Rightarrow> BToken list \<Rightarrow> vm \<Rightarrow> u64 outcome" where
  "fill_literals oop_of array i [] s = Done array s"
| "fill_literals oop_of array i (literal # rest) s =
     and_then (oop_of literal s) (\<lambda>r s. case r of
       None \<Rightarrow> Done 0 s
     | Some oop \<Rightarrow> fill_literals oop_of array (Suc i) rest (store array (of_nat i) oop s))"

definition bc_build_block_literal_array ::
  "bc_env \<Rightarrow> block_rec \<Rightarrow> BCompiledBlock list \<Rightarrow> BCompiledBlock \<Rightarrow> vm \<Rightarrow> u64 outcome" where
  "bc_build_block_literal_array e rec root_table block s =
     (if literals block = [] then Done 0 s
      else unless_null (alloc (env_om e) (env_class e) BC_FORMAT_INDEXABLE (of_nat (length (literals block))) s)
        (\<lambda>array s. fill_literals (literal_oop e rec root_table False) array 0 (literals block) s))"

text \<open>The bytecodes of an empty body are one zero byte.\<close>

definition code_bytes :: "u8 list \<Rightarrow> u8 list" where
  "code_bytes code = (if code = [] then [0] else code)"

definition oop_or_nil :: "u64 \<Rightarrow> u64" where
  "oop_or_nil p = (if p = 0 then TAGGED_NIL else p)"

primrec bc_materialize_compiled_block :: "nat \<Rightarrow> bc_env \<Rightarrow> BCompiledBlock list \<Rightarrow> block_rec" where
  "bc_materialize_compiled_block 0 e root_table = (\<lambda>block s. No_result)"
| "bc_materialize_compiled_block (Suc n) e root_table = (\<lambda>block s.
     and_then (bc_build_block_literal_array e (bc_materialize_compiled_block n e root_table) root_table block s)
       (\<lambda>literal_array s.
          if literals block \<noteq> [] \<and> literal_array = 0 then Done 0 s
          else
            let code = code_bytes (bytecodes block)
            in unless_null (alloc (env_om e) (env_class e) BC_FORMAT_BYTES (of_nat (length code)) s) (\<lambda>bytes s.
                 let s = store_bytes bytes code s
                 in unless_null (alloc (env_om e) (env_class e) 0 6 s) (\<lambda>method s.
                      Done method (store_all method 0
                        [tag_smallint 0, tag_smallint (of_nat (arg_count block)),
                         tag_smallint (of_nat (temp_count block)), oop_or_nil literal_array, bytes,
                         TAGGED_NIL] s)))))"

text \<open>For a method the array of its literals is used without a test for \<^verbatim>\<open>NULL\<close>.\<close>

definition bc_build_literal_array :: "nat \<Rightarrow> bc_env \<Rightarrow> BCompiledBody \<Rightarrow> vm \<Rightarrow> u64 outcome" where
  "bc_build_literal_array fuel e code s =
     (if literals code = [] then Done 0 s
      else and_then
        (unchecked_alloc (env_om e) (env_class e) BC_FORMAT_INDEXABLE (of_nat (length (literals code))) s)
        (\<lambda>array s. fill_literals
           (literal_oop e (bc_materialize_compiled_block fuel e (blocks code)) (blocks code) True)
           array 0 (literals code) s))"

record BCompiledMethodDef =
  def_class_name :: string
  def_class_side :: bool
  def_header :: BMethodHeader
  primitive_index :: int
  def_body :: BCompiledBody
  def_source :: string

definition method_source_oop :: "bc_env \<Rightarrow> string \<Rightarrow> vm \<Rightarrow> u64 option outcome" where
  "method_source_oop e src s =
     (if src = '''' then Done (Some TAGGED_NIL) s
      else and_then (bc_make_byte_string (env_om e) (env_string e) src s)
             (\<lambda>oop s. Done (if oop = 0 then None else Some oop) s))"

definition bc_materialize_compiled_method :: "nat \<Rightarrow> bc_env \<Rightarrow> BCompiledMethodDef \<Rightarrow> vm \<Rightarrow> u64 outcome" where
  "bc_materialize_compiled_method fuel e method s =
     (let code = def_body method
      in and_then (bc_build_literal_array fuel e code s) (\<lambda>literal_array s.
           if literals code \<noteq> [] \<and> literal_array = 0 then Done 0 s
           else and_then (method_source_oop e (def_source method) s) (\<lambda>src s.
             case src of
               None \<Rightarrow> Done 0 s
             | Some src \<Rightarrow>
                 let bs = code_bytes (bytecodes code)
                 in and_then (unchecked_alloc (env_om e) (env_class e) BC_FORMAT_BYTES (of_nat (length bs)) s)
                      (\<lambda>bytes s. let s = store_bytes bytes bs s
                        in and_then (unchecked_alloc (env_om e) (env_class e) 0 6 s) (\<lambda>oop s.
                             Done oop (store_all oop 0
                               [tag_smallint (if primitive_index method \<ge> 0
                                              then word_of_int (primitive_index method) else 0),
                                tag_smallint (of_nat (length (arg_names (def_header method)))),
                                tag_smallint (of_nat (temp_count code)), oop_or_nil literal_array, bytes, src] s))))))"

section \<open>Method dictionaries\<close>

definition bc_append_method_dict :: "u64 \<Rightarrow> u64 \<Rightarrow> u64 \<Rightarrow> u64 \<Rightarrow> u64 \<Rightarrow> vm \<Rightarrow> u64 outcome" where
  "bc_append_method_dict om class_class klass selector_oop method_oop s =
     (let md_value = OBJ_FIELD (memory s) klass BC_CLASS_METHOD_DICT;
          has_old = md_value \<noteq> TAGGED_NIL \<and> md_value AND 3 = 0 \<and> md_value \<noteq> 0;
          old_size = (if has_old then OBJ_SIZE (memory s) md_value else 0)
      in and_then (unchecked_alloc om class_class BC_FORMAT_INDEXABLE (old_size + 2) s) (\<lambda>new_md s.
           let s = fold (\<lambda>i s. store new_md (of_nat i) (OBJ_FIELD (memory s) md_value (of_nat i)) s)
                     [0..<unat old_size] s;
               s = store new_md old_size selector_oop s;
               s = store new_md (old_size + 1) method_oop s
           in Done new_md (store klass BC_CLASS_METHOD_DICT new_md s)))"

definition bc_target_class_for_method :: "mem \<Rightarrow> u64 \<Rightarrow> bool \<Rightarrow> u64" where
  "bc_target_class_for_method m klass side =
     (if \<not> side then klass else if klass AND 3 \<noteq> 0 then 0 else OBJ_CLASS m klass)"

text \<open>The selector, the method and the entry in the dictionary; the answer 0 is a failure.\<close>

definition install_method :: "nat \<Rightarrow> bc_env \<Rightarrow> u64 \<Rightarrow> BCompiledMethodDef \<Rightarrow> vm \<Rightarrow> bool outcome" where
  "install_method fuel e target method s =
     (let (s, selector_oop) = intern_cstring_symbol (env_om e) (c_string (selector (def_header method))) s
      in if selector_oop = TAGGED_NIL then Done False s
         else and_then (bc_materialize_compiled_method fuel e method s) (\<lambda>compiled_oop s.
           if compiled_oop = 0 then Done False s
           else and_then (bc_append_method_dict (env_om e) (env_class e) target selector_oop compiled_oop s)
                  (\<lambda>new_md s. Done (new_md \<noteq> 0) s)))"

definition installer_env :: "u64 \<Rightarrow> u64 \<Rightarrow> BClassBinding list \<Rightarrow> vm \<Rightarrow> bc_env" where
  "installer_env om class_class classes s =
     \<lparr>env_om = om, env_bindings = classes, env_class = class_class,
      env_string = bc_lookup_class_named s classes ''String'',
      env_array = bc_lookup_class_named s classes ''Array'',
      env_association = bc_lookup_class_named s classes ''Association''\<rparr>"

fun install_all :: "nat \<Rightarrow> bc_env \<Rightarrow> BCompiledMethodDef list \<Rightarrow> vm \<Rightarrow> bool outcome" where
  "install_all fuel e [] s = Done True s"
| "install_all fuel e (method # rest) s =
     (let klass = bc_lookup_class_named s (env_bindings e) (def_class_name method);
          target = bc_target_class_for_method (memory s) klass (def_class_side method)
      in if klass = 0 \<or> target = 0 then Done False s
         else and_then (install_method fuel e target method s)
                (\<lambda>ok s. if \<not> ok then Done False s else install_all fuel e rest s))"

definition bc_install_compiled_methods ::
  "nat \<Rightarrow> u64 \<Rightarrow> u64 \<Rightarrow> BClassBinding list \<Rightarrow> BCompiledMethodDef list \<Rightarrow> vm \<Rightarrow> bool outcome" where
  "bc_install_compiled_methods fuel om class_class classes methods s =
     install_all fuel (installer_env om class_class classes s) methods s"

end
