(* ===== verification/Classes.thy ===== *)
theory Classes
  imports Install
begin

text \<open>
  Whole sources (\<^verbatim>\<open>src/c/bootstrap_compiler.c\<close>): the methods of a chunk file, compiled or compiled
  and installed, and class definitions. \<open>None\<close> as an outcome of compiling is the answer 0.
\<close>

section \<open>Chunks to methods\<close>

definition HEADER_SOURCE_SIZE :: nat where
  "HEADER_SOURCE_SIZE = 256"

definition newline :: char where
  "newline = CHR 0x0A"

text \<open>The header line and the rest of a method; \<open>None\<close> when the header has more than 255 characters.\<close>

definition split_method :: "string \<Rightarrow> (string \<times> string) option" where
  "split_method src =
     (let head = takeWhile (\<lambda>c. c \<noteq> newline) src
      in if length head \<ge> HEADER_SOURCE_SIZE then None
         else Some (head, dropWhile is_blank (drop (length head + 1) src)))"

text \<open>\<^verbatim>\<open>sscanf(body, "<primitive: %d>", &n) == 1\<close>; numbers that do not fit an \<^verbatim>\<open>int\<close> are not cut.\<close>

definition decimal_int :: "string \<Rightarrow> int option" where
  "decimal_int s =
     (let negative = (char_at s 0 = CHR ''-'');
          digits = takeWhile isdigit (if negative \<or> char_at s 0 = CHR ''+'' then drop 1 s else s);
          v = foldl (\<lambda>n c. n * 10 + (of_char c - 48)) 0 digits
      in if digits = [] then None else Some (if negative then - v else v))"

definition scan_primitive :: "string \<Rightarrow> int option" where
  "scan_primitive s =
     (if \<not> starts_with s ''<primitive:'' then None
      else decimal_int (dropWhile isspace (drop 11 s)))"

text \<open>
  The body of a method: its primitive, and its code. Behind a primitive the code may be missing; a
  pragma without its closing bracket leaves the body empty.
\<close>

definition compile_method_body ::
  "nat \<Rightarrow> mem \<Rightarrow> string \<Rightarrow> BMethodHeader \<Rightarrow> u64 \<Rightarrow> (int \<times> BCompiledBody) option attempt" where
  "compile_method_body fuel m src h target =
     (let code = (\<lambda>prim src. case bc_codegen_body fuel m src (Some h) target of
            Succeeds s \<Rightarrow> Succeeds (Some (prim, compiled_method s))
          | Fails s \<Rightarrow> Fails None
          | Overruns \<Rightarrow> Overruns
          | Runs_out \<Rightarrow> Runs_out)
      in case scan_primitive src of
           None \<Rightarrow> code (-1) src
         | Some prim \<Rightarrow>
             let rest = dropWhile (\<lambda>c. c \<noteq> CHR ''>'') src;
                 src' = dropWhile is_blank (drop 1 rest)
             in if rest = [] \<or> src' = [] then Succeeds (Some (prim, empty_compiled))
                else code prim src')"

definition compile_chunk :: "nat \<Rightarrow> mem \<Rightarrow> u64 \<Rightarrow> BMethodChunk \<Rightarrow> BCompiledMethodDef option attempt" where
  "compile_chunk fuel m target chunk =
     (case split_method (method_source chunk) of
        None \<Rightarrow> Fails None
      | Some (head, src) \<Rightarrow>
          (case bc_parse_method_header head of
             None \<Rightarrow> Fails None
           | Some h \<Rightarrow>
               (case compile_method_body fuel m src h target of
                  Succeeds (Some (prim, code)) \<Rightarrow>
                    Succeeds (Some \<lparr>def_class_name = name_in CLASS_NAME_SIZE (class_name chunk),
                      def_class_side = class_side chunk, def_header = h, primitive_index = prim,
                      def_body = code, def_source = name_in METHOD_SOURCE_SIZE (method_source chunk)\<rparr>)
                | Overruns \<Rightarrow> Overruns
                | Runs_out \<Rightarrow> Runs_out
                | _ \<Rightarrow> Fails None)))"

text \<open>Without target classes: \<open>methods\<close> are the methods compiled so far.\<close>

fun compile_chunks ::
  "nat \<Rightarrow> nat \<Rightarrow> BMethodChunk list \<Rightarrow> BCompiledMethodDef list \<Rightarrow> BCompiledMethodDef list attempt" where
  "compile_chunks fuel max_methods [] methods = Succeeds methods"
| "compile_chunks fuel max_methods (chunk # chunks) methods =
     (if length methods \<ge> max_methods then Fails methods
      else case compile_chunk fuel (\<lambda>_. 0) 0 chunk of
             Succeeds (Some method) \<Rightarrow> compile_chunks fuel max_methods chunks (methods @ [method])
           | Overruns \<Rightarrow> Overruns
           | Runs_out \<Rightarrow> Runs_out
           | _ \<Rightarrow> Fails methods)"

definition bc_compile_method_chunks ::
  "nat \<Rightarrow> BMethodChunk list \<Rightarrow> nat \<Rightarrow> BCompiledMethodDef list attempt" where
  "bc_compile_method_chunks fuel chunks max_methods = compile_chunks fuel max_methods chunks []"

definition MAX_CHUNKS :: nat where
  "MAX_CHUNKS = 128"

definition bc_compile_source_methods :: "nat \<Rightarrow> string \<Rightarrow> nat \<Rightarrow> BCompiledMethodDef list attempt" where
  "bc_compile_source_methods fuel src max_methods =
     (if max_methods = 0 \<or> max_methods > MAX_CHUNKS then Fails []
      else case bc_parse_method_chunks src max_methods of
             None \<Rightarrow> Fails []
           | Some chunks \<Rightarrow> bc_compile_method_chunks fuel chunks max_methods)"

section \<open>Compiling and installing\<close>

text \<open>
  One chunk after the other; what was installed before a failure stays. Code that overruns its
  arrays is a \<open>Trap\<close>.
\<close>

fun install_chunks :: "nat \<Rightarrow> bc_env \<Rightarrow> BMethodChunk list \<Rightarrow> vm \<Rightarrow> bool outcome" where
  "install_chunks fuel e [] s = Done True s"
| "install_chunks fuel e (chunk # chunks) s =
     (let klass = bc_lookup_class_named s (env_bindings e) (class_name chunk);
          target = bc_target_class_for_method (memory s) klass (class_side chunk)
      in if klass = 0 \<or> target = 0 then Done False s
         else case compile_chunk fuel (memory s) target chunk of
                Succeeds (Some method) \<Rightarrow>
                  and_then (install_method fuel e target method s)
                    (\<lambda>ok s. if \<not> ok then Done False s else install_chunks fuel e chunks s)
              | Overruns \<Rightarrow> Trap s
              | Runs_out \<Rightarrow> No_result
              | _ \<Rightarrow> Done False s)"

definition bc_compile_and_install_source_methods ::
  "nat \<Rightarrow> u64 \<Rightarrow> u64 \<Rightarrow> BClassBinding list \<Rightarrow> string \<Rightarrow> vm \<Rightarrow> bool outcome" where
  "bc_compile_and_install_source_methods fuel om class_class classes src s =
     (case bc_parse_method_chunks src MAX_CHUNKS of
        None \<Rightarrow> Done False s
      | Some chunks \<Rightarrow> install_chunks fuel (installer_env om class_class classes s) chunks s)"

section \<open>Class definitions\<close>

datatype BClassFormat = BC_CLASS_FORMAT_FIELDS | BC_CLASS_FORMAT_INDEXABLE | BC_CLASS_FORMAT_BYTES

fun format_number :: "BClassFormat \<Rightarrow> u64" where
  "format_number BC_CLASS_FORMAT_FIELDS = 0"
| "format_number BC_CLASS_FORMAT_INDEXABLE = 1"
| "format_number BC_CLASS_FORMAT_BYTES = 2"

fun fill_ivars :: "u64 \<Rightarrow> u64 \<Rightarrow> u64 \<Rightarrow> nat \<Rightarrow> string list \<Rightarrow> vm \<Rightarrow> u64 outcome" where
  "fill_ivars om string_class array i [] s = Done array s"
| "fill_ivars om string_class array i (name # names) s =
     unless_null (bc_make_byte_string om string_class name s)
       (\<lambda>oop s. fill_ivars om string_class array (Suc i) names (store array (of_nat i) oop s))"

definition ivar_array :: "u64 \<Rightarrow> u64 \<Rightarrow> u64 \<Rightarrow> string list \<Rightarrow> vm \<Rightarrow> u64 outcome" where
  "ivar_array om string_class array_class names s =
     (if names = [] then Done TAGGED_NIL s
      else unless_null (alloc om array_class BC_FORMAT_INDEXABLE (of_nat (length names)) s)
             (\<lambda>array s. fill_ivars om string_class array 0 names s))"

text \<open>The metaclass first, then the class, its instance variables, and its global.\<close>

definition bc_define_class ::
  "u64 \<Rightarrow> u64 \<Rightarrow> u64 \<Rightarrow> u64 \<Rightarrow> u64 \<Rightarrow> string \<Rightarrow> u64 \<Rightarrow> string list \<Rightarrow> BClassFormat \<Rightarrow> vm \<Rightarrow> u64 outcome" where
  "bc_define_class om class_class string_class array_class association_class name superclass ivars fmt s =
     unless_null (alloc om class_class 0 5 s) (\<lambda>metaclass s.
     let s = store_all metaclass 0
               [if superclass \<noteq> 0 then OBJ_CLASS (memory s) superclass else class_class,
                TAGGED_NIL, tag_smallint 0, tag_smallint 0, TAGGED_NIL] s
     in unless_null (alloc om metaclass 0 5 s) (\<lambda>klass s.
     let inherited = (if superclass \<noteq> 0
           then untag_smallint (OBJ_FIELD (memory s) superclass BC_CLASS_INST_SIZE) else 0);
         s = store_all klass 0
               [if superclass \<noteq> 0 then superclass else TAGGED_NIL, TAGGED_NIL,
                tag_smallint (inherited + of_nat (length ivars)), tag_smallint (format_number fmt)] s
     in unless_null (ivar_array om string_class array_class ivars s) (\<lambda>array s.
     let s = store klass BC_CLASS_INST_VARS array s
     in if smalltalk_dictionary s \<noteq> 0 \<and> array_class \<noteq> 0 \<and> association_class \<noteq> 0
        then and_then (bc_global_association_oop om array_class association_class name klass s)
               (\<lambda>r s. Done (if r = None then 0 else klass) s)
        else Done klass s)))"

text \<open>The names of a declaration, separated by blanks: at most 16 of at most 31 characters.\<close>

function bc_parse_instance_var_names :: "string \<Rightarrow> string list \<Rightarrow> string list option" where
  "bc_parse_instance_var_names src names =
     (let src = dropWhile is_blank src
      in if src = [] then Some names
         else if length names \<ge> 16 \<or> \<not> (isalpha (hd src) \<or> hd src = CHR ''_'') then None
         else
           let name = takeWhile is_word_char src; rest = dropWhile is_word_char src
           in if length name > 31 then None
              else if rest \<noteq> [] \<and> \<not> is_blank (hd rest) then None
              else bc_parse_instance_var_names rest (names @ [name]))"
  by auto

termination bc_parse_instance_var_names
  by (relation "measure (\<lambda>(_, names). 16 - length names)") auto

declare bc_parse_instance_var_names.simps [simp del]

record BClassDeclaration =
  superclass_name :: string
  decl_class_name :: string
  ivar_names :: "string list"
  decl_format :: BClassFormat

text \<open>The keywords behind the instance variables, each with a string or a symbol, up to a bang.\<close>

function rest_of_declaration :: "BTokenizer \<Rightarrow> bool" where
  "rest_of_declaration t =
     (let (token, t1) = bt_next t
      in if is_eof token \<or> is_special_text token ''!'' then True
         else if \<not> is_keyword token then False
         else
           let (ignored, t2) = bt_next t1
           in if token_type ignored \<noteq> BTOK_STRING \<and> token_type ignored \<noteq> BTOK_SYMBOL then False
              else rest_of_declaration t2)"
  by auto

termination rest_of_declaration
  by (relation "measure (\<lambda>t. length (source t) - index t)")
    (auto intro: less_trans [OF bt_next_less bt_next_less])

declare rest_of_declaration.simps [simp del]

definition declared_format :: "string \<Rightarrow> BClassFormat option" where
  "declared_format keyword =
     (if keyword = ''subclass:'' then Some BC_CLASS_FORMAT_FIELDS
      else if keyword = ''variableSubclass:'' then Some BC_CLASS_FORMAT_INDEXABLE
      else if keyword = ''variableByteSubclass:'' then Some BC_CLASS_FORMAT_BYTES
      else None)"

definition bc_parse_class_declaration :: "string \<Rightarrow> BClassDeclaration option" where
  "bc_parse_class_declaration src =
     (let (super, t) = bt_next (bt_init src);
          (subclass, t) = bt_next t;
          (name, t) = bt_next t;
          (ivar_keyword, t) = bt_next t;
          (ivar_string, t) = bt_next t
      in if \<not> is_identifier super \<or> \<not> is_keyword subclass \<or> token_type name \<noteq> BTOK_SYMBOL \<or>
            \<not> is_keyword ivar_keyword \<or> token_text ivar_keyword \<noteq> ''instanceVariableNames:'' \<or>
            token_type ivar_string \<noteq> BTOK_STRING then None
         else case declared_format (token_text subclass) of
           None \<Rightarrow> None
         | Some fmt \<Rightarrow>
             if \<not> rest_of_declaration t then None
             else map_option (\<lambda>names. \<lparr>superclass_name = name_in CLASS_NAME_SIZE (token_text super),
                      decl_class_name = name_in CLASS_NAME_SIZE (token_text name),
                      ivar_names = names, decl_format = fmt\<rparr>)
                    (bc_parse_instance_var_names (token_text ivar_string) []))"

definition bc_byte_object_equals_cstring :: "mem \<Rightarrow> u64 \<Rightarrow> string \<Rightarrow> bool" where
  "bc_byte_object_equals_cstring m oop txt \<longleftrightarrow>
     is_object_ptr oop \<and> OBJ_SIZE m oop = of_nat (length txt) \<and>
     bytes_of m (slot oop 3) (length txt) = c_string txt"

definition bc_class_matches_declaration :: "mem \<Rightarrow> u64 \<Rightarrow> u64 \<Rightarrow> BClassDeclaration \<Rightarrow> bool" where
  "bc_class_matches_declaration m klass superclass d \<longleftrightarrow>
     (let inherited = (if superclass \<noteq> 0 then untag_smallint (OBJ_FIELD m superclass BC_CLASS_INST_SIZE) else 0);
          ivars = OBJ_FIELD m klass BC_CLASS_INST_VARS; names = ivar_names d
      in OBJ_FIELD m klass BC_CLASS_SUPERCLASS = (if superclass \<noteq> 0 then superclass else TAGGED_NIL) \<and>
         untag_smallint (OBJ_FIELD m klass BC_CLASS_INST_SIZE) = inherited + of_nat (length names) \<and>
         untag_smallint (OBJ_FIELD m klass BC_CLASS_INST_FORMAT) = format_number (decl_format d) \<and>
         (if names = [] then ivars = TAGGED_NIL \<or> is_object_ptr ivars \<and> OBJ_SIZE m ivars = 0
          else is_object_ptr ivars \<and> OBJ_SIZE m ivars = of_nat (length names) \<and>
               list_all (\<lambda>i. bc_byte_object_equals_cstring m (OBJ_FIELD m ivars (of_nat i)) (names ! i))
                 [0..<length names]))"

text \<open>The superclass a declaration names: \<open>Some 0\<close> for nil, \<open>None\<close> when there is no such class.\<close>

definition declared_superclass :: "vm \<Rightarrow> BClassBinding list \<Rightarrow> BClassDeclaration \<Rightarrow> u64 option" where
  "declared_superclass s classes d =
     (if superclass_name d = ''nil'' then Some 0
      else
        let klass = bc_lookup_class_named s classes (superclass_name d)
        in if klass = 0 then None else Some klass)"

definition bc_define_class_from_source ::
  "u64 \<Rightarrow> u64 \<Rightarrow> u64 \<Rightarrow> u64 \<Rightarrow> u64 \<Rightarrow> BClassBinding list \<Rightarrow> string \<Rightarrow> vm \<Rightarrow> u64 outcome" where
  "bc_define_class_from_source om class_class string_class array_class association_class classes src s =
     (case bc_parse_class_declaration src of
        None \<Rightarrow> Done 0 s
      | Some d \<Rightarrow>
          (case declared_superclass s classes d of
             None \<Rightarrow> Done 0 s
           | Some superclass \<Rightarrow>
               bc_define_class om class_class string_class array_class association_class
                 (decl_class_name d) superclass (ivar_names d) (decl_format d) s))"

definition bc_attach_class_from_source :: "BClassBinding list \<Rightarrow> string \<Rightarrow> vm \<Rightarrow> u64" where
  "bc_attach_class_from_source classes src s =
     (case bc_parse_class_declaration src of
        None \<Rightarrow> 0
      | Some d \<Rightarrow>
          let klass = bc_lookup_class_named s classes (decl_class_name d)
          in if klass = 0 then 0
             else case declared_superclass s classes d of
                    None \<Rightarrow> 0
                  | Some superclass \<Rightarrow>
                      if bc_class_matches_declaration (memory s) klass superclass d then klass else 0)"

section \<open>Class files\<close>

definition methods_of :: "u64 \<Rightarrow> bool outcome \<Rightarrow> u64 outcome" where
  "methods_of klass p = and_then p (\<lambda>ok s. Done (if ok then klass else 0) s)"

definition bc_compile_and_install_class_source ::
  "nat \<Rightarrow> u64 \<Rightarrow> u64 \<Rightarrow> u64 \<Rightarrow> u64 \<Rightarrow> u64 \<Rightarrow> BClassBinding list \<Rightarrow> string \<Rightarrow> vm \<Rightarrow> u64 outcome" where
  "bc_compile_and_install_class_source fuel om class_class string_class array_class association_class classes src s =
     unless_null
       (bc_define_class_from_source om class_class string_class array_class association_class classes src s)
       (\<lambda>klass s. methods_of klass (bc_compile_and_install_source_methods fuel om class_class classes src s))"

definition bc_compile_and_install_existing_class_source ::
  "nat \<Rightarrow> u64 \<Rightarrow> u64 \<Rightarrow> BClassBinding list \<Rightarrow> string \<Rightarrow> vm \<Rightarrow> u64 outcome" where
  "bc_compile_and_install_existing_class_source fuel om class_class classes src s =
     (let klass = bc_attach_class_from_source classes src s
      in if klass = 0 then Done 0 s
         else methods_of klass (bc_compile_and_install_source_methods fuel om class_class classes src s))"

text \<open>The file as a C string: at most 32766 bytes, up to the first zero byte.\<close>

definition SOURCE_FILE_SIZE :: nat where
  "SOURCE_FILE_SIZE = 32768"

definition source_file :: "vm \<Rightarrow> u8 list \<Rightarrow> string option" where
  "source_file s path =
     (case files s path of
        None \<Rightarrow> None
      | Some bytes \<Rightarrow>
          if length bytes \<ge> SOURCE_FILE_SIZE - 1 then None
          else Some (map (\<lambda>b. char_of (unat b)) (until_nul bytes)))"

definition bc_compile_and_install_class_file ::
  "nat \<Rightarrow> u64 \<Rightarrow> u64 \<Rightarrow> u64 \<Rightarrow> u64 \<Rightarrow> u64 \<Rightarrow> BClassBinding list \<Rightarrow> u8 list \<Rightarrow> vm \<Rightarrow> u64 outcome" where
  "bc_compile_and_install_class_file fuel om class_class string_class array_class association_class classes path s =
     (case source_file s path of
        None \<Rightarrow> Done 0 s
      | Some src \<Rightarrow> bc_compile_and_install_class_source fuel om class_class string_class array_class
                      association_class classes src s)"

definition bc_compile_and_install_existing_class_file ::
  "nat \<Rightarrow> u64 \<Rightarrow> u64 \<Rightarrow> BClassBinding list \<Rightarrow> u8 list \<Rightarrow> vm \<Rightarrow> u64 outcome" where
  "bc_compile_and_install_existing_class_file fuel om class_class classes path s =
     (case source_file s path of
        None \<Rightarrow> Done 0 s
      | Some src \<Rightarrow> bc_compile_and_install_existing_class_source fuel om class_class classes src s)"

text \<open>
  The lines before the first bang: each that is not empty and does not start with a double quote
  declares a class. The answer is the number of classes, \<open>None\<close> after a failure.
\<close>

definition is_line_end :: "char \<Rightarrow> bool" where
  "is_line_end c \<longleftrightarrow> c = CHR 0x0A \<or> c = CHR 0x0D"

function define_lines ::
  "u64 \<Rightarrow> u64 \<Rightarrow> u64 \<Rightarrow> u64 \<Rightarrow> u64 \<Rightarrow> BClassBinding list \<Rightarrow> string \<Rightarrow> nat \<Rightarrow> vm \<Rightarrow> nat option outcome" where
  "define_lines om class_class string_class array_class association_class classes src n s =
     (if src = [] then Done (Some n) s
      else
        let line = skip_spaces (takeWhile (\<lambda>c. \<not> is_line_end c) src);
            rest = dropWhile is_line_end (dropWhile (\<lambda>c. \<not> is_line_end c) src)
        in if char_at line 0 = bang then Done (Some n) s
           else if line = [] \<or> hd line = CHR 0x22 then
             define_lines om class_class string_class array_class association_class classes rest n s
           else if length line \<ge> TOKEN_TEXT_SIZE then Done None s
           else and_then
             (bc_define_class_from_source om class_class string_class array_class association_class
                classes line s)
             (\<lambda>klass s. if klass = 0 then Done None s
                else define_lines om class_class string_class array_class association_class classes
                       rest (n + 1) s))"
  by pat_completeness auto

lemma next_line_shorter:
  assumes "src \<noteq> []"
  shows "length (dropWhile is_line_end (dropWhile (\<lambda>c. \<not> is_line_end c) src)) < length src"
proof (cases "is_line_end (hd src)")
  case True
  then have "length (dropWhile is_line_end src) < length src"
    using assms by (cases src) (auto simp: less_Suc_eq_le length_dropWhile_le)
  then show ?thesis using True assms by (cases src) auto
next
  case False
  then have "length (dropWhile (\<lambda>c. \<not> is_line_end c) src) < length src"
    using assms by (cases src) (auto simp: less_Suc_eq_le length_dropWhile_le)
  then show ?thesis using length_dropWhile_le le_less_trans by blast
qed

termination define_lines
  by (relation "measure (\<lambda>(_, _, _, _, _, _, src, _). length src)") (auto simp: next_line_shorter)

declare define_lines.simps [simp del]

definition bc_compile_and_install_classes_source ::
  "nat \<Rightarrow> u64 \<Rightarrow> u64 \<Rightarrow> u64 \<Rightarrow> u64 \<Rightarrow> u64 \<Rightarrow> BClassBinding list \<Rightarrow> string \<Rightarrow> vm \<Rightarrow> bool outcome" where
  "bc_compile_and_install_classes_source fuel om class_class string_class array_class association_class classes src s =
     and_then (define_lines om class_class string_class array_class association_class classes src 0 s)
       (\<lambda>r s. if r = None \<or> r = Some 0 then Done False s
          else bc_compile_and_install_source_methods fuel om class_class classes src s)"

definition bc_compile_and_install_classes_file ::
  "nat \<Rightarrow> u64 \<Rightarrow> u64 \<Rightarrow> u64 \<Rightarrow> u64 \<Rightarrow> u64 \<Rightarrow> BClassBinding list \<Rightarrow> u8 list \<Rightarrow> vm \<Rightarrow> bool outcome" where
  "bc_compile_and_install_classes_file fuel om class_class string_class array_class association_class classes path s =
     (case source_file s path of
        None \<Rightarrow> Done False s
      | Some src \<Rightarrow> bc_compile_and_install_classes_source fuel om class_class string_class array_class
                      association_class classes src s)"

end
