(* ===== verification/Tool_Support.thy ===== *)
theory Tool_Support
  imports Classes Lsp
begin

text \<open>
  How the tools fill a fresh world with the Smalltalk sources: \<^verbatim>\<open>src/c/smalltalk_tool_support.c\<close>, the
  functions of \<^verbatim>\<open>tests/smalltalk_world.c\<close> it installs files with, and the start of the language
  server. The world itself, as \<^verbatim>\<open>smalltalk_world_init\<close> builds it, is an argument.
\<close>

section \<open>Worlds\<close>

record SmalltalkWorld =
  sw_om :: u64
  sw_class_class :: u64
  sw_smallint_class :: u64
  sw_block_class :: u64
  sw_undefined_class :: u64
  sw_string_class :: u64
  sw_symbol_class :: u64
  sw_character_class :: u64
  sw_array_class :: u64
  sw_association_class :: u64
  sw_context_class :: u64
  sw_symbol_table :: u64
  sw_smalltalk_dict :: u64
  sw_class_table :: u64

record TestContext =
  ctx_om :: u64
  ctx_class_class :: u64
  ctx_smallint_class :: u64
  ctx_block_class :: u64
  ctx_undefined_object_class :: u64
  ctx_character_class :: u64
  ctx_string_class :: u64
  ctx_symbol_class :: u64
  ctx_context_class :: u64
  ctx_symbol_table :: u64
  ctx_test_class :: u64
  ctx_receiver :: u64
  ctx_method :: u64
  ctx_class_table :: u64
  ctx_passes :: nat
  ctx_failures :: nat

definition lo_init_context :: "SmalltalkWorld \<Rightarrow> TestContext" where
  "lo_init_context world =
     \<lparr>ctx_om = sw_om world, ctx_class_class = sw_class_class world,
      ctx_smallint_class = sw_smallint_class world, ctx_block_class = sw_block_class world,
      ctx_undefined_object_class = sw_undefined_class world, ctx_character_class = sw_character_class world,
      ctx_string_class = sw_string_class world, ctx_symbol_class = sw_symbol_class world,
      ctx_context_class = sw_context_class world, ctx_symbol_table = sw_symbol_table world,
      ctx_test_class = 0, ctx_receiver = 0, ctx_method = 0, ctx_class_table = sw_class_table world,
      ctx_passes = 0, ctx_failures = 0\<rparr>"

text \<open>The first 128 associations of the dictionary that name an object, as class bindings.\<close>

definition sw_collect_class_bindings :: "SmalltalkWorld \<Rightarrow> nat \<Rightarrow> vm \<Rightarrow> BClassBinding list" where
  "sw_collect_class_bindings world max_bindings s =
     (let m = memory s;
          associations = OBJ_FIELD m (sw_smalltalk_dict world) 0;
          tally = OBJ_FIELD m (sw_smalltalk_dict world) 1;
          binding = (\<lambda>i. let assoc = OBJ_FIELD m associations (of_nat i)
                         in if \<not> is_object_ptr assoc \<or> \<not> is_object_ptr (OBJ_FIELD m assoc 1) then None
                            else map_option (\<lambda>name. \<lparr>binding_name = Some name, binding_class = OBJ_FIELD m assoc 1\<rparr>)
                                   (copy_bytes_to_cstring m (OBJ_FIELD m assoc 0) 64))
      in if \<not> is_object_ptr associations \<or> \<not> is_smallint tally then []
         else take max_bindings (List.map_filter binding [0..<unat (untag_smallint tally)]))"

text \<open>A file of methods only is cut to 32767 bytes.\<close>

definition smalltalk_world_install_st_file ::
  "nat \<Rightarrow> SmalltalkWorld \<Rightarrow> string \<Rightarrow> vm \<Rightarrow> bool outcome" where
  "smalltalk_world_install_st_file fuel world path s =
     (case files s (c_string path) of
        None \<Rightarrow> Done False s
      | Some bytes \<Rightarrow>
          bc_compile_and_install_source_methods fuel (sw_om world) (sw_class_class world)
            (sw_collect_class_bindings world 128 s)
            (chars_of (until_nul (take (SOURCE_FILE_SIZE - 1) bytes))) s)"

definition smalltalk_world_install_class_file ::
  "nat \<Rightarrow> SmalltalkWorld \<Rightarrow> string \<Rightarrow> vm \<Rightarrow> u64 outcome" where
  "smalltalk_world_install_class_file fuel world path s =
     bc_compile_and_install_class_file fuel (sw_om world) (sw_class_class world) (sw_string_class world)
       (sw_array_class world) (sw_association_class world) (sw_collect_class_bindings world 128 s)
       (c_string path) s"

definition smalltalk_world_install_existing_class_file ::
  "nat \<Rightarrow> SmalltalkWorld \<Rightarrow> string \<Rightarrow> vm \<Rightarrow> u64 outcome" where
  "smalltalk_world_install_existing_class_file fuel world path s =
     bc_compile_and_install_existing_class_file fuel (sw_om world) (sw_class_class world)
       (sw_collect_class_bindings world 128 s) (c_string path) s"

section \<open>Installing the sources\<close>

datatype LoRuntimeSourceInstallMode =
    LO_RUNTIME_SOURCE_METHODS_ONLY
  | LO_RUNTIME_SOURCE_EXISTING_CLASS
  | LO_RUNTIME_SOURCE_NEW_CLASS

definition installed_class :: "u64 outcome \<Rightarrow> bool outcome" where
  "installed_class p = and_then p (\<lambda>klass s. Done (klass \<noteq> 0) s)"

definition install_source ::
  "nat \<Rightarrow> SmalltalkWorld \<Rightarrow> string \<times> LoRuntimeSourceInstallMode \<Rightarrow> vm \<Rightarrow> bool outcome" where
  "install_source fuel world file s =
     (case file of (path, mode) \<Rightarrow>
        (case mode of
           LO_RUNTIME_SOURCE_NEW_CLASS \<Rightarrow> installed_class (smalltalk_world_install_class_file fuel world path s)
         | LO_RUNTIME_SOURCE_EXISTING_CLASS \<Rightarrow>
             installed_class (smalltalk_world_install_existing_class_file fuel world path s)
         | LO_RUNTIME_SOURCE_METHODS_ONLY \<Rightarrow> smalltalk_world_install_st_file fuel world path s))"

fun lo_install_runtime_sources ::
  "nat \<Rightarrow> SmalltalkWorld \<Rightarrow> (string \<times> LoRuntimeSourceInstallMode) list \<Rightarrow> vm \<Rightarrow> bool outcome" where
  "lo_install_runtime_sources fuel world [] s = Done True s"
| "lo_install_runtime_sources fuel world (file # rest) s =
     and_then (install_source fuel world file s)
       (\<lambda>installed s. if installed then lo_install_runtime_sources fuel world rest s else Done False s)"

fun install_class_files :: "nat \<Rightarrow> SmalltalkWorld \<Rightarrow> string list \<Rightarrow> vm \<Rightarrow> bool outcome" where
  "install_class_files fuel world [] s = Done True s"
| "install_class_files fuel world (path # paths) s =
     and_then (installed_class (smalltalk_world_install_class_file fuel world path s))
       (\<lambda>installed s. if installed then install_class_files fuel world paths s else Done False s)"

text \<open>The file of the syntax tree classes is compiled without class bindings.\<close>

definition lo_install_smalltalk_compiler_sources :: "nat \<Rightarrow> SmalltalkWorld \<Rightarrow> vm \<Rightarrow> bool outcome" where
  "lo_install_smalltalk_compiler_sources fuel world s =
     and_then (install_class_files fuel world
         [''src/smalltalk/Token.st'', ''src/smalltalk/ReadStream.st'', ''src/smalltalk/Tokenizer.st''] s)
       (\<lambda>installed s.
          if \<not> installed then Done False s
          else
            and_then (bc_compile_and_install_classes_file fuel (sw_om world) (sw_class_class world)
                (sw_string_class world) (sw_array_class world) (sw_association_class world) []
                (c_string ''src/smalltalk/ASTNodes.st'') s)
              (\<lambda>installed s.
                 if \<not> installed then Done False s
                 else install_class_files fuel world
                        [''src/smalltalk/Parser.st'', ''src/smalltalk/CodeGenerator.st'', ''src/smalltalk/Compiler.st''] s))"

section \<open>The start of the language server\<close>

definition runtime_sources :: "(string \<times> LoRuntimeSourceInstallMode) list" where
  "runtime_sources =
     [(''src/smalltalk/Object.st'', LO_RUNTIME_SOURCE_EXISTING_CLASS),
      (''src/smalltalk/Class.st'', LO_RUNTIME_SOURCE_METHODS_ONLY),
      (''src/smalltalk/SmallInteger.st'', LO_RUNTIME_SOURCE_EXISTING_CLASS),
      (''src/smalltalk/True.st'', LO_RUNTIME_SOURCE_EXISTING_CLASS),
      (''src/smalltalk/False.st'', LO_RUNTIME_SOURCE_EXISTING_CLASS),
      (''src/smalltalk/UndefinedObject.st'', LO_RUNTIME_SOURCE_EXISTING_CLASS),
      (''src/smalltalk/Character.st'', LO_RUNTIME_SOURCE_METHODS_ONLY),
      (''src/smalltalk/BlockClosure.st'', LO_RUNTIME_SOURCE_METHODS_ONLY),
      (''src/smalltalk/Array.st'', LO_RUNTIME_SOURCE_EXISTING_CLASS),
      (''src/smalltalk/String.st'', LO_RUNTIME_SOURCE_EXISTING_CLASS),
      (''src/smalltalk/Symbol.st'', LO_RUNTIME_SOURCE_METHODS_ONLY),
      (''src/smalltalk/Association.st'', LO_RUNTIME_SOURCE_METHODS_ONLY),
      (''src/smalltalk/Dictionary.st'', LO_RUNTIME_SOURCE_METHODS_ONLY),
      (''src/smalltalk/Context.st'', LO_RUNTIME_SOURCE_METHODS_ONLY),
      (''src/smalltalk/Stdio.st'', LO_RUNTIME_SOURCE_NEW_CLASS)]"

definition fresh_server :: "SmalltalkWorld \<Rightarrow> (nat \<Rightarrow> disk_answer) \<Rightarrow> vm \<Rightarrow> lsp_server" where
  "fresh_server world answers s =
     \<lparr>world_vm = s, world_om = sw_om world, world_smalltalk_dict = sw_smalltalk_dict world,
      open_documents = [], materialized = [], shutdown_requested = False,
      disk_answers = answers, disk_calls = 0\<rparr>"

definition boot_live_image :: "nat \<Rightarrow> SmalltalkWorld \<Rightarrow> vm \<Rightarrow> bool outcome" where
  "boot_live_image fuel world s =
     and_then (lo_install_runtime_sources fuel world runtime_sources s)
       (\<lambda>installed s. if installed then lo_install_smalltalk_compiler_sources fuel world s else Done False s)"

text \<open>
  \<^verbatim>\<open>main\<close> of the server on a byte stream: what it has written when it ends; \<open>None\<close> when the image does
  not boot.
\<close>

definition lsp_main ::
  "nat \<Rightarrow> SmalltalkWorld \<Rightarrow> (nat \<Rightarrow> disk_answer) \<Rightarrow> vm \<Rightarrow> string \<Rightarrow> (string \<times> lsp_server) result option" where
  "lsp_main fuel world answers s input =
     (case boot_live_image fuel world s of
        Done True s \<Rightarrow> Some (serve (fresh_server world answers s) input [])
      | _ \<Rightarrow> None)"

end
