(* ===== verification/Contexts.thy ===== *)
theory Contexts
  imports Machine
begin

text \<open>
  Context objects: \<^verbatim>\<open>ensure_frame_context_with_sp\<close> of \<^verbatim>\<open>src/c/primitives.c\<close> copies a stack frame and
  the frames that called it into context objects, and \<^verbatim>\<open>resume_sender_context\<close> of
  \<^verbatim>\<open>src/c_vm/interpret.c\<close> continues in one. The recursion over the callers need not end on a
  malformed stack, so it is a partial function: \<open>None\<close> is a run that never returns.
\<close>

section \<open>Frames of interpret.c\<close>

definition BLOCK_HOME_CONTEXT :: u64 where [simp]: "BLOCK_HOME_CONTEXT = 0"
definition BLOCK_HOME_RECEIVER :: u64 where [simp]: "BLOCK_HOME_RECEIVER = 1"
definition BLOCK_CM :: u64 where [simp]: "BLOCK_CM = 2"
definition BLOCK_COPIED_BASE :: u64 where [simp]: "BLOCK_COPIED_BASE = 3"
definition FP_SENTINEL :: u64 where [simp]: "FP_SENTINEL = 0xCAFE"

definition frame_num_args_local :: "mem \<Rightarrow> u64 \<Rightarrow> u64" where
  "frame_num_args_local m fp = drop_bit FRAME_FLAGS_NUM_ARGS_SHIFT (m (slot fp FRAME_FLAGS)) AND 255"

definition frame_arg_local :: "mem \<Rightarrow> u64 \<Rightarrow> u64 \<Rightarrow> u64" where
  "frame_arg_local m fp index =
     (let num_args = frame_num_args_local m fp
      in m (slot fp (uint (FP_ARG_BASE_WORDS + (num_args - 1 - index)))))"

definition frame_has_block_closure :: "mem \<Rightarrow> u64 \<Rightarrow> bool" where
  "frame_has_block_closure m fp \<longleftrightarrow> m (slot fp FRAME_FLAGS) AND FRAME_FLAGS_BLOCK_CLOSURE_MASK \<noteq> 0"

definition frame_has_context_local :: "mem \<Rightarrow> u64 \<Rightarrow> bool" where
  "frame_has_context_local m fp \<longleftrightarrow> m (slot fp FRAME_FLAGS) AND FRAME_FLAGS_HAS_CONTEXT_MASK \<noteq> 0"

definition block_copied_count :: "mem \<Rightarrow> u64 \<Rightarrow> u64" where
  "block_copied_count m block = OBJ_SIZE m block - BLOCK_COPIED_BASE"

definition block_closure_for_frame :: "mem \<Rightarrow> u64 \<Rightarrow> u64" where
  "block_closure_for_frame m fp =
     (if frame_has_context_local m fp
      then OBJ_FIELD m (m (slot fp FRAME_CONTEXT)) CONTEXT_CLOSURE
      else if frame_has_block_closure m fp then m (slot fp FRAME_CONTEXT)
      else TAGGED_NIL)"

definition block_home_context_for_frame :: "mem \<Rightarrow> u64 \<Rightarrow> u64" where
  "block_home_context_for_frame m fp =
     (if frame_has_context_local m fp
      then OBJ_FIELD m (m (slot fp FRAME_CONTEXT)) CONTEXT_HOME
      else if frame_has_block_closure m fp
      then OBJ_FIELD m (m (slot fp FRAME_CONTEXT)) BLOCK_HOME_CONTEXT
      else TAGGED_NIL)"

definition mark_block_frame :: "mem \<Rightarrow> u64 \<Rightarrow> u64 \<Rightarrow> mem" where
  "mark_block_frame m fp block =
     (m(slot fp FRAME_FLAGS := m (slot fp FRAME_FLAGS) OR
          (push_bit FRAME_FLAGS_IS_BLOCK_SHIFT 1 OR FRAME_FLAGS_BLOCK_CLOSURE_MASK)))
       (slot fp FRAME_CONTEXT := block)"

definition populate_block_copied_values :: "mem \<Rightarrow> u64 \<Rightarrow> u64 \<Rightarrow> u64 \<Rightarrow> mem" where
  "populate_block_copied_values m fp block copied_count =
     fold (\<lambda>index m. m(temp_slot fp (of_nat index) := OBJ_FIELD m block (BLOCK_COPIED_BASE + of_nat index)))
       [0..<unat copied_count] m"

section \<open>Making a context\<close>

definition context_ip_for_frame :: "mem \<Rightarrow> u64 \<Rightarrow> u64" where
  "context_ip_for_frame m fp =
     (let saved_ip = m (slot fp FRAME_SAVED_IP); method = m (slot fp FRAME_METHOD)
      in if method = 0 \<or> \<not> is_object_ptr method then TAGGED_NIL
         else
           let bytecodes_oop = OBJ_FIELD m method CM_BYTECODES
           in if \<not> is_object_ptr bytecodes_oop then TAGGED_NIL
              else
                let base = field_addr bytecodes_oop 0; code_size = OBJ_SIZE m bytecodes_oop
                in if saved_ip < base \<or> saved_ip > base + code_size then TAGGED_NIL
                   else tag_smallint (saved_ip - base))"

text \<open>
  What the frame contributes: its arguments, temporaries and operands. The pointer difference is
  counted in words.
\<close>

definition frame_num_temps :: "mem \<Rightarrow> u64 \<Rightarrow> u64" where
  "frame_num_temps m fp =
     (let method = m (slot fp FRAME_METHOD)
      in if is_object_ptr method \<and> is_smallint (OBJ_FIELD m method CM_NUM_TEMPS)
         then untag_smallint (OBJ_FIELD m method CM_NUM_TEMPS) else 0)"

definition frame_base_sp :: "mem \<Rightarrow> u64 \<Rightarrow> u64" where
  "frame_base_sp m fp =
     (let num_temps = frame_num_temps m fp
      in if num_temps = 0 then slot fp FRAME_RECEIVER
         else slot fp (- uint (FP_TEMP_BASE_WORDS + (num_temps - 1))))"

definition frame_effective_sp :: "mem \<Rightarrow> u64 \<Rightarrow> u64 \<Rightarrow> u64" where
  "frame_effective_sp m fp sp =
     (let base_sp = frame_base_sp m fp in if sp = 0 \<or> sp > base_sp then base_sp else sp)"

definition frame_stack_depth :: "mem \<Rightarrow> u64 \<Rightarrow> u64 \<Rightarrow> u64" where
  "frame_stack_depth m fp sp = signed_drop_bit 3 (frame_base_sp m fp - frame_effective_sp m fp sp)"

definition frame_closure_oop :: "mem \<Rightarrow> u64 \<Rightarrow> u64" where
  "frame_closure_oop m fp =
     (if m (slot fp FRAME_FLAGS) AND FRAME_FLAGS_BLOCK_CLOSURE_MASK \<noteq> 0
      then m (slot fp FRAME_CONTEXT) else 0)"

text \<open>The stores into the new context, and into the frame.\<close>

definition fill_context :: "mem \<Rightarrow> u64 \<Rightarrow> u64 \<Rightarrow> u64 \<Rightarrow> u64 \<Rightarrow> u64 \<Rightarrow> u64 \<Rightarrow> u64 \<Rightarrow> u64 \<Rightarrow> u64 \<Rightarrow> mem" where
  "fill_context m context fp sender method closure_oop num_args num_temps stack_depth effective_sp =
     (let m = set_field m context CONTEXT_SENDER (if sender = 0 then TAGGED_NIL else sender);
          m = set_field m context CONTEXT_IP (context_ip_for_frame m fp);
          m = set_field m context CONTEXT_METHOD method;
          m = set_field m context CONTEXT_RECEIVER (m (slot fp FRAME_RECEIVER));
          m = set_field m context CONTEXT_HOME
                (if closure_oop = 0 then TAGGED_NIL else OBJ_FIELD m closure_oop BLOCK_HOME_CONTEXT);
          m = set_field m context CONTEXT_CLOSURE (if closure_oop = 0 then TAGGED_NIL else closure_oop);
          m = set_field m context CONTEXT_FLAGS (tag_smallint (m (slot fp FRAME_FLAGS)));
          m = set_field m context CONTEXT_NUM_ARGS (tag_smallint num_args);
          m = set_field m context CONTEXT_NUM_TEMPS (tag_smallint num_temps);
          m = set_field m context CONTEXT_STACK_SIZE (tag_smallint stack_depth);
          m = fold (\<lambda>i m. set_field m context (CONTEXT_VAR_BASE + of_nat i) (frame_arg m fp (of_nat i)))
                [0..<unat num_args] m;
          m = fold (\<lambda>i m. set_field m context (CONTEXT_VAR_BASE + num_args + of_nat i)
                            (frame_temp m fp (of_nat i)))
                [0..<unat num_temps] m;
          m = fold (\<lambda>i m. set_field m context (CONTEXT_VAR_BASE + num_args + num_temps + of_nat i)
                            (m (slot effective_sp (int i))))
                [0..<unat stack_depth] m;
          m = m(slot fp FRAME_CONTEXT := context);
          m = m(slot fp FRAME_FLAGS := m (slot fp FRAME_FLAGS) AND NOT FRAME_FLAGS_BLOCK_CLOSURE_MASK)
      in m(slot fp FRAME_FLAGS := m (slot fp FRAME_FLAGS) OR FRAME_FLAGS_HAS_CONTEXT_MASK))"

text \<open>
  \<^verbatim>\<open>ensure_frame_context(fp, ...)\<close> is the call with a null stack pointer. The result 0 is the null
  pointer: a null or sentinel frame, or no room.
\<close>

partial_function (option) ensure_frame_context_with_sp ::
  "vm \<Rightarrow> u64 \<Rightarrow> u64 \<Rightarrow> u64 \<Rightarrow> u64 \<Rightarrow> (vm \<times> u64) option" where
  "ensure_frame_context_with_sp s fp sp om klass =
     (if fp = 0 \<or> fp = FP_SENTINEL then Some (s, 0)
      else if memory s (slot fp FRAME_FLAGS) AND FRAME_FLAGS_HAS_CONTEXT_MASK \<noteq> 0
      then Some (s, memory s (slot fp FRAME_CONTEXT))
      else
        let m = memory s;
            closure_oop = frame_closure_oop m fp;
            num_args = drop_bit 8 (m (slot fp FRAME_FLAGS)) AND 255;
            method = m (slot fp FRAME_METHOD);
            num_temps = frame_num_temps m fp;
            effective_sp = frame_effective_sp m fp sp;
            stack_depth = frame_stack_depth m fp sp;
            field_count = CONTEXT_VAR_BASE + num_args + num_temps + stack_depth
        in case om_alloc s om klass FORMAT_FIELDS field_count of (s, context) \<Rightarrow>
             if context = 0 then Some (s, 0)
             else do {
               (s, sender) \<leftarrow> ensure_frame_context_with_sp s (memory s (slot fp FRAME_SAVED_FP)) 0 om klass;
               Some (s\<lparr>memory := fill_context (memory s) context fp sender method closure_oop
                                   num_args num_temps stack_depth effective_sp\<rparr>, context)
             })"

definition ensure_frame_context :: "vm \<Rightarrow> u64 \<Rightarrow> u64 \<Rightarrow> u64 \<Rightarrow> (vm \<times> u64) option" where
  "ensure_frame_context s fp om klass = ensure_frame_context_with_sp s fp 0 om klass"

definition ensure_frame_context_global :: "vm \<Rightarrow> u64 \<Rightarrow> u64 \<Rightarrow> (vm \<times> u64) option" where
  "ensure_frame_context_global s fp om =
     (if context_class s = 0 then Some (s, 0) else ensure_frame_context s fp om (context_class s))"

text \<open>As an outcome.\<close>

definition with_context :: "(vm \<times> u64) option \<Rightarrow> u64 outcome" where
  "with_context r = (case r of None \<Rightarrow> No_result | Some (s, context) \<Rightarrow> Done context s)"

section \<open>Continuing in a context\<close>

definition resume_sender_context :: "u64 \<Rightarrow> u64 \<Rightarrow> vm \<Rightarrow> bool outcome" where
  "resume_sender_context return_value sender_context s =
     (if \<not> is_object_ptr sender_context then Done False s
      else case activate_context (memory s) (stack_limit_low s) (vm_sp s) 0 0 sender_context of
        None \<Rightarrow> Trap s
      | Some (m, sp, fp) \<Rightarrow>
          let (m, sp) = push (m, sp) return_value;
              s = s\<lparr>memory := m, vm_sp := sp, vm_fp := fp,
                     vm_ip := OBJ_FIELD m sender_context CONTEXT_IP\<rparr>;
              method = OBJ_FIELD m sender_context CONTEXT_METHOD
          in if \<not> is_object_ptr method then Trap s
             else
               let bytecodes = OBJ_FIELD m method CM_BYTECODES
               in if \<not> is_object_ptr bytecodes then Trap s
                  else Done True (s\<lparr>vm_base := field_addr bytecodes 0\<rparr>))"

end
