(* ===== verification/Collector.thy ===== *)
theory Collector
  imports Contexts
begin

text \<open>
  The copying collector: \<^verbatim>\<open>gc_copy_object\<close>, \<^verbatim>\<open>gc_collect\<close> and \<^verbatim>\<open>gc_collect_stack_slots\<close> of
  \<^verbatim>\<open>src/arm/gc.s\<close>, and \<^verbatim>\<open>collect_and_retry_allocation\<close> of \<^verbatim>\<open>src/c_vm/interpret.c\<close>, which gathers the
  roots, collects, writes the moved roots back and swaps the semispaces. A collection that fills
  to-space stops at \<^verbatim>\<open>brk\<close> (an inner \<open>None\<close>); one that never ends is an outer \<open>None\<close>. The slot and
  root arrays come from \<^verbatim>\<open>malloc\<close>, which is taken to succeed, so they are lists.
\<close>

section \<open>Copying\<close>

definition GC_FORWARD_TAG :: u64 where [simp]: "GC_FORWARD_TAG = 1"

definition gc_object_words :: "mem \<Rightarrow> u64 \<Rightarrow> u64" where
  "gc_object_words m obj =
     (let sz = m (slot obj 2)
      in if m (slot obj 1) = FORMAT_BYTES then drop_bit 3 (sz + 7) + OBJ_HEADER_WORDS
         else sz + OBJ_HEADER_WORDS)"

definition gc_is_forwarded :: "mem \<Rightarrow> u64 \<Rightarrow> u64" where
  "gc_is_forwarded m obj = m obj AND 1"

definition gc_forwarding_ptr :: "mem \<Rightarrow> u64 \<Rightarrow> u64" where
  "gc_forwarding_ptr m obj = m obj AND NOT 1"

text \<open>The copy loop goes word by word.\<close>

definition copy_words :: "mem \<Rightarrow> u64 \<Rightarrow> u64 \<Rightarrow> nat \<Rightarrow> mem" where
  "copy_words m src dst n = fold (\<lambda>i m. m(slot dst (int i) := m (slot src (int i)))) [0..<n] m"

definition gc_copy_object :: "mem \<Rightarrow> u64 \<Rightarrow> u64 \<Rightarrow> (mem \<times> u64) option" where
  "gc_copy_object m obj to_space =
     (if m obj AND 1 \<noteq> 0 then Some (m, m obj AND NOT 1)
      else
        let total_words = gc_object_words m obj;
            new_obj = m to_space;
            new_end = slot new_obj (uint total_words)
        in if new_end > m (slot to_space 1) then None
           else
             let m = copy_words m obj new_obj (unat total_words);
                 m = m(to_space := new_end);
                 m = m(obj := new_obj OR GC_FORWARD_TAG)
             in Some (m, new_obj))"

text \<open>A root or field: copied when it is an object pointer into from-space.\<close>

definition gc_update_value :: "u64 \<Rightarrow> u64 \<Rightarrow> u64 \<Rightarrow> mem \<Rightarrow> u64 \<Rightarrow> (mem \<times> u64) option" where
  "gc_update_value to_space from_start from_end m v =
     (if v AND 3 \<noteq> 0 \<or> v < from_start \<or> v \<ge> from_end then Some (m, v)
      else gc_copy_object m v to_space)"

fun gc_roots :: "u64 \<Rightarrow> u64 \<Rightarrow> u64 \<Rightarrow> mem \<Rightarrow> u64 list \<Rightarrow> (mem \<times> u64 list) option" where
  "gc_roots to_space from_start from_end m [] = Some (m, [])"
| "gc_roots to_space from_start from_end m (v # vs) = do {
     (m, v) \<leftarrow> gc_update_value to_space from_start from_end m v;
     (m, vs) \<leftarrow> gc_roots to_space from_start from_end m vs;
     Some (m, v # vs)
   }"

text \<open>The cells of one object, and the fields, whose count is compared as a signed number.\<close>

fun gc_cells :: "u64 \<Rightarrow> u64 \<Rightarrow> u64 \<Rightarrow> mem \<Rightarrow> u64 list \<Rightarrow> mem option" where
  "gc_cells to_space from_start from_end m [] = Some m"
| "gc_cells to_space from_start from_end m (a # addrs) = do {
     (m, v) \<leftarrow> gc_update_value to_space from_start from_end m (m a);
     gc_cells to_space from_start from_end (m(a := v)) addrs
   }"

definition gc_scan_object :: "u64 \<Rightarrow> u64 \<Rightarrow> u64 \<Rightarrow> mem \<Rightarrow> u64 \<Rightarrow> (mem \<times> u64) option" where
  "gc_scan_object to_space from_start from_end m scan = do {
     let sz = m (slot scan 2);
     m \<leftarrow> gc_cells to_space from_start from_end m [scan];
     m \<leftarrow> (if m (slot scan 1) = FORMAT_BYTES then Some m
          else gc_cells to_space from_start from_end m
                 (map (\<lambda>i. slot scan (3 + int i)) [0..<nat (sint sz)]));
     let words = (if m (slot scan 1) = FORMAT_BYTES then drop_bit 3 (sz + 7) else sz);
     Some (m, slot scan (uint (words + 3)))
   }"

partial_function (option) gc_scan_loop :: "u64 \<Rightarrow> u64 \<Rightarrow> u64 \<Rightarrow> mem \<Rightarrow> u64 \<Rightarrow> mem option option" where
  "gc_scan_loop to_space from_start from_end m scan =
     (if scan \<ge> m to_space then Some (Some m)
      else case gc_scan_object to_space from_start from_end m scan of
        None \<Rightarrow> Some None
      | Some (m, scan) \<Rightarrow> gc_scan_loop to_space from_start from_end m scan)"

definition gc_collect ::
  "mem \<Rightarrow> u64 list \<Rightarrow> u64 \<Rightarrow> u64 \<Rightarrow> u64 \<Rightarrow> (mem \<times> u64 list) option option" where
  "gc_collect m roots to_space from_start from_end =
     (let scan = m to_space
      in case gc_roots to_space from_start from_end m roots of
        None \<Rightarrow> Some None
      | Some (m, roots) \<Rightarrow>
          map_option (map_option (\<lambda>m. (m, roots))) (gc_scan_loop to_space from_start from_end m scan))"

section \<open>The slots of the stack\<close>

text \<open>
  \<^verbatim>\<open>.Lgcss_add_slot\<close> loads the slot's value into \<^verbatim>\<open>x24\<close>, which is also the bound of the loop over the
  temporaries and then gives the bottom of the frame; \<open>gcss_temps\<close> returns it with the slots.
\<close>

definition gcss_add_slot :: "mem \<Rightarrow> u64 \<Rightarrow> u64 list" where
  "gcss_add_slot m a = (if m a = 0 \<or> m a AND 3 \<noteq> 0 then [] else [a])"

partial_function (option) gcss_temps :: "mem \<Rightarrow> u64 \<Rightarrow> u64 \<Rightarrow> u64 \<Rightarrow> u64 list \<Rightarrow> (u64 list \<times> u64) option" where
  "gcss_temps m fp index x24 acc =
     (if sint index \<ge> sint x24 then Some (acc, x24)
      else let a = slot fp (- uint (index + 5))
           in gcss_temps m fp (index + 1) (m a) (acc @ gcss_add_slot m a))"

partial_function (option) gcss_eval :: "mem \<Rightarrow> u64 \<Rightarrow> u64 \<Rightarrow> u64 list \<Rightarrow> (u64 list \<times> u64) option" where
  "gcss_eval m sp bottom acc =
     (if sp \<ge> bottom then Some (acc, sp)
      else gcss_eval m (slot sp 1) bottom (acc @ gcss_add_slot m sp))"

partial_function (option) gcss_frames :: "mem \<Rightarrow> u64 \<Rightarrow> u64 \<Rightarrow> u64 list \<Rightarrow> u64 list option" where
  "gcss_frames m sp fp acc =
     (if fp = 0 \<or> fp = FP_SENTINEL then Some acc
      else
        let acc = acc @ gcss_add_slot m (slot fp (-4)) @ gcss_add_slot m (slot fp (-1)) @
                  gcss_add_slot m (slot fp (-3));
            x24 = signed_drop_bit 2 (m (slot (m (slot fp (-1))) 5))
        in do {
          (acc, x24) \<leftarrow> gcss_temps m fp 0 x24 acc;
          let bottom = fp - push_bit 3 (x24 + 4);
          (acc, sp) \<leftarrow> gcss_eval m sp bottom acc;
          let args = drop_bit FRAME_FLAGS_NUM_ARGS_SHIFT (m (slot fp FRAME_FLAGS)) AND 255;
          gcss_frames m (slot fp (uint (args + FP_ARG_BASE_WORDS))) (m fp) acc
        })"

definition gc_collect_stack_slots :: "mem \<Rightarrow> u64 \<Rightarrow> u64 \<Rightarrow> u64 list option" where
  "gc_collect_stack_slots m sp fp = gcss_frames m sp fp []"

section \<open>Roots outside the stack\<close>

definition collect_exception_handler_roots :: "vm \<Rightarrow> u64 list" where
  "collect_exception_handler_roots s =
     concat (map (\<lambda>h. [exception_class h, handler_block h, signaled_exception h]) (handlers s))"

definition collect_ensure_roots :: "vm \<Rightarrow> u64 list" where
  "collect_ensure_roots s = concat (map (\<lambda>e. [signaled_class e, signaled_payload e]) (ensures s))"

text \<open>The objects and values of the entries of one log.\<close>

definition log_root_cells :: "mem \<Rightarrow> u64 \<Rightarrow> u64 list" where
  "log_root_cells m log =
     (if log = 0 then []
      else concat (map (\<lambda>i. [slot log (1 + 3 * int i), slot log (3 + 3 * int i)]) [0..<unat (m log)]))"

definition collect_transaction_log_roots :: "vm \<Rightarrow> u64 list" where
  "collect_transaction_log_roots s =
     concat (map (\<lambda>log. map (memory s) (log_root_cells (memory s) log)) (txn_logs s))"

definition count_exception_handler_roots :: "vm \<Rightarrow> nat" where
  "count_exception_handler_roots s = 3 * length (handlers s)"

definition count_ensure_roots :: "vm \<Rightarrow> nat" where
  "count_ensure_roots s = 2 * length (ensures s)"

definition count_transaction_log_roots :: "vm \<Rightarrow> nat" where
  "count_transaction_log_roots s =
     sum_list (map (\<lambda>log. if log = 0 then 0 else 2 * unat (memory s log)) (txn_logs s))"

text \<open>Writing the roots back, from the front of the list.\<close>

fun restore_exception_handler_roots :: "handler_frame list \<Rightarrow> u64 list \<Rightarrow> handler_frame list \<times> u64 list" where
  "restore_exception_handler_roots (h # hs) (c # b # e # roots) =
     (let (hs, roots) = restore_exception_handler_roots hs roots
      in (h\<lparr>exception_class := c, handler_block := b, signaled_exception := e\<rparr> # hs, roots))"
| "restore_exception_handler_roots hs roots = (hs, roots)"

fun restore_ensure_roots :: "ensure_frame list \<Rightarrow> u64 list \<Rightarrow> ensure_frame list \<times> u64 list" where
  "restore_ensure_roots (e # es) (c # p # roots) =
     (let (es, roots) = restore_ensure_roots es roots
      in (e\<lparr>signaled_class := c, signaled_payload := p\<rparr> # es, roots))"
| "restore_ensure_roots es roots = (es, roots)"

definition write_cells :: "mem \<Rightarrow> u64 list \<Rightarrow> u64 list \<Rightarrow> mem" where
  "write_cells m addrs vs = fold (\<lambda>(a, v) m. m(a := v)) (zip addrs vs) m"

fun restore_transaction_log_roots :: "mem \<Rightarrow> u64 list \<Rightarrow> u64 list \<Rightarrow> mem \<times> u64 list" where
  "restore_transaction_log_roots m [] roots = (m, roots)"
| "restore_transaction_log_roots m (log # logs) roots =
     (let cells = log_root_cells m log
      in restore_transaction_log_roots (write_cells m cells (take (length cells) roots)) logs
           (drop (length cells) roots))"

section \<open>Semispaces\<close>

definition GC_FROM_FREE :: int where [simp]: "GC_FROM_FREE = 0"
definition GC_FROM_END :: int where [simp]: "GC_FROM_END = 1"
definition GC_TO_FREE :: int where [simp]: "GC_TO_FREE = 2"
definition GC_TO_END :: int where [simp]: "GC_TO_END = 3"
definition GC_FROM_START :: int where [simp]: "GC_FROM_START = 4"
definition GC_TO_START :: int where [simp]: "GC_TO_START = 5"
definition GC_SPACE_SIZE :: int where [simp]: "GC_SPACE_SIZE = 6"
definition GC_TENURED_START :: int where [simp]: "GC_TENURED_START = 7"
definition GC_TENURED_END :: int where [simp]: "GC_TENURED_END = 8"
definition GC_REMEMBERED :: int where [simp]: "GC_REMEMBERED = 9"

definition has_gc_context_layout :: "'a heap_scheme \<Rightarrow> u64 \<Rightarrow> bool" where
  "has_gc_context_layout h om =
     (if gc_is_registered_context h om = 0 then False
      else
        let m = memory h;
            from_free = m (slot om GC_FROM_FREE); from_end = m (slot om GC_FROM_END);
            to_free = m (slot om GC_TO_FREE); to_end = m (slot om GC_TO_END);
            from_start = m (slot om GC_FROM_START); to_start = m (slot om GC_TO_START);
            space_size = m (slot om GC_SPACE_SIZE)
        in space_size \<noteq> 0 \<and> from_start < from_end \<and> to_start < to_end \<and>
           from_end = from_start + space_size \<and> to_end = to_start + space_size \<and>
           from_free \<ge> from_start \<and> from_free \<le> from_end \<and>
           to_free \<ge> to_start \<and> to_free \<le> to_end)"

text \<open>The assignments that swap the spaces, in order.\<close>

definition swap_semispaces :: "mem \<Rightarrow> u64 \<Rightarrow> mem" where
  "swap_semispaces m om =
     (let from_free = m (slot om GC_FROM_FREE);
          from_end = m (slot om GC_FROM_END);
          from_start = m (slot om GC_FROM_START);
          m = m(slot om GC_FROM_FREE := m (slot om GC_TO_FREE));
          m = m(slot om GC_FROM_END := m (slot om GC_TO_END));
          m = m(slot om GC_TO_FREE := from_free);
          m = m(slot om GC_TO_END := from_end);
          m = m(slot om GC_FROM_START := m (slot om GC_TO_START));
          m = m(slot om GC_TO_START := from_start);
          m = m(slot om GC_TO_FREE := m (slot om GC_TO_START))
      in m(slot om GC_TO_END := m (slot om GC_TO_START) + m (slot om GC_SPACE_SIZE)))"

section \<open>Collecting when an allocation failed\<close>

text \<open>All roots: stack slots, handlers, ensure frames, logs, the class table.\<close>

definition vm_roots :: "vm \<Rightarrow> u64 list \<Rightarrow> u64 list" where
  "vm_roots s slots =
     map (memory s) slots @ collect_exception_handler_roots s @ collect_ensure_roots s @
     collect_transaction_log_roots s @ [vm_class_table s]"

definition restore_vm_roots :: "u64 list \<Rightarrow> u64 list \<Rightarrow> vm \<Rightarrow> vm" where
  "restore_vm_roots slots roots s =
     (let m = write_cells (memory s) slots (take (length slots) roots);
          (hs, roots) = restore_exception_handler_roots (handlers s) (drop (length slots) roots);
          (es, roots) = restore_ensure_roots (ensures s) roots;
          (m, roots) = restore_transaction_log_roots m (txn_logs s) roots
      in s\<lparr>memory := m, handlers := hs, ensures := es, vm_class_table := hd roots\<rparr>)"

definition collect_and_retry_allocation :: "u64 \<Rightarrow> vm \<Rightarrow> bool outcome" where
  "collect_and_retry_allocation om s =
     (if \<not> has_gc_context_layout s om then Done False s
      else case gc_collect_stack_slots (memory s) (vm_sp s) (vm_fp s) of
        None \<Rightarrow> No_result
      | Some slots \<Rightarrow>
          (case gc_collect (memory s) (vm_roots s slots) (slot om GC_TO_FREE)
                  (memory s (slot om GC_FROM_START)) (memory s (slot om GC_FROM_END)) of
             None \<Rightarrow> No_result
           | Some None \<Rightarrow> Trap s
           | Some (Some (m, roots)) \<Rightarrow>
               let s = restore_vm_roots slots roots (s\<lparr>memory := m\<rparr>);
                   m = swap_semispaces (memory s) om;
                   ip_offset = vm_ip s - vm_base s;
                   current_method = m (slot (vm_fp s) FRAME_METHOD);
                   base = field_addr (OBJ_FIELD m current_method CM_BYTECODES) 0
               in Done True (s\<lparr>memory := m, vm_base := base, vm_ip := base + ip_offset\<rparr>)))"

definition ensure_frame_context_with_retry :: "u64 \<Rightarrow> vm \<Rightarrow> u64 outcome" where
  "ensure_frame_context_with_retry om s =
     (if context_class s = 0 then Done 0 s
      else
        and_then (with_context (ensure_frame_context_with_sp s (vm_fp s) (vm_sp s) om (context_class s)))
          (\<lambda>context s. if context \<noteq> 0 then Done context s
             else and_then (collect_and_retry_allocation om s)
               (\<lambda>collected s. if \<not> collected then Done 0 s
                  else with_context (ensure_frame_context_with_sp s (vm_fp s) (vm_sp s) om (context_class s)))))"

end
