(* ===== verification/Image.thy ===== *)
theory Image
  imports Machine
begin

text \<open>
  Images on disk: the pointer conversion passes of \<^verbatim>\<open>src/c_vm/object.c\<close> and \<^verbatim>\<open>src/arm/persist.s\<close>, the
  format and validation of checkpoint files (\<^verbatim>\<open>src/c_vm/checkpoint.c\<close>), and the checkpoint helpers
  of \<^verbatim>\<open>src/c_vm/interpret.c\<close>. A file is a byte list and so is a page buffer; the walks over objects
  follow the page tables and are partial functions (\<open>None\<close> is a walk that never ends).
\<close>

section \<open>Slots\<close>

definition convert_slot_pointer_to_offset :: "u64 \<Rightarrow> u64 \<Rightarrow> u64 \<Rightarrow> u64" where
  "convert_slot_pointer_to_offset v heap_start heap_limit =
     (if v AND TAG_MASK \<noteq> TAG_OBJECT \<or> v = 0 then v
      else if v < heap_start \<or> v \<ge> heap_limit then v
      else (v - heap_start) + 8)"

definition convert_slot_offset_to_pointer :: "u64 \<Rightarrow> u64 \<Rightarrow> u64 \<Rightarrow> u64" where
  "convert_slot_offset_to_pointer v heap_base heap_used =
     (if v AND TAG_MASK \<noteq> TAG_OBJECT then v
      else if v < 8 \<or> v > heap_used then v
      else (v - 8) + heap_base)"

text \<open>The same conversion as a static function of interpret.c.\<close>

definition checkpoint_convert_slot_pointer_to_offset :: "u64 \<Rightarrow> u64 \<Rightarrow> u64 \<Rightarrow> u64" where
  "checkpoint_convert_slot_pointer_to_offset v heap_start heap_limit =
     (if v AND TAG_MASK \<noteq> TAG_OBJECT \<or> v = 0 then v
      else if v < heap_start \<or> v \<ge> heap_limit then v
      else (v - heap_start) + 8)"

text \<open>Convert the class and, unless it holds bytes, the fields of the object at \<open>obj\<close>.\<close>

definition object_cells :: "u64 \<Rightarrow> u64 \<Rightarrow> u64 \<Rightarrow> u64 list" where
  "object_cells obj format slot_count =
     obj # (if format = FORMAT_BYTES then []
            else map (\<lambda>i. field_addr obj (of_nat i)) [0..<unat slot_count])"

definition convert_cells :: "(u64 \<Rightarrow> u64) \<Rightarrow> u64 list \<Rightarrow> mem \<Rightarrow> mem" where
  "convert_cells conv addrs m = fold (\<lambda>a m. m(a := conv (m a))) addrs m"

section \<open>The passes of object.c\<close>

text \<open>The walk over the objects of one page, each converted in the copy of the image.\<close>

partial_function (option) image_live_page ::
  "'a heap_scheme \<Rightarrow> u64 \<Rightarrow> u64 \<Rightarrow> u64 \<Rightarrow> u64 \<Rightarrow> u64 \<Rightarrow> u64 \<Rightarrow> 'a heap_scheme option" where
  "image_live_page h om image_copy heap_start heap_limit page_end current =
     (if current \<noteq> 0 \<and> current < heap_limit \<and> current < page_end
      then
        let m = memory h;
            image_object = image_copy + (current - heap_start);
            cells = object_cells image_object (OBJ_FORMAT m current) (object_slot_count m current);
            h = h\<lparr>memory := convert_cells
                    (\<lambda>v. convert_slot_pointer_to_offset v heap_start heap_limit) cells m\<rparr>
        in image_live_page h om image_copy heap_start heap_limit page_end (om_next_object h om current)
      else Some h)"

fun image_live_pages ::
  "'a heap_scheme \<Rightarrow> u64 \<Rightarrow> u64 \<Rightarrow> u64 \<Rightarrow> u64 \<Rightarrow> nat list \<Rightarrow> 'a heap_scheme option" where
  "image_live_pages h om image_copy heap_start heap_limit [] = Some h"
| "image_live_pages h om image_copy heap_start heap_limit (page_id # pages) =
     (let p = of_nat page_id;
          page_end = om_page_start h om p + om_page_used_bytes h om p
      in case image_live_page h om image_copy heap_start heap_limit page_end
                (om_page_covering_object h om p) of
           None \<Rightarrow> None
         | Some h \<Rightarrow> image_live_pages h om image_copy heap_start heap_limit pages)"

definition image_live_pointers_to_offsets_paged ::
  "'a heap_scheme \<Rightarrow> u64 \<Rightarrow> u64 \<Rightarrow> u64 \<Rightarrow> 'a heap_scheme option" where
  "image_live_pointers_to_offsets_paged h source_om image_copy used_size =
     (let heap_start = om_registered_start h source_om;
          heap_limit = heap_start + used_size;
          page_count = om_page_count h source_om
      in if heap_start = 0 \<or> image_copy = 0 \<or> used_size = 0 then Some h
         else image_live_pages h source_om image_copy heap_start heap_limit [0..<unat page_count])"

text \<open>The next object in a loaded image, from the page tables of the file; 0 is the null pointer.\<close>

definition next_image_object ::
  "mem \<Rightarrow> u64 \<Rightarrow> u64 \<Rightarrow> u64 \<Rightarrow> u64 list \<Rightarrow> u64 list \<Rightarrow> u64 \<Rightarrow> u64 \<Rightarrow> u64" where
  "next_image_object m image_copy used_size heap_base page_used_table page_first_table page_count current =
     (let nxt = current + om_object_bytes m current;
          next_page = (if nxt \<ge> heap_base + used_size then UINT64_MAX
                       else (nxt - heap_base) div OM_PAGE_BYTES);
          current =
            (if nxt \<ge> heap_base + used_size then 0
             else if nxt - (heap_base + next_page * OM_PAGE_BYTES) < page_used_table ! unat next_page
             then nxt
             else case List.find (\<lambda>future_page. page_first_table ! future_page \<noteq> 0)
                    [Suc (unat next_page)..<unat page_count] of
               None \<Rightarrow> 0
             | Some future_page \<Rightarrow> image_copy + (page_first_table ! future_page - 8))
      in if current \<noteq> 0 \<and> current - image_copy \<ge> used_size then 0 else current)"

partial_function (option) image_loaded_page ::
  "mem \<Rightarrow> u64 \<Rightarrow> u64 \<Rightarrow> u64 \<Rightarrow> u64 list \<Rightarrow> u64 list \<Rightarrow> u64 \<Rightarrow> u64 \<Rightarrow> u64 \<Rightarrow> mem option" where
  "image_loaded_page m image_copy used_size heap_base page_used_table page_first_table page_count
       page_end_offset current =
     (if current \<noteq> 0 \<and> current - image_copy < used_size \<and> current - image_copy < page_end_offset
      then
        let slot_count = object_slot_count m current;
            cells = object_cells current (OBJ_FORMAT m current) slot_count;
            m = convert_cells (\<lambda>v. convert_slot_offset_to_pointer v heap_base used_size) cells m
        in image_loaded_page m image_copy used_size heap_base page_used_table page_first_table page_count
             page_end_offset
             (next_image_object m image_copy used_size heap_base page_used_table page_first_table
                page_count current)
      else Some m)"

fun image_loaded_pages ::
  "mem \<Rightarrow> u64 \<Rightarrow> u64 \<Rightarrow> u64 \<Rightarrow> u64 list \<Rightarrow> u64 list \<Rightarrow> u64 list \<Rightarrow> u64 \<Rightarrow> nat list \<Rightarrow> mem option" where
  "image_loaded_pages m image_copy used_size heap_base page_used_table page_first_table
       page_covering_table page_count [] = Some m"
| "image_loaded_pages m image_copy used_size heap_base page_used_table page_first_table
       page_covering_table page_count (page_id # pages) =
     (let page_start_offset = of_nat page_id * OM_PAGE_BYTES;
          page_end_offset = page_start_offset + page_used_table ! page_id;
          covering = page_covering_table ! page_id;
          current = (if covering = 0 then 0 else image_copy + (covering - 8))
      in if page_start_offset \<ge> used_size then Some m
         else case image_loaded_page m image_copy used_size heap_base page_used_table page_first_table
                     page_count page_end_offset current of
           None \<Rightarrow> None
         | Some m \<Rightarrow> image_loaded_pages m image_copy used_size heap_base page_used_table page_first_table
                       page_covering_table page_count pages)"

definition image_offsets_to_live_pointers_paged ::
  "mem \<Rightarrow> u64 \<Rightarrow> u64 \<Rightarrow> u64 \<Rightarrow> u64 list \<Rightarrow> u64 list \<Rightarrow> u64 list \<Rightarrow> u64 \<Rightarrow> mem option" where
  "image_offsets_to_live_pointers_paged m image_copy used_size heap_base page_used_table page_first_table
       page_covering_table page_count =
     (if image_copy = 0 \<or> used_size = 0 then Some m
      else image_loaded_pages m image_copy used_size heap_base page_used_table page_first_table
             page_covering_table page_count [0..<unat page_count])"

section \<open>The passes of persist.s\<close>

text \<open>Objects one after another from \<open>current\<close> to \<open>limit\<close>; the field count is compared as signed.\<close>

partial_function (option) image_pass :: "(u64 \<Rightarrow> u64) \<Rightarrow> mem \<Rightarrow> u64 \<Rightarrow> u64 \<Rightarrow> mem option" where
  "image_pass conv m current limit =
     (if current \<ge> limit then Some m
      else
        let m = m(current := conv (m current));
            format = m (slot current 1); sz = m (slot current 2);
            m = (if format = FORMAT_BYTES then m
                 else convert_cells conv (map (\<lambda>i. slot current (3 + int i)) [0..<nat (sint sz)]) m);
            words = (if format = FORMAT_BYTES then drop_bit 3 (sz + 7) else sz) + OBJ_HEADER_WORDS
        in image_pass conv m (current + push_bit 3 words) limit)"

definition image_pointers_to_offsets :: "mem \<Rightarrow> u64 \<Rightarrow> u64 \<Rightarrow> u64 \<Rightarrow> mem option" where
  "image_pointers_to_offsets m buf sz heap_base =
     image_pass (\<lambda>v. if v AND 3 \<noteq> 0 \<or> v < heap_base \<or> v \<ge> heap_base + sz then v else v - heap_base + 8)
       m buf (buf + sz)"

definition image_offsets_to_pointers :: "mem \<Rightarrow> u64 \<Rightarrow> u64 \<Rightarrow> u64 \<Rightarrow> mem option" where
  "image_offsets_to_pointers m buf sz new_base =
     image_pass (\<lambda>v. if v AND 3 \<noteq> 0 \<or> v < 8 \<or> v > sz then v else v - 8 + new_base) m buf (buf + sz)"

section \<open>The format of a checkpoint\<close>

definition IMAGE_CHECKPOINT_MAGIC :: u64 where "IMAGE_CHECKPOINT_MAGIC = 0x41524c4f494d4731"

record ImageCheckpointHeader =
  magic :: u64
  used_size :: u64
  page_bytes :: u64
  page_count :: u64
  generation :: u64
  symbol_table_offset :: u64
  symbol_class_offset :: u64
  context_class_offset :: u64
  smalltalk_dict_offset :: u64
  class_table_offset :: u64
  metadata_checksum :: u64

text \<open>The five page tables of the file.\<close>

record page_tables =
  state_table :: "u64 list"
  used_table :: "u64 list"
  first_table :: "u64 list"
  covering_table :: "u64 list"
  checksum_table :: "u64 list"

definition header_words :: "ImageCheckpointHeader \<Rightarrow> u64 list" where
  "header_words h = [magic h, used_size h, page_bytes h, page_count h, generation h,
     symbol_table_offset h, symbol_class_offset h, context_class_offset h, smalltalk_dict_offset h,
     class_table_offset h, metadata_checksum h]"

definition header_of_words :: "u64 list \<Rightarrow> ImageCheckpointHeader" where
  "header_of_words ws = \<lparr>magic = ws ! 0, used_size = ws ! 1, page_bytes = ws ! 2, page_count = ws ! 3,
     generation = ws ! 4, symbol_table_offset = ws ! 5, symbol_class_offset = ws ! 6,
     context_class_offset = ws ! 7, smalltalk_dict_offset = ws ! 8, class_table_offset = ws ! 9,
     metadata_checksum = ws ! 10\<rparr>"

definition table_words :: "page_tables \<Rightarrow> u64 list" where
  "table_words t = state_table t @ used_table t @ first_table t @ covering_table t @ checksum_table t"

text \<open>\<^verbatim>\<open>fread(&header, sizeof(header), 1, file)\<close>.\<close>

definition read_header :: "u8 list \<Rightarrow> (ImageCheckpointHeader \<times> u8 list) option" where
  "read_header file =
     (if length file < 88 then None
      else Some (header_of_words (fst (fread_words 11 file)), snd (fread_words 11 file)))"

definition checkpoint_page_checksum :: "u8 list \<Rightarrow> u64" where
  "checkpoint_page_checksum bytes = foldl fnv64_byte_step 1469598103934665603 bytes"

definition checkpoint_hash_bytes :: "u64 \<Rightarrow> u8 list \<Rightarrow> u64" where
  "checkpoint_hash_bytes hash bytes = foldl fnv64_byte_step hash bytes"

definition checkpoint_metadata_checksum :: "ImageCheckpointHeader \<Rightarrow> page_tables \<Rightarrow> u64" where
  "checkpoint_metadata_checksum header t =
     (let copy = header\<lparr>metadata_checksum := 0\<rparr>;
          hash = checkpoint_hash_bytes 1469598103934665603 (words_bytes (header_words copy))
      in if page_count copy = 0 then hash
         else
           let table_words = unat (page_count copy);
               hash = checkpoint_hash_bytes hash (words_bytes (take table_words (state_table t)));
               hash = checkpoint_hash_bytes hash (words_bytes (take table_words (used_table t)));
               hash = checkpoint_hash_bytes hash (words_bytes (take table_words (first_table t)));
               hash = checkpoint_hash_bytes hash (words_bytes (take table_words (covering_table t)))
           in checkpoint_hash_bytes hash (words_bytes (take table_words (checksum_table t))))"

definition page_metadata_ok :: "page_tables \<Rightarrow> nat \<Rightarrow> bool" where
  "page_metadata_ok t page_id \<longleftrightarrow>
     (state_table t ! page_id = 0 \<or> state_table t ! page_id = 1 \<or> state_table t ! page_id = 2) \<and>
     (state_table t ! page_id = 0 \<longrightarrow>
        used_table t ! page_id = 0 \<and> first_table t ! page_id = 0 \<and> covering_table t ! page_id = 0)"

definition checkpoint_header_is_valid :: "ImageCheckpointHeader \<Rightarrow> page_tables \<Rightarrow> bool" where
  "checkpoint_header_is_valid header t \<longleftrightarrow>
     magic header = IMAGE_CHECKPOINT_MAGIC \<and>
     \<not> (page_bytes header \<noteq> 0 \<and> page_bytes header \<noteq> OM_PAGE_BYTES) \<and>
     list_all (page_metadata_ok t) [0..<unat (page_count header)] \<and>
     metadata_checksum header = checkpoint_metadata_checksum header t"

text \<open>The page tables of the file and the bytes behind them, \<open>None\<close> when the file is too short.\<close>

definition checkpoint_load_page_tables :: "u8 list \<Rightarrow> u64 \<Rightarrow> (page_tables \<times> u8 list) option" where
  "checkpoint_load_page_tables file count =
     (if count = 0 then Some (\<lparr>state_table = [], used_table = [], first_table = [],
                               covering_table = [], checksum_table = []\<rparr>, file)
      else
        let n = unat count;
            (states, rest) = fread_words n file;
            (useds, rest) = fread_words n rest;
            (firsts, rest) = fread_words n rest;
            (coverings, rest) = fread_words n rest;
            (checksums, rest) = fread_words n rest
        in if length states \<noteq> n \<or> length useds \<noteq> n \<or> length firsts \<noteq> n \<or>
              length coverings \<noteq> n \<or> length checksums \<noteq> n then None
           else Some (\<lparr>state_table = states, used_table = useds, first_table = firsts,
                       covering_table = coverings, checksum_table = checksums\<rparr>, rest))"

text \<open>Every page of the file is complete and has the checksum of its table entry.\<close>

fun validate_pages :: "u8 list \<Rightarrow> u64 list \<Rightarrow> bool" where
  "validate_pages file [] = True"
| "validate_pages file (checksum # checksums) =
     (let page = take 4096 file
      in length page = 4096 \<and> checkpoint_page_checksum page = checksum \<and>
         validate_pages (drop 4096 file) checksums)"

definition image_checkpoint_validate :: "u8 list option \<Rightarrow> bool" where
  "image_checkpoint_validate file =
     (case file of None \<Rightarrow> False
      | Some bytes \<Rightarrow>
          (case read_header bytes of None \<Rightarrow> False
           | Some (header, rest) \<Rightarrow>
               (case checkpoint_load_page_tables rest (page_count header) of None \<Rightarrow> False
                | Some (tables, rest) \<Rightarrow>
                    checkpoint_header_is_valid header tables \<and>
                    validate_pages rest (checksum_table tables))))"

definition checkpoint_set_test_dir_fsync_failure :: "bool \<Rightarrow> vm \<Rightarrow> vm" where
  "checkpoint_set_test_dir_fsync_failure enabled s = s\<lparr>force_dir_fsync_failure := enabled\<rparr>"

text \<open>The directory of a path: up to the last slash, in a buffer of 1024 bytes.\<close>

definition parent_directory :: "u8 list \<Rightarrow> u8 list option" where
  "parent_directory path =
     (let dir = rev (dropWhile (\<lambda>c. c \<noteq> 47) (rev path))
      in if dir = [] then Some (c_string ''.'')
         else if length dir = 1 then Some (c_string ''/'')
         else if length dir - 1 + 1 > 1024 then None
         else Some (butlast dir))"

definition checkpoint_fsync_parent_directory :: "u8 list \<Rightarrow> vm \<Rightarrow> bool" where
  "checkpoint_fsync_parent_directory path s =
     (if force_dir_fsync_failure s then False
      else case parent_directory path of
        None \<Rightarrow> False
      | Some dir_path \<Rightarrow> dir_sync_ok (os_now s))"

section \<open>Pages of interpret.c\<close>

definition checkpoint_page_count :: "u64 \<Rightarrow> u64" where
  "checkpoint_page_count used = (if used = 0 then 0 else (used + OM_PAGE_BYTES - 1) div OM_PAGE_BYTES)"

definition checkpoint_metadata_bytes :: "u64 \<Rightarrow> u64" where
  "checkpoint_metadata_bytes count = 88 + 5 * count * 8"

definition checkpoint_page_file_offset :: "u64 \<Rightarrow> u64 \<Rightarrow> u64" where
  "checkpoint_page_file_offset count page_id = checkpoint_metadata_bytes count + page_id * OM_PAGE_BYTES"

definition checkpoint_page_live_bytes :: "u64 \<Rightarrow> u64 \<Rightarrow> u64" where
  "checkpoint_page_live_bytes used page_id =
     (let page_start = page_id * OM_PAGE_BYTES
      in if page_start \<ge> used then 0
         else let remaining = used - page_start
              in if remaining < OM_PAGE_BYTES then remaining else OM_PAGE_BYTES)"

definition checkpoint_object_slot_count :: "mem \<Rightarrow> u64 \<Rightarrow> u64" where
  "checkpoint_object_slot_count m obj =
     (if OBJ_FORMAT m obj = FORMAT_BYTES then (OBJ_SIZE m obj + WORD_BYTES - 1) div WORD_BYTES
      else OBJ_SIZE m obj)"

definition object_offset_in_heap :: "u64 \<Rightarrow> u64 \<Rightarrow> u64" where
  "object_offset_in_heap obj heap_start = (if \<not> is_object_ptr obj then 0 else obj - heap_start)"

definition page_object_offset_in_heap :: "u64 \<Rightarrow> u64 \<Rightarrow> u64" where
  "page_object_offset_in_heap obj heap_start =
     (if \<not> is_object_ptr obj then 0 else (obj - heap_start) + 8)"

definition heap_start_for_om :: "'a heap_scheme \<Rightarrow> u64 \<Rightarrow> u64" where
  "heap_start_for_om h om =
     (if gc_is_registered_context h om \<noteq> 0 then memory h (slot om 4) else om_registered_start h om)"

definition heap_used_bytes_for_om :: "'a heap_scheme \<Rightarrow> u64 \<Rightarrow> u64" where
  "heap_used_bytes_for_om h om =
     (let heap_start = heap_start_for_om h om in if heap_start = 0 then 0 else memory h om - heap_start)"

text \<open>The word at a byte offset of a page buffer; what is stored past its end is not part of it.\<close>

definition buffer_word :: "u8 list \<Rightarrow> nat \<Rightarrow> u64" where
  "buffer_word buf off = word_of_bytes (take 8 (drop off buf))"

definition put_buffer_word :: "u8 list \<Rightarrow> nat \<Rightarrow> u64 \<Rightarrow> u8 list" where
  "put_buffer_word buf off w = take (length buf) (take off buf @ word_bytes w @ drop (off + 8) buf)"

definition convert_buffer :: "(u64 \<Rightarrow> u64) \<Rightarrow> nat list \<Rightarrow> u8 list \<Rightarrow> u8 list" where
  "convert_buffer conv offs buf = fold (\<lambda>off buf. put_buffer_word buf off (conv (buffer_word buf off))) offs buf"

text \<open>
  The slots of an object that lie on the page, as offsets into its copy: the class when the object
  starts on the page, the fields unless it holds bytes.
\<close>

definition page_slots :: "mem \<Rightarrow> u64 \<Rightarrow> u64 \<Rightarrow> u64 \<Rightarrow> nat list" where
  "page_slots m page_start page_end current =
     (if current \<ge> page_start then [unat (current - page_start)] else []) @
     (if OBJ_FORMAT m current = FORMAT_BYTES then []
      else map (\<lambda>a. unat (a - page_start))
             (filter (\<lambda>a. a \<ge> page_start \<and> a + WORD_BYTES \<le> page_end)
                (map (\<lambda>i. field_addr current (of_nat i))
                   [0..<unat (checkpoint_object_slot_count m current)])))"

partial_function (option) checkpoint_page_objects ::
  "'a heap_scheme \<Rightarrow> u64 \<Rightarrow> u64 \<Rightarrow> u64 \<Rightarrow> u64 \<Rightarrow> u64 \<Rightarrow> u8 list \<Rightarrow> u64 \<Rightarrow> u8 list option" where
  "checkpoint_page_objects h om heap_start heap_limit page_start page_end page_copy current =
     (if current \<noteq> 0 \<and> current < heap_limit \<and> current < page_end
      then checkpoint_page_objects h om heap_start heap_limit page_start page_end
             (convert_buffer (\<lambda>v. checkpoint_convert_slot_pointer_to_offset v heap_start heap_limit)
                (page_slots (memory h) page_start page_end current) page_copy)
             (om_next_object h om current)
      else Some page_copy)"

definition checkpoint_page_pointers_to_offsets ::
  "'a heap_scheme \<Rightarrow> u64 \<Rightarrow> u64 \<Rightarrow> u64 \<Rightarrow> u8 list \<Rightarrow> u64 \<Rightarrow> u64 \<Rightarrow> u8 list option" where
  "checkpoint_page_pointers_to_offsets h source_om heap_start heap_limit page_copy used page_id =
     (let page_start = om_page_start h source_om page_id;
          page_live_bytes = checkpoint_page_live_bytes used page_id;
          page_end = page_start + page_live_bytes;
          current = om_page_covering_object h source_om page_id
      in if page_live_bytes = 0 \<or> current = 0 then Some page_copy
         else checkpoint_page_objects h source_om heap_start heap_limit page_start page_end page_copy current)"

end
