(* ===== verification/Prims.thy ===== *)
theory Prims
  imports Collector Symbols Image
begin

text \<open>
  The primitives of \<^verbatim>\<open>src/c_vm/interpret.c\<close> that do not run code: allocation, small integers,
  identity and hash, queries on the live image, characters, strings and symbols. Each is the C
  function with \<^verbatim>\<open>sp_ptr\<close>, \<^verbatim>\<open>fp_ptr\<close>, \<^verbatim>\<open>ip_ptr\<close>, \<^verbatim>\<open>bytecode_base_ptr\<close> and \<^verbatim>\<open>class_table_ptr\<close> read from and
  written to the machine. \<^verbatim>\<open>raise(SIGTRAP)\<close> ends the process: \<open>Trap\<close>.
\<close>

section \<open>Primitive numbers\<close>

definition PRIM_NONE :: u64 where [simp]: "PRIM_NONE = 0"
definition PRIM_SMALLINT_ADD :: u64 where [simp]: "PRIM_SMALLINT_ADD = 1"
definition PRIM_SMALLINT_SUB :: u64 where [simp]: "PRIM_SMALLINT_SUB = 2"
definition PRIM_SMALLINT_LT :: u64 where [simp]: "PRIM_SMALLINT_LT = 3"
definition PRIM_SMALLINT_EQ :: u64 where [simp]: "PRIM_SMALLINT_EQ = 4"
definition PRIM_SMALLINT_MUL :: u64 where [simp]: "PRIM_SMALLINT_MUL = 5"
definition PRIM_AT :: u64 where [simp]: "PRIM_AT = 6"
definition PRIM_AT_PUT :: u64 where [simp]: "PRIM_AT_PUT = 7"
definition PRIM_BASIC_NEW :: u64 where [simp]: "PRIM_BASIC_NEW = 8"
definition PRIM_BLOCK_VALUE :: u64 where [simp]: "PRIM_BLOCK_VALUE = 9"
definition PRIM_BASIC_NEW_SIZE :: u64 where [simp]: "PRIM_BASIC_NEW_SIZE = 10"
definition PRIM_SIZE :: u64 where [simp]: "PRIM_SIZE = 11"
definition PRIM_IDENTITY_EQ :: u64 where [simp]: "PRIM_IDENTITY_EQ = 12"
definition PRIM_BASIC_CLASS :: u64 where [simp]: "PRIM_BASIC_CLASS = 13"
definition PRIM_HASH :: u64 where [simp]: "PRIM_HASH = 14"
definition PRIM_PRINT_CHAR :: u64 where [simp]: "PRIM_PRINT_CHAR = 15"
definition PRIM_BLOCK_VALUE_ARG :: u64 where [simp]: "PRIM_BLOCK_VALUE_ARG = 16"
definition PRIM_PERFORM :: u64 where [simp]: "PRIM_PERFORM = 17"
definition PRIM_HALT :: u64 where [simp]: "PRIM_HALT = 18"
definition PRIM_CHAR_VALUE :: u64 where [simp]: "PRIM_CHAR_VALUE = 19"
definition PRIM_AS_CHARACTER :: u64 where [simp]: "PRIM_AS_CHARACTER = 20"
definition PRIM_CHAR_IS_LETTER :: u64 where [simp]: "PRIM_CHAR_IS_LETTER = 21"
definition PRIM_CHAR_IS_DIGIT :: u64 where [simp]: "PRIM_CHAR_IS_DIGIT = 22"
definition PRIM_CHAR_UPPERCASE :: u64 where [simp]: "PRIM_CHAR_UPPERCASE = 23"
definition PRIM_CHAR_LOWERCASE :: u64 where [simp]: "PRIM_CHAR_LOWERCASE = 24"
definition PRIM_STRING_EQ :: u64 where [simp]: "PRIM_STRING_EQ = 25"
definition PRIM_STRING_HASH_FNV :: u64 where [simp]: "PRIM_STRING_HASH_FNV = 26"
definition PRIM_STRING_AS_SYMBOL :: u64 where [simp]: "PRIM_STRING_AS_SYMBOL = 27"
definition PRIM_SYMBOL_EQ :: u64 where [simp]: "PRIM_SYMBOL_EQ = 28"
definition PRIM_ERROR :: u64 where [simp]: "PRIM_ERROR = 29"
definition PRIM_CLASS_SUPERCLASS :: u64 where [simp]: "PRIM_CLASS_SUPERCLASS = 30"
definition PRIM_CLASS_NAME :: u64 where [simp]: "PRIM_CLASS_NAME = 31"
definition PRIM_CLASS_INCLUDES_SELECTOR :: u64 where [simp]: "PRIM_CLASS_INCLUDES_SELECTOR = 32"
definition PRIM_SMALLTALK_GLOBALS :: u64 where [simp]: "PRIM_SMALLTALK_GLOBALS = 33"
definition PRIM_METHOD_SOURCE_FOR_CLASS_SELECTOR :: u64 where [simp]: "PRIM_METHOD_SOURCE_FOR_CLASS_SELECTOR = 34"
definition PRIM_READ_FD_COUNT :: u64 where [simp]: "PRIM_READ_FD_COUNT = 35"
definition PRIM_WRITE_FD_STRING :: u64 where [simp]: "PRIM_WRITE_FD_STRING = 36"
definition PRIM_SIGNAL :: u64 where [simp]: "PRIM_SIGNAL = 37"
definition PRIM_BLOCK_ON_DO :: u64 where [simp]: "PRIM_BLOCK_ON_DO = 38"
definition PRIM_BLOCK_ENSURE :: u64 where [simp]: "PRIM_BLOCK_ENSURE = 39"
definition PRIM_TRANSACTION_ATOMIC :: u64 where [simp]: "PRIM_TRANSACTION_ATOMIC = 40"
definition PRIM_TRANSACTION_DURABLE :: u64 where [simp]: "PRIM_TRANSACTION_DURABLE = 41"
definition PRIM_IMAGE_CHECKPOINT_TO :: u64 where [simp]: "PRIM_IMAGE_CHECKPOINT_TO = 42"
definition PRIM_IMAGE_RESTART_VALUE_OF_GLOBAL :: u64 where [simp]: "PRIM_IMAGE_RESTART_VALUE_OF_GLOBAL = 43"
definition PRIM_TRANSACTION_READ_ONLY :: u64 where [simp]: "PRIM_TRANSACTION_READ_ONLY = 44"
definition PRIM_CLASS_INSTANCE_VARIABLE_NAMES :: u64 where [simp]: "PRIM_CLASS_INSTANCE_VARIABLE_NAMES = 45"

section \<open>Operands\<close>

text \<open>\<^verbatim>\<open>sp[i]\<close>.\<close>

definition stack_at :: "vm \<Rightarrow> u64 \<Rightarrow> u64" where
  "stack_at s i = memory s (slot (vm_sp s) (uint i))"

definition is_smallint_value :: "u64 \<Rightarrow> bool" where
  "is_smallint_value v \<longleftrightarrow> v AND TAG_MASK = TAG_SMALLINT"

definition is_character_value :: "u64 \<Rightarrow> bool" where
  "is_character_value v \<longleftrightarrow> v AND CHAR_TAG_MASK = CHAR_TAG_VALUE"

definition is_object_value :: "u64 \<Rightarrow> bool" where
  "is_object_value v \<longleftrightarrow> v AND TAG_MASK = TAG_OBJECT"

definition is_bytes_object :: "mem \<Rightarrow> u64 \<Rightarrow> bool" where
  "is_bytes_object m v \<longleftrightarrow> is_object_value v \<and> OBJ_FORMAT m v = FORMAT_BYTES"

definition replace_receiver_and_arg :: "u64 \<Rightarrow> vm \<Rightarrow> vm" where
  "replace_receiver_and_arg result s =
     (let sp = slot (vm_sp s) 1 in s\<lparr>memory := (memory s)(sp := result), vm_sp := sp\<rparr>)"

definition replace_receiver_and_two_args :: "u64 \<Rightarrow> vm \<Rightarrow> vm" where
  "replace_receiver_and_two_args result s =
     (let sp = slot (vm_sp s) 2 in s\<lparr>memory := (memory s)(sp := result), vm_sp := sp\<rparr>)"

definition replace_receiver :: "u64 \<Rightarrow> vm \<Rightarrow> vm" where
  "replace_receiver result s = s\<lparr>memory := (memory s)(vm_sp s := result)\<rparr>"

definition byte_txn_index :: "u64 \<Rightarrow> u64" where
  "byte_txn_index index = push_bit 63 1 OR index"

definition bytes_object_to_cstring :: "mem \<Rightarrow> u64 \<Rightarrow> u64 \<Rightarrow> u8 list option" where
  "bytes_object_to_cstring m v capacity =
     (if \<not> is_bytes_object m v \<or> capacity = 0 then None
      else if OBJ_SIZE m v + 1 > capacity then None
      else Some (until_nul (object_bytes m v)))"

section \<open>Allocation\<close>

definition initialize_word_fields :: "mem \<Rightarrow> u64 \<Rightarrow> u64 \<Rightarrow> mem" where
  "initialize_word_fields m obj count =
     fold (\<lambda>index m. set_field m obj (of_nat index) TAGGED_NIL) [0..<unat count] m"

text \<open>
  Allocate, and when there is no room collect once and try again with the operands read anew
  (\<open>operands\<close> gives class, format and size); still no room is SIGTRAP. The result is the object
  with the format and size it was made with.
\<close>

definition alloc_with_retry :: "u64 \<Rightarrow> (vm \<Rightarrow> u64 \<times> u64 \<times> u64) \<Rightarrow> vm \<Rightarrow> (u64 \<times> u64 \<times> u64) outcome" where
  "alloc_with_retry om operands s =
     (case operands s of (klass, format, count) \<Rightarrow>
        case om_alloc s om klass format count of (s, obj) \<Rightarrow>
          if obj \<noteq> 0 then Done (obj, format, count) s
          else and_then (collect_and_retry_allocation om s) (\<lambda>collected s.
            if \<not> collected then Trap s
            else case operands s of (klass, format, count) \<Rightarrow>
              case om_alloc s om klass format count of (s, obj) \<Rightarrow>
                if obj = 0 then Trap s else Done (obj, format, count) s))"

definition new_operands :: "vm \<Rightarrow> u64 \<times> u64 \<times> u64" where
  "new_operands s =
     (let receiver = stack_at s 0
      in (receiver, FORMAT_FIELDS, untag_smallint (OBJ_FIELD (memory s) receiver CLASS_INST_SIZE)))"

definition prim_basic_new :: "u64 \<Rightarrow> u64 \<Rightarrow> vm \<Rightarrow> PrimitiveResult outcome" where
  "prim_basic_new om arg_count s =
     (let receiver = stack_at s arg_count; size_oop = OBJ_FIELD (memory s) receiver CLASS_INST_SIZE
      in if arg_count \<noteq> 0 then Done PRIMITIVE_FAILED s
         else if \<not> is_object_value receiver then Trap s
         else if \<not> is_smallint_value size_oop then Done PRIMITIVE_FAILED s
         else if sint (untag_smallint size_oop) < 0 then Done PRIMITIVE_FAILED s
         else and_then (alloc_with_retry om new_operands s) (\<lambda>(obj, format, count) s.
           Done PRIMITIVE_SUCCEEDED (replace_receiver obj
             (s\<lparr>memory := initialize_word_fields (memory s) obj count\<rparr>))))"

definition new_size_operands :: "vm \<Rightarrow> u64 \<times> u64 \<times> u64" where
  "new_size_operands s =
     (let receiver = stack_at s 1
      in (receiver, untag_smallint (OBJ_FIELD (memory s) receiver CLASS_INST_FORMAT),
          untag_smallint (stack_at s 0)))"

definition prim_basic_new_size :: "u64 \<Rightarrow> u64 \<Rightarrow> vm \<Rightarrow> PrimitiveResult outcome" where
  "prim_basic_new_size om arg_count s =
     (let receiver = stack_at s arg_count; size_oop = stack_at s 0;
          format_oop = OBJ_FIELD (memory s) receiver CLASS_INST_FORMAT;
          format = untag_smallint format_oop
      in if arg_count \<noteq> 1 then Done PRIMITIVE_FAILED s
         else if \<not> is_object_value receiver then Trap s
         else if \<not> is_smallint_value size_oop then Done PRIMITIVE_FAILED s
         else if sint (untag_smallint size_oop) < 0 then Done PRIMITIVE_FAILED s
         else if \<not> is_smallint_value format_oop then Done PRIMITIVE_FAILED s
         else if format = FORMAT_FIELDS \<or> (format \<noteq> FORMAT_INDEXABLE \<and> format \<noteq> FORMAT_BYTES)
         then Done PRIMITIVE_FAILED s
         else and_then (alloc_with_retry om new_size_operands s) (\<lambda>(obj, format, count) s.
           Done PRIMITIVE_SUCCEEDED (replace_receiver_and_arg obj
             (if format = FORMAT_INDEXABLE
              then s\<lparr>memory := initialize_word_fields (memory s) obj count\<rparr> else s))))"

definition try_allocation_primitive :: "u64 \<Rightarrow> u64 \<Rightarrow> u64 \<Rightarrow> vm \<Rightarrow> PrimitiveResult outcome" where
  "try_allocation_primitive om primitive arg_count s =
     (if primitive = PRIM_BASIC_NEW then prim_basic_new om arg_count s
      else if primitive = PRIM_BASIC_NEW_SIZE then prim_basic_new_size om arg_count s
      else Done PRIMITIVE_UNSUPPORTED s)"

section \<open>Small integers\<close>

text \<open>The overflow built-ins compute on mathematical integers and report a result beyond 64 bits.\<close>

definition checked_int64 :: "int \<Rightarrow> u64 option" where
  "checked_int64 v = (if - (2 ^ 63) \<le> v \<and> v < 2 ^ 63 then Some (word_of_int v) else None)"

definition try_smallint_primitive :: "u64 \<Rightarrow> u64 \<Rightarrow> vm \<Rightarrow> PrimitiveResult outcome" where
  "try_smallint_primitive primitive arg_count s =
     (if primitive \<noteq> PRIM_SMALLINT_ADD \<and> primitive \<noteq> PRIM_SMALLINT_SUB \<and> primitive \<noteq> PRIM_SMALLINT_LT \<and>
         primitive \<noteq> PRIM_SMALLINT_EQ \<and> primitive \<noteq> PRIM_SMALLINT_MUL
      then Done PRIMITIVE_UNSUPPORTED s
      else if arg_count \<noteq> 1 then Done PRIMITIVE_FAILED s
      else
        let arg = stack_at s 0; receiver = stack_at s 1
        in if \<not> is_smallint_value receiver then Trap s
           else if \<not> is_smallint_value arg then Done PRIMITIVE_FAILED s
           else
             let lhs = sint (untag_smallint receiver); rhs = sint (untag_smallint arg);
                 arith = (\<lambda>v. case checked_int64 v of
                     None \<Rightarrow> Done PRIMITIVE_FAILED s
                   | Some w \<Rightarrow>
                       if \<not> fits_smallint w then Done PRIMITIVE_FAILED s
                       else Done PRIMITIVE_SUCCEEDED (replace_receiver_and_arg (tag_smallint w) s))
             in if primitive = PRIM_SMALLINT_ADD then arith (lhs + rhs)
                else if primitive = PRIM_SMALLINT_SUB then arith (lhs - rhs)
                else if primitive = PRIM_SMALLINT_MUL then arith (lhs * rhs)
                else if primitive = PRIM_SMALLINT_LT
                then Done PRIMITIVE_SUCCEEDED
                       (replace_receiver_and_arg (if lhs < rhs then TAGGED_TRUE else TAGGED_FALSE) s)
                else Done PRIMITIVE_SUCCEEDED
                       (replace_receiver_and_arg (if lhs = rhs then TAGGED_TRUE else TAGGED_FALSE) s))"

section \<open>Objects\<close>

definition try_object_primitive :: "u64 \<Rightarrow> u64 \<Rightarrow> vm \<Rightarrow> PrimitiveResult outcome" where
  "try_object_primitive primitive arg_count s =
     (let receiver = stack_at s arg_count
      in if primitive = PRIM_IDENTITY_EQ then
           (if arg_count \<noteq> 1 then Done PRIMITIVE_FAILED s
            else Done PRIMITIVE_SUCCEEDED
                   (replace_receiver_and_arg (if receiver = stack_at s 0 then TAGGED_TRUE else TAGGED_FALSE) s))
         else if primitive = PRIM_BASIC_CLASS then
           (if arg_count \<noteq> 0 then Done PRIMITIVE_FAILED s
            else Done PRIMITIVE_SUCCEEDED
                   (replace_receiver (oop_class (memory s) receiver (vm_class_table s)) s))
         else if primitive = PRIM_HASH then
           (if arg_count \<noteq> 0 then Done PRIMITIVE_FAILED s
            else if is_smallint_value receiver
            then Done PRIMITIVE_SUCCEEDED (replace_receiver receiver s)
            else Done PRIMITIVE_SUCCEEDED
                   (replace_receiver (tag_smallint (drop_bit 3 receiver AND 0x3FFFFFFF)) s))
         else Done PRIMITIVE_UNSUPPORTED s)"

section \<open>The live image\<close>

text \<open>
  Two primitives collect and try again when their result is neither nil nor an object.
\<close>

definition result_with_retry :: "u64 \<Rightarrow> (vm \<Rightarrow> vm \<times> u64) \<Rightarrow> vm \<Rightarrow> PrimitiveResult outcome" where
  "result_with_retry om prim s =
     (case prim s of (s, result) \<Rightarrow>
        if result = TAGGED_NIL
        then Done PRIMITIVE_SUCCEEDED (replace_receiver_and_two_args TAGGED_NIL s)
        else if \<not> is_object_value result
        then and_then (collect_and_retry_allocation om s) (\<lambda>collected s.
               if \<not> collected then Trap s
               else case prim s of (s, result) \<Rightarrow>
                 if \<not> is_object_value result \<and> result \<noteq> TAGGED_NIL then Trap s
                 else Done PRIMITIVE_SUCCEEDED (replace_receiver_and_two_args result s))
        else Done PRIMITIVE_SUCCEEDED (replace_receiver_and_two_args result s))"

text \<open>The queries on a class that must be an object.\<close>

definition class_query :: "u64 \<Rightarrow> u64 \<Rightarrow> (u64 \<Rightarrow> u64) \<Rightarrow> vm \<Rightarrow> PrimitiveResult outcome" where
  "class_query arg_count expected query s =
     (let receiver = stack_at s arg_count
      in if arg_count \<noteq> expected then Done PRIMITIVE_FAILED s
         else if \<not> is_object_value receiver then Trap s
         else Done PRIMITIVE_SUCCEEDED
                ((if expected = 0 then replace_receiver else replace_receiver_and_arg) (query receiver) s))"

definition try_live_image_primitive :: "u64 \<Rightarrow> u64 \<Rightarrow> u64 \<Rightarrow> vm \<Rightarrow> PrimitiveResult outcome" where
  "try_live_image_primitive om primitive arg_count s =
     (if primitive = PRIM_CLASS_SUPERCLASS
      then class_query arg_count 0 (prim_class_superclass (memory s)) s
      else if primitive = PRIM_CLASS_NAME then class_query arg_count 0 (prim_class_name s) s
      else if primitive = PRIM_CLASS_INCLUDES_SELECTOR
      then class_query arg_count 1 (\<lambda>receiver. prim_class_includes_selector (memory s) receiver (stack_at s 0)) s
      else if primitive = PRIM_CLASS_INSTANCE_VARIABLE_NAMES
      then class_query arg_count 0 (prim_class_instance_variable_names (memory s)) s
      else if primitive = PRIM_SMALLTALK_GLOBALS then
        (if arg_count \<noteq> 0 then Done PRIMITIVE_FAILED s
         else Done PRIMITIVE_SUCCEEDED (replace_receiver (prim_smalltalk_globals s) s))
      else if primitive = PRIM_METHOD_SOURCE_FOR_CLASS_SELECTOR then
        (if arg_count \<noteq> 2 then Done PRIMITIVE_FAILED s
         else result_with_retry om
                (\<lambda>s. (s, prim_method_source_for_class_selector s (stack_at s 1) (stack_at s 0))) s)
      else if primitive = PRIM_READ_FD_COUNT then
        (if arg_count \<noteq> 2 then Done PRIMITIVE_FAILED s
         else result_with_retry om (\<lambda>s. prim_read_fd_count (stack_at s 1) (stack_at s 0) om s) s)
      else if primitive = PRIM_WRITE_FD_STRING then
        (if arg_count \<noteq> 2 then Done PRIMITIVE_FAILED s
         else case prim_write_fd_string (stack_at s 1) (stack_at s 0) s of (s, result) \<Rightarrow>
           Done PRIMITIVE_SUCCEEDED (replace_receiver_and_two_args result s))
      else Done PRIMITIVE_UNSUPPORTED s)"

section \<open>Characters\<close>

definition char_upcase :: "u64 \<Rightarrow> u64" where
  "char_upcase receiver =
     (let code_point = drop_bit CHAR_SHIFT receiver
      in if code_point \<ge> 97 \<and> code_point \<le> 122
         then push_bit CHAR_SHIFT (code_point - (97 - 65)) OR CHAR_TAG_VALUE else receiver)"

definition char_downcase :: "u64 \<Rightarrow> u64" where
  "char_downcase receiver =
     (let code_point = drop_bit CHAR_SHIFT receiver
      in if code_point \<ge> 65 \<and> code_point \<le> 90
         then push_bit CHAR_SHIFT (code_point + (97 - 65)) OR CHAR_TAG_VALUE else receiver)"

definition try_character_primitive :: "u64 \<Rightarrow> u64 \<Rightarrow> vm \<Rightarrow> PrimitiveResult outcome" where
  "try_character_primitive primitive arg_count s =
     (if primitive \<noteq> PRIM_CHAR_VALUE \<and> primitive \<noteq> PRIM_AS_CHARACTER \<and> primitive \<noteq> PRIM_CHAR_IS_LETTER \<and>
         primitive \<noteq> PRIM_CHAR_IS_DIGIT \<and> primitive \<noteq> PRIM_CHAR_UPPERCASE \<and>
         primitive \<noteq> PRIM_CHAR_LOWERCASE \<and> primitive \<noteq> PRIM_PRINT_CHAR
      then Done PRIMITIVE_UNSUPPORTED s
      else if arg_count \<noteq> 0 then Done PRIMITIVE_FAILED s
      else
        let receiver = stack_at s 0; code_point = drop_bit CHAR_SHIFT receiver
        in if primitive = PRIM_AS_CHARACTER then
             (if \<not> is_smallint_value receiver then Trap s
              else Done PRIMITIVE_SUCCEEDED (replace_receiver
                     (push_bit CHAR_SHIFT (untag_smallint receiver) OR CHAR_TAG_VALUE) s))
           else if \<not> is_character_value receiver then Trap s
           else if primitive = PRIM_CHAR_VALUE
           then Done PRIMITIVE_SUCCEEDED (replace_receiver (tag_smallint code_point) s)
           else if primitive = PRIM_CHAR_IS_LETTER
           then Done PRIMITIVE_SUCCEEDED (replace_receiver
                  (if (code_point \<ge> 65 \<and> code_point \<le> 90) \<or> (code_point \<ge> 97 \<and> code_point \<le> 122)
                   then TAGGED_TRUE else TAGGED_FALSE) s)
           else if primitive = PRIM_CHAR_IS_DIGIT
           then Done PRIMITIVE_SUCCEEDED (replace_receiver
                  (if code_point \<ge> 48 \<and> code_point \<le> 57 then TAGGED_TRUE else TAGGED_FALSE) s)
           else if primitive = PRIM_CHAR_UPPERCASE
           then Done PRIMITIVE_SUCCEEDED (replace_receiver (char_upcase receiver) s)
           else if primitive = PRIM_CHAR_LOWERCASE
           then Done PRIMITIVE_SUCCEEDED (replace_receiver (char_downcase receiver) s)
           else Done PRIMITIVE_SUCCEEDED (replace_receiver receiver
                  (s\<lparr>console := console s @ [(1, [ucast code_point])]\<rparr>)))"

section \<open>Strings and symbols\<close>

definition try_string_symbol_primitive :: "u64 \<Rightarrow> u64 \<Rightarrow> vm \<Rightarrow> PrimitiveResult outcome" where
  "try_string_symbol_primitive primitive arg_count s =
     (let m = memory s; receiver = stack_at s arg_count; arg = stack_at s 0
      in if primitive = PRIM_STRING_EQ then
           (if arg_count \<noteq> 1 then Done PRIMITIVE_FAILED s
            else if \<not> is_bytes_object m receiver then Trap s
            else if \<not> is_bytes_object m arg then Done PRIMITIVE_FAILED s
            else Done PRIMITIVE_SUCCEEDED (replace_receiver_and_arg
                   (if OBJ_SIZE m receiver = OBJ_SIZE m arg \<and> object_bytes m receiver = object_bytes m arg
                    then TAGGED_TRUE else TAGGED_FALSE) s))
         else if primitive = PRIM_STRING_HASH_FNV then
           (if arg_count \<noteq> 0 then Done PRIMITIVE_FAILED s
            else if \<not> is_bytes_object m receiver then Trap s
            else Done PRIMITIVE_SUCCEEDED (replace_receiver
                   (tag_smallint (ucast (foldl fnv32_byte_step 0x811C9DC5 (object_bytes m receiver)))) s))
         else if primitive = PRIM_STRING_AS_SYMBOL then
           (if arg_count \<noteq> 0 then Done PRIMITIVE_FAILED s
            else if \<not> is_bytes_object m receiver then Trap s
            else case prim_string_as_symbol receiver s of (s, result) \<Rightarrow>
              Done PRIMITIVE_SUCCEEDED (replace_receiver result s))
         else if primitive = PRIM_SYMBOL_EQ then
           (if arg_count \<noteq> 1 then Done PRIMITIVE_FAILED s
            else if \<not> is_bytes_object m receiver then Trap s
            else if \<not> is_bytes_object m arg then Done PRIMITIVE_FAILED s
            else Done PRIMITIVE_SUCCEEDED (replace_receiver_and_arg
                   (if receiver = arg then TAGGED_TRUE else TAGGED_FALSE) s))
         else Done PRIMITIVE_UNSUPPORTED s)"

end
