(* ===== verification/Image_Prims.thy ===== *)
theory Image_Prims
  imports Prims
begin

text \<open>
  \<^verbatim>\<open>try_image_primitive\<close> of \<^verbatim>\<open>src/c_vm/interpret.c\<close>: writing a checkpoint of the heap to a file, and
  loading one to read a global. \<^verbatim>\<open>malloc\<close> of the tables and buffers is taken to succeed; the address
  of the loaded heap is an answer of the operating system. \<^verbatim>\<open>fseek\<close> succeeds, and reading at an
  offset fails only at the end of the file.
\<close>

section \<open>Preparing a checkpoint\<close>

definition checkpoint_tables :: "'a heap_scheme \<Rightarrow> u64 \<Rightarrow> u64 \<Rightarrow> u64 \<Rightarrow> page_tables" where
  "checkpoint_tables h om heap_start count =
     (let pages = map of_nat [0..<unat count]
      in \<lparr>state_table = map (\<lambda>p. ucast (om_page_state h om p)) pages,
          used_table = map (om_page_used_bytes h om) pages,
          first_table = map (\<lambda>p. page_object_offset_in_heap (om_page_first_object_start h om p) heap_start) pages,
          covering_table = map (\<lambda>p. page_object_offset_in_heap (om_page_covering_object h om p) heap_start) pages,
          checksum_table = map (\<lambda>p. 0) pages\<rparr>)"

definition checkpoint_header :: "vm \<Rightarrow> u64 \<Rightarrow> u64 \<Rightarrow> u64 \<Rightarrow> u64 \<Rightarrow> ImageCheckpointHeader" where
  "checkpoint_header s class_table heap_start used count =
     \<lparr>magic = IMAGE_CHECKPOINT_MAGIC, used_size = used, page_bytes = OM_PAGE_BYTES, page_count = count,
      generation = 1,
      symbol_table_offset = object_offset_in_heap (symbol_table s) heap_start,
      symbol_class_offset = object_offset_in_heap (symbol_class s) heap_start,
      context_class_offset = object_offset_in_heap (context_class s) heap_start,
      smalltalk_dict_offset = object_offset_in_heap (smalltalk_dictionary s) heap_start,
      class_table_offset = object_offset_in_heap class_table heap_start,
      metadata_checksum = 0\<rparr>"

text \<open>The file at the path, when clean pages can be taken from it.\<close>

definition checkpoint_source :: "u8 list option \<Rightarrow> u64 \<Rightarrow> (u8 list \<times> u64) option" where
  "checkpoint_source file count =
     (case file of None \<Rightarrow> None
      | Some bytes \<Rightarrow>
          (case read_header bytes of None \<Rightarrow> None
           | Some (existing_header, _) \<Rightarrow>
               if magic existing_header \<noteq> IMAGE_CHECKPOINT_MAGIC \<or>
                  page_bytes existing_header \<noteq> OM_PAGE_BYTES \<or>
                  page_count existing_header \<noteq> count \<or>
                  \<not> image_checkpoint_validate file
               then None else Some (bytes, generation existing_header)))"

section \<open>The pages\<close>

text \<open>The image of a page: its live bytes with pointers made relative, zeros behind.\<close>

definition checkpoint_page_copy ::
  "'a heap_scheme \<Rightarrow> u64 \<Rightarrow> u64 \<Rightarrow> u64 \<Rightarrow> u64 \<Rightarrow> u64 \<Rightarrow> u8 list option" where
  "checkpoint_page_copy h om heap_start used state page_id =
     (let live = unat (checkpoint_page_live_bytes used page_id)
      in if state \<noteq> 0 \<and> live > 0
         then checkpoint_page_pointers_to_offsets h om heap_start (heap_start + used)
                (bytes_of (memory h) (heap_start + page_id * OM_PAGE_BYTES) live @ replicate (4096 - live) 0)
                used page_id
         else Some (replicate 4096 0))"

text \<open>What goes into the file: a page that is not dirty is taken from the source file.\<close>

definition checkpoint_written_page ::
  "'a heap_scheme \<Rightarrow> u64 \<Rightarrow> u8 list option \<Rightarrow> u64 \<Rightarrow> u64 \<Rightarrow> u64 \<Rightarrow> u8 list \<Rightarrow> u8 list" where
  "checkpoint_written_page h om source count state page_id page_copy =
     (if state = 0 then page_copy
      else case source of
        None \<Rightarrow> page_copy
      | Some file \<Rightarrow>
          if om_page_is_dirty h om page_id then page_copy
          else
            let source_page = take 4096 (drop (unat (checkpoint_page_file_offset count page_id)) file)
            in if length source_page \<noteq> 4096 then page_copy else source_page)"

text \<open>
  The loop over the pages: checksums and written pages. An inner \<open>None\<close> is a failed write, an outer
  one a walk that never ends.
\<close>

fun checkpoint_pages ::
  "'a heap_scheme \<Rightarrow> u64 \<Rightarrow> u64 \<Rightarrow> u64 \<Rightarrow> u64 \<Rightarrow> u8 list option \<Rightarrow> (nat \<Rightarrow> bool) \<Rightarrow> u64 list \<Rightarrow> nat list \<Rightarrow>
     (u64 \<times> u8 list) list option option" where
  "checkpoint_pages h om heap_start used count source write_ok states [] = Some (Some [])"
| "checkpoint_pages h om heap_start used count source write_ok states (page_id # pages) =
     (let state = states ! page_id; p = of_nat page_id
      in case checkpoint_page_copy h om heap_start used state p of
           None \<Rightarrow> None
         | Some page_copy \<Rightarrow>
             if \<not> write_ok page_id then Some None
             else map_option (map_option (\<lambda>rest.
                    (checkpoint_page_checksum page_copy,
                     checkpoint_written_page h om source count state p page_copy) # rest))
                  (checkpoint_pages h om heap_start used count source write_ok states pages))"

text \<open>The complete file.\<close>

definition checkpoint_file :: "ImageCheckpointHeader \<Rightarrow> page_tables \<Rightarrow> (u64 \<times> u8 list) list \<Rightarrow> u8 list" where
  "checkpoint_file header t pages =
     (let t = t\<lparr>checksum_table := map fst pages\<rparr>;
          header = header\<lparr>metadata_checksum := checkpoint_metadata_checksum header t\<rparr>
      in words_bytes (header_words header) @ words_bytes (table_words t) @ concat (map snd pages))"

section \<open>Checkpoint\<close>

definition temp_path_of :: "u8 list \<Rightarrow> u8 list option" where
  "temp_path_of path = (if length path + 4 \<ge> 1088 then None else Some (path @ c_string ''.tmp''))"

definition finish_checkpoint :: "u64 \<Rightarrow> u8 list \<Rightarrow> u8 list \<Rightarrow> u8 list \<Rightarrow> vm \<Rightarrow> PrimitiveResult outcome" where
  "finish_checkpoint om path temp_path image_file s =
     (let os = os_now s; failed = Done PRIMITIVE_FAILED
      in if \<not> temp_sync_ok os \<or> \<not> rename_ok os
         then failed (os_next (s\<lparr>files := (files s)(temp_path := None)\<rparr>))
         else
           let synced = checkpoint_fsync_parent_directory path s;
               s = os_next (s\<lparr>files := (files s)(path := Some image_file, temp_path := None)\<rparr>)
           in if \<not> synced then failed s
              else case vm_log_clear (om_clear_dirty_pages s om) of (cleared, s) \<Rightarrow>
                if \<not> cleared then failed s
                else Done PRIMITIVE_SUCCEEDED (replace_receiver_and_arg (stack_at s 0) s))"

definition prim_checkpoint_to :: "u64 \<Rightarrow> u64 \<Rightarrow> u64 \<Rightarrow> vm \<Rightarrow> PrimitiveResult outcome" where
  "prim_checkpoint_to om class_table arg_count s =
     (if arg_count \<noteq> 1 then Done PRIMITIVE_FAILED s
      else case bytes_object_to_cstring (memory s) (stack_at s 0) 1024 of
        None \<Rightarrow> Done PRIMITIVE_FAILED s
      | Some path \<Rightarrow>
          let heap_start = heap_start_for_om s om; used = heap_used_bytes_for_om s om
          in if heap_start = 0 \<or> used = 0 then Done PRIMITIVE_FAILED s
             else
               let count = checkpoint_page_count used;
                   t = checkpoint_tables s om heap_start count;
                   header = checkpoint_header s class_table heap_start used count;
                   source = checkpoint_source (files s path) count;
                   header = (case source of None \<Rightarrow> header
                             | Some (_, existing) \<Rightarrow> header\<lparr>generation := existing + 1\<rparr>);
                   os = os_now s
               in case temp_path_of path of
                    None \<Rightarrow> Done PRIMITIVE_FAILED s
                  | Some temp_path \<Rightarrow>
                      if \<not> temp_opens os
                      then (if source = None then Trap (os_next s) else Done PRIMITIVE_FAILED (os_next s))
                      else if \<not> temp_metadata_ok os
                      then Done PRIMITIVE_FAILED (os_next (s\<lparr>files := (files s)(temp_path := None)\<rparr>))
                      else case checkpoint_pages s om heap_start used count (map_option fst source)
                                  (temp_page_ok os) (state_table t) [0..<unat count] of
                        None \<Rightarrow> No_result
                      | Some None \<Rightarrow> Done PRIMITIVE_FAILED (os_next (s\<lparr>files := (files s)(temp_path := None)\<rparr>))
                      | Some (Some pages) \<Rightarrow>
                          finish_checkpoint om path temp_path (checkpoint_file header t pages) s)"

section \<open>Restart\<close>

text \<open>Each page is read whole and checked; the live bytes of the pages in use go into the heap.\<close>

fun load_pages :: "mem \<Rightarrow> u64 \<Rightarrow> u64 \<Rightarrow> page_tables \<Rightarrow> u8 list \<Rightarrow> nat list \<Rightarrow> mem option" where
  "load_pages m loaded_heap used t file [] = Some m"
| "load_pages m loaded_heap used t file (page_id # pages) =
     (let page_buffer = take 4096 file;
          p = of_nat page_id;
          page_live_bytes = checkpoint_page_live_bytes used p
      in if length page_buffer \<noteq> 4096 then None
         else if checkpoint_page_checksum page_buffer \<noteq> checksum_table t ! page_id then None
         else
           let m = (if state_table t ! page_id \<noteq> 0 \<and> page_live_bytes > 0
                    then put_bytes m (loaded_heap + p * OM_PAGE_BYTES)
                           (take (unat page_live_bytes) page_buffer)
                    else m)
           in load_pages m loaded_heap used t (drop 4096 file) pages)"

definition load_image :: "mem \<Rightarrow> u64 \<Rightarrow> ImageCheckpointHeader \<Rightarrow> page_tables \<Rightarrow> u8 list \<Rightarrow> mem option option" where
  "load_image m loaded_heap header t file =
     (let used = used_size header
      in if page_count header \<noteq> 0 then
           (case load_pages m loaded_heap used t file [0..<unat (page_count header)] of
              None \<Rightarrow> Some None
            | Some m \<Rightarrow>
                map_option Some (image_offsets_to_live_pointers_paged m loaded_heap used loaded_heap
                  (used_table t) (first_table t) (covering_table t) (page_count header)))
         else if length file < unat used then Some None
         else map_option Some (image_offsets_to_pointers (put_bytes m loaded_heap (take (unat used) file)) loaded_heap
                used loaded_heap))"

text \<open>The first association with the key in the dictionary of the loaded image.\<close>

definition smalltalk_lookup_loaded_global :: "vm \<Rightarrow> u64 \<Rightarrow> u64" where
  "smalltalk_lookup_loaded_global s key =
     (let m = memory s; dictionary = smalltalk_dictionary s
      in if dictionary = 0 \<or> \<not> is_object_value dictionary then TAGGED_NIL
         else
           let associations = OBJ_FIELD m dictionary 0;
               tally_oop = OBJ_FIELD m dictionary 1;
               tally = (if tally_oop = TAGGED_NIL then 0 else untag_smallint tally_oop)
           in if \<not> is_object_value associations then TAGGED_NIL
              else case List.find (\<lambda>i. let assoc = OBJ_FIELD m associations (of_nat i)
                          in is_object_value assoc \<and> OBJ_FIELD m assoc 0 = key) [0..<unat tally] of
                     None \<Rightarrow> TAGGED_NIL
                   | Some i \<Rightarrow> OBJ_FIELD m (OBJ_FIELD m associations (of_nat i)) 1)"

text \<open>The globals point into the loaded heap while the log is replayed and the key looked up.\<close>

definition restart_value :: "u64 \<Rightarrow> ImageCheckpointHeader \<Rightarrow> u8 list \<Rightarrow> vm \<Rightarrow> PrimitiveResult outcome" where
  "restart_value loaded_heap header key_text s =
     (let saved = s;
          restore = (\<lambda>s. s\<lparr>symbol_table := symbol_table saved, symbol_class := symbol_class saved,
                           context_class := context_class saved,
                           smalltalk_dictionary := smalltalk_dictionary saved\<rparr>);
          s = s\<lparr>symbol_table := loaded_heap + symbol_table_offset header,
                 symbol_class := loaded_heap + symbol_class_offset header,
                 context_class := loaded_heap + context_class_offset header,
                 smalltalk_dictionary := loaded_heap + smalltalk_dict_offset header\<rparr>
      in case vm_log_replay loaded_heap (used_size header) s of (s, replayed) \<Rightarrow>
           if \<not> replayed then Done PRIMITIVE_FAILED (restore s)
           else
             let loaded_key = lookup_cstring_symbol s key_text;
                 loaded_value = (if loaded_key = TAGGED_NIL then TAGGED_NIL
                                 else smalltalk_lookup_loaded_global s loaded_key)
             in Done PRIMITIVE_SUCCEEDED (replace_receiver_and_two_args loaded_value (restore s)))"

definition prim_restart_value_of_global :: "u64 \<Rightarrow> vm \<Rightarrow> PrimitiveResult outcome" where
  "prim_restart_value_of_global arg_count s =
     (case (bytes_object_to_cstring (memory s) (stack_at s 1) 1024,
            bytes_object_to_cstring (memory s) (stack_at s 0) 512) of
        (Some path, Some key_text) \<Rightarrow>
          if arg_count \<noteq> 2 then Done PRIMITIVE_FAILED s
          else (case Option.bind (files s path) read_header of
             None \<Rightarrow> Done PRIMITIVE_FAILED s
           | Some (header, rest) \<Rightarrow>
               (case checkpoint_load_page_tables rest (page_count header) of
                  None \<Rightarrow> Done PRIMITIVE_FAILED s
                | Some (t, rest) \<Rightarrow>
                    if \<not> checkpoint_header_is_valid header t then Done PRIMITIVE_FAILED s
                    else
                      let loaded_heap = malloc_answer (os_now s); s = os_next s
                      in if loaded_heap = 0 then Done PRIMITIVE_FAILED s
                         else case load_image (memory s) loaded_heap header t rest of
                           None \<Rightarrow> No_result
                         | Some None \<Rightarrow> Done PRIMITIVE_FAILED s
                         | Some (Some m) \<Rightarrow> restart_value loaded_heap header key_text (s\<lparr>memory := m\<rparr>)))
      | _ \<Rightarrow> Done PRIMITIVE_FAILED s)"

definition try_image_primitive :: "u64 \<Rightarrow> u64 \<Rightarrow> u64 \<Rightarrow> u64 \<Rightarrow> vm \<Rightarrow> PrimitiveResult outcome" where
  "try_image_primitive om class_table primitive arg_count s =
     (if primitive = PRIM_IMAGE_CHECKPOINT_TO then prim_checkpoint_to om class_table arg_count s
      else if primitive = PRIM_IMAGE_RESTART_VALUE_OF_GLOBAL then prim_restart_value_of_global arg_count s
      else Done PRIMITIVE_UNSUPPORTED s)"

section \<open>Indexed access\<close>

text \<open>\<^verbatim>\<open>at:\<close> and \<^verbatim>\<open>at:put:\<close> share the checks of the index: 0 based, or \<open>None\<close> when it fails.\<close>

definition checked_index :: "mem \<Rightarrow> u64 \<Rightarrow> u64 \<Rightarrow> u64 option" where
  "checked_index m receiver index_oop =
     (if \<not> is_smallint_value index_oop then None
      else
        let one_based_index = untag_smallint index_oop
        in if sint one_based_index < 1 then None
           else
             let index = one_based_index - 1
             in if OBJ_FORMAT m receiver = FORMAT_FIELDS \<or> index \<ge> OBJ_SIZE m receiver then None
                else Some index)"

text \<open>A read through the log of the transaction, if there is one.\<close>

definition read_through_log :: "mem \<Rightarrow> u64 \<Rightarrow> u64 \<Rightarrow> u64 \<Rightarrow> u64 \<Rightarrow> u64" where
  "read_through_log m txn_log receiver index stored =
     (if txn_log = 0 then stored
      else case txn_log_read m txn_log receiver index of None \<Rightarrow> stored | Some v \<Rightarrow> v)"

definition prim_at :: "u64 \<Rightarrow> u64 \<Rightarrow> vm \<Rightarrow> PrimitiveResult outcome" where
  "prim_at arg_count txn_log s =
     (let m = memory s; receiver = stack_at s arg_count; format = OBJ_FORMAT m receiver
      in if arg_count \<noteq> 1 then Done PRIMITIVE_FAILED s
         else if \<not> is_object_value receiver then Trap s
         else case checked_index m receiver (stack_at s 0) of
           None \<Rightarrow> Done PRIMITIVE_FAILED s
         | Some index \<Rightarrow>
             if format = FORMAT_BYTES
             then Done PRIMITIVE_SUCCEEDED (replace_receiver_and_arg
                    (read_through_log m txn_log receiver (byte_txn_index index)
                       (tag_smallint (ucast (byte_get m (slot receiver 3) (unat index))))) s)
             else if format = FORMAT_INDEXABLE
             then Done PRIMITIVE_SUCCEEDED (replace_receiver_and_arg
                    (read_through_log m txn_log receiver index (OBJ_FIELD m receiver index)) s)
             else Done PRIMITIVE_FAILED s)"

definition store_byte :: "u64 \<Rightarrow> u64 \<Rightarrow> u64 \<Rightarrow> u64 \<Rightarrow> u64 \<Rightarrow> vm \<Rightarrow> vm option" where
  "store_byte om txn_log receiver index v s =
     (if txn_log \<noteq> 0
      then Some (s\<lparr>memory := txn_log_write (memory s) txn_log receiver (byte_txn_index index) v\<rparr>)
      else if \<not> is_smallint_value v then None
      else
        let byte_value = untag_smallint v
        in if sint byte_value < 0 \<or> sint byte_value > 255 then None
           else Some (om_mark_byte_dirty
                  (s\<lparr>memory := byte_put (memory s) (slot receiver 3) (unat index) (ucast byte_value)\<rparr>)
                  om receiver index))"

definition store_field :: "u64 \<Rightarrow> u64 \<Rightarrow> u64 \<Rightarrow> u64 \<Rightarrow> u64 \<Rightarrow> vm \<Rightarrow> vm" where
  "store_field om txn_log receiver index v s =
     (if txn_log \<noteq> 0 then s\<lparr>memory := txn_log_write (memory s) txn_log receiver index v\<rparr>
      else om_mark_field_dirty (s\<lparr>memory := set_field (memory s) receiver index v\<rparr>) om receiver index)"

definition prim_at_put :: "u64 \<Rightarrow> u64 \<Rightarrow> u64 \<Rightarrow> vm \<Rightarrow> PrimitiveResult outcome" where
  "prim_at_put om arg_count txn_log s =
     (let m = memory s; receiver = stack_at s arg_count; format = OBJ_FORMAT m receiver; v = stack_at s 0
      in if arg_count \<noteq> 2 then Done PRIMITIVE_FAILED s
         else if \<not> is_object_value receiver then Trap s
         else case checked_index m receiver (stack_at s 1) of
           None \<Rightarrow> Done PRIMITIVE_FAILED s
         | Some index \<Rightarrow>
             if format = FORMAT_BYTES then
               (case store_byte om txn_log receiver index v s of
                  None \<Rightarrow> Done PRIMITIVE_FAILED s
                | Some s \<Rightarrow> Done PRIMITIVE_SUCCEEDED (replace_receiver_and_two_args receiver s))
             else if format = FORMAT_INDEXABLE
             then Done PRIMITIVE_SUCCEEDED
                    (replace_receiver_and_two_args receiver (store_field om txn_log receiver index v s))
             else Done PRIMITIVE_FAILED s)"

definition prim_size :: "u64 \<Rightarrow> vm \<Rightarrow> PrimitiveResult outcome" where
  "prim_size arg_count s =
     (let receiver = stack_at s arg_count
      in if arg_count \<noteq> 0 then Done PRIMITIVE_FAILED s
         else if \<not> is_object_value receiver then Trap s
         else Done PRIMITIVE_SUCCEEDED (replace_receiver (tag_smallint (OBJ_SIZE (memory s) receiver)) s))"

end
