(* ===== verification/Blocks.thy ===== *)
theory Blocks
  imports Image_Prims Txn_Log
begin

text \<open>
  The parts of \<^verbatim>\<open>src/c_vm/interpret.c\<close> that run code: activating and invoking blocks, sending a
  message from C, signals, \<^verbatim>\<open>ensure:\<close>, \<^verbatim>\<open>on:do:\<close> and the transaction primitives. They are written over
  the interpreter they call back, the argument \<open>interp\<close> (instruction pointer, class table,
  transaction log, machine); \<^verbatim>\<open>Interpret\<close> ties the knot. \<^verbatim>\<open>setjmp\<close> is \<open>catching\<close>: it takes a
  \<open>Longjmp\<close> to its own frame, with the C locals and the C stack as they were.
\<close>

type_synonym callee = "u64 \<Rightarrow> u64 \<Rightarrow> u64 \<Rightarrow> vm \<Rightarrow> u64 outcome"

section \<open>C locals\<close>

definition restore_locals :: "vm \<Rightarrow> vm \<Rightarrow> vm" where
  "restore_locals s s' = s'\<lparr>vm_ip := vm_ip s, vm_base := vm_base s,
     vm_class_table := vm_class_table s, c_stack := c_stack s\<rparr>"

definition restore_registers :: "u64 \<Rightarrow> u64 \<Rightarrow> vm \<Rightarrow> vm" where
  "restore_registers sp fp s = s\<lparr>vm_sp := sp, vm_fp := fp\<rparr>"

text \<open>A nested \<^verbatim>\<open>interpret\<close> returns to the locals of its caller.\<close>

definition run_nested :: "callee \<Rightarrow> u64 \<Rightarrow> u64 \<Rightarrow> u64 \<Rightarrow> vm \<Rightarrow> u64 outcome" where
  "run_nested interp ip class_table txn_log s =
     and_then (interp ip class_table txn_log s) (\<lambda>v s'. Done v (restore_locals s s'))"

definition catching :: "nat \<Rightarrow> vm \<Rightarrow> 'a outcome \<Rightarrow> (vm \<Rightarrow> 'a outcome) \<Rightarrow> 'a outcome" where
  "catching frame_id s p k = (case p of
     Longjmp i s' \<Rightarrow> if i = frame_id then k (restore_locals s s') else p
   | _ \<Rightarrow> p)"

text \<open>
  \<^verbatim>\<open>if (setjmp(ensure.env) == 0)\<close>: the first branch with the block's result, the other with the class and
  payload of the signal that came to the frame.
\<close>

definition run_protected ::
  "nat \<Rightarrow> vm \<Rightarrow> u64 outcome \<Rightarrow> (u64 \<Rightarrow> vm \<Rightarrow> 'a outcome) \<Rightarrow> (u64 \<Rightarrow> u64 \<Rightarrow> vm \<Rightarrow> 'a outcome) \<Rightarrow> 'a outcome" where
  "run_protected frame_id s p returned signaled = (case p of
     Done v s' \<Rightarrow> returned v s'
   | Trap s' \<Rightarrow> Trap s'
   | Longjmp i s' \<Rightarrow>
       if i \<noteq> frame_id then Longjmp i s'
       else
         let s' = restore_locals s s'; frame = hd (ensures s')
         in signaled (signaled_class frame) (signaled_payload frame) s'
   | No_result \<Rightarrow> No_result)"

text \<open>A fresh identity for a frame on the C stack.\<close>

definition fresh_frame_id :: "vm \<Rightarrow> nat \<times> vm" where
  "fresh_frame_id s = (next_frame_id s, s\<lparr>next_frame_id := Suc (next_frame_id s)\<rparr>)"

text \<open>Back to the chain of the \<open>n\<close> outermost frames.\<close>

definition pop_ensures :: "nat \<Rightarrow> vm \<Rightarrow> vm" where
  "pop_ensures n s = s\<lparr>ensures := drop (length (ensures s) - n) (ensures s)\<rparr>"

definition pop_handlers :: "nat \<Rightarrow> vm \<Rightarrow> vm" where
  "pop_handlers n s = s\<lparr>handlers := drop (length (handlers s) - n) (handlers s)\<rparr>"

definition pop_txn_logs :: "nat \<Rightarrow> vm \<Rightarrow> vm" where
  "pop_txn_logs n s = s\<lparr>txn_logs := drop (length (txn_logs s) - n) (txn_logs s)\<rparr>"

section \<open>Activating and invoking blocks\<close>

definition block_num_args :: "mem \<Rightarrow> u64 \<Rightarrow> u64" where
  "block_num_args m block =
     (if \<not> is_object_value block then UINT64_MAX
      else untag_smallint (OBJ_FIELD m (OBJ_FIELD m block BLOCK_CM) CM_NUM_ARGS))"

definition vm_activate_method :: "u64 \<Rightarrow> u64 \<Rightarrow> u64 \<Rightarrow> u64 \<Rightarrow> vm \<Rightarrow> unit outcome" where
  "vm_activate_method saved_ip method num_args num_temps s =
     (case activate_method (memory s) (stack_limit_low s) (vm_sp s) (vm_fp s) saved_ip method num_args num_temps of
        None \<Rightarrow> Trap s
      | Some (m, sp, fp) \<Rightarrow> Done () (s\<lparr>memory := m, vm_sp := sp, vm_fp := fp\<rparr>))"

text \<open>Start the bytecodes of the method of the current frame.\<close>

definition enter_method :: "vm \<Rightarrow> vm" where
  "enter_method s =
     (let m = memory s; base = field_addr (OBJ_FIELD m (m (slot (vm_fp s) FRAME_METHOD)) CM_BYTECODES) 0
      in s\<lparr>vm_base := base, vm_ip := base\<rparr>)"

definition activate_block_call :: "u64 \<Rightarrow> u64 \<Rightarrow> u64 \<Rightarrow> vm \<Rightarrow> unit outcome" where
  "activate_block_call block arg_count class_table s =
     (let m = memory s
      in if \<not> is_object_value block \<or> OBJ_CLASS m block \<noteq> OBJ_FIELD m class_table CLASS_TABLE_BLOCK
         then Trap s
         else
           let home_receiver = OBJ_FIELD m block BLOCK_HOME_RECEIVER;
               block_method = OBJ_FIELD m block BLOCK_CM;
               copied_count = block_copied_count m block;
               method_temps = untag_smallint (OBJ_FIELD m block_method CM_NUM_TEMPS);
               s = (if arg_count = 0
                    then let (v, sp) = pop m (vm_sp s); (m, sp) = push (m, sp) home_receiver
                         in s\<lparr>memory := m, vm_sp := sp\<rparr>
                    else s\<lparr>memory := m(slot (vm_sp s) (uint arg_count) := home_receiver)\<rparr>)
           in and_then (vm_activate_method (vm_ip s) block_method arg_count (method_temps + copied_count) s)
                (\<lambda>_ s.
                   let m = populate_block_copied_values (memory s) (vm_fp s) block copied_count;
                       m = mark_block_frame m (vm_fp s) block
                   in Done () (enter_method (s\<lparr>memory := m\<rparr>))))"

definition push_word :: "u64 \<Rightarrow> vm \<Rightarrow> vm" where
  "push_word v s = (let (m, sp) = push (memory s, vm_sp s) v in s\<lparr>memory := m, vm_sp := sp\<rparr>)"

definition invoke_block_closure ::
  "callee \<Rightarrow> u64 \<Rightarrow> u64 \<Rightarrow> u64 \<Rightarrow> u64 \<Rightarrow> u64 \<Rightarrow> u64 \<Rightarrow> vm \<Rightarrow> u64 outcome" where
  "invoke_block_closure interp block arg_count arg caller_ip class_table txn_log s =
     (let s0 = s;
          s = push_word block s;
          s = (if arg_count = 1 then push_word arg s else s)
      in and_then (activate_block_call block arg_count class_table (s\<lparr>vm_ip := caller_ip\<rparr>))
           (\<lambda>_ s. and_then (run_nested interp (vm_ip s) class_table txn_log s)
              (\<lambda>v s. Done v (restore_locals s0 s))))"

section \<open>Sending a message from C\<close>

definition lookup_method_for_receiver :: "mem \<Rightarrow> u64 \<Rightarrow> u64 \<Rightarrow> u64 \<Rightarrow> u64 option" where
  "lookup_method_for_receiver m receiver selector class_table =
     (let klass = oop_class m receiver class_table
      in if klass = 0 then Some 0 else class_lookup m klass selector)"

definition invoke_message_with_one_arg ::
  "callee \<Rightarrow> u64 \<Rightarrow> u64 \<Rightarrow> u64 \<Rightarrow> u64 \<Rightarrow> u64 \<Rightarrow> vm \<Rightarrow> u64 outcome" where
  "invoke_message_with_one_arg interp receiver selector arg class_table txn_log s =
     (let m = memory s; saved_sp = vm_sp s; saved_fp = vm_fp s
      in case class_lookup m (oop_class m receiver class_table) selector of
           None \<Rightarrow> No_result
         | Some method_oop \<Rightarrow>
             if \<not> is_object_value method_oop then Trap s
             else
               let bytecodes = OBJ_FIELD m method_oop CM_BYTECODES;
                   num_args = untag_smallint (OBJ_FIELD m method_oop CM_NUM_ARGS);
                   num_temps = untag_smallint (OBJ_FIELD m method_oop CM_NUM_TEMPS);
                   s = push_word arg (push_word receiver s)
               in and_then (vm_activate_method 0 method_oop num_args num_temps s)
                    (\<lambda>_ s. and_then (run_nested interp (field_addr bytecodes 0) class_table txn_log s)
                       (\<lambda>result s. Done result (restore_registers saved_sp saved_fp s))))"

section \<open>Signals\<close>

definition class_matches_exception ::
  "callee \<Rightarrow> u64 \<Rightarrow> u64 \<Rightarrow> u64 \<Rightarrow> u64 \<Rightarrow> u64 \<Rightarrow> vm \<Rightarrow> bool outcome" where
  "class_matches_exception interp om handler_class sig_class class_table txn_log s =
     (if \<not> is_object_value handler_class then Done False s
      else case intern_cstring_symbol om (c_string ''handlesSignalClass:'') s of (s, selector) \<Rightarrow>
        if selector = TAGGED_NIL then Done False s
        else and_then
          (invoke_message_with_one_arg interp handler_class selector sig_class class_table txn_log s)
          (\<lambda>match s. Done (match = TAGGED_TRUE) s))"

text \<open>
  Walk the \<open>n\<close> outermost handlers from the inside out, reading each frame when it is reached; the
  result is the first whose class matches.
\<close>

fun find_handler :: "callee \<Rightarrow> u64 \<Rightarrow> u64 \<Rightarrow> u64 \<Rightarrow> u64 \<Rightarrow> nat \<Rightarrow> vm \<Rightarrow> nat option outcome" where
  "find_handler interp om sig_class class_table txn_log 0 s = Done None s"
| "find_handler interp om sig_class class_table txn_log (Suc n) s =
     (let handler = handlers s ! (length (handlers s) - Suc n)
      in and_then (class_matches_exception interp om (exception_class handler) sig_class class_table txn_log s)
           (\<lambda>matches s. if matches then Done (Some (handler_id handler)) s
                         else find_handler interp om sig_class class_table txn_log n s))"

definition has_matching_exception_handler ::
  "callee \<Rightarrow> u64 \<Rightarrow> u64 \<Rightarrow> u64 \<Rightarrow> u64 \<Rightarrow> vm \<Rightarrow> bool outcome" where
  "has_matching_exception_handler interp om sig_class class_table txn_log s =
     and_then (find_handler interp om sig_class class_table txn_log (length (handlers s)) s)
       (\<lambda>found s. Done (found \<noteq> None) s)"

definition signal_handler :: "nat \<Rightarrow> u64 \<Rightarrow> vm \<Rightarrow> vm" where
  "signal_handler i payload s = s\<lparr>handlers := map (\<lambda>h.
     if handler_id h = i then h\<lparr>signaled_exception := payload\<rparr> else h) (handlers s)\<rparr>"

text \<open>It never returns: it jumps to the innermost ensure frame, else to a matching handler, else traps.\<close>

definition propagate_signal :: "callee \<Rightarrow> u64 \<Rightarrow> u64 \<Rightarrow> u64 \<Rightarrow> u64 \<Rightarrow> u64 \<Rightarrow> vm \<Rightarrow> 'a outcome" where
  "propagate_signal interp om sig_class payload class_table txn_log s =
     (case ensures s of
        e # es \<Rightarrow> Longjmp (ensure_id e)
                   (s\<lparr>ensures := e\<lparr>signaled_class := sig_class, signaled_payload := payload\<rparr> # es\<rparr>)
      | [] \<Rightarrow> and_then (find_handler interp om sig_class class_table txn_log (length (handlers s)) s)
          (\<lambda>found s. case found of
             None \<Rightarrow> Trap s
           | Some i \<Rightarrow> Longjmp i (signal_handler i payload s)))"

definition prim_signal :: "callee \<Rightarrow> u64 \<Rightarrow> u64 \<Rightarrow> u64 \<Rightarrow> vm \<Rightarrow> PrimitiveResult outcome" where
  "prim_signal interp om arg_count txn_log s =
     (let receiver = stack_at s arg_count
      in if arg_count \<noteq> 0 then Done PRIMITIVE_FAILED s
         else if \<not> is_object_value receiver then Done PRIMITIVE_FAILED s
         else and_then
           (if ensures s \<noteq> [] then Done True s
            else has_matching_exception_handler interp om (OBJ_CLASS (memory s) receiver)
                   (vm_class_table s) txn_log s)
           (\<lambda>handled s. if handled
              then propagate_signal interp om (OBJ_CLASS (memory s) receiver) receiver (vm_class_table s) txn_log s
              else Done PRIMITIVE_FAILED s))"

definition try_indexed_primitive :: "callee \<Rightarrow> u64 \<Rightarrow> u64 \<Rightarrow> u64 \<Rightarrow> u64 \<Rightarrow> vm \<Rightarrow> PrimitiveResult outcome" where
  "try_indexed_primitive interp om primitive arg_count txn_log s =
     (if primitive = PRIM_SIZE then prim_size arg_count s
      else if primitive = PRIM_AT then prim_at arg_count txn_log s
      else if primitive = PRIM_AT_PUT then prim_at_put om arg_count txn_log s
      else if primitive = PRIM_SIGNAL then prim_signal interp om arg_count txn_log s
      else Done PRIMITIVE_UNSUPPORTED s)"

section \<open>ensure:\<close>

definition store_top :: "u64 \<Rightarrow> u64 \<Rightarrow> u64 \<Rightarrow> vm \<Rightarrow> vm" where
  "store_top sp fp result s = s\<lparr>memory := (memory s)(sp := result), vm_sp := sp, vm_fp := fp\<rparr>"

definition prim_ensure :: "callee \<Rightarrow> u64 \<Rightarrow> u64 \<Rightarrow> vm \<Rightarrow> PrimitiveResult outcome" where
  "prim_ensure interp om txn_log s =
     (let block = stack_at s 1;
          ensure_block = stack_at s 0;
          saved_sp = slot (vm_sp s) 2; saved_fp = vm_fp s;
          class_table = vm_class_table s;
          previous = length (ensures s);
          ensure_arg_count = block_num_args (memory s) ensure_block
      in if ensure_arg_count \<noteq> 0 then Done PRIMITIVE_FAILED s
         else case fresh_frame_id s of (i, s) \<Rightarrow>
           let frame = \<lparr>ensure_id = i, ensure_saved_ip = vm_ip s, ensure_saved_base = vm_base s,
                        signaled_class = TAGGED_NIL, signaled_payload = TAGGED_NIL\<rparr>;
               caller_ip = vm_ip s;
               s0 = s;
               s = s\<lparr>ensures := frame # ensures s\<rparr>
           in run_protected i s0
                (invoke_block_closure interp block 0 TAGGED_NIL caller_ip class_table txn_log s)
                (\<lambda>protected_result s.
                   and_then (invoke_block_closure interp ensure_block 0 TAGGED_NIL caller_ip class_table txn_log
                               (restore_registers saved_sp saved_fp (pop_ensures previous s)))
                     (\<lambda>_ s. Done PRIMITIVE_SUCCEEDED (store_top (slot saved_sp (-1)) saved_fp protected_result s)))
                (\<lambda>sig_class payload s.
                   and_then (invoke_block_closure interp ensure_block 0 TAGGED_NIL caller_ip class_table txn_log
                               (restore_registers saved_sp saved_fp (pop_ensures previous s)))
                     (\<lambda>_ s. propagate_signal interp om sig_class payload class_table txn_log
                              (restore_registers saved_sp saved_fp s))))"

section \<open>on:do:\<close>

text \<open>The frame of a handler, read back after a jump to it.\<close>

definition handler_with_id :: "nat \<Rightarrow> vm \<Rightarrow> handler_frame" where
  "handler_with_id i s = the (List.find (\<lambda>h. handler_id h = i) (handlers s))"

definition prim_on_do :: "callee \<Rightarrow> u64 \<Rightarrow> vm \<Rightarrow> PrimitiveResult outcome" where
  "prim_on_do interp txn_log s =
     (let block = stack_at s 2;
          class_table = vm_class_table s;
          previous = length (handlers s);
          saved_sp = slot (vm_sp s) 3; saved_fp = vm_fp s; caller_ip = vm_ip s
      in case fresh_frame_id s of (i, s) \<Rightarrow>
           let handler = \<lparr>handler_id = i, exception_class = stack_at s 1, handler_block = stack_at s 0,
                 handler_saved_sp = saved_sp, handler_saved_fp = saved_fp, handler_saved_ip = caller_ip,
                 handler_saved_base = vm_base s,
                 handler_arg_count = block_num_args (memory s) (stack_at s 0),
                 signaled_exception = TAGGED_NIL\<rparr>;
               s0 = s;
               s = restore_registers saved_sp saved_fp (s\<lparr>handlers := handler # handlers s\<rparr>)
           in catching i s0
                (and_then (invoke_block_closure interp block 0 TAGGED_NIL caller_ip class_table txn_log s)
                   (\<lambda>block_result s. Done PRIMITIVE_SUCCEEDED
                      (pop_handlers previous (store_top (slot saved_sp (-1)) saved_fp block_result s))))
                (\<lambda>s.
                   let handler = handler_with_id i s;
                       s = pop_handlers previous (restore_registers saved_sp saved_fp s)
                   in if handler_arg_count handler > 1 then Done PRIMITIVE_FAILED s
                      else and_then
                        (invoke_block_closure interp (handler_block handler) (handler_arg_count handler)
                           (signaled_exception handler) caller_ip class_table txn_log s)
                        (\<lambda>block_result s. Done PRIMITIVE_SUCCEEDED
                           (pop_handlers previous (store_top (slot saved_sp (-1)) saved_fp block_result s)))))"

definition try_block_primitive :: "callee \<Rightarrow> u64 \<Rightarrow> u64 \<Rightarrow> u64 \<Rightarrow> u64 \<Rightarrow> vm \<Rightarrow> PrimitiveResult outcome" where
  "try_block_primitive interp om primitive arg_count txn_log s =
     (if primitive \<noteq> PRIM_BLOCK_VALUE \<and> primitive \<noteq> PRIM_BLOCK_VALUE_ARG \<and>
         primitive \<noteq> PRIM_BLOCK_ON_DO \<and> primitive \<noteq> PRIM_BLOCK_ENSURE
      then Done PRIMITIVE_UNSUPPORTED s
      else if (primitive = PRIM_BLOCK_VALUE \<and> arg_count \<noteq> 0) \<or>
              (primitive = PRIM_BLOCK_VALUE_ARG \<and> arg_count \<noteq> 1) \<or>
              (primitive = PRIM_BLOCK_ON_DO \<and> arg_count \<noteq> 2) \<or>
              (primitive = PRIM_BLOCK_ENSURE \<and> arg_count \<noteq> 1)
      then Done PRIMITIVE_FAILED s
      else if primitive = PRIM_BLOCK_ENSURE then prim_ensure interp om txn_log s
      else if primitive = PRIM_BLOCK_ON_DO then prim_on_do interp txn_log s
      else and_then (activate_block_call (stack_at s arg_count) arg_count (vm_class_table s) s)
             (\<lambda>_ s. Done PRIMITIVE_SUCCEEDED s))"

section \<open>Transactions\<close>

definition record_write_barrier :: "mem \<Rightarrow> u64 \<Rightarrow> u64 \<Rightarrow> u64 \<Rightarrow> u64 \<Rightarrow> mem" where
  "record_write_barrier m om receiver field_index v =
     (let tenured_start = m (slot om GC_TENURED_START)
      in if tenured_start = 0 \<or> receiver < tenured_start \<or> receiver \<ge> m (slot om GC_TENURED_END) then m
         else if \<not> is_object_value v \<or> v = 0 \<or> v < m (slot om GC_FROM_START) \<or> v \<ge> m (slot om GC_FROM_END)
         then m
         else
           let remembered = m (slot om GC_REMEMBERED)
           in if remembered \<noteq> 0 then txn_log_write m remembered receiver field_index v else m)"

definition mark_dirty_entry :: "u64 \<Rightarrow> entry \<Rightarrow> 'a heap_scheme \<Rightarrow> 'a heap_scheme" where
  "mark_dirty_entry om e h = (case e of (obj, field_index, _) \<Rightarrow>
     if \<not> is_object_value obj then h
     else if drop_bit 63 field_index \<noteq> 0
     then om_mark_byte_dirty h om obj (field_index AND NOT (push_bit 63 1))
     else om_mark_field_dirty h om obj field_index)"

definition mark_dirty_pages_for_txn_log :: "u64 \<Rightarrow> u64 \<Rightarrow> 'a heap_scheme \<Rightarrow> 'a heap_scheme" where
  "mark_dirty_pages_for_txn_log log om h =
     (if log = 0 then h else fold (mark_dirty_entry om) (log_entries (memory h) log) h)"

text \<open>The end of the block: commit or abort, by the kind of transaction; \<open>False\<close> is a failed append.\<close>

definition finish_transaction :: "u64 \<Rightarrow> u64 \<Rightarrow> u64 \<Rightarrow> vm \<Rightarrow> bool \<times> vm" where
  "finish_transaction om primitive log s =
     (if primitive = PRIM_TRANSACTION_READ_ONLY then (True, s\<lparr>memory := txn_abort (memory s) log\<rparr>)
      else if primitive = PRIM_TRANSACTION_DURABLE then
        (case vm_log_append log (heap_start_for_om s om) (memory s om) s of (appended, s) \<Rightarrow>
           if \<not> appended then (False, s\<lparr>memory := txn_abort (memory s) log\<rparr>)
           else
             let s = mark_dirty_pages_for_txn_log log om s
             in (True, s\<lparr>memory := txn_commit_durable (memory s) log\<rparr>))
      else
        let s = mark_dirty_pages_for_txn_log log om s
        in (True, s\<lparr>memory := txn_commit (memory s) log\<rparr>))"

text \<open>A transaction of its own: an empty log on the C stack, an ensure frame that catches signals.\<close>

definition outer_transaction :: "callee \<Rightarrow> u64 \<Rightarrow> u64 \<Rightarrow> u64 \<Rightarrow> u64 \<Rightarrow> vm \<Rightarrow> PrimitiveResult outcome" where
  "outer_transaction interp om primitive block txn_log s =
     (let saved_sp = slot (vm_sp s) 2; saved_fp = vm_fp s;
          class_table = vm_class_table s; caller_ip = vm_ip s;
          previous_ensure = length (ensures s); previous_logs = length (txn_logs s);
          log = slot (c_stack s) (- int TRANSACTION_LOG_WORD_CAPACITY)
      in case fresh_frame_id s of (i, s) \<Rightarrow>
           let s0 = s;
               m = fold (\<lambda>k m. m(slot log (int k) := 0)) [0..<TRANSACTION_LOG_WORD_CAPACITY] (memory s);
               frame = \<lparr>ensure_id = i, ensure_saved_ip = vm_ip s, ensure_saved_base = vm_base s,
                        signaled_class = TAGGED_NIL, signaled_payload = TAGGED_NIL\<rparr>;
               s = s\<lparr>memory := m, c_stack := log, txn_logs := log # txn_logs s,
                     ensures := frame # ensures s\<rparr>
           in run_protected i s0
                (invoke_block_closure interp block 0 TAGGED_NIL caller_ip class_table log s)
                (\<lambda>block_result s.
                   case finish_transaction om primitive log (pop_ensures previous_ensure s) of (ok, s) \<Rightarrow>
                     let s = restore_locals s0 (pop_txn_logs previous_logs s)
                     in if \<not> ok then Trap s
                        else Done PRIMITIVE_SUCCEEDED (store_top (slot saved_sp (-1)) saved_fp block_result s))
                (\<lambda>sig_class payload s.
                   let s = restore_registers saved_sp saved_fp (pop_ensures previous_ensure s);
                       s = pop_txn_logs previous_logs (s\<lparr>memory := txn_abort (memory s) log\<rparr>)
                   in propagate_signal interp om sig_class payload class_table txn_log s))"

definition try_transaction_primitive ::
  "callee \<Rightarrow> u64 \<Rightarrow> u64 \<Rightarrow> u64 \<Rightarrow> u64 \<Rightarrow> vm \<Rightarrow> PrimitiveResult outcome" where
  "try_transaction_primitive interp om primitive arg_count txn_log s =
     (if primitive \<noteq> PRIM_TRANSACTION_ATOMIC \<and> primitive \<noteq> PRIM_TRANSACTION_DURABLE \<and>
         primitive \<noteq> PRIM_TRANSACTION_READ_ONLY
      then Done PRIMITIVE_UNSUPPORTED s
      else if arg_count \<noteq> 1 then Done PRIMITIVE_FAILED s
      else
        let block = stack_at s 0; saved_sp = slot (vm_sp s) 2; saved_fp = vm_fp s;
            active_txn_log = (case txn_logs s of [] \<Rightarrow> 0 | log # _ \<Rightarrow> log)
        in if block_num_args (memory s) block \<noteq> 0 then Done PRIMITIVE_FAILED s
           else if active_txn_log \<noteq> 0
           then and_then (invoke_block_closure interp block 0 TAGGED_NIL (vm_ip s) (vm_class_table s)
                            active_txn_log s)
                  (\<lambda>block_result s. Done PRIMITIVE_SUCCEEDED
                     (store_top (slot saved_sp (-1)) saved_fp block_result s))
           else outer_transaction interp om primitive block txn_log s)"

end
