(* ===== verification/Interpret.thy ===== *)
theory Interpret
  imports Blocks
begin

text \<open>
  The bytecode interpreter, \<^verbatim>\<open>interpret\<close> of \<^verbatim>\<open>src/c_vm/interpret.c\<close>: one definition per bytecode, the
  dispatch of one instruction (\<open>step\<close>) and the loop. The loop and the calls back into \<^verbatim>\<open>interpret\<close> take
  fuel, one unit per instruction and per level; out of fuel is \<open>No_result\<close>. \<open>unsupported_bytecode\<close>
  raises SIGTRAP. \<^verbatim>\<open>debug_mnu_context\<close> only prints and is left out.
\<close>

section \<open>Reading bytecodes\<close>

definition BC_PUSH_LITERAL :: u8 where [simp]: "BC_PUSH_LITERAL = 0"
definition BC_PUSH_INST_VAR :: u8 where [simp]: "BC_PUSH_INST_VAR = 1"
definition BC_PUSH_TEMP :: u8 where [simp]: "BC_PUSH_TEMP = 2"
definition BC_PUSH_SELF :: u8 where [simp]: "BC_PUSH_SELF = 3"
definition BC_STORE_INST_VAR :: u8 where [simp]: "BC_STORE_INST_VAR = 4"
definition BC_STORE_TEMP :: u8 where [simp]: "BC_STORE_TEMP = 5"
definition BC_SEND_MESSAGE :: u8 where [simp]: "BC_SEND_MESSAGE = 6"
definition BC_RETURN_STACK_TOP :: u8 where [simp]: "BC_RETURN_STACK_TOP = 7"
definition BC_JUMP :: u8 where [simp]: "BC_JUMP = 8"
definition BC_JUMP_IF_TRUE :: u8 where [simp]: "BC_JUMP_IF_TRUE = 9"
definition BC_JUMP_IF_FALSE :: u8 where [simp]: "BC_JUMP_IF_FALSE = 10"
definition BC_POP :: u8 where [simp]: "BC_POP = 11"
definition BC_DUPLICATE :: u8 where [simp]: "BC_DUPLICATE = 12"
definition BC_HALT :: u8 where [simp]: "BC_HALT = 13"
definition BC_PUSH_CLOSURE :: u8 where [simp]: "BC_PUSH_CLOSURE = 14"
definition BC_PUSH_ARG :: u8 where [simp]: "BC_PUSH_ARG = 15"
definition BC_RETURN_NON_LOCAL :: u8 where [simp]: "BC_RETURN_NON_LOCAL = 16"
definition BC_PUSH_THIS_CONTEXT :: u8 where [simp]: "BC_PUSH_THIS_CONTEXT = 17"
definition BC_PUSH_GLOBAL :: u8 where [simp]: "BC_PUSH_GLOBAL = 18"

text \<open>The byte at an address, in the aligned word that holds it.\<close>

definition code_byte :: "mem \<Rightarrow> u64 \<Rightarrow> u8" where
  "code_byte m a = byte_get m (a AND NOT 7) (unat (a AND 7))"

definition read_u32 :: "vm \<Rightarrow> u32 \<times> vm" where
  "read_u32 s =
     (let m = memory s; p = vm_ip s
      in (ucast (code_byte m p) OR push_bit 8 (ucast (code_byte m (p + 1))) OR
          push_bit 16 (ucast (code_byte m (p + 2))) OR push_bit 24 (ucast (code_byte m (p + 3))),
          s\<lparr>vm_ip := p + 4\<rparr>))"

datatype flow = Next | Return u64

definition vm_next :: "vm \<Rightarrow> flow outcome" where
  "vm_next s = Done Next s"

definition unsupported_bytecode :: "vm \<Rightarrow> 'a outcome" where
  "unsupported_bytecode s = Trap s"

definition pop_word :: "vm \<Rightarrow> u64 \<times> vm" where
  "pop_word s = (let (v, sp) = pop (memory s) (vm_sp s) in (v, s\<lparr>vm_sp := sp\<rparr>))"

text \<open>\<^verbatim>\<open>(*fp_ptr)[-(int64_t)(FP_TEMP_BASE_WORDS + temp_index)]\<close>: the sum is a \<^verbatim>\<open>uint32_t\<close>.\<close>

definition temp_address :: "u64 \<Rightarrow> u32 \<Rightarrow> u64" where
  "temp_address fp temp_index = slot fp (- uint (5 + temp_index))"

definition frame_literals :: "vm \<Rightarrow> u64" where
  "frame_literals s = OBJ_FIELD (memory s) (memory s (slot (vm_fp s) FRAME_METHOD)) CM_LITERALS"

section \<open>Pushing and storing\<close>

definition op_push_literal :: "vm \<Rightarrow> flow outcome" where
  "op_push_literal s =
     (case read_u32 s of (literal_index, s) \<Rightarrow>
        vm_next (push_word (OBJ_FIELD (memory s) (frame_literals s) (ucast literal_index)) s))"

definition op_push_inst_var :: "u64 \<Rightarrow> vm \<Rightarrow> flow outcome" where
  "op_push_inst_var txn_log s =
     (case read_u32 s of (field_index, s) \<Rightarrow>
        let m = memory s; receiver = m (slot (vm_fp s) FRAME_RECEIVER); index = ucast field_index
        in vm_next (push_word (read_through_log m txn_log receiver index (OBJ_FIELD m receiver index)) s))"

definition op_push_temp :: "vm \<Rightarrow> flow outcome" where
  "op_push_temp s =
     (case read_u32 s of (temp_index, s) \<Rightarrow>
        vm_next (push_word (memory s (temp_address (vm_fp s) temp_index)) s))"

definition op_push_self :: "vm \<Rightarrow> flow outcome" where
  "op_push_self s = vm_next (push_word (memory s (slot (vm_fp s) FRAME_RECEIVER)) s)"

definition op_store_inst_var :: "u64 \<Rightarrow> u64 \<Rightarrow> vm \<Rightarrow> flow outcome" where
  "op_store_inst_var om txn_log s =
     (case read_u32 s of (field_index, s) \<Rightarrow> case pop_word s of (v, s) \<Rightarrow>
        let receiver = memory s (slot (vm_fp s) FRAME_RECEIVER); index = ucast field_index
        in if txn_log \<noteq> 0
           then vm_next (s\<lparr>memory := txn_log_write (memory s) txn_log receiver index v\<rparr>)
           else
             let s = om_mark_field_dirty (s\<lparr>memory := set_field (memory s) receiver index v\<rparr>) om receiver index
             in vm_next (s\<lparr>memory := record_write_barrier (memory s) om receiver index v\<rparr>))"

definition op_store_temp :: "vm \<Rightarrow> flow outcome" where
  "op_store_temp s =
     (case read_u32 s of (temp_index, s) \<Rightarrow> case pop_word s of (v, s) \<Rightarrow>
        vm_next (s\<lparr>memory := (memory s)(temp_address (vm_fp s) temp_index := v)\<rparr>))"

definition op_push_arg :: "vm \<Rightarrow> flow outcome" where
  "op_push_arg s =
     (case read_u32 s of (arg_index, s) \<Rightarrow>
        vm_next (push_word (frame_arg_local (memory s) (vm_fp s) (ucast arg_index)) s))"

definition op_push_global :: "vm \<Rightarrow> flow outcome" where
  "op_push_global s =
     (case read_u32 s of (literal_index, s) \<Rightarrow>
        let association = OBJ_FIELD (memory s) (frame_literals s) (ucast literal_index)
        in if \<not> is_object_value association then unsupported_bytecode s
           else vm_next (push_word (OBJ_FIELD (memory s) association 1) s))"

definition op_pop :: "vm \<Rightarrow> flow outcome" where
  "op_pop s = vm_next (snd (pop_word s))"

definition op_duplicate :: "vm \<Rightarrow> flow outcome" where
  "op_duplicate s = vm_next (push_word (memory s (vm_sp s)) s)"

definition op_halt :: "vm \<Rightarrow> flow outcome" where
  "op_halt s = Done (Return (memory s (vm_sp s))) s"

section \<open>Jumps\<close>

definition op_jump :: "vm \<Rightarrow> flow outcome" where
  "op_jump s = (case read_u32 s of (offset, s) \<Rightarrow> vm_next (s\<lparr>vm_ip := vm_base s + ucast offset\<rparr>))"

definition op_jump_if :: "u64 \<Rightarrow> vm \<Rightarrow> flow outcome" where
  "op_jump_if wanted s =
     (case read_u32 s of (offset, s) \<Rightarrow> case pop_word s of (condition, s) \<Rightarrow>
        vm_next (if condition = wanted then s\<lparr>vm_ip := vm_base s + ucast offset\<rparr> else s))"

section \<open>Returns\<close>

definition op_return_stack_top :: "u64 \<Rightarrow> vm \<Rightarrow> flow outcome" where
  "op_return_stack_top entry_fp s =
     (let m = memory s; return_value = m (vm_sp s); fp = vm_fp s;
          caller_fp = m (slot fp FRAME_SAVED_FP)
      in case frame_return m (stack_limit_low s) fp return_value of
           None \<Rightarrow> Trap s
         | Some (m, sp, new_fp, ip) \<Rightarrow>
             let s = s\<lparr>memory := m, vm_sp := sp, vm_fp := new_fp, vm_ip := ip\<rparr>
             in if fp = entry_fp \<and> caller_fp \<noteq> 0 then Done (Return return_value) s
                else if new_fp = 0 then Done (Return return_value) s
                else if new_fp \<noteq> FP_SENTINEL
                then vm_next (s\<lparr>vm_base :=
                       field_addr (OBJ_FIELD m (m (slot new_fp FRAME_METHOD)) CM_BYTECODES) 0\<rparr>)
                else vm_next s)"

text \<open>
  The walk from the current frame to the frame of the home context: \<open>Some 0\<close> when the chain ends
  without it, \<open>None\<close> when it never ends.
\<close>

partial_function (option) find_home_frame :: "mem \<Rightarrow> u64 \<Rightarrow> u64 \<Rightarrow> u64 option" where
  "find_home_frame m home_context fp =
     (if fp = 0 \<or> fp = FP_SENTINEL then Some 0
      else if frame_has_context_local m fp \<and> m (slot fp FRAME_CONTEXT) = home_context then Some fp
      else find_home_frame m home_context (m (slot fp FRAME_SAVED_FP)))"

definition return_from_home :: "u64 \<Rightarrow> u64 \<Rightarrow> u64 \<Rightarrow> vm \<Rightarrow> flow outcome" where
  "return_from_home entry_fp home_fp return_value s =
     (let m = memory s;
          new_sp = slot home_fp (uint (FP_ARG_BASE_WORDS + frame_num_args_local m home_fp));
          caller_fp = m (slot home_fp FRAME_SAVED_FP);
          caller_ip = m (slot home_fp FRAME_SAVED_IP);
          m = m(new_sp := return_value);
          s = s\<lparr>memory := m, vm_sp := new_sp, vm_fp := caller_fp\<rparr>
      in if home_fp = entry_fp then Done (Return return_value) s
         else
           let s = s\<lparr>vm_ip := caller_ip\<rparr>
           in if caller_fp \<noteq> 0 \<and> caller_fp \<noteq> FP_SENTINEL
              then vm_next (s\<lparr>vm_base :=
                     field_addr (OBJ_FIELD m (m (slot caller_fp FRAME_METHOD)) CM_BYTECODES) 0\<rparr>)
              else vm_next s)"

text \<open>The home has returned and has no context to resume: \<^verbatim>\<open>cannotReturn:\<close> is sent to the closure.\<close>

definition send_cannot_return :: "u64 \<Rightarrow> u64 \<Rightarrow> vm \<Rightarrow> flow outcome" where
  "send_cannot_return closure return_value s =
     (if closure = TAGGED_NIL then unsupported_bytecode s
      else case lookup_method_for_receiver (memory s) closure cannot_return_selector_oop (vm_class_table s) of
        None \<Rightarrow> No_result
      | Some method \<Rightarrow>
          if method = 0 then unsupported_bytecode s
          else
            let sp = slot (vm_sp s) (-1);
                s = s\<lparr>memory := (memory s)(sp := return_value, slot sp 1 := closure), vm_sp := sp\<rparr>
            in if OBJ_FIELD (memory s) method CM_PRIMITIVE \<noteq> tag_smallint PRIM_NONE
               then unsupported_bytecode s
               else and_then (vm_activate_method (cannot_return_after s) method 1
                                (untag_smallint (OBJ_FIELD (memory s) method CM_NUM_TEMPS)) s)
                      (\<lambda>_ s. vm_next (enter_method s)))"

definition op_return_non_local :: "u64 \<Rightarrow> vm \<Rightarrow> flow outcome" where
  "op_return_non_local entry_fp s =
     (let m = memory s; return_value = m (vm_sp s); fp = vm_fp s;
          home_context = block_home_context_for_frame m fp;
          closure = block_closure_for_frame m fp
      in case find_home_frame m home_context fp of
           None \<Rightarrow> No_result
         | Some home_fp \<Rightarrow>
             if home_fp \<noteq> 0 then return_from_home entry_fp home_fp return_value s
             else if is_object_value home_context then
               (let sender_context = OBJ_FIELD m home_context CONTEXT_SENDER
                in if sender_context = TAGGED_NIL then Done (Return return_value) s
                   else and_then (resume_sender_context return_value sender_context s)
                     (\<lambda>resumed s. if resumed then vm_next s
                        else send_cannot_return closure return_value s))
             else send_cannot_return closure return_value s)"

section \<open>Contexts and closures\<close>

definition op_push_this_context :: "u64 \<Rightarrow> vm \<Rightarrow> flow outcome" where
  "op_push_this_context om s =
     and_then (ensure_frame_context_with_retry om s)
       (\<lambda>context s. if context = 0 then unsupported_bytecode s else vm_next (push_word context s))"

text \<open>What a closure made in the current frame copies: the arguments, the temporaries, and the values
  the running block has copied itself.\<close>

definition closure_num_temps :: "vm \<Rightarrow> u64" where
  "closure_num_temps s =
     (let m = memory s; fp = vm_fp s;
          num_temps = untag_smallint (OBJ_FIELD m (m (slot fp FRAME_METHOD)) CM_NUM_TEMPS);
          current_closure = block_closure_for_frame m fp
      in if current_closure \<noteq> TAGGED_NIL then num_temps + block_copied_count m current_closure
         else num_temps)"

definition fill_closure :: "u64 \<Rightarrow> u64 \<Rightarrow> u64 \<Rightarrow> u64 \<Rightarrow> u64 \<Rightarrow> vm \<Rightarrow> vm" where
  "fill_closure block home_context block_method num_args num_temps s =
     (let fp = vm_fp s; m = memory s;
          m = set_field m block BLOCK_HOME_CONTEXT (if home_context = 0 then TAGGED_NIL else home_context);
          m = set_field m block BLOCK_HOME_RECEIVER (m (slot fp FRAME_RECEIVER));
          m = set_field m block BLOCK_CM block_method;
          m = fold (\<lambda>i m. set_field m block (BLOCK_COPIED_BASE + of_nat i) (frame_arg_local m fp (of_nat i)))
                [0..<unat num_args] m;
          m = fold (\<lambda>i m. set_field m block (BLOCK_COPIED_BASE + (num_args + of_nat i))
                            (m (temp_slot fp (of_nat i))))
                [0..<unat num_temps] m
      in s\<lparr>memory := m\<rparr>)"

text \<open>
  The class, method and captured counts are read when the bytecode starts, and read again after a
  collection that the bytecode itself asked for.
\<close>

definition closure_operands :: "u32 \<Rightarrow> vm \<Rightarrow> u64 \<times> u64 \<times> u64 \<times> u64" where
  "closure_operands literal_index s =
     (frame_num_args_local (memory s) (vm_fp s), closure_num_temps s,
      OBJ_FIELD (memory s) (frame_literals s) (ucast literal_index),
      OBJ_FIELD (memory s) (vm_class_table s) CLASS_TABLE_BLOCK)"

definition closure_home :: "vm \<Rightarrow> u64" where
  "closure_home s = (if frame_has_context_local (memory s) (vm_fp s)
     then memory s (slot (vm_fp s) FRAME_CONTEXT) else 0)"

definition alloc_closure :: "u64 \<Rightarrow> u32 \<Rightarrow> u64 \<times> u64 \<times> u64 \<times> u64 \<Rightarrow> vm \<Rightarrow> flow outcome" where
  "alloc_closure om literal_index operands s =
     (case operands of (num_args, num_temps, block_method, block_class) \<Rightarrow>
      let home_context = closure_home s
      in case om_alloc s om block_class FORMAT_FIELDS (BLOCK_COPIED_BASE + (num_args + num_temps)) of (s, block) \<Rightarrow>
        if block \<noteq> 0
        then vm_next (push_word block (fill_closure block home_context block_method num_args num_temps s))
        else and_then (collect_and_retry_allocation om s) (\<lambda>collected s.
          if \<not> collected then unsupported_bytecode s
          else case closure_operands literal_index s of (num_args, num_temps, block_method, block_class) \<Rightarrow>
            let home_context = closure_home s
            in case om_alloc s om block_class FORMAT_FIELDS (BLOCK_COPIED_BASE + (num_args + num_temps)) of (s, block) \<Rightarrow>
              if block = 0 then unsupported_bytecode s
              else vm_next (push_word block (fill_closure block home_context block_method num_args num_temps s))))"

definition op_push_closure :: "u64 \<Rightarrow> vm \<Rightarrow> flow outcome" where
  "op_push_closure om s =
     (case read_u32 s of (literal_index, s) \<Rightarrow>
        let operands = closure_operands literal_index s
        in and_then (ensure_frame_context_with_retry om s) (\<lambda>context s.
             if context \<noteq> 0 then alloc_closure om literal_index operands s
             else and_then
               (if context_class s \<noteq> 0 then collect_and_retry_allocation om s else Done True s)
               (\<lambda>collected s.
                  if \<not> collected then unsupported_bytecode s
                  else and_then
                    (if context_class s \<noteq> 0
                     then and_then (with_context (ensure_frame_context_with_sp s (vm_fp s) (vm_sp s) om
                                                    (context_class s)))
                            (\<lambda>context s. Done (context \<noteq> 0) s)
                     else Done True s)
                    (\<lambda>ok s. if \<not> ok then unsupported_bytecode s
                       else alloc_closure om literal_index (closure_operands literal_index s) s))))"

section \<open>Sends\<close>

text \<open>The chain of \<^verbatim>\<open>try_..._primitive\<close> calls: the next one is tried while the result is unsupported.\<close>

definition or_else :: "PrimitiveResult outcome \<Rightarrow> (vm \<Rightarrow> PrimitiveResult outcome) \<Rightarrow> PrimitiveResult outcome" where
  "or_else p q = and_then p (\<lambda>r s. if r = PRIMITIVE_UNSUPPORTED then q s else Done r s)"

definition try_primitives :: "callee \<Rightarrow> u64 \<Rightarrow> u64 \<Rightarrow> u64 \<Rightarrow> u64 \<Rightarrow> vm \<Rightarrow> PrimitiveResult outcome" where
  "try_primitives interp om txn_log primitive_id arg_count s =
     or_else (or_else (or_else (or_else (or_else (or_else (or_else (or_else (or_else
       (try_allocation_primitive om primitive_id arg_count s)
       (try_block_primitive interp om primitive_id arg_count txn_log))
       (try_transaction_primitive interp om primitive_id arg_count txn_log))
       (try_smallint_primitive primitive_id arg_count))
       (try_object_primitive primitive_id arg_count))
       (try_live_image_primitive om primitive_id arg_count))
       (\<lambda>s. try_image_primitive om (vm_class_table s) primitive_id arg_count s))
       (try_character_primitive primitive_id arg_count))
       (try_string_symbol_primitive primitive_id arg_count))
       (try_indexed_primitive interp om primitive_id arg_count txn_log)"

definition activate_send :: "u64 \<Rightarrow> u64 \<Rightarrow> vm \<Rightarrow> flow outcome" where
  "activate_send method arg_count s =
     and_then (vm_activate_method (vm_ip s) method arg_count
                 (untag_smallint (OBJ_FIELD (memory s) method CM_NUM_TEMPS)) s)
       (\<lambda>_ s. vm_next (enter_method s))"

text \<open>A method once found: its primitive, and its bytecodes when there is none or it fails.\<close>

definition send_method :: "callee \<Rightarrow> u64 \<Rightarrow> u64 \<Rightarrow> u64 \<Rightarrow> u64 \<Rightarrow> vm \<Rightarrow> flow outcome" where
  "send_method interp om txn_log method arg_count s =
     (let primitive = OBJ_FIELD (memory s) method CM_PRIMITIVE;
          primitive_id = untag_smallint primitive
      in if primitive = tag_smallint PRIM_NONE \<or> primitive_id = PRIM_PERFORM
         then activate_send method arg_count s
         else if primitive_id = PRIM_HALT then unsupported_bytecode s
         else and_then (try_primitives interp om txn_log primitive_id arg_count s)
           (\<lambda>result s. case result of
              PRIMITIVE_SUCCEEDED \<Rightarrow> vm_next s
            | PRIMITIVE_UNSUPPORTED \<Rightarrow> unsupported_bytecode s
            | PRIMITIVE_FAILED \<Rightarrow> activate_send method arg_count s))"

text \<open>
  The perform primitive with one argument looks the argument up as a selector and goes round again
  with no arguments; a second perform then finds no argument and runs its method.
\<close>

definition send_message :: "callee \<Rightarrow> u64 \<Rightarrow> u64 \<Rightarrow> u64 \<Rightarrow> u64 \<Rightarrow> vm \<Rightarrow> flow outcome" where
  "send_message interp om txn_log selector arg_count s =
     (let receiver = stack_at s arg_count
      in case lookup_method_for_receiver (memory s) receiver selector (vm_class_table s) of
           None \<Rightarrow> No_result
         | Some method \<Rightarrow>
             if method = 0 then unsupported_bytecode s
             else
               let primitive = OBJ_FIELD (memory s) method CM_PRIMITIVE
               in if primitive \<noteq> tag_smallint PRIM_NONE \<and> untag_smallint primitive = PRIM_PERFORM \<and> arg_count = 1
                  then
                    let selector = stack_at s 0; receiver = stack_at s 1;
                        s = s\<lparr>vm_sp := slot (vm_sp s) 1\<rparr>
                    in (case lookup_method_for_receiver (memory s) receiver selector (vm_class_table s) of
                          None \<Rightarrow> No_result
                        | Some method \<Rightarrow>
                            if method = 0 then unsupported_bytecode s
                            else send_method interp om txn_log method 0 s)
                  else send_method interp om txn_log method arg_count s)"

definition op_send_message :: "callee \<Rightarrow> u64 \<Rightarrow> u64 \<Rightarrow> vm \<Rightarrow> flow outcome" where
  "op_send_message interp om txn_log s =
     (case read_u32 s of (selector_index, s) \<Rightarrow> case read_u32 s of (arg_count, s) \<Rightarrow>
        send_message interp om txn_log (OBJ_FIELD (memory s) (frame_literals s) (ucast selector_index))
          (ucast arg_count) s)"

section \<open>The loop\<close>

definition step :: "callee \<Rightarrow> u64 \<Rightarrow> u64 \<Rightarrow> u64 \<Rightarrow> vm \<Rightarrow> flow outcome" where
  "step interp om txn_log entry_fp s =
     (let opcode = code_byte (memory s) (vm_ip s); s = s\<lparr>vm_ip := vm_ip s + 1\<rparr>
      in if opcode = BC_PUSH_LITERAL then op_push_literal s
         else if opcode = BC_PUSH_INST_VAR then op_push_inst_var txn_log s
         else if opcode = BC_PUSH_TEMP then op_push_temp s
         else if opcode = BC_PUSH_SELF then op_push_self s
         else if opcode = BC_STORE_INST_VAR then op_store_inst_var om txn_log s
         else if opcode = BC_STORE_TEMP then op_store_temp s
         else if opcode = BC_SEND_MESSAGE then op_send_message interp om txn_log s
         else if opcode = BC_RETURN_STACK_TOP then op_return_stack_top entry_fp s
         else if opcode = BC_JUMP then op_jump s
         else if opcode = BC_JUMP_IF_TRUE then op_jump_if TAGGED_TRUE s
         else if opcode = BC_JUMP_IF_FALSE then op_jump_if TAGGED_FALSE s
         else if opcode = BC_POP then op_pop s
         else if opcode = BC_DUPLICATE then op_duplicate s
         else if opcode = BC_HALT then op_halt s
         else if opcode = BC_PUSH_CLOSURE then op_push_closure om s
         else if opcode = BC_PUSH_ARG then op_push_arg s
         else if opcode = BC_PUSH_THIS_CONTEXT then op_push_this_context om s
         else if opcode = BC_RETURN_NON_LOCAL then op_return_non_local entry_fp s
         else if opcode = BC_PUSH_GLOBAL then op_push_global s
         else unsupported_bytecode s)"

fun interpret_loop :: "nat \<Rightarrow> u64 \<Rightarrow> u64 \<Rightarrow> u64 \<Rightarrow> vm \<Rightarrow> u64 outcome" where
  "interpret_loop 0 om txn_log entry_fp s = No_result"
| "interpret_loop (Suc n) om txn_log entry_fp s =
     and_then
       (step (\<lambda>ip class_table log s. interpret_loop n om log (vm_fp s)
                (s\<lparr>vm_ip := ip, vm_base := ip, vm_class_table := class_table\<rparr>))
          om txn_log entry_fp s)
       (\<lambda>r s. case r of Return v \<Rightarrow> Done v s | Next \<Rightarrow> interpret_loop n om txn_log entry_fp s)"

definition interpret_vm :: "nat \<Rightarrow> u64 \<Rightarrow> u64 \<Rightarrow> u64 \<Rightarrow> u64 \<Rightarrow> vm \<Rightarrow> u64 outcome" where
  "interpret_vm fuel om ip class_table txn_log s =
     interpret_loop fuel om txn_log (vm_fp s)
       (s\<lparr>vm_ip := ip, vm_base := ip, vm_class_table := class_table\<rparr>)"

end
