(* ===== verification/Expr_Tool.thy ===== *)
theory Expr_Tool
  imports Tool_Support Interpret
begin

text \<open>
  The expression runner \<^verbatim>\<open>tools/smalltalk_expr.c\<close>, which compiles an expression with the compiler in
  C and with the one in Smalltalk and compares the methods: how it makes method objects from the
  results of both compilers, the comparison, the printing of values and methods, and running a
  method. Its dialogue with the Smalltalk compiler, the trap handlers and the command line are not
  modelled.
\<close>

section \<open>Running a method\<close>

text \<open>The stack is an array of 4096 words at \<open>stack\<close>; the stop value of the frame pointer is \<^verbatim>\<open>0xCAFE\<close>.\<close>

definition STACK_WORDS :: int where
  "STACK_WORDS = 4096"

text \<open>A push or an activation that does not fit into the stack is a trap.\<close>

definition run_method :: "nat \<Rightarrow> SmalltalkWorld \<Rightarrow> u64 \<Rightarrow> u64 \<Rightarrow> u64 \<Rightarrow> vm \<Rightarrow> u64 outcome" where
  "run_method fuel world stack method receiver s =
     (let code = OBJ_FIELD (memory s) method CM_BYTECODES;
          num_args = untag_smallint (OBJ_FIELD (memory s) method CM_NUM_ARGS);
          num_temps = untag_smallint (OBJ_FIELD (memory s) method CM_NUM_TEMPS)
      in case stack_push (memory s) (slot stack STACK_WORDS) stack receiver of
           None \<Rightarrow> Trap s
         | Some (m, low, sp) \<Rightarrow>
             (case activate_method m low sp 0xCAFE 0 method num_args num_temps of
                None \<Rightarrow> Trap s
              | Some (m, sp, fp) \<Rightarrow>
                  interpret_vm fuel (sw_om world) (slot code 3) (sw_class_table world) 0
                    (s\<lparr>memory := m, vm_sp := sp, vm_fp := fp, stack_limit_low := low\<rparr>)))"

section \<open>Method objects\<close>

definition sw_make_string :: "SmalltalkWorld \<Rightarrow> string \<Rightarrow> vm \<Rightarrow> u64 outcome" where
  "sw_make_string world txt s =
     and_then (alloc (sw_om world) (sw_string_class world) FORMAT_BYTES (of_nat (length txt)) s)
       (\<lambda>obj s. if obj = 0 \<and> txt \<noteq> [] then Trap s else Done obj (store_bytes obj (c_string txt) s))"

definition expr_literal_oop :: "SmalltalkWorld \<Rightarrow> BToken \<Rightarrow> vm \<Rightarrow> u64 option outcome" where
  "expr_literal_oop world literal s =
     (case token_type literal of
        BTOK_INTEGER \<Rightarrow> Done (Some (tag_smallint (int_value literal))) s
      | BTOK_CHARACTER \<Rightarrow> Done (Some (tag_character (int_value literal))) s
      | BTOK_STRING \<Rightarrow>
          and_then (sw_make_string world (token_text literal) s) (\<lambda>oop s. Done (Some oop) s)
      | BTOK_SYMBOL \<Rightarrow>
          (let (s, oop) = intern_cstring_symbol (sw_om world) (c_string (token_text literal)) s in Done (Some oop) s)
      | BTOK_SELECTOR \<Rightarrow>
          (let (s, oop) = intern_cstring_symbol (sw_om world) (c_string (token_text literal)) s in Done (Some oop) s)
      | BTOK_IDENTIFIER \<Rightarrow>
          Done (if token_text literal = ''nil'' then Some TAGGED_NIL
                else if token_text literal = ''true'' then Some TAGGED_TRUE
                else if token_text literal = ''false'' then Some TAGGED_FALSE
                else None) s
      | _ \<Rightarrow> Done None s)"

definition expr_literals :: "SmalltalkWorld \<Rightarrow> BToken list \<Rightarrow> vm \<Rightarrow> u64 outcome" where
  "expr_literals world tokens s =
     (if tokens = [] then Done 0 s
      else unless_null (alloc (sw_om world) (sw_class_class world) FORMAT_INDEXABLE (of_nat (length tokens)) s)
        (\<lambda>array s. fill_literals (expr_literal_oop world) array 0 tokens s))"

text \<open>The bytecodes and the fields of a method behind its literals; the source string comes last.\<close>

definition expr_method ::
  "SmalltalkWorld \<Rightarrow> u64 list \<Rightarrow> u64 \<Rightarrow> u64 \<Rightarrow> vm \<Rightarrow> u64 outcome" where
  "expr_method world counts literal_array bytes s =
     unless_null (alloc (sw_om world) (sw_class_class world) FORMAT_FIELDS 6 s)
       (\<lambda>method s. Done method
          (store_all method 0 (counts @ [oop_or_nil literal_array, bytes, TAGGED_NIL]) s))"

definition materialize_c_compiled_method :: "SmalltalkWorld \<Rightarrow> BCompiledMethodDef \<Rightarrow> vm \<Rightarrow> u64 outcome" where
  "materialize_c_compiled_method world method_def s =
     (let body = def_body method_def; code = code_bytes (bytecodes body);
          primitive = primitive_index method_def
      in and_then (expr_literals world (literals body) s) (\<lambda>literal_array s.
           if literals body \<noteq> [] \<and> literal_array = 0 then Done 0 s
           else unless_null (alloc (sw_om world) (sw_class_class world) FORMAT_BYTES (of_nat (length code)) s)
             (\<lambda>bytes s.
                unless_null
                  (expr_method world
                     [tag_smallint (if primitive \<ge> 0 then word_of_int primitive else 0),
                      tag_smallint (of_nat (length (arg_names (def_header method_def)))),
                      tag_smallint (of_nat (temp_count body))] literal_array bytes (store_bytes bytes code s))
                  (\<lambda>method s.
                     if def_source method_def = [] then Done method s
                     else and_then (sw_make_string world (def_source method_def) s)
                            (\<lambda>src s. Done method (store method CM_SOURCE src s))))))"

definition is_instance_of :: "mem \<Rightarrow> u64 \<Rightarrow> u64 \<Rightarrow> bool" where
  "is_instance_of m val klass \<longleftrightarrow> is_object_ptr val \<and> OBJ_CLASS m val = klass"

text \<open>
  The method a code generator of the Smalltalk compiler describes: counted bytes and literals, and
  a nested generator for each literal block. A generator that contains itself does not end, so the
  recursion takes fuel. The null pointer is an object pointer, so a nested failure is stored.
\<close>

fun copy_literals ::
  "(u64 \<Rightarrow> vm \<Rightarrow> u64 outcome) \<Rightarrow> u64 \<Rightarrow> u64 \<Rightarrow> u64 \<Rightarrow> nat list \<Rightarrow> vm \<Rightarrow> u64 outcome" where
  "copy_literals nested generator_class from array [] s = Done array s"
| "copy_literals nested generator_class from array (i # rest) s =
     (let literal = OBJ_FIELD (memory s) from (of_nat i)
      in and_then (if is_instance_of (memory s) literal generator_class then nested literal s else Done literal s)
           (\<lambda>oop s. copy_literals nested generator_class from array rest (store array (of_nat i) oop s)))"

primrec materialize_smalltalk_codegen_method ::
  "nat \<Rightarrow> SmalltalkWorld \<Rightarrow> u64 \<Rightarrow> u64 \<Rightarrow> vm \<Rightarrow> u64 outcome" where
  "materialize_smalltalk_codegen_method 0 world generator_class generator s = No_result"
| "materialize_smalltalk_codegen_method (Suc n) world generator_class generator s =
     (let m = memory s;
          bytecode_count = untag_smallint (OBJ_FIELD m generator 1);
          literal_count = untag_smallint (OBJ_FIELD m generator 3);
          temp_count = untag_smallint (OBJ_FIELD m generator 5);
          arg_count = untag_smallint (OBJ_FIELD m generator 7);
          source_bytecodes = OBJ_FIELD m generator 0;
          source_literals = OBJ_FIELD m generator 2
      in if sint bytecode_count < 0 \<or> sint literal_count < 0 \<or> sint temp_count < 0 \<or> sint arg_count < 0
         then Done 0 s
         else unless_null (alloc (sw_om world) (sw_class_class world) FORMAT_BYTES
                  (if bytecode_count = 0 then 1 else bytecode_count) s)
           (\<lambda>bytes s.
              let code = code_bytes (bytes_of (memory s) (slot source_bytecodes 3) (unat bytecode_count));
                  s = store_bytes bytes code s
              in and_then
                   (if literal_count = 0 then Done 0 s
                    else unless_null (alloc (sw_om world) (sw_class_class world) FORMAT_INDEXABLE literal_count s)
                      (\<lambda>array s. copy_literals (materialize_smalltalk_codegen_method n world generator_class)
                         generator_class source_literals array [0..<unat literal_count] s))
                   (\<lambda>literal_array s.
                      if literal_count \<noteq> 0 \<and> literal_array = 0 then Done 0 s
                      else expr_method world
                             [tag_smallint 0, tag_smallint arg_count, tag_smallint temp_count]
                             literal_array bytes s)))"

section \<open>Comparing methods\<close>

text \<open>
  The comparison of two values; \<open>eq\<close> is the comparison of their parts. Objects of the class of
  classes with five fields are taken for methods.
\<close>

definition array_literals_equal :: "(u64 \<Rightarrow> u64 \<Rightarrow> bool) \<Rightarrow> mem \<Rightarrow> u64 \<Rightarrow> u64 \<Rightarrow> bool" where
  "array_literals_equal eq m a b \<longleftrightarrow>
     (if a = 0 \<or> b = 0 then a = b
      else OBJ_SIZE m a = OBJ_SIZE m b \<and>
        list_all (\<lambda>i. eq (OBJ_FIELD m a (of_nat i)) (OBJ_FIELD m b (of_nat i))) [0..<unat (OBJ_SIZE m a)])"

definition same_bytes :: "mem \<Rightarrow> u64 \<Rightarrow> u64 \<Rightarrow> bool" where
  "same_bytes m a b \<longleftrightarrow>
     OBJ_SIZE m a = OBJ_SIZE m b \<and> object_bytes m a = object_bytes m b"

definition method_parts_equal :: "(u64 \<Rightarrow> u64 \<Rightarrow> bool) \<Rightarrow> mem \<Rightarrow> u64 \<Rightarrow> u64 \<Rightarrow> bool" where
  "method_parts_equal eq m a b \<longleftrightarrow>
     list_all (\<lambda>f. OBJ_FIELD m a f = OBJ_FIELD m b f) [CM_PRIMITIVE, CM_NUM_ARGS, CM_NUM_TEMPS] \<and>
     same_bytes m (OBJ_FIELD m a CM_BYTECODES) (OBJ_FIELD m b CM_BYTECODES) \<and>
     (let l = OBJ_FIELD m a CM_LITERALS; r = OBJ_FIELD m b CM_LITERALS
      in if l = TAGGED_NIL \<or> r = TAGGED_NIL then l = r else array_literals_equal eq m l r)"

function oop_structurally_equal :: "mem \<Rightarrow> u64 \<Rightarrow> nat \<Rightarrow> u64 \<Rightarrow> u64 \<Rightarrow> bool" where
  "oop_structurally_equal m class_class depth a b \<longleftrightarrow>
     (if a = b then True
      else if depth > 8 then False
      else if \<not> is_object_ptr a \<or> \<not> is_object_ptr b then False
      else if OBJ_CLASS m a = class_class \<and> OBJ_SIZE m a = 5 \<and>
              OBJ_CLASS m b = class_class \<and> OBJ_SIZE m b = 5
      then method_parts_equal (\<lambda>l r. oop_structurally_equal m class_class (depth + 3) l r) m a b
      else if OBJ_CLASS m a \<noteq> OBJ_CLASS m b \<or> OBJ_FORMAT m a \<noteq> OBJ_FORMAT m b \<or>
              OBJ_SIZE m a \<noteq> OBJ_SIZE m b then False
      else if OBJ_FORMAT m a = FORMAT_BYTES then object_bytes m a = object_bytes m b
      else if OBJ_FORMAT m a = FORMAT_INDEXABLE
      then array_literals_equal (\<lambda>l r. oop_structurally_equal m class_class (depth + 2) l r) m a b
      else list_all (\<lambda>i. oop_structurally_equal m class_class (depth + 1)
                            (OBJ_FIELD m a (of_nat i)) (OBJ_FIELD m b (of_nat i)))
             [0..<unat (OBJ_SIZE m a)])"
  by pat_completeness auto
termination
  by (relation "measure (\<lambda>(m, c, depth, l, r). 9 - depth)") auto

declare oop_structurally_equal.simps [simp del]

definition method_structurally_equal :: "mem \<Rightarrow> u64 \<Rightarrow> nat \<Rightarrow> u64 \<Rightarrow> u64 \<Rightarrow> bool" where
  "method_structurally_equal m class_class depth a b \<longleftrightarrow>
     method_parts_equal (oop_structurally_equal m class_class (depth + 2)) m a b"

section \<open>Printing\<close>

text \<open>\<^verbatim>\<open>isprint\<close> in the C locale; the code of a character above 255 is not a value it is defined for.\<close>

definition isprint :: "nat \<Rightarrow> bool" where
  "isprint n \<longleftrightarrow> 32 \<le> n \<and> n \<le> 126"

fun print_hex :: "nat \<Rightarrow> string" where
  "print_hex n = (if n < 16 then [hex_lower n] else print_hex (n div 16) @ [hex_lower (n mod 16)])"

declare print_hex.simps [simp del]

definition is_bytes_instance_of :: "mem \<Rightarrow> u64 \<Rightarrow> u64 \<Rightarrow> bool" where
  "is_bytes_instance_of m val klass \<longleftrightarrow>
     is_object_ptr val \<and> OBJ_CLASS m val = klass \<and> OBJ_FORMAT m val = FORMAT_BYTES"

definition escape_byte :: "u8 \<Rightarrow> string" where
  "escape_byte b =
     (let c = char_of (unat b)
      in if c = backslash \<or> c = quote then [backslash, c]
         else if isprint (unat b) then [c]
         else [backslash, CHR ''x'', hex_lower (unat b div 16), hex_lower (unat b mod 16)])"

definition print_bytes_escaped :: "mem \<Rightarrow> u64 \<Rightarrow> string" where
  "print_bytes_escaped m obj = concat (map escape_byte (object_bytes m obj))"

fun join_with :: "string \<Rightarrow> string list \<Rightarrow> string" where
  "join_with sep [] = []"
| "join_with sep [x] = x"
| "join_with sep (x # y # ys) = x @ sep @ join_with sep (y # ys)"

definition print_pointer :: "u64 \<Rightarrow> string" where
  "print_pointer p = ''0x'' @ print_hex (unat p)"

function print_oop :: "mem \<Rightarrow> SmalltalkWorld \<Rightarrow> nat \<Rightarrow> u64 \<Rightarrow> string" where
  "print_oop m world depth val =
     (if is_smallint val then print_int (sint (untag_smallint val))
      else if val = TAGGED_NIL then ''nil''
      else if val = TAGGED_TRUE then ''true''
      else if val = TAGGED_FALSE then ''false''
      else if is_character val then
        (let code = unat (untag_character val)
         in if isprint code then [CHR 0x24, char_of code] else CHR 0x24 # ''<'' @ print_nat code @ ''>'')
      else if is_bytes_instance_of m val (sw_string_class world) then
        [quote] @ print_bytes_escaped m val @ [quote]
      else if is_bytes_instance_of m val (sw_symbol_class world) then ''#'' @ print_bytes_escaped m val
      else if is_object_ptr val \<and> OBJ_CLASS m val = sw_array_class world \<and> OBJ_FORMAT m val = FORMAT_INDEXABLE then
        CHR 0x7B # join_with ''. '' (map (\<lambda>i.
             if depth > 3 then ''...'' else print_oop m world (depth + 1) (OBJ_FIELD m val (of_nat i)))
           [0..<unat (OBJ_SIZE m val)]) @ [CHR 0x7D]
      else if is_object_ptr val then
        ''<object '' @ print_pointer val @ '' class='' @ print_pointer (OBJ_CLASS m val) @
        '' size='' @ print_nat (unat (OBJ_SIZE m val)) @ ''>''
      else ''<oop 0x'' @ print_hex (unat val) @ ''>'')"
  by pat_completeness auto
termination
  by (relation "measure (\<lambda>(m, world, depth, val). 4 - depth)") auto

declare print_oop.simps [simp del]

definition dump_bytecodes :: "mem \<Rightarrow> u64 \<Rightarrow> string" where
  "dump_bytecodes m method =
     join_with '' '' (map (\<lambda>b. print_nat (unat b)) (object_bytes m (OBJ_FIELD m method CM_BYTECODES)))"

definition log_method_dump :: "mem \<Rightarrow> SmalltalkWorld \<Rightarrow> string \<Rightarrow> u64 \<Rightarrow> string" where
  "log_method_dump m world label method =
     (let number = (\<lambda>f. print_int (sint (untag_smallint (OBJ_FIELD m method f))));
          literal_array = OBJ_FIELD m method CM_LITERALS
      in label @ '' primitive='' @ number CM_PRIMITIVE @ '' args='' @ number CM_NUM_ARGS @
         '' temps='' @ number CM_NUM_TEMPS @ [CHR 0x0A] @
         label @ '' bytecodes: '' @ dump_bytecodes m method @ [CHR 0x0A] @
         label @ '' literals:'' @
         (if literal_array = TAGGED_NIL then '' <nil>''
          else concat (map (\<lambda>i. [CHR 0x0A] @ ''  ['' @ print_nat i @ ''] '' @
                 print_oop m world 0 (OBJ_FIELD m literal_array (of_nat i)))
               [0..<unat (OBJ_SIZE m literal_array)])) @ [CHR 0x0A])"

definition log_failure :: "mem \<Rightarrow> SmalltalkWorld \<Rightarrow> string \<Rightarrow> string \<Rightarrow> u64 \<Rightarrow> u64 \<Rightarrow> string" where
  "log_failure m world expression reason c_method st_method =
     ''expression: '' @ expression @ [CHR 0x0A] @ ''reason: '' @ reason @ [CHR 0x0A] @
     (if c_method = 0 then [] else log_method_dump m world ''c'' c_method) @
     (if st_method = 0 then [] else log_method_dump m world ''smalltalk'' st_method) @
     ''---'' @ [CHR 0x0A]"

section \<open>Sources\<close>

definition build_method_source :: "string \<Rightarrow> string \<Rightarrow> string" where
  "build_method_source name expression =
     ''!ExprCLI methodsFor: '' @ [CHR 0x27] @ ''cli expressions'' @ [CHR 0x27] @ ''!'' @ [CHR 0x0A] @
     name @ [CHR 0x0A] @ ''    ^ '' @ expression @ [CHR 0x0A] @ ''!'' @ [CHR 0x0A]"

definition compile_c_expression_method ::
  "nat \<Rightarrow> SmalltalkWorld \<Rightarrow> string \<Rightarrow> int \<Rightarrow> vm \<Rightarrow> u64 outcome" where
  "compile_c_expression_method fuel world expression k s =
     (let src = build_method_source (cut 32 (''expr'' @ print_int k)) expression
      in case bc_compile_source_methods fuel src 1 of
           Succeeds [method_def] \<Rightarrow> materialize_c_compiled_method world method_def s
         | Overruns \<Rightarrow> Trap s
         | Runs_out \<Rightarrow> No_result
         | _ \<Rightarrow> Done 0 s)"

definition trim_line :: "string \<Rightarrow> string" where
  "trim_line line = rev (dropWhile isspace (rev (dropWhile isspace line)))"

section \<open>Evaluating expressions\<close>

text \<open>
  The trap handlers turn a trap into a failure. The compiler in Smalltalk, reached by sending
  \<^verbatim>\<open>compileExpression:\<close> in the world, is the argument \<open>smalltalk_compile\<close>; it answers a method or 0. The
  result is what is printed, \<open>None\<close> after a failure, and what is added to the log.
\<close>

fun caught :: "u64 outcome \<Rightarrow> u64 option outcome" where
  "caught (Done v s) = Done (Some v) s"
| "caught (Trap s) = Done None s"
| "caught (Longjmp i s) = Longjmp i s"
| "caught No_result = No_result"

definition evaluate_expression ::
  "nat \<Rightarrow> SmalltalkWorld \<Rightarrow> u64 \<Rightarrow> (string \<Rightarrow> vm \<Rightarrow> u64 outcome) \<Rightarrow> u64 \<Rightarrow> string \<Rightarrow> int \<Rightarrow> vm \<Rightarrow>
   (string option \<times> string) outcome" where
  "evaluate_expression fuel world stack smalltalk_compile receiver expression k s =
     and_then (compile_c_expression_method fuel world expression k s) (\<lambda>c_method s.
       let failed = (\<lambda>reason c st s. Done (None, log_failure (memory s) world expression reason c st) s)
       in if c_method = 0 then failed ''c compile failed'' 0 0 s
          else and_then (caught (smalltalk_compile expression s)) (\<lambda>st_method s.
            case st_method of
              None \<Rightarrow> failed ''smalltalk compile trapped'' c_method 0 s
            | Some st_method \<Rightarrow>
                if st_method = 0 then failed ''smalltalk compile failed'' c_method 0 s
                else if \<not> method_structurally_equal (memory s) (sw_class_class world) 0 c_method st_method
                then failed ''compiler mismatch'' c_method st_method s
                else and_then (caught (run_method fuel world stack st_method receiver s)) (\<lambda>v s.
                  case v of
                    None \<Rightarrow> failed ''smalltalk execution trapped'' c_method st_method s
                  | Some v \<Rightarrow> Done (Some (print_oop (memory s) world 0 v @ [CHR 0x0A]), []) s)))"

section \<open>Laws of the comparison\<close>

lemma array_literals_equal_sym:
  assumes "\<And>l r. eq l r = eq r l"
  shows "array_literals_equal eq m a b = array_literals_equal eq m b a"
  using assms by (auto simp: array_literals_equal_def)

lemma method_parts_equal_sym:
  assumes "\<And>l r. eq l r = eq r l"
  shows "method_parts_equal eq m a b = method_parts_equal eq m b a"
  using array_literals_equal_sym [OF assms, where m = m]
  by (auto simp: method_parts_equal_def same_bytes_def Let_def)

lemma oop_structurally_equal_sym:
  "oop_structurally_equal m c depth a b = oop_structurally_equal m c depth b a"
proof (induction "9 - depth" arbitrary: depth a b rule: less_induct)
  case less
  show ?case
  proof (cases "depth > 8")
    case True
    then show ?thesis by (auto simp: oop_structurally_equal.simps [of m c depth])
  next
    case False
    then have IH: "oop_structurally_equal m c (depth + k) l r = oop_structurally_equal m c (depth + k) r l"
      if "0 < k" for k l r
      using less that by simp
    note parts = method_parts_equal_sym [of "oop_structurally_equal m c (depth + 3)", OF IH]
      array_literals_equal_sym [of "oop_structurally_equal m c (depth + 2)", OF IH]
    show ?thesis
      using parts [of m a b] IH [of 1]
      by (simp add: oop_structurally_equal.simps [of m c depth] eq_commute [of "OBJ_CLASS m a"]
          eq_commute [of "object_bytes m a"]) (auto simp: list_all_iff)
  qed
qed

text \<open>What is printed is the value of a method on which both compilers agree.\<close>

lemma printed_value_is_checked:
  assumes "evaluate_expression fuel world stack smalltalk_compile receiver expression k s = Done (Some out, log) s'"
  shows "\<exists>c_method st_method m v sc.
    method_structurally_equal m (sw_class_class world) 0 c_method st_method \<and>
    run_method fuel world stack st_method receiver sc = Done v s' \<and> memory sc = m \<and>
    out = print_oop (memory s') world 0 v @ [CHR 0x0A] \<and> log = []"
proof -
  have caught: "caught p = Done (Some v) t \<longleftrightarrow> p = Done v t" for p v t by (cases p) auto
  show ?thesis using assms
    by (fastforce simp: evaluate_expression_def Let_def and_then_eq_Done caught split: if_splits option.splits)
qed

end
