(* ===== verification/Heap_Laws.thy ===== *)
theory Heap_Laws
  imports Heap_Layout
begin

text \<open>
  The contract of the allocator as an interface, its interpretation on \<open>om_alloc\<close>, and the
  properties of object memory: contents of a new object, placement against the abstract
  allocator, the walk over objects, page boundaries, dirty pages and page reuse.
\<close>

section \<open>The allocator interface\<close>

text \<open>A run of allocation requests, and the same run on the list of objects.\<close>

primrec alloc_all :: "('s \<Rightarrow> 'r \<Rightarrow> 's \<times> u64) \<Rightarrow> 's \<Rightarrow> 'r list \<Rightarrow> 's \<times> u64 list" where
  "alloc_all alloc s [] = (s, [])"
| "alloc_all alloc s (r # rs) =
     (let (s, a) = alloc s r; (s, addrs) = alloc_all alloc s rs in (s, a # addrs))"

primrec abs_alloc_all ::
  "nat \<Rightarrow> u64 \<Rightarrow> (nat \<times> nat) list \<Rightarrow> nat list \<Rightarrow> (nat \<times> nat) list \<times> u64 list" where
  "abs_alloc_all cap base objs [] = (objs, [])"
| "abs_alloc_all cap base objs (n # ns) = (case abs_alloc cap objs n of
     None \<Rightarrow> (let (objs, addrs) = abs_alloc_all cap base objs ns in (objs, 0 # addrs))
   | Some objs' \<Rightarrow> (let (objs'', addrs) = abs_alloc_all cap base objs' ns
                   in (objs'', (base + of_nat (fst (last objs'))) # addrs)))"

locale allocator =
  fixes alloc :: "'s \<Rightarrow> 'r \<Rightarrow> 's \<times> u64"
    and inv :: "'s \<Rightarrow> (nat \<times> nat) list \<Rightarrow> bool"
    and request_ok :: "'r \<Rightarrow> bool" and need :: "'r \<Rightarrow> nat"
    and cap :: nat and base :: u64
  assumes alloc_step: "inv s objs \<Longrightarrow> request_ok r \<Longrightarrow> alloc s r = (s', a) \<Longrightarrow>
      case abs_alloc cap objs (need r) of
        None \<Rightarrow> a = 0 \<and> s' = s
      | Some objs' \<Rightarrow> a = base + of_nat (fst (last objs')) \<and> a \<noteq> 0 \<and> inv s' objs'"
    and inv_chained: "inv s objs \<Longrightarrow> chained 0 objs"
begin

lemma alloc_all_refines:
  assumes "inv s objs" and "\<forall>r \<in> set rs. request_ok r" and "alloc_all alloc s rs = (s', addrs)"
  shows "\<exists>objs'. abs_alloc_all cap base objs (map need rs) = (objs', addrs) \<and> inv s' objs'"
  using assms
proof (induction rs arbitrary: s objs addrs)
  case (Cons r rs)
  obtain s1 a addrs1 where a: "alloc s r = (s1, a)" and addrs1: "alloc_all alloc s1 rs = (s', addrs1)"
    and addrs: "addrs = a # addrs1"
    using Cons.prems(3) by (auto split: prod.splits)
  note st = alloc_step [OF Cons.prems(1) _ a]
  show ?case
  proof (cases "abs_alloc cap objs (need r)")
    case None
    then have "a = 0" "s1 = s" using st Cons.prems(2) by auto
    then show ?thesis
      using Cons.IH [OF Cons.prems(1) _ addrs1 [unfolded \<open>s1 = s\<close>]] Cons.prems(2) None
      by (auto simp: addrs)
  next
    case (Some objs1)
    then have "a = base + of_nat (fst (last objs1))" "inv s1 objs1" using st Cons.prems(2) by auto
    then show ?thesis using Cons.IH [OF _ _ addrs1] Cons.prems(2) Some by (fastforce simp: addrs)
  qed
qed simp

lemma live_objects_disjoint:
  assumes "inv s objs" and "i < j" and "j < length objs"
  shows "fst (objs ! i) + snd (objs ! i) \<le> fst (objs ! j)"
proof -
  obtain ofs n where x: "objs ! i = (ofs, n)" by (cases "objs ! i")
  have i: "i < length objs" using assms by simp
  have "objs = take i objs @ (ofs, n) # drop (Suc i) objs"
    using id_take_nth_drop [OF i] x by simp
  then have c: "chained 0 (take i objs @ (ofs, n) # drop (Suc i) objs)"
    using inv_chained [OF assms(1)] by simp
  have "objs ! j = drop (Suc i) objs ! (j - Suc i)" using assms by simp
  then have "objs ! j \<in> set (drop (Suc i) objs)"
    using assms by (metis Suc_leI diff_less_mono length_drop nth_mem)
  then show ?thesis
    using chained_split(2) [OF c, of "fst (objs ! j)" "snd (objs ! j)"] x by simp
qed

end

text \<open>Requests to \<open>om_alloc\<close>: class, format, size.\<close>

definition om_request :: "u64 \<Rightarrow> 'a heap_scheme \<Rightarrow> u64 \<times> u64 \<times> u64 \<Rightarrow> 'a heap_scheme \<times> u64" where
  "om_request om h r = om_alloc h om (fst r) (fst (snd r)) (snd (snd r))"

definition request_need :: "u64 \<times> u64 \<times> u64 \<Rightarrow> nat" where
  "request_need r = request_bytes (fst (snd r)) (snd (snd r))"

definition heap_inv :: "u64 \<Rightarrow> nat \<Rightarrow> u64 \<Rightarrow> u64 \<Rightarrow> 'a heap_scheme \<Rightarrow> (nat \<times> nat) list \<Rightarrow> bool" where
  "heap_inv om i start end_addr h objs \<longleftrightarrow>
     layout h om i objs \<and> om_start (simple_oms h ! i) = start \<and> om_end (simple_oms h ! i) = end_addr"

interpretation om: allocator "om_request v" "heap_inv v i start end_addr"
  "\<lambda>r. unat (snd (snd r)) < 2 ^ 50" request_need "unat end_addr - unat start" start
  for v i start end_addr
proof
  fix s :: "'a heap_scheme" and objs r s' a
  assume inv: "heap_inv v i start end_addr s objs" and sz: "unat (snd (snd r)) < 2 ^ 50"
    and a: "om_request v s r = (s', a)"
  have l: "layout s v i objs" and se: "om_start (simple_oms s ! i) = start" "om_end (simple_oms s ! i) = end_addr"
    using inv by (simp_all add: heap_inv_def)
  show "case abs_alloc (unat end_addr - unat start) objs (request_need r) of
      None \<Rightarrow> a = 0 \<and> s' = s
    | Some objs' \<Rightarrow> a = start + of_nat (fst (last objs')) \<and> a \<noteq> 0 \<and> heap_inv v i start end_addr s' objs'"
    using layout_alloc [OF l sz a [unfolded om_request_def]] se
    by (auto simp: heap_inv_def request_need_def split: option.splits)
qed (simp add: heap_inv_def layout_def)

section \<open>A small heap for the witnesses\<close>

definition demo_heap :: heap where
  "demo_heap = om_init \<lparr>memory = \<lambda>_. 0, gc_contexts = [], simple_oms = []\<rparr> 65536 8192 1024"

lemma demo_heap_layout: "layout demo_heap 1024 0 []"
  "om_start (simple_oms demo_heap ! 0) = 65536" "om_end (simple_oms demo_heap ! 0) = 73728"
proof -
  let ?h = "\<lparr>memory = \<lambda>_. 0, gc_contexts = [], simple_oms = []\<rparr> :: heap"
  obtain i where i: "layout (om_init ?h 65536 8192 1024) 1024 i []"
    "simple_oms (om_init ?h 65536 8192 1024) ! i = fresh_om_entry 1024 65536 8192"
    by (rule layout_om_init [of 65536 8192 1024 ?h])
      (simp_all add: slot_def om_registration_index_def word_less_nat_alt)
  have "i = 0"
    using i(1) by (simp add: layout_def om_ok_def om_registration_index_def om_init_def Let_def
        fresh_om_entry_def)
  then show "layout demo_heap 1024 0 []" using i(1) by (simp add: demo_heap_def)
  show "om_start (simple_oms demo_heap ! 0) = 65536" "om_end (simple_oms demo_heap ! 0) = 73728"
    using i(2) \<open>i = 0\<close> by (simp_all add: demo_heap_def fresh_om_entry_ok)
qed

lemma demo_heap_inv: "heap_inv 1024 0 65536 73728 demo_heap []"
  using demo_heap_layout by (simp add: heap_inv_def)

section \<open>Dirty marking\<close>

lemma mark_page_dirty_fixed [simp]:
  "simple_om (fold mark_page_dirty qs e) = simple_om e" "om_start (fold mark_page_dirty qs e) = om_start e"
  "om_end (fold mark_page_dirty qs e) = om_end e" "page_counts (fold mark_page_dirty qs e) = page_counts e"
  "length (page_dirty (fold mark_page_dirty qs e)) = length (page_dirty e)"
  by (induction qs arbitrary: e) (simp_all add: mark_page_dirty_def)

lemma fold_mark_page_dirty:
  "q < length (page_dirty e) \<Longrightarrow>
    page_dirty (fold mark_page_dirty qs e) ! q = (if q \<in> set qs then 1 else page_dirty e ! q)"
  by (induction qs arbitrary: e) (auto simp: mark_page_dirty_def nth_list_update)

lemma mark_range_eq:
  assumes ok: "om_ok h om i" and n: "size_bytes \<noteq> 0"
    and lo: "om_start (simple_oms h ! i) \<le> a"
    and hi: "unat a + unat size_bytes \<le> unat (om_end (simple_oms h ! i))"
  shows "om_mark_address_range_dirty h om a size_bytes = update_om h i (fold mark_page_dirty
    [(unat a - unat (om_start (simple_oms h ! i))) div 4096 ..<
     Suc ((unat a + unat size_bytes - 1 - unat (om_start (simple_oms h ! i))) div 4096)])"
proof -
  let ?s = "om_start (simple_oms h ! i)" and ?e = "om_end (simple_oms h ! i)"
  have reg: "om_registration_index h om = Some i" using ok by (simp add: om_ok_def)
  have nz: "0 < unat size_bytes" using n by (simp add: unat_gt_0)
  have a0: "a \<noteq> 0"
    using lo om_ok_bounds(5) [OF ok] by (metis word_le_0_iff)
  have u: "unat (a + size_bytes) = unat a + unat size_bytes"
    using hi unat_u64_less [of ?e] by (simp add: unat_u64_plus)
  then have "a + size_bytes \<noteq> 0" using nz by (metis add_is_0 unsigned_0 less_irrefl)
  then have u1: "unat (a + size_bytes - 1) = unat a + unat size_bytes - 1"
    using u by (simp add: unat_minus_one)
  have in1: "?s \<le> a" "a < ?e" using lo hi nz by (simp_all add: word_less_nat_alt)
  have in2: "?s \<le> a + size_bytes - 1" "a + size_bytes - 1 < ?e"
    using lo hi nz unfolding word_le_nat_alt word_less_nat_alt u1 by linarith+
  show ?thesis
    unfolding om_mark_address_range_dirty_def Let_def
    using reg a0 n page_id_of(2,3) [OF ok in1] page_id_of(2,3) [OF ok in2]
    by (simp add: page_range_def u1)
qed

lemma page_dirty_length:
  "om_ok h om i \<Longrightarrow> length (page_dirty (simple_oms h ! i)) = unat (page_counts (simple_oms h ! i))"
  by (simp add: om_ok_def entry_ok_def)

lemma om_page_is_dirty_eq:
  assumes "om_registration_index h om = Some i"
  shows "om_page_is_dirty h om p \<longleftrightarrow>
    p < page_counts (simple_oms h ! i) \<and> page_dirty (simple_oms h ! i) ! unat p \<noteq> 0"
  using assms by (auto simp: om_page_is_dirty_def page_table_get_def not_less)

lemma count_dirty:
  "fold (\<lambda>p count. if P p then count + 1 else count) [0..<n] (c :: u64) = c + of_nat (card {p. p < n \<and> P p})"
proof (induction n)
  case (Suc n)
  have "{p. p < Suc n \<and> P p} = (if P n then insert n {p. p < n \<and> P p} else {p. p < n \<and> P p})"
    by (auto simp: less_Suc_eq)
  then show ?case using Suc by simp
qed simp

section \<open>Page boundaries\<close>

lemma chained_place: "chained off objs \<Longrightarrow> (ofs, n) \<in> set objs \<Longrightarrow> \<exists>prev. ofs = place prev n"
  by (induction off objs rule: chained.induct) auto

lemma spans_pages_eq:
  assumes l: "layout h om i objs" and x: "(ofs, n) \<in> set objs"
  shows "om_object_spans_pages h om (om_start (simple_oms h ! i) + of_nat ofs) \<longleftrightarrow>
    ofs div 4096 \<noteq> (ofs + n - 1) div 4096"
proof -
  let ?s = "om_start (simple_oms h ! i)" and ?o = "om_start (simple_oms h ! i) + of_nat ofs"
  note ok = layoutD(1) [OF l] and ob = layout_object_bounds [OF l x]
  have nz: "?o \<noteq> 0"
    using ob(3) om_ok_bounds(5) [OF ok] by (metis add_is_0 unsigned_0 unsigned_eq_0_iff)
  have hi: "unat ?s + ofs + n \<le> unat (om_end (simple_oms h ! i))"
    using ob(1) layout_end(2) [OF l] by linarith
  have b: "om_object_bytes (memory h) ?o = of_nat n" using ob(4) by (rule of_nat_unat_word)
  have sb: "(OBJ_HEADER_WORDS + (if OBJ_FORMAT (memory h) ?o = FORMAT_BYTES
      then (OBJ_SIZE (memory h) ?o + WORD_BYTES - 1) div WORD_BYTES
      else OBJ_SIZE (memory h) ?o)) * WORD_BYTES = of_nat n"
    using b nz unfolding om_object_bytes_def om_object_words_def by (simp split: if_splits)
  have "?o + of_nat n = ?s + of_nat (ofs + n)" by simp
  then have u: "unat (?o + of_nat n) = unat ?s + ofs + n"
    using unat_start_plus [OF ok, of "ofs + n"] hi by (simp only: add.assoc)
  then have "?o + of_nat n \<noteq> 0" using ob(2) by (metis add_is_0 unsigned_0 not_numeral_le_zero)
  then have u1: "unat (?o + of_nat n - 1) = unat ?s + ofs + n - 1" using u by (simp add: unat_minus_one)
  have in1: "?s \<le> ?o" "?o < om_end (simple_oms h ! i)"
    using ob(2,3) hi by (simp_all add: word_le_nat_alt word_less_nat_alt)
  have in2: "?s \<le> ?o + of_nat n - 1" "?o + of_nat n - 1 < om_end (simple_oms h ! i)"
    using ob(2) hi unfolding word_le_nat_alt word_less_nat_alt u1 by linarith+
  have "om_page_id_for_address h om ?o \<noteq> om_page_id_for_address h om (?o + of_nat n - 1) \<longleftrightarrow>
      ofs div 4096 \<noteq> (ofs + n - 1) div 4096"
    using page_id_of(2) [OF ok in1] page_id_of(2) [OF ok in2] ob(2,3) u1
    by (simp add: word_unat_eq_iff)
  moreover have "om_object_spans_pages h om ?o \<longleftrightarrow>
      om_page_id_for_address h om ?o \<noteq> om_page_id_for_address h om (?o + of_nat n - 1)"
    using nz page_id_of(3) [OF ok in1] page_id_of(3) [OF ok in2]
    by (simp only: om_object_spans_pages_def Let_def sb if_False simp_thms)
  ultimately show ?thesis by simp
qed

section \<open>Requests that do not fit into the address space\<close>




section \<open>Properties\<close>

text \<open>
  C28. \<^verbatim>\<open>om_alloc\<close> either returns NULL with the heap unchanged, or an object inside the heap
  whose header holds the requested class, format and size and whose fields are all zero; every
  other word of memory except the free pointer keeps its value, and so do the tables of the other
  object memories. This is for sizes below \<open>2 ^ 50\<close>; near \<open>2 ^ 61\<close> the new free
  pointer wraps around and it is not so.
\<close>

theorem om_alloc_contents:
  assumes "om_ok h om i" and "unat obj_size < 2 ^ 50"
    and "om_alloc h om c f obj_size = (h', object)"
  shows "if object = 0 then h' = h
    else OBJ_CLASS (memory h') object = c \<and> OBJ_FORMAT (memory h') object = f \<and>
      OBJ_SIZE (memory h') object = obj_size \<and>
      (\<forall>k < slot_words_for f obj_size. OBJ_FIELD (memory h') object k = 0) \<and>
      om_start (simple_oms h ! i) \<le> object \<and>
      unat object + request_bytes f obj_size \<le> unat (om_end (simple_oms h ! i)) \<and>
      (\<forall>a. memory h' a \<noteq> memory h a \<longrightarrow>
        a = om \<or> (object \<le> a \<and> unat a < unat object + request_bytes f obj_size)) \<and>
      (\<forall>j. j \<noteq> i \<longrightarrow> simple_oms h' ! j = simple_oms h ! j) \<and> om_ok h' om i"
proof (cases "object = 0")
  case True
  then show ?thesis using om_alloc_null [OF assms(1,2)] assms(3) by simp
next
  case False
  note am = om_alloc_memory [OF assms(1,2) refl refl assms(3) False]
  let ?k = "unat (slot_words_for f obj_size)" and ?n = "request_bytes f obj_size"
  have nk: "?n = 8 * (3 + ?k)" using unat_slot_words [OF assms(2)] by simp
  have b: "unat object + ?n < 2 ^ 64" using am(1) om_ok_bounds(3) [OF assms(1)] by simp
  have zero: "OBJ_FIELD (memory h') object k = 0" if "k < slot_words_for f obj_size" for k
    using am(6) [of "unat k"] that by (simp add: OBJ_FIELD_def field_addr_def word_less_nat_alt)
  have frame: "a = om \<or> (object \<le> a \<and> unat a < unat object + ?n)" if "memory h' a \<noteq> memory h a" for a
  proof (rule ccontr)
    assume no: "\<not> ?thesis"
    then have "a \<noteq> slot object (int j)" if "j < 3 + ?k" for j
      using object_words_in_bytes [OF nk b that] by auto
    then show False using am(7) [of a] no that by blast
  qed
  show ?thesis
    using am(1-5,8,9) zero frame False
    by (simp add: OBJ_CLASS_def OBJ_FORMAT_def OBJ_SIZE_def word_le_nat_alt)
qed

theorem om_alloc_contents_witness:
  "OBJ_SIZE (memory (fst (om_alloc demo_heap 1024 800 0 2))) (snd (om_alloc demo_heap 1024 800 0 2)) = 2"
proof -
  obtain h' a where alloc: "om_alloc demo_heap 1024 800 0 2 = (h', a)" by (cases "om_alloc demo_heap 1024 800 0 2")
  have "a = 65536"
    using layout_alloc [OF demo_heap_layout(1) _ alloc] demo_heap_layout(2,3)
    by (simp add: request_bytes_def abs_alloc_def place_def)
  then show ?thesis
    using om_alloc_contents [OF layoutD(1) [OF demo_heap_layout(1)] _ alloc] alloc by simp
qed

text \<open>
  C9. From any heap whose allocated objects are known, a run of \<^verbatim>\<open>om_alloc\<close> requests of sizes below
  \<open>2 ^ 50\<close> returns exactly the addresses of the abstract bump allocator (NULL where it refuses), and
  leaves the page tables, sizes and free pointer determined by the resulting object list. (For
  these sizes \<^verbatim>\<open>total_bytes\<close> and the new free pointer do not wrap around; near \<open>2 ^ 61\<close> they do, and a
  request that the abstract allocator refuses is granted.)
\<close>

theorem om_alloc_refines_bump_allocator:
  assumes "heap_inv om i start end_addr h objs" and "\<forall>r \<in> set rs. unat (snd (snd r)) < 2 ^ 50"
    and "alloc_all (om_request om) h rs = (h', addrs)"
  shows "\<exists>objs'. abs_alloc_all (unat end_addr - unat start) start objs (map request_need rs) = (objs', addrs) \<and>
    heap_inv om i start end_addr h' objs'"
  using assms by (rule om.alloc_all_refines)

theorem om_alloc_refines_bump_allocator_witness:
  "snd (alloc_all (om_request 1024) demo_heap [(800, 0, 500), (800, 0, 20), (800, 0, 600), (800, 0, 1)]) =
    [65536, 65536 + 4096, 0, 65536 + 4096 + 184]"
proof -
  let ?rs = "[(800, 0, 500), (800, 0, 20), (800, 0, 600), (800, 0, 1)] :: (u64 \<times> u64 \<times> u64) list"
  obtain h' addrs where a: "alloc_all (om_request 1024) demo_heap ?rs = (h', addrs)"
    by (cases "alloc_all (om_request 1024) demo_heap ?rs")
  have sz: "\<forall>r \<in> set ?rs. unat (snd (snd r)) < 2 ^ 50" by simp
  have "\<exists>objs'. abs_alloc_all (unat (73728 :: u64) - unat (65536 :: u64)) 65536 [] (map request_need ?rs) = (objs', addrs)"
    using om_alloc_refines_bump_allocator [OF demo_heap_inv sz a] by blast
  then have "addrs = [65536, 65536 + 4096, 0, 65536 + 4096 + 184]"
    by (simp add: request_need_def request_bytes_def abs_alloc_def place_def Let_def)
  then show ?thesis by (simp only: a snd_conv)
qed



text \<open>
  C29. \<^verbatim>\<open>om_next_object\<close> enumerates the allocated objects in address order: from each object it
  returns the next one, across skipped page tails, and NULL after the last.
\<close>

theorem om_next_object_enumerates:
  assumes "layout h om i objs" and "k < length objs"
  shows "om_next_object h om (om_start (simple_oms h ! i) + of_nat (fst (objs ! k))) =
    (if Suc k < length objs then om_start (simple_oms h ! i) + of_nat (fst (objs ! Suc k)) else 0)"
proof -
  obtain ofs n where x: "objs ! k = (ofs, n)" by (cases "objs ! k")
  have split: "objs = take k objs @ (ofs, n) # drop (Suc k) objs"
    using id_take_nth_drop [OF assms(2)] x by simp
  show ?thesis
  proof (cases "Suc k < length objs")
    case True
    obtain ofs' n' where y: "objs ! Suc k = (ofs', n')" by (cases "objs ! Suc k")
    have "drop (Suc k) objs = (ofs', n') # drop (Suc (Suc k)) objs"
      using True y by (simp add: Cons_nth_drop_Suc [symmetric])
    then show ?thesis
      using next_object_next [OF assms(1)] split x y True by (metis fst_conv)
  next
    case False
    then have "end_of 0 objs = ofs + n" by (subst split) simp
    moreover have "(ofs, n) \<in> set objs" by (subst split) simp
    ultimately show ?thesis using next_object_last [OF assms(1)] x False by simp
  qed
qed

lemma demo_two_objects:
  obtains h :: heap where "layout h 1024 0 [(0, 4024), (4096, 184)]" "om_start (simple_oms h ! 0) = 65536"
proof -
  let ?rs = "[(800, 0, 500), (800, 0, 20)] :: (u64 \<times> u64 \<times> u64) list"
  obtain h' addrs where a: "alloc_all (om_request 1024) demo_heap ?rs = (h', addrs)"
    by (cases "alloc_all (om_request 1024) demo_heap ?rs")
  have sz: "\<forall>r \<in> set ?rs. unat (snd (snd r)) < 2 ^ 50" by simp
  have "\<exists>objs'. abs_alloc_all (unat (73728 :: u64) - unat (65536 :: u64)) 65536 [] (map request_need ?rs) =
      (objs', addrs) \<and> heap_inv 1024 0 65536 73728 h' objs'"
    using om.alloc_all_refines [OF demo_heap_inv sz a] by blast
  then have "heap_inv 1024 0 65536 73728 h' [(0, 4024), (4096, 184)]"
    by (simp add: request_need_def request_bytes_def abs_alloc_def place_def Let_def)
  then show ?thesis by (intro that [of h']) (simp_all add: heap_inv_def)
qed

theorem om_next_object_enumerates_witness:
  "\<exists>h. om_next_object h 1024 (65536 :: u64) = 69632 \<and> om_next_object (h :: heap) 1024 69632 = 0"
proof -
  obtain h :: heap where l: "layout h 1024 0 [(0, 4024), (4096, 184)]" "om_start (simple_oms h ! 0) = 65536"
    by (rule demo_two_objects)
  show ?thesis
    using om_next_object_enumerates [OF l(1), of 0] om_next_object_enumerates [OF l(1), of 1] l(2)
    by (intro exI [of _ h]) simp
qed

text \<open>
  An allocated object spans pages only if it is larger than a page: \<^verbatim>\<open>om_object_spans_pages\<close>
  answers no for every object of at most 4096 bytes, and for a larger one it says whether its first
  and last byte lie on different pages.
\<close>

theorem small_objects_never_span_pages:
  assumes "layout h om i objs" and "(ofs, n) \<in> set objs"
  shows "(n \<le> 4096 \<longrightarrow> \<not> om_object_spans_pages h om (om_start (simple_oms h ! i) + of_nat ofs)) \<and>
    (om_object_spans_pages h om (om_start (simple_oms h ! i) + of_nat ofs) \<longleftrightarrow>
      ofs div 4096 \<noteq> (ofs + n - 1) div 4096)"
proof -
  obtain prev where "ofs = place prev n"
    using chained_place [OF layoutD(2) [OF assms(1)] assms(2)] by blast
  then have "n \<le> 4096 \<longrightarrow> ofs div 4096 = (ofs + n - 1) div 4096"
    using place_not_spanning [of n prev] layout_object_bounds(2) [OF assms] by auto
  then show ?thesis using spans_pages_eq [OF assms] by simp
qed

theorem small_objects_never_span_pages_witness:
  "\<exists>h. \<not> om_object_spans_pages (h :: heap) 1024 69632"
proof -
  obtain h :: heap where l: "layout h 1024 0 [(0, 4024), (4096, 184)]" "om_start (simple_oms h ! 0) = 65536"
    by (rule demo_two_objects)
  show ?thesis
    using small_objects_never_span_pages [OF l(1), of 4096 184] l(2) by (intro exI [of _ h]) simp
qed

text \<open>
  C30. The write barrier's range marking is exact: after \<^verbatim>\<open>om_mark_address_range_dirty\<close> on a range
  inside the heap, a page is dirty iff it was dirty before or the range touches it; the dirty page
  count is the number of dirty pages; after \<^verbatim>\<open>om_clear_dirty_pages\<close> it is zero.
\<close>

theorem dirty_marking_exact:
  assumes "om_ok h om i" and "size_bytes \<noteq> 0" and "om_start (simple_oms h ! i) \<le> a"
    and "unat a + unat size_bytes \<le> unat (om_end (simple_oms h ! i))"
  shows "(om_page_is_dirty (om_mark_address_range_dirty h om a size_bytes) om p \<longleftrightarrow>
      om_page_is_dirty h om p \<or>
      (unat a - unat (om_start (simple_oms h ! i))) div 4096 \<le> unat p \<and>
      unat p \<le> (unat a + unat size_bytes - 1 - unat (om_start (simple_oms h ! i))) div 4096) \<and>
    unat (om_dirty_page_count h om) = card {q. q < unat (page_counts (simple_oms h ! i)) \<and>
      page_dirty (simple_oms h ! i) ! q \<noteq> 0} \<and>
    om_dirty_page_count (om_clear_dirty_pages h om) om = 0"
proof -
  let ?e = "simple_oms h ! i" and ?lo = "(unat a - unat (om_start (simple_oms h ! i))) div 4096"
  let ?hi = "(unat a + unat size_bytes - 1 - unat (om_start (simple_oms h ! i))) div 4096"
  note ok = assms(1) and len = page_dirty_length [OF assms(1)] and il = om_okD(4) [OF assms(1)]
  have reg: "om_registration_index h om = Some i" using ok by (simp add: om_ok_def)
  have hi: "?hi < unat (page_counts ?e)"
  proof (rule less_mult_imp_div_less)
    have "0 < unat size_bytes" using assms(2) by (simp add: unat_gt_0)
    then show "unat a + unat size_bytes - 1 - unat (om_start ?e) < unat (page_counts ?e) * 4096"
      using assms(3,4) om_ok_bounds(4) [OF ok] by (simp add: word_le_nat_alt)
  qed
  let ?h' = "om_mark_address_range_dirty h om a size_bytes"
  note eq = mark_range_eq [OF assms]
  have reg': "om_registration_index ?h' om = Some i"
    unfolding eq by (simp add: registration_update_om reg)
  have cnt: "page_counts (simple_oms ?h' ! i) = page_counts ?e" unfolding eq using il by simp
  have "page_dirty (simple_oms ?h' ! i) ! q = (if ?lo \<le> q \<and> q \<le> ?hi then 1 else page_dirty ?e ! q)"
    if "q < unat (page_counts ?e)" for q
    unfolding eq using il that len by (simp add: fold_mark_page_dirty less_Suc_eq_le del: upt_Suc)
  then have "om_page_is_dirty ?h' om p \<longleftrightarrow> om_page_is_dirty h om p \<or> ?lo \<le> unat p \<and> unat p \<le> ?hi"
    unfolding om_page_is_dirty_eq [OF reg'] om_page_is_dirty_eq [OF reg] cnt
    using hi by (auto simp: word_less_nat_alt split: if_splits)
  moreover have "unat (om_dirty_page_count h om) = card {q. q < unat (page_counts ?e) \<and> page_dirty ?e ! q \<noteq> 0}"
  proof -
    have "card {q. q < unat (page_counts ?e) \<and> page_dirty ?e ! q \<noteq> 0} \<le> card {q. q < unat (page_counts ?e)}"
      by (rule card_mono) auto
    then have "card {q. q < unat (page_counts ?e) \<and> page_dirty ?e ! q \<noteq> 0} < 18446744073709551616"
      using unat_u64_less [of "page_counts ?e"] by simp
    then show ?thesis by (simp add: om_dirty_page_count_def reg Let_def count_dirty unat_u64_of_nat)
  qed
  moreover have "om_dirty_page_count (om_clear_dirty_pages h om) om = 0"
  proof -
    show ?thesis using il
      by (simp add: om_dirty_page_count_def om_clear_dirty_pages_def reg registration_update_om
          count_dirty Let_def cong: conj_cong)
  qed
  ultimately show ?thesis by blast
qed

theorem dirty_marking_exact_witness:
  "om_page_is_dirty (om_mark_address_range_dirty demo_heap 1024 69000 1000) 1024 1"
  using dirty_marking_exact [OF layoutD(1) [OF demo_heap_layout(1)], of 1000 69000 1]
  by (simp add: demo_heap_layout(2,3) word_le_nat_alt)

text \<open>
  C40. \<^verbatim>\<open>om_alloc\<close> leaves every dirty flag as it was, although it writes the header and the fields
  of the new object: a page that was clean at the last checkpoint and receives a new object stays
  clean.
\<close>

theorem om_alloc_never_marks_dirty:
  "map page_dirty (simple_oms (fst (om_alloc h om c f obj_size))) = map page_dirty (simple_oms h)"
proof -
  have "map page_dirty (simple_oms (update_om h' i (fold (alloc_page_entry ps os oe sp) qs))) =
      map page_dirty (simple_oms h')" for h' :: "'a heap_scheme" and i ps os oe sp qs
  proof (rule nth_equalityI)
    fix j
    show "map page_dirty (simple_oms (update_om h' i (fold (alloc_page_entry ps os oe sp) qs))) ! j =
        map page_dirty (simple_oms h') ! j"
      if "j < length (map page_dirty (simple_oms (update_om h' i (fold (alloc_page_entry ps os oe sp) qs))))"
      using that by (cases "j = i") simp_all
  qed simp
  then show ?thesis by (simp add: om_alloc_def Let_def split: option.splits)
qed

end
