(* ===== verification/Image_Laws.thy ===== *)
theory Image_Laws
  imports Image_Prims
begin

text \<open>
  Properties of images on disk: pointers survive the conversion to offsets and back, a checkpoint
  file is valid exactly when its pages have the checksums it records, damage to the tables or the
  pages is detected, and a page taken over from an older file although it changed makes the new
  file invalid.
\<close>

section \<open>Pointers and offsets\<close>

lemma image_slot_roundtrip:
  assumes "old \<noteq> 0" and tag: "old AND 3 = 0" and v: "storable_value old limit v"
  shows "convert_slot_offset_to_pointer (convert_slot_pointer_to_offset v old limit) new (limit - old) =
    relocate old limit new v"
proof -
  have "convert_slot_pointer_to_offset v old limit = encode_durable_log_value v old limit"
    using assms(1)
    by (auto simp: convert_slot_pointer_to_offset_def encode_durable_log_value_def is_object_ptr_def)
  moreover have "convert_slot_offset_to_pointer w new (limit - old) = decode_durable_log_value w new (limit - old)"
    for w by (auto simp: convert_slot_offset_to_pointer_def decode_durable_log_value_def)
  ultimately show ?thesis using durable_value_roundtrip [OF tag v, of new] by simp
qed

interpretation image_slot: pointer_codec "\<lambda>v. convert_slot_pointer_to_offset v old limit"
  "\<lambda>w. convert_slot_offset_to_pointer w new (limit - old)"
  "\<lambda>v. old \<noteq> 0 \<and> old AND 3 = 0 \<and> storable_value old limit v" "relocate old limit new"
  for old limit new
  by unfold_locales (simp add: image_slot_roundtrip)

lemma convert_cells_apply:
  "distinct addrs \<Longrightarrow> convert_cells conv addrs m a = (if a \<in> set addrs then conv (m a) else m a)"
  by (induction addrs arbitrary: m) (auto simp: convert_cells_def)

section \<open>Reading words from files\<close>

lemma bit_word_of_bytes:
  "length bs \<le> 8 \<Longrightarrow> bit (word_of_bytes bs) k \<longleftrightarrow> k < 8 * length bs \<and> bit (bs ! (k div 8)) (k mod 8)"
proof (induction bs arbitrary: k)
  case Nil
  then show ?case by (simp add: word_of_bytes_def)
next
  case (Cons b bs)
  have w: "word_of_bytes (b # bs) = push_bit 8 (word_of_bytes bs) OR ucast b"
    by (simp add: word_of_bytes_def)
  have "bit (word_of_bytes (b # bs)) k \<longleftrightarrow>
      k < 64 \<and> 8 \<le> k \<and> bit (word_of_bytes bs) (k - 8) \<or> k < 8 \<and> bit b k"
    using bit_imp_le_length [of b k]
    unfolding w bit_or_iff bit_push_bit_iff bit_ucast_iff possible_bit_word len_bit0 len_num1 by auto
  also have "\<dots> \<longleftrightarrow> k < 8 * length (b # bs) \<and> bit ((b # bs) ! (k div 8)) (k mod 8)"
  proof (cases "k < 8")
    case False
    define j where "j = k - 8"
    have k: "k = 8 + j" using False by (simp add: j_def)
    have d: "k div 8 = Suc (j div 8)" "k mod 8 = j mod 8" by (simp_all add: k)
    have "bit (word_of_bytes bs) j \<longleftrightarrow> j < 8 * length bs \<and> bit (bs ! (j div 8)) (j mod 8)"
      using Cons.prems by (intro Cons.IH) simp
    then show ?thesis using Cons.prems unfolding d by (auto simp: k)
  qed simp
  finally show ?case .
qed

lemma word_bytes_word_of_bytes:
  assumes "length bs = 8"
  shows "word_bytes (word_of_bytes bs) = bs"
proof (rule nth_equalityI)
  fix i assume "i < length (word_bytes (word_of_bytes bs))"
  then have i: "i < 8" by simp
  show "word_bytes (word_of_bytes bs) ! i = bs ! i"
  proof (rule bit_word_eqI)
    fix n assume "n < LENGTH(8)"
    then have n: "n < 8" by simp
    have "(8 * i + n) div 8 = i" "(8 * i + n) mod 8 = n" using n by simp_all
    then show "bit (word_bytes (word_of_bytes bs) ! i) n = bit (bs ! i) n"
      using i n assms by (simp add: word_bytes_def bit_simps bit_word_of_bytes)
  qed
qed (simp add: assms)

lemma fread_words_complete:
  assumes "8 * n \<le> length file"
  shows "words_bytes (fst (fread_words n file)) = take (8 * n) file"
    "snd (fread_words n file) = drop (8 * n) file" "length (fst (fread_words n file)) = n"
proof -
  have k: "min n (length file div 8) = n" using assms by simp
  have "words_bytes (map (\<lambda>i. word_of_bytes (take 8 (drop (8 * i) file))) [0..<j]) = take (8 * j) file"
    if "j \<le> n" for j
    using that
  proof (induction j)
    case (Suc j)
    then have "length (take 8 (drop (8 * j) file)) = 8" using assms by simp
    then show ?case using Suc by (simp add: word_bytes_word_of_bytes take_add [of "8 * j" 8] add.commute [of 8])
  qed simp
  from this [of n] show "words_bytes (fst (fread_words n file)) = take (8 * n) file"
    by (simp add: fread_words_def k Let_def)
  show "snd (fread_words n file) = drop (8 * n) file" "length (fst (fread_words n file)) = n"
    by (simp_all add: fread_words_def k Let_def)
qed

section \<open>Checkpoint files\<close>

definition tables_of_length :: "nat \<Rightarrow> page_tables \<Rightarrow> bool" where
  "tables_of_length n t \<longleftrightarrow> length (state_table t) = n \<and> length (used_table t) = n \<and>
     length (first_table t) = n \<and> length (covering_table t) = n \<and> length (checksum_table t) = n"

lemma length_header_words [simp]: "length (header_words h) = 11"
  by (simp add: header_words_def)

lemma read_header_words: "read_header (words_bytes (header_words h) @ rest) = Some (h, rest)"
proof -
  have "header_of_words (header_words h) = h" by (cases h) (simp add: header_of_words_def header_words_def)
  then show ?thesis by (simp add: read_header_def fread_words_words_bytes)
qed

lemma load_page_tables_words:
  assumes "tables_of_length (unat count) t"
  shows "checkpoint_load_page_tables (words_bytes (table_words t) @ rest) count = Some (t, rest)"
proof (cases "count = 0")
  case True
  then have "t = \<lparr>state_table = [], used_table = [], first_table = [], covering_table = [], checksum_table = []\<rparr>"
    using assms by (cases t) (simp add: tables_of_length_def)
  then show ?thesis using True by (simp add: checkpoint_load_page_tables_def table_words_def)
next
  case False
  then show ?thesis
    using assms by (cases t)
      (simp add: checkpoint_load_page_tables_def table_words_def tables_of_length_def fread_words_words_bytes)
qed

lemma metadata_checksum_foldl:
  assumes "tables_of_length (unat (page_count h)) t"
  shows "checkpoint_metadata_checksum h t = foldl fnv64_byte_step 1469598103934665603
    (words_bytes (header_words (h\<lparr>metadata_checksum := 0\<rparr>)) @ words_bytes (table_words t))"
proof (cases "page_count h = 0")
  case True
  then have "table_words t = []" using assms by (simp add: tables_of_length_def table_words_def)
  then show ?thesis using True
    by (simp add: checkpoint_metadata_checksum_def checkpoint_hash_bytes_def)
next
  case False
  then show ?thesis
    using assms by (simp add: checkpoint_metadata_checksum_def checkpoint_hash_bytes_def Let_def
        table_words_def tables_of_length_def)
qed

lemma metadata_checksum_own [simp]:
  "checkpoint_metadata_checksum (h\<lparr>metadata_checksum := c\<rparr>) t = checkpoint_metadata_checksum h t"
  by (simp add: checkpoint_metadata_checksum_def)

lemma validate_pages_concat:
  "\<forall>(c, b) \<in> set pages. length b = 4096 \<Longrightarrow>
    validate_pages (concat (map snd pages)) (map fst pages) \<longleftrightarrow>
    (\<forall>(c, b) \<in> set pages. checkpoint_page_checksum b = c)"
  by (induction pages) auto

lemma page_metadata_ok_checksums [simp]: "page_metadata_ok (t\<lparr>checksum_table := cs\<rparr>) = page_metadata_ok t"
  by (rule ext) (simp add: page_metadata_ok_def)

section \<open>Buffers keep their length\<close>

lemma length_put_buffer_word [simp]: "length (put_buffer_word buf off w) = length buf"
  by (simp add: put_buffer_word_def)

lemma length_convert_buffer [simp]: "length (convert_buffer conv offs buf) = length buf"
  by (induction offs arbitrary: buf) (simp_all add: convert_buffer_def)

lemma length_checkpoint_page_objects:
  "checkpoint_page_objects h om hs hl ps pe buf cur = Some buf' \<Longrightarrow> length buf' = length buf"
  by (rule checkpoint_page_objects.raw_induct
        [where P = "\<lambda>h om hs hl ps pe buf cur buf'. length buf' = length buf"])
    (auto split: if_splits)

lemma checkpoint_page_live_le: "unat (checkpoint_page_live_bytes used p) \<le> 4096"
  by (auto simp: checkpoint_page_live_bytes_def Let_def word_less_nat_alt)

lemma length_checkpoint_page_copy:
  "checkpoint_page_copy h om hs used st p = Some b \<Longrightarrow> length b = 4096"
  using checkpoint_page_live_le [of used p]
  by (auto simp: checkpoint_page_copy_def checkpoint_page_pointers_to_offsets_def Let_def
      dest!: length_checkpoint_page_objects split: if_splits)

lemma length_checkpoint_written_page:
  "length b = 4096 \<Longrightarrow> length (checkpoint_written_page h om source count st p b) = 4096"
  by (auto simp: checkpoint_written_page_def Let_def split: option.splits)

text \<open>What the page loop produces for each page.\<close>

lemma checkpoint_pages_nth:
  assumes "checkpoint_pages h om hs used count source ok states ids = Some (Some pages)"
  shows "length pages = length ids \<and> (\<forall>i < length ids. \<exists>b.
    checkpoint_page_copy h om hs used (states ! (ids ! i)) (of_nat (ids ! i)) = Some b \<and>
    pages ! i = (checkpoint_page_checksum b,
      checkpoint_written_page h om source count (states ! (ids ! i)) (of_nat (ids ! i)) b))"
  using assms
proof (induction ids arbitrary: pages)
  case (Cons p ids)
  obtain b rest where b: "checkpoint_page_copy h om hs used (states ! p) (of_nat p) = Some b"
    and rest: "checkpoint_pages h om hs used count source ok states ids = Some (Some rest)"
    and pages: "pages = (checkpoint_page_checksum b,
      checkpoint_written_page h om source count (states ! p) (of_nat p) b) # rest"
    using Cons.prems by (auto simp: Let_def split: option.splits if_splits)
  show ?case
  proof (intro conjI allI impI)
    show "length pages = length (p # ids)" using Cons.IH [OF rest] pages by simp
    fix i assume "i < length (p # ids)"
    then show "\<exists>b. checkpoint_page_copy h om hs used (states ! ((p # ids) ! i)) (of_nat ((p # ids) ! i)) = Some b \<and>
      pages ! i = (checkpoint_page_checksum b, checkpoint_written_page h om source count
        (states ! ((p # ids) ! i)) (of_nat ((p # ids) ! i)) b)"
      using Cons.IH [OF rest] b pages by (cases i) simp_all
  qed
qed simp

section \<open>Validity of a checkpoint file\<close>

lemma checkpoint_file_valid_iff:
  assumes "magic header = IMAGE_CHECKPOINT_MAGIC" and "page_bytes header = OM_PAGE_BYTES"
    and "tables_of_length (unat (page_count header)) t" and "length pages = unat (page_count header)"
    and "list_all (page_metadata_ok t) [0..<unat (page_count header)]"
    and "\<forall>(c, b) \<in> set pages. length b = 4096"
  shows "image_checkpoint_validate (Some (checkpoint_file header t pages)) \<longleftrightarrow>
    (\<forall>(c, b) \<in> set pages. checkpoint_page_checksum b = c)"
proof -
  let ?t = "t\<lparr>checksum_table := map fst pages\<rparr>"
  let ?h = "header\<lparr>metadata_checksum := checkpoint_metadata_checksum header ?t\<rparr>"
  have t: "tables_of_length (unat (page_count ?h)) ?t"
    using assms(3,4) by (simp add: tables_of_length_def)
  have "checkpoint_header_is_valid ?h ?t"
    using assms(1,2,5) by (simp add: checkpoint_header_is_valid_def)
  then have "image_checkpoint_validate (Some (checkpoint_file header t pages)) \<longleftrightarrow>
      validate_pages (concat (map snd pages)) (map fst pages)"
    using load_page_tables_words [OF t]
    by (simp add: image_checkpoint_validate_def checkpoint_file_def Let_def read_header_words)
  then show ?thesis using validate_pages_concat [OF assms(6)] by simp
qed

lemma checkpoint_tables_length: "tables_of_length (unat count) (checkpoint_tables h om hs count)"
  by (simp add: tables_of_length_def checkpoint_tables_def Let_def)

lemma checkpoint_tables_nth:
  assumes "p < unat count"
  shows "state_table (checkpoint_tables h om hs count) ! p = ucast (om_page_state h om (of_nat p))"
    "used_table (checkpoint_tables h om hs count) ! p = om_page_used_bytes h om (of_nat p)"
    "first_table (checkpoint_tables h om hs count) ! p =
      page_object_offset_in_heap (om_page_first_object_start h om (of_nat p)) hs"
  using assms by (simp_all add: checkpoint_tables_def Let_def)

text \<open>The bytes of a complete checkpoint, as the primitive computes them.\<close>

definition checkpoint_image ::
  "vm \<Rightarrow> u64 \<Rightarrow> u64 \<Rightarrow> u64 \<Rightarrow> u64 \<Rightarrow> u64 \<Rightarrow> u64 \<Rightarrow> u8 list option \<Rightarrow> (nat \<Rightarrow> bool) \<Rightarrow> u8 list \<Rightarrow> bool" where
  "checkpoint_image s om class_table hs used count gen source ok file \<longleftrightarrow>
     (\<exists>pages. checkpoint_pages s om hs used count source ok
          (state_table (checkpoint_tables s om hs count)) [0..<unat count] = Some (Some pages) \<and>
        file = checkpoint_file ((checkpoint_header s class_table hs used count)\<lparr>generation := gen\<rparr>)
          (checkpoint_tables s om hs count) pages)"

lemma checkpoint_image_valid:
  assumes "checkpoint_image s om class_table hs used count gen source ok file"
    and "\<forall>p < unat count. om_page_state s om (of_nat p) \<in> {1, 2}"
  shows "image_checkpoint_validate (Some file) \<longleftrightarrow>
    (\<forall>p < unat count. \<exists>b. checkpoint_page_copy s om hs used (ucast (om_page_state s om (of_nat p))) (of_nat p) = Some b \<and>
      checkpoint_page_checksum (checkpoint_written_page s om source count
        (ucast (om_page_state s om (of_nat p))) (of_nat p) b) = checkpoint_page_checksum b)"
proof -
  let ?t = "checkpoint_tables s om hs count"
  obtain pages where pages: "checkpoint_pages s om hs used count source ok (state_table ?t) [0..<unat count] =
      Some (Some pages)"
    and f: "file = checkpoint_file ((checkpoint_header s class_table hs used count)\<lparr>generation := gen\<rparr>) ?t pages"
    using assms(1) by (auto simp: checkpoint_image_def)
  note nth = checkpoint_pages_nth [OF pages]
  have len: "length pages = unat count" using nth by simp
  have each: "\<exists>b. checkpoint_page_copy s om hs used (ucast (om_page_state s om (of_nat p))) (of_nat p) = Some b \<and>
      pages ! p = (checkpoint_page_checksum b,
        checkpoint_written_page s om source count (ucast (om_page_state s om (of_nat p))) (of_nat p) b)"
    if "p < unat count" for p
    using nth that by (auto simp: checkpoint_tables_nth)
  have "length b = 4096" if cb: "(c, b) \<in> set pages" for c b
  proof -
    obtain i where i: "i < unat count" "pages ! i = (c, b)" using cb len by (auto simp: in_set_conv_nth)
    obtain b' where b': "checkpoint_page_copy s om hs used (ucast (om_page_state s om (of_nat i))) (of_nat i) = Some b'"
      "b = checkpoint_written_page s om source count (ucast (om_page_state s om (of_nat i))) (of_nat i) b'"
      using each [OF i(1)] i(2) by auto
    show ?thesis unfolding b'(2) using length_checkpoint_page_copy [OF b'(1)]
      by (rule length_checkpoint_written_page)
  qed
  moreover have "list_all (page_metadata_ok ?t) [0..<unat count]"
    using assms(2) by (fastforce simp: list_all_iff page_metadata_ok_def checkpoint_tables_nth)
  ultimately have "image_checkpoint_validate (Some file) \<longleftrightarrow>
      (\<forall>(c, b) \<in> set pages. checkpoint_page_checksum b = c)"
    unfolding f using checkpoint_tables_length [of count s om hs] len
    by (intro checkpoint_file_valid_iff) (auto simp: checkpoint_header_def)
  also have "\<dots> \<longleftrightarrow> (\<forall>p < unat count. checkpoint_page_checksum (snd (pages ! p)) = fst (pages ! p))"
    by (simp only: all_set_conv_all_nth len split_beta)
  also have "\<dots> \<longleftrightarrow> (\<forall>p < unat count. \<exists>b.
      checkpoint_page_copy s om hs used (ucast (om_page_state s om (of_nat p))) (of_nat p) = Some b \<and>
      checkpoint_page_checksum (checkpoint_written_page s om source count
        (ucast (om_page_state s om (of_nat p))) (of_nat p) b) = checkpoint_page_checksum b)"
    using each by fastforce
  finally show ?thesis .
qed

lemma checkpoint_file_valid_metadata:
  assumes "tables_of_length (unat (page_count header)) t" and "length pages = unat (page_count header)"
    and "image_checkpoint_validate (Some (checkpoint_file header t pages))"
  shows "list_all (page_metadata_ok t) [0..<unat (page_count header)]"
proof -
  let ?t = "t\<lparr>checksum_table := map fst pages\<rparr>"
  let ?h = "header\<lparr>metadata_checksum := checkpoint_metadata_checksum header ?t\<rparr>"
  have t: "tables_of_length (unat (page_count ?h)) ?t"
    using assms(1,2) by (simp add: tables_of_length_def)
  show ?thesis
    using assms(3) load_page_tables_words [OF t]
    by (simp add: image_checkpoint_validate_def checkpoint_file_def Let_def read_header_words
        checkpoint_header_is_valid_def)
qed

section \<open>Damaged files\<close>

lemma fread_words_take:
  assumes "8 * n \<le> length xs"
  shows "fst (fread_words n xs) = fst (fread_words n (take (8 * n) xs))"
proof -
  have "take 8 (drop (8 * i) (take (8 * n) xs)) = take 8 (drop (8 * i) xs)" if "i < n" for i
    using that by (simp add: drop_take min_def)
  moreover have "min n (length xs div 8) = n" "min n (length (take (8 * n) xs) div 8) = n"
    using assms by simp_all
  ultimately show ?thesis by (simp add: fread_words_def Let_def)
qed

lemma fread_words_length: "length (fst (fread_words n xs)) = n \<longleftrightarrow> 8 * n \<le> length xs"
  by (auto simp: fread_words_def Let_def min_def)

text \<open>A valid file in terms of its bytes behind the header.\<close>

lemma checkpoint_valid_bytes:
  assumes "read_header file = Some (h, D)" and "image_checkpoint_validate (Some file)"
  defines "n \<equiv> unat (page_count h)"
  shows "40 * n \<le> length D"
    "metadata_checksum h = foldl fnv64_byte_step 1469598103934665603
      (words_bytes (header_words (h\<lparr>metadata_checksum := 0\<rparr>)) @ take (40 * n) D)"
    "validate_pages (drop (40 * n) D) (fst (fread_words n (drop (32 * n) (take (40 * n) D))))"
proof -
  obtain t rest where t: "checkpoint_load_page_tables D (page_count h) = Some (t, rest)"
    and v: "checkpoint_header_is_valid h t" "validate_pages rest (checksum_table t)"
    using assms(1,2) by (auto simp: image_checkpoint_validate_def split: option.splits)
  have "40 * n \<le> length D \<and> tables_of_length n t \<and> words_bytes (table_words t) = take (40 * n) D \<and>
      rest = drop (40 * n) D \<and> checksum_table t = fst (fread_words n (drop (32 * n) D))"
  proof (cases "page_count h = 0")
    case True
    then show ?thesis using t
      by (auto simp: checkpoint_load_page_tables_def n_def tables_of_length_def table_words_def fread_words_def)
  next
    case False
    let ?F = "fread_words n"
    have parts: "length (fst (?F D)) = n" "length (fst (?F (snd (?F D)))) = n"
      "length (fst (?F (snd (?F (snd (?F D)))))) = n" "length (fst (?F (snd (?F (snd (?F (snd (?F D)))))))) = n"
      "length (fst (?F (snd (?F (snd (?F (snd (?F (snd (?F D)))))))))) = n"
      and tab: "t = \<lparr>state_table = fst (?F D), used_table = fst (?F (snd (?F D))),
        first_table = fst (?F (snd (?F (snd (?F D))))),
        covering_table = fst (?F (snd (?F (snd (?F (snd (?F D))))))),
        checksum_table = fst (?F (snd (?F (snd (?F (snd (?F (snd (?F D)))))))))\<rparr>"
      and rest: "rest = snd (?F (snd (?F (snd (?F (snd (?F (snd (?F D)))))))))"
      using t False by (auto simp: checkpoint_load_page_tables_def n_def Let_def split_beta split: if_splits)
    have s: "length (fst (?F xs)) = n \<Longrightarrow> snd (?F xs) = drop (8 * n) xs \<and>
        words_bytes (fst (?F xs)) = take (8 * n) xs \<and> 8 * n \<le> length xs" for xs
      using fread_words_complete [of n xs] fread_words_length [of n xs] by simp
    note s1 = s [OF parts(1)]
    note s2 = s [OF parts(2), unfolded s1 [THEN conjunct1]]
    note s3 = s [OF parts(3), unfolded s1 [THEN conjunct1] s2 [THEN conjunct1]]
    note s4 = s [OF parts(4), unfolded s1 [THEN conjunct1] s2 [THEN conjunct1] s3 [THEN conjunct1]]
    note s5 = s [OF parts(5), unfolded s1 [THEN conjunct1] s2 [THEN conjunct1] s3 [THEN conjunct1] s4 [THEN conjunct1]]
    have split5: "take (5 * k) xs = take k xs @ take k (drop k xs) @ take k (drop k (drop k xs)) @
        take k (drop k (drop k (drop k xs))) @ take k (drop k (drop k (drop k (drop k xs))))"
      for k and xs :: "u8 list"
    proof -
      have k: "5 * k = k + (k + (k + (k + k)))" by simp
      show ?thesis unfolding k take_add by simp
    qed
    have "words_bytes (table_words t) = take (5 * (8 * n)) D"
      unfolding split5 tab table_words_def using s1 s2 s3 s4 s5 by simp
    moreover have "rest = drop (40 * n) D" "checksum_table t = fst (?F (drop (32 * n) D))"
      unfolding rest tab using s1 s2 s3 s4 s5 by simp_all
    moreover have "40 * n \<le> length D"
    proof -
      have "8 * n \<le> length D - 32 * n" using s5 by simp
      then show ?thesis by (cases "n = 0") linarith+
    qed
    moreover have "tables_of_length n t" unfolding tab using parts by (simp add: tables_of_length_def)
    ultimately show ?thesis by simp
  qed
  note D = this
  have "fst (fread_words n (drop (32 * n) D)) = fst (fread_words n (drop (32 * n) (take (40 * n) D)))"
  proof -
    have "40 * n \<le> length D" using D by blast
    then have "8 * n \<le> length (drop (32 * n) D)" by simp
    from fread_words_take [OF this] show ?thesis by (simp add: drop_take)
  qed
  with D v show "40 * n \<le> length D"
    "metadata_checksum h = foldl fnv64_byte_step 1469598103934665603
      (words_bytes (header_words (h\<lparr>metadata_checksum := 0\<rparr>)) @ take (40 * n) D)"
    "validate_pages (drop (40 * n) D) (fst (fread_words n (drop (32 * n) (take (40 * n) D))))"
    using metadata_checksum_foldl [of h t] by (simp_all add: checkpoint_header_is_valid_def n_def)
qed

lemma validate_pages_change:
  "validate_pages xs cs \<Longrightarrow> j < 4096 * length cs \<Longrightarrow> b \<noteq> xs ! j \<Longrightarrow> \<not> validate_pages (xs[j := b]) cs"
proof (induction xs cs arbitrary: j rule: validate_pages.induct)
  case (2 xs c cs)
  show ?case
  proof (cases "j < 4096")
    case True
    have len: "length (take 4096 xs) = 4096" and c: "checkpoint_page_checksum (take 4096 xs) = c"
      using "2.prems" by (simp_all add: Let_def)
    have "checkpoint_page_checksum ((take 4096 xs)[j := b]) \<noteq> checkpoint_page_checksum (take 4096 xs)"
      unfolding checkpoint_page_checksum_def
      using True len "2.prems"(3) by (intro fnv64b.single_change_detected) auto
    then show ?thesis using c True by (simp add: Let_def take_update_swap)
  next
    case False
    then have "validate_pages (drop 4096 xs) cs" "j - 4096 < 4096 * length cs" "b \<noteq> drop 4096 xs ! (j - 4096)"
      using "2.prems" by (auto simp: Let_def nth_drop)
    then have "\<not> validate_pages ((drop 4096 xs)[j - 4096 := b]) cs" using "2.IH" by (auto simp: Let_def)
    then show ?thesis using False by (simp add: Let_def drop_update_swap)
  qed
qed simp

lemma full_checkpoint_valid:
  assumes "checkpoint_image s om class_table hs used count gen None ok file"
    and "\<forall>p < unat count. om_page_state s om (of_nat p) \<in> {1, 2}"
  shows "image_checkpoint_validate (Some file)"
proof -
  obtain pages where pages: "checkpoint_pages s om hs used count None ok
      (state_table (checkpoint_tables s om hs count)) [0..<unat count] = Some (Some pages)"
    using assms(1) by (auto simp: checkpoint_image_def)
  have "\<exists>b. checkpoint_page_copy s om hs used (ucast (om_page_state s om (of_nat p))) (of_nat p) = Some b"
    if "p < unat count" for p
    using checkpoint_pages_nth [OF pages] that by (auto simp: checkpoint_tables_nth)
  then show ?thesis
    unfolding checkpoint_image_valid [OF assms] by (fastforce simp: checkpoint_written_page_def)
qed

section \<open>Properties\<close>

lemma pointer_to_offset_twice:
  assumes "limit - old < old" and "old \<le> limit" and "storable_value old limit v"
  shows "convert_slot_pointer_to_offset (convert_slot_pointer_to_offset v old limit) old limit =
    convert_slot_pointer_to_offset v old limit"
proof (cases "is_object_ptr v \<and> old \<le> v \<and> v < limit")
  case True
  then have "unat v + 8 \<le> unat limit" using assms(3) by (auto simp: storable_value_def)
  then have "v - old + 8 \<le> limit - old" using True offset_bounds(2) [of old v limit] by blast
  then have "v - old + 8 < old" using assms(1) by simp
  then show ?thesis by (simp add: convert_slot_pointer_to_offset_def)
next
  case False
  then have "convert_slot_pointer_to_offset v old limit = v"
    by (auto simp: convert_slot_pointer_to_offset_def is_object_ptr_def)
  then show ?thesis by simp
qed

lemma offset_to_pointer_twice:
  assumes "used < new" and "new \<le> new + used"
  shows "convert_slot_offset_to_pointer (convert_slot_offset_to_pointer w new used) new used =
    convert_slot_offset_to_pointer w new used"
proof (cases "8 \<le> w \<and> w \<le> used")
  case True
  then have "w - 8 \<le> used" by (auto simp: word_le_nat_alt unat_sub)
  then have "new \<le> new + (w - 8)"
    using assms(2) unfolding no_olen_add by (simp add: word_le_def)
  then have "\<not> new + (w - 8) \<le> used" using assms(1) by (meson leD less_le_trans)
  moreover have "convert_slot_offset_to_pointer p new used = p" if "\<not> p \<le> used" for p
    using that by (auto simp: convert_slot_offset_to_pointer_def)
  moreover have "convert_slot_offset_to_pointer w new used \<in> {w, new + (w - 8)}"
    by (simp add: convert_slot_offset_to_pointer_def)
  ultimately show ?thesis by auto
next
  case False
  then show ?thesis by (auto simp: convert_slot_offset_to_pointer_def)
qed

text \<open>
  C21. Heap pointers survive the image. Converting the slots of the objects to offsets from a heap at
  \<open>old\<close> and back at \<open>new\<close> moves every pointer into the heap by the distance of the two heaps and
  leaves every other value and every other cell alone, when each slot holds a \<open>storable_value\<close>: a pointer
  into the heap leaves a word of room before its end, and no other value with the tag of a pointer lies
  between 8 and the size of the heap, where it would be taken for an offset. Objects on several pages may
  be met several times: a slot that has been converted already is not changed again, to an offset when the
  size of the heap is below \<open>old\<close>, and to a pointer when it is below \<open>new\<close> and the heap there does not wrap.
\<close>

theorem image_pointers_roundtrip:
  assumes "old \<noteq> 0" and "old AND 3 = 0" and "distinct cells"
    and "\<forall>a \<in> set cells. storable_value old limit (m a)"
  shows "convert_cells (\<lambda>v. convert_slot_offset_to_pointer v new (limit - old)) cells
      (convert_cells (\<lambda>v. convert_slot_pointer_to_offset v old limit) cells m) =
      (\<lambda>a. if a \<in> set cells then relocate old limit new (m a) else m a) \<and>
    (limit - old < old \<longrightarrow> old \<le> limit \<longrightarrow> (\<forall>v. storable_value old limit v \<longrightarrow>
      convert_slot_pointer_to_offset (convert_slot_pointer_to_offset v old limit) old limit =
      convert_slot_pointer_to_offset v old limit)) \<and>
    (limit - old < new \<longrightarrow> new \<le> new + (limit - old) \<longrightarrow> (\<forall>w.
      convert_slot_offset_to_pointer (convert_slot_offset_to_pointer w new (limit - old)) new (limit - old) =
      convert_slot_offset_to_pointer w new (limit - old)))"
proof (intro conjI)
  show "convert_cells (\<lambda>v. convert_slot_offset_to_pointer v new (limit - old)) cells
      (convert_cells (\<lambda>v. convert_slot_pointer_to_offset v old limit) cells m) =
      (\<lambda>a. if a \<in> set cells then relocate old limit new (m a) else m a)"
    using assms by (intro ext) (simp add: convert_cells_apply image_slot.dec_enc)
qed (use pointer_to_offset_twice offset_to_pointer_twice in blast)+

theorem image_pointers_roundtrip_witness:
  "convert_cells (\<lambda>v. convert_slot_offset_to_pointer v 65536 4096) [800, 808]
     (convert_cells (\<lambda>v. convert_slot_pointer_to_offset v 8192 12288) [800, 808] ((\<lambda>_. 5)(808 := 8224))) 808
   = 65568"
  using image_pointers_roundtrip [of 8192 "[800, 808]" 12288 "(\<lambda>_. 5)(808 := 8224)" 65536]
  by (simp add: storable_value_def is_object_ptr_def relocate_def)

text \<open>A heap of one page with one object, for the examples.\<close>

definition demo_image_vm :: "u8 \<Rightarrow> u64 \<Rightarrow> vm" where
  "demo_image_vm state first_object = idle_vm ((\<lambda>_. 0)(800 := 8216, 808 := 12288, 8192 := 8192))
     [\<lparr>simple_om = 800, om_start = 8192, om_end = 12288, page_used = [24], page_first = [first_object],
       page_covering = [first_object], page_dirty = [0], page_state = [state], page_reusable = [0],
       page_counts = 1\<rparr>]"

lemma demo_image_pages:
  "om_page_state (demo_image_vm st obj) 800 0 = st"
  "om_page_first_object_start (demo_image_vm st obj) 800 0 = obj"
  "\<not> om_page_is_dirty (demo_image_vm st obj) 800 0"
  by (simp_all add: demo_image_vm_def om_page_state_def om_page_first_object_start_def om_page_is_dirty_def
      page_table_get_def om_registration_index_def)

lemma demo_image_copy: "\<exists>b. checkpoint_page_copy (demo_image_vm 1 8192) 800 8192 24 1 0 = Some b"
proof -
  let ?s = "demo_image_vm 1 8192"
  have q: "om_page_start ?s 800 0 = 8192" "om_page_covering_object ?s 800 0 = 8192"
    by (simp_all add: demo_image_vm_def om_page_start_def om_page_covering_object_def
      page_table_get_def om_registration_index_def om_registered_start_def om_page_count_def)
  have "om_next_object ?s 800 8192 = 0"
    by (simp add: om_next_object_def demo_image_vm_def om_object_bytes_def om_object_words_def obj_defs slot_def)
  then show ?thesis
    by (simp add: checkpoint_page_copy_def checkpoint_page_live_bytes_def checkpoint_page_pointers_to_offsets_def q
        checkpoint_page_objects.simps)
qed

lemma demo_checkpoint_image:
  "\<exists>file. checkpoint_image (demo_image_vm 1 8192) 800 0 8192 24 1 gen source (\<lambda>_. True) file"
  using demo_image_copy by (auto simp: checkpoint_image_def checkpoint_tables_def demo_image_pages)

text \<open>
  C13. A checkpoint that writes every page itself is valid: when no older file is used and every page
  of the heap is a head or a continuation page, \<^verbatim>\<open>image_checkpoint_validate\<close> accepts the file.
\<close>

theorem full_checkpoint_is_valid:
  assumes "checkpoint_image s om class_table hs used count gen None ok file"
    and "\<forall>p < unat count. om_page_state s om (of_nat p) \<in> {1, 2}"
  shows "image_checkpoint_validate (Some file)"
  using assms by (rule full_checkpoint_valid)

theorem full_checkpoint_is_valid_witness:
  "\<exists>file. checkpoint_image (demo_image_vm 1 8192) 800 0 8192 24 1 1 None (\<lambda>_. True) file \<and>
    image_checkpoint_validate (Some file)"
proof -
  obtain file' where f: "checkpoint_image (demo_image_vm 1 8192) 800 0 8192 24 1 1 None (\<lambda>_. True) file'"
    using demo_checkpoint_image by blast
  show ?thesis using full_checkpoint_is_valid [OF f] f by (auto simp: demo_image_pages)
qed

text \<open>
  The page loop takes a page that is not dirty from the existing file, but records the checksum of the
  page of the heap.
\<close>

lemma stale_page_invalid:
  assumes "checkpoint_image s om class_table hs used count gen (Some old) ok file"
    and "\<forall>p < unat count. om_page_state s om (of_nat p) \<in> {1, 2}"
    and "p < unat count" and "\<not> om_page_is_dirty s om (of_nat p)"
    and "checkpoint_page_copy s om hs used (ucast (om_page_state s om (of_nat p))) (of_nat p) = Some b"
    and "stored = take 4096 (drop (unat (checkpoint_page_file_offset count (of_nat p))) old)"
    and "length stored = 4096" and "checkpoint_page_checksum stored \<noteq> checkpoint_page_checksum b"
  shows "\<not> image_checkpoint_validate (Some file)"
proof -
  have "om_page_state s om (of_nat p) \<in> {1, 2}" using assms(2,3) by blast
  then have "(ucast (om_page_state s om (of_nat p)) :: u64) \<noteq> 0" by auto
  then have "checkpoint_written_page s om (Some old) count (ucast (om_page_state s om (of_nat p))) (of_nat p) b = stored"
    using assms(4,6,7) by (simp add: checkpoint_written_page_def)
  then show ?thesis unfolding checkpoint_image_valid [OF assms(1,2)] using assms(3,5,8) by auto
qed

text \<open>
  C38. A released page spoils the checkpoint: \<^verbatim>\<open>page_object_offset_in_heap\<close> takes the null pointer of
  a page without objects for an object, so that its entry is not 0, and validation refuses the file.
\<close>

theorem free_page_spoils_checkpoint:
  assumes "checkpoint_image s om class_table hs used count gen source ok file"
    and "p < unat count" and "om_page_state s om (of_nat p) = OM_PAGE_STATE_FREE"
    and "om_page_first_object_start s om (of_nat p) = 0" and "hs \<noteq> 8"
  shows "\<not> image_checkpoint_validate (Some file)"
proof
  assume v: "image_checkpoint_validate (Some file)"
  let ?t = "checkpoint_tables s om hs count"
  let ?h = "(checkpoint_header s class_table hs used count)\<lparr>generation := gen\<rparr>"
  obtain pages where pages: "checkpoint_pages s om hs used count source ok (state_table ?t) [0..<unat count] =
      Some (Some pages)" and f: "file = checkpoint_file ?h ?t pages"
    using assms(1) by (auto simp: checkpoint_image_def)
  have pc: "page_count ?h = count" by (simp add: checkpoint_header_def)
  have "length pages = unat count" using checkpoint_pages_nth [OF pages] by simp
  then have "page_metadata_ok ?t p"
    using checkpoint_file_valid_metadata [of ?h ?t pages] checkpoint_tables_length [of count s om hs] v assms(2)
    unfolding f pc by (auto simp: list_all_iff)
  moreover have "8 - hs \<noteq> 0" using assms(5) by simp
  ultimately show False
    using assms(2,3,4) by (simp add: page_metadata_ok_def checkpoint_tables_nth page_object_offset_in_heap_def
        is_object_ptr_def)
qed

theorem free_page_spoils_checkpoint_witness:
  "\<exists>file. checkpoint_image (demo_image_vm 0 0) 800 0 8192 24 1 1 None (\<lambda>_. True) file \<and>
    \<not> image_checkpoint_validate (Some file)"
proof -
  obtain file' where f: "checkpoint_image (demo_image_vm 0 0) 800 0 8192 24 1 1 None (\<lambda>_. True) file'"
    by (auto simp: checkpoint_image_def checkpoint_tables_def demo_image_pages checkpoint_page_copy_def Let_def)
  show ?thesis
    using free_page_spoils_checkpoint [OF f, of 0] f by (auto simp: demo_image_pages)
qed

text \<open>
  C22. Damage is detected: changing any one byte of the tables or the pages of a valid checkpoint
  makes it invalid.
\<close>

theorem damaged_checkpoint_detected:
  assumes "image_checkpoint_validate (Some file)" and "read_header file = Some (h, D)"
    and "88 \<le> i" and "i < 88 + (40 + 4096) * unat (page_count h)" and "b \<noteq> file ! i"
  shows "\<not> image_checkpoint_validate (Some (file[i := b]))"
proof
  assume v: "image_checkpoint_validate (Some (file[i := b]))"
  let ?n = "unat (page_count h)" and ?j = "i - 88"
  have D: "D = drop 88 file" "88 \<le> length file"
    using assms(2) fread_words_complete(2) [of 11 "file"] by (auto simp: read_header_def split: if_splits)
  have "fst (fread_words 11 (file[i := b])) = fst (fread_words 11 file)"
    using fread_words_take [of 11 "file"] fread_words_take [of 11 "file[i := b]"] D(2) assms(3)
    by (simp add: take_update_cancel)
  then have rd: "read_header (file[i := b]) = Some (h, D[?j := b])"
    using assms(2,3) D fread_words_complete(2) [of 11 "file[i := b]"]
    by (auto simp: read_header_def drop_update_swap split: if_splits)
  note o = checkpoint_valid_bytes [OF assms(2,1)] and c = checkpoint_valid_bytes [OF rd v]
  show False
  proof (cases "?j < 40 * ?n")
    case True
    let ?xs = "words_bytes (header_words (h\<lparr>metadata_checksum := 0\<rparr>)) @ take (40 * ?n) D"
    have "words_bytes (header_words (h\<lparr>metadata_checksum := 0\<rparr>)) @ take (40 * ?n) (D[?j := b]) = ?xs[i := b]"
      using assms(3) by (simp add: list_update_append take_update_swap)
    moreover have "i < length ?xs" "b \<noteq> ?xs ! i"
      using True assms(3,5) o(1) D by (auto simp: nth_append)
    ultimately show False
      using fnv64b.single_change_detected [of i ?xs b 1469598103934665603] o(2) c(2) by simp
  next
    case False
    let ?k = "?j - 40 * ?n"
    have len: "length (fst (fread_words ?n (drop (32 * ?n) (take (40 * ?n) D)))) = ?n"
      unfolding fread_words_length using o(1) by simp
    have "\<not> validate_pages ((drop (40 * ?n) D)[?k := b]) (fst (fread_words ?n (drop (32 * ?n) (take (40 * ?n) D))))"
      using False assms(3,4,5) o(1,3) D len by (intro validate_pages_change) auto
    moreover have "drop (40 * ?n) (D[?j := b]) = (drop (40 * ?n) D)[?k := b]" "take (40 * ?n) (D[?j := b]) = take (40 * ?n) D"
      using False by (simp_all add: drop_update_swap take_update_cancel)
    ultimately show False using c(3) by simp
  qed
qed

theorem damaged_checkpoint_detected_witness:
  "\<exists>file. image_checkpoint_validate (Some file) \<and>
    \<not> image_checkpoint_validate (Some (file[100 := file ! 100 + 1]))"
proof -
  obtain file' where f: "checkpoint_image (demo_image_vm 1 8192) 800 0 8192 24 1 1 None (\<lambda>_. True) file'"
    using demo_checkpoint_image by blast
  have v: "image_checkpoint_validate (Some file')"
    using f by (intro full_checkpoint_valid) (auto simp: demo_image_pages)
  obtain h D where r: "read_header file' = Some (h, D)" and "page_count h = 1"
    using f by (auto simp: checkpoint_image_def checkpoint_file_def Let_def read_header_words checkpoint_header_def)
  then show ?thesis using damaged_checkpoint_detected [OF v r, of 100 "file' ! 100 + 1"] v by auto
qed

end
