(* ===== verification/Prim_Laws.thy ===== *)
theory Prim_Laws
  imports Interpret
begin

text \<open>
  Laws of the primitives that do not run code: a primitive that fails or is not supported leaves the
  machine as it was, small integer arithmetic is exact or fails, \<^verbatim>\<open>at:put:\<close> and \<^verbatim>\<open>at:\<close> read and
  write one element inside the bounds of the object.
\<close>

section \<open>Failing\<close>

text \<open>Unless it succeeds, the code changes nothing.\<close>

definition all_or_nothing :: "vm \<Rightarrow> PrimitiveResult outcome \<Rightarrow> bool" where
  "all_or_nothing s p \<longleftrightarrow> (\<forall>r s'. p = Done r s' \<longrightarrow> r = PRIMITIVE_SUCCEEDED \<or> s' = s)"

named_theorems failing \<open>primitives that succeed or change nothing\<close>

lemma all_or_nothing_simps [simp]:
  "all_or_nothing s (Done r s)" "all_or_nothing s (Done PRIMITIVE_SUCCEEDED s')"
  "all_or_nothing s (Trap s')" "all_or_nothing s No_result"
  by (simp_all add: all_or_nothing_def)

lemma all_or_nothing_or_else [failing]:
  "all_or_nothing s p \<Longrightarrow> all_or_nothing s (q s) \<Longrightarrow> all_or_nothing s (or_else p q)"
  unfolding all_or_nothing_def or_else_def
  by (cases p) (auto split: if_splits)

lemma all_or_nothing_succeeds:
  "all_or_nothing s (and_then p (\<lambda>v s. Done PRIMITIVE_SUCCEEDED (f v s)))"
  by (cases p) (simp_all add: all_or_nothing_def)

lemma all_or_nothing_allocation [failing]: "all_or_nothing s (try_allocation_primitive om p n s)"
  unfolding try_allocation_primitive_def prim_basic_new_def prim_basic_new_size_def Let_def
  by (auto simp: case_prod_unfold intro: all_or_nothing_succeeds)

lemma all_or_nothing_smallint [failing]: "all_or_nothing s (try_smallint_primitive p n s)"
  unfolding try_smallint_primitive_def Let_def by (auto split: option.split)

lemma all_or_nothing_object [failing]: "all_or_nothing s (try_object_primitive p n s)"
  unfolding try_object_primitive_def Let_def by simp

lemma all_or_nothing_retry: "all_or_nothing s (result_with_retry om prim s)"
proof -
  have "result_with_retry om prim s \<noteq> Done PRIMITIVE_FAILED s' \<and>
      result_with_retry om prim s \<noteq> Done PRIMITIVE_UNSUPPORTED s'" for s'
    unfolding result_with_retry_def
    by (auto simp: and_then_eq_Done split: prod.splits if_splits)
  then show ?thesis unfolding all_or_nothing_def by (metis PrimitiveResult.exhaust)
qed

lemma all_or_nothing_live_image [failing]: "all_or_nothing s (try_live_image_primitive om p n s)"
  unfolding try_live_image_primitive_def class_query_def Let_def
  by (simp add: all_or_nothing_retry split: prod.split)

lemma all_or_nothing_character [failing]: "all_or_nothing s (try_character_primitive p n s)"
  unfolding try_character_primitive_def Let_def by simp

lemma all_or_nothing_string [failing]: "all_or_nothing s (try_string_symbol_primitive p n s)"
  unfolding try_string_symbol_primitive_def Let_def by (simp split: prod.split)

lemma all_or_nothing_indexed [failing]:
  "p \<noteq> PRIM_SIGNAL \<Longrightarrow> all_or_nothing s (try_indexed_primitive interp om p n log s)"
  unfolding try_indexed_primitive_def prim_size_def prim_at_def prim_at_put_def Let_def
  by (simp split: option.split)

text \<open>The primitives that run blocks, jump, or work on files.\<close>

definition runs_code_or_files :: "u64 \<Rightarrow> bool" where
  "runs_code_or_files p \<longleftrightarrow> p \<in> {PRIM_BLOCK_VALUE, PRIM_BLOCK_VALUE_ARG, PRIM_BLOCK_ON_DO, PRIM_BLOCK_ENSURE,
     PRIM_TRANSACTION_ATOMIC, PRIM_TRANSACTION_DURABLE, PRIM_TRANSACTION_READ_ONLY,
     PRIM_IMAGE_CHECKPOINT_TO, PRIM_IMAGE_RESTART_VALUE_OF_GLOBAL, PRIM_SIGNAL}"

lemma all_or_nothing_primitives:
  assumes "\<not> runs_code_or_files p"
  shows "all_or_nothing s (try_primitives interp om log p n s)"
proof -
  have "try_block_primitive interp om p n log s = Done PRIMITIVE_UNSUPPORTED s"
    "try_transaction_primitive interp om p n log s = Done PRIMITIVE_UNSUPPORTED s"
    "try_image_primitive om (vm_class_table s) p n s = Done PRIMITIVE_UNSUPPORTED s"
    using assms by (simp_all add: runs_code_or_files_def try_block_primitive_def
        try_transaction_primitive_def try_image_primitive_def)
  moreover have "p \<noteq> PRIM_SIGNAL" using assms by (simp add: runs_code_or_files_def)
  ultimately show ?thesis unfolding try_primitives_def by (intro failing) simp_all
qed

text \<open>
  C20. A primitive that fails has changed nothing: whatever \<^verbatim>\<open>interpret\<close> tries for a primitive number
  that neither runs blocks or signals nor works on files, the machine on which the fallback method is
  then activated is the one before the send, with all operands in place.
\<close>

theorem failed_primitive_changes_nothing:
  assumes "\<not> runs_code_or_files p"
    and "try_primitives interp om txn_log p arg_count s = Done PRIMITIVE_FAILED s'"
  shows "s' = s"
  using all_or_nothing_primitives [OF assms(1)] assms(2) unfolding all_or_nothing_def by fast

text \<open>The operands of a binary primitive: the argument on top of the receiver.\<close>

definition binary_vm :: "u64 \<Rightarrow> u64 \<Rightarrow> vm" where
  "binary_vm receiver arg = (idle_vm ((\<lambda>_. 0)(8192 := arg, 8200 := receiver)) [])\<lparr>vm_sp := 8192\<rparr>"

lemma binary_vm_stack [simp]:
  "stack_at (binary_vm receiver arg) 0 = arg" "stack_at (binary_vm receiver arg) 1 = receiver"
  "vm_sp (binary_vm receiver arg) = 8192"
  by (simp_all add: binary_vm_def stack_at_def slot_def)

theorem failed_primitive_changes_nothing_witness:
  "try_primitives (\<lambda>_ _ _ _. No_result) 0 0 PRIM_SMALLINT_ADD 1 (binary_vm 5 15) =
     Done PRIMITIVE_FAILED (binary_vm 5 15)"
proof -
  have "\<exists>s'. try_primitives (\<lambda>_ _ _ _. No_result) 0 0 PRIM_SMALLINT_ADD 1 (binary_vm 5 15) =
      Done PRIMITIVE_FAILED s'"
    by (simp add: try_primitives_def or_else_def try_allocation_primitive_def try_block_primitive_def
        try_transaction_primitive_def try_smallint_primitive_def try_object_primitive_def
        try_live_image_primitive_def try_image_primitive_def try_character_primitive_def
        try_string_symbol_primitive_def try_indexed_primitive_def is_smallint_value_def)
  then show ?thesis
    using failed_primitive_changes_nothing [of PRIM_SMALLINT_ADD] by (fastforce simp: runs_code_or_files_def)
qed

section \<open>Arithmetic\<close>

definition smallint_operation :: "u64 \<Rightarrow> int \<Rightarrow> int \<Rightarrow> int" where
  "smallint_operation p a b = (if p = PRIM_SMALLINT_ADD then a + b
     else if p = PRIM_SMALLINT_SUB then a - b else a * b)"

lemma fits_checked:
  "(case checked_int64 v of None \<Rightarrow> f | Some w \<Rightarrow> if \<not> fits_smallint w then f else g w) =
   (if - (2 ^ 61) \<le> v \<and> v < 2 ^ 61 then g (word_of_int v) else f)"
  by (auto simp: checked_int64_def fits_smallint_def sint_word_of_int_small)

text \<open>
  C18. Small integer arithmetic is exact or fails: adding, subtracting or multiplying the small integers
  on the stack replaces them by the tagged exact result when that lies in -2^61 .. 2^61 - 1, and fails
  with the machine unchanged when it does not (so that the method can fall back to something else);
  no result ever wraps.
\<close>

theorem smallint_arithmetic_exact:
  assumes "p \<in> {PRIM_SMALLINT_ADD, PRIM_SMALLINT_SUB, PRIM_SMALLINT_MUL}"
    and "is_smallint (stack_at s 1)" and "is_smallint (stack_at s 0)"
    and "v = smallint_operation p (sint (untag_smallint (stack_at s 1))) (sint (untag_smallint (stack_at s 0)))"
  shows "try_smallint_primitive p 1 s =
      (if - (2 ^ 61) \<le> v \<and> v < 2 ^ 61
       then Done PRIMITIVE_SUCCEEDED (replace_receiver_and_arg (tag_smallint (word_of_int v)) s)
       else Done PRIMITIVE_FAILED s) \<and>
    (- (2 ^ 61) \<le> v \<and> v < 2 ^ 61 \<longrightarrow> sint (untag_smallint (tag_smallint (word_of_int v))) = v)"
proof
  have "is_smallint_value (stack_at s 1)" "is_smallint_value (stack_at s 0)"
    using assms(2,3) by (simp_all add: is_smallint_def is_smallint_value_def)
  then show "try_smallint_primitive p 1 s =
      (if - (2 ^ 61) \<le> v \<and> v < 2 ^ 61
       then Done PRIMITIVE_SUCCEEDED (replace_receiver_and_arg (tag_smallint (word_of_int v)) s)
       else Done PRIMITIVE_FAILED s)"
    using assms(1) unfolding try_smallint_primitive_def Let_def fits_checked assms(4)
    by (auto simp: smallint_operation_def)
qed (simp only: tag_smallint_word_of_int sint_untag_word_of_int, simp add: wrap62_id)

theorem smallint_arithmetic_exact_witness:
  "try_smallint_primitive PRIM_SMALLINT_MUL 1 (binary_vm 13 (-19)) =
     Done PRIMITIVE_SUCCEEDED (replace_receiver_and_arg (-59) (binary_vm 13 (-19))) \<and>
   sint (untag_smallint (-59)) = -15"
proof -
  have s: "is_smallint (stack_at (binary_vm 13 (-19)) 1)" "is_smallint (stack_at (binary_vm 13 (-19)) 0)"
    by (simp_all add: is_tag_mod)
  have v: "-15 = smallint_operation PRIM_SMALLINT_MUL (sint (untag_smallint (stack_at (binary_vm 13 (-19)) 1)))
      (sint (untag_smallint (stack_at (binary_vm 13 (-19)) 0)))"
    by (simp add: smallint_operation_def sint_untag)
  have t: "tag_smallint (word_of_int (-15)) = -59" by (simp add: tag_smallint_eq)
  show ?thesis
    using smallint_arithmetic_exact [OF _ s v] unfolding t by simp
qed

section \<open>Elements\<close>

text \<open>What \<^verbatim>\<open>at:\<close> reads: a byte as a small integer, or a field.\<close>

definition indexed_element :: "mem \<Rightarrow> u64 \<Rightarrow> nat \<Rightarrow> u64" where
  "indexed_element m obj i =
     (if OBJ_FORMAT m obj = FORMAT_BYTES then tag_smallint (ucast (byte_get m (slot obj 3) i))
      else OBJ_FIELD m obj (of_nat i))"

text \<open>An index object is good when it is a small integer between 1 and the size.\<close>

definition index_in_range :: "mem \<Rightarrow> u64 \<Rightarrow> u64 \<Rightarrow> bool" where
  "index_in_range m obj index \<longleftrightarrow> is_smallint index \<and> 1 \<le> sint (untag_smallint index) \<and>
     sint (untag_smallint index) \<le> uint (OBJ_SIZE m obj)"

lemma uint_untag_positive:
  assumes "1 \<le> sint (untag_smallint x)"
  shows "uint (untag_smallint x - 1) = sint (untag_smallint x) - 1"
proof -
  have "uint (untag_smallint x) = sint (untag_smallint x)"
    using assms sint_u64_range [of "untag_smallint x"] by (simp add: uint_sint take_bit_eq_mod)
  moreover have "1 \<le> uint (untag_smallint x)" using assms calculation by simp
  ultimately show ?thesis by (simp add: uint_sub_if')
qed

lemma checked_index_eq:
  assumes "OBJ_FORMAT m obj \<noteq> FORMAT_FIELDS"
  shows "checked_index m obj index =
    (if index_in_range m obj index then Some (untag_smallint index - 1) else None)"
  using assms uint_untag_positive [of index]
  by (auto simp: checked_index_def index_in_range_def is_smallint_value_def is_smallint_def word_le_def Let_def)

text \<open>Marking pages dirty does not touch the registers.\<close>

lemma mark_dirty_keeps_sp [simp]: "vm_sp (om_mark_address_range_dirty s om a n) = vm_sp s"
  by (simp add: om_mark_address_range_dirty_def update_om_def Let_def split: option.split)

lemma mark_field_dirty_registers [simp]:
  "memory (om_mark_field_dirty s om obj i) = memory s" "vm_sp (om_mark_field_dirty s om obj i) = vm_sp s"
  "memory (om_mark_byte_dirty s om obj i) = memory s" "vm_sp (om_mark_byte_dirty s om obj i) = vm_sp s"
  by (simp_all add: om_mark_field_dirty_def om_mark_byte_dirty_def)

text \<open>The words of an object: three of header and one per field or eight bytes.\<close>

definition words_of_object :: "mem \<Rightarrow> u64 \<Rightarrow> u64 set" where
  "words_of_object m obj = {slot obj i | i. 0 \<le> i \<and> i < 3 + uint (OBJ_SIZE m obj)}"

lemma header_in_object: "slot obj 1 \<in> words_of_object m obj" "slot obj 2 \<in> words_of_object m obj"
proof -
  have "0 \<le> uint (OBJ_SIZE m obj)" by simp
  then have "1 < 3 + uint (OBJ_SIZE m obj)" "2 < 3 + uint (OBJ_SIZE m obj)" by linarith+
  then show "slot obj 1 \<in> words_of_object m obj" "slot obj 2 \<in> words_of_object m obj"
    unfolding words_of_object_def by (metis (mono_tags, lifting) mem_Collect_eq zero_le_numeral zero_le_one)+
qed

lemma element_in_object:
  assumes "i < unat (OBJ_SIZE m obj)"
  shows "field_addr obj (of_nat i) \<in> words_of_object m obj"
    and "slot (slot obj 3) (int (i div 8)) \<in> words_of_object m obj"
proof -
  have u: "unat (of_nat i :: u64) = i"
    using assms unat_u64_less [of "OBJ_SIZE m obj"] by (intro unat_u64_of_nat) linarith
  have i: "int i < uint (OBJ_SIZE m obj)" using assms by (simp only: uint_nat of_nat_less_iff)
  have "uint (of_nat i :: u64) = int i" unfolding uint_nat u ..
  then show "field_addr obj (of_nat i) \<in> words_of_object m obj"
    unfolding words_of_object_def field_addr_def using i by (intro CollectI exI [of _ "3 + int i"]) simp
  have "int (i div 8) \<le> int i" by simp
  then show "slot (slot obj 3) (int (i div 8)) \<in> words_of_object m obj"
    unfolding words_of_object_def slot_slot using i by (intro CollectI exI [of _ "3 + int (i div 8)"]) simp
qed

lemma indexed_element_cong:
  assumes "\<And>a. a \<in> words_of_object m obj \<Longrightarrow> m' a = m a" and "i < unat (OBJ_SIZE m obj)"
  shows "indexed_element m' obj i = indexed_element m obj i"
  using assms(1) [OF header_in_object(1)] assms(1) [OF element_in_object(1) [OF assms(2)]]
    assms(1) [OF element_in_object(2) [OF assms(2)]]
  by (simp add: indexed_element_def OBJ_FORMAT_def OBJ_FIELD_def byte_get_def)

text \<open>Storing into an element, with the byte truncated.\<close>

definition put_element :: "mem \<Rightarrow> u64 \<Rightarrow> nat \<Rightarrow> u64 \<Rightarrow> mem" where
  "put_element m obj i v =
     (if OBJ_FORMAT m obj = FORMAT_BYTES then byte_put m (slot obj 3) i (ucast (untag_smallint v))
      else set_field m obj (of_nat i) v)"

lemma put_element_other: "a \<notin> words_of_object m obj \<Longrightarrow> i < unat (OBJ_SIZE m obj) \<Longrightarrow> put_element m obj i v a = m a"
  using element_in_object [of i m obj] by (auto simp: put_element_def set_field_def intro!: byte_put_other)

lemma uint_index:
  assumes "OBJ_SIZE m obj < 2 ^ 60" and "i < unat (OBJ_SIZE m obj)"
  shows "int i < 2 ^ 60" and "uint (of_nat i :: u64) = int i"
proof -
  have "unat (OBJ_SIZE m obj) < 2 ^ 60" using assms(1) by (simp add: word_less_nat_alt)
  then have i: "i < 2 ^ 60" using assms(2) by linarith
  then have "unat (of_nat i :: u64) = i" by (intro unat_u64_of_nat) simp
  then show "uint (of_nat i :: u64) = int i" by (simp only: uint_nat)
  show "int i < 2 ^ 60" using i by simp
qed

lemma put_element_header:
  assumes "OBJ_SIZE m obj < 2 ^ 60" and "i < unat (OBJ_SIZE m obj)" and "k \<in> {0, 1, 2}"
  shows "put_element m obj i v (slot obj k) = m (slot obj k)"
proof -
  note i = uint_index [OF assms(1,2)]
  have le: "int (i div 8) \<le> int i" by simp
  have "slot obj k \<noteq> slot obj (3 + int n)" if "int n \<le> int i" for n
    by (rule slot_neq) (use assms(3) i(1) that in auto)
  then have "slot obj k \<noteq> slot obj (3 + int i)" "slot obj k \<noteq> slot obj (3 + int (i div 8))"
    using le by blast+
  then show ?thesis by (simp add: put_element_def set_field_def field_addr_def i(2) byte_put_other)
qed

lemma indexed_element_put:
  assumes "OBJ_SIZE m obj < 2 ^ 60" and "i < unat (OBJ_SIZE m obj)" and "j < unat (OBJ_SIZE m obj)"
    and "OBJ_FORMAT m obj = FORMAT_BYTES \<longrightarrow> tag_smallint (ucast (ucast (untag_smallint v) :: u8)) = v"
  shows "indexed_element (put_element m obj i v) obj j = (if i = j then v else indexed_element m obj j)"
proof -
  note i = uint_index [OF assms(1,2)] and j = uint_index [OF assms(1,3)]
  have f: "OBJ_FORMAT (put_element m obj i v) obj = OBJ_FORMAT m obj"
    unfolding OBJ_FORMAT_def by (rule put_element_header [OF assms(1,2)]) simp
  show ?thesis
  proof (cases "OBJ_FORMAT m obj = FORMAT_BYTES")
    case True
    have "i < 2 ^ 63" "j < 2 ^ 63" using i(1) j(1) by simp_all
    then show ?thesis using True f assms(4) by (simp add: indexed_element_def put_element_def byte_get_put)
  next
    case False
    have "\<bar>int j - int i\<bar> < 2 ^ 61" using i(1) j(1) by (simp add: abs_less_iff)
    then show ?thesis
      using False f by (simp add: indexed_element_def put_element_def OBJ_FIELD_def set_field_def
          field_addr_def i(2) j(2) slot_eq_iff)
  qed
qed

lemma prim_at_eq:
  assumes "is_object_value (stack_at s 1)" and "OBJ_FORMAT (memory s) (stack_at s 1) \<in> {FORMAT_INDEXABLE, FORMAT_BYTES}"
  shows "prim_at 1 0 s =
    (if index_in_range (memory s) (stack_at s 1) (stack_at s 0)
     then Done PRIMITIVE_SUCCEEDED (replace_receiver_and_arg (indexed_element (memory s) (stack_at s 1)
            (nat (sint (untag_smallint (stack_at s 0)) - 1))) s)
     else Done PRIMITIVE_FAILED s)"
proof (cases "index_in_range (memory s) (stack_at s 1) (stack_at s 0)")
  case True
  let ?i = "untag_smallint (stack_at s 0) - 1"
  have u: "uint ?i = sint (untag_smallint (stack_at s 0)) - 1"
    using True uint_untag_positive by (simp add: index_in_range_def)
  have "unat ?i = nat (sint (untag_smallint (stack_at s 0)) - 1)" unfolding u [symmetric] by simp
  moreover have "(of_nat (unat ?i) :: u64) = ?i" by simp
  ultimately show ?thesis
    using assms True by (auto simp: prim_at_def checked_index_eq read_through_log_def indexed_element_def Let_def)
next
  case False
  then show ?thesis using assms by (auto simp: prim_at_def checked_index_eq Let_def)
qed

text \<open>The value fits the object: any value in fields, a small integer in 0 .. 255 in bytes.\<close>

definition storable_element :: "mem \<Rightarrow> u64 \<Rightarrow> u64 \<Rightarrow> bool" where
  "storable_element m obj v \<longleftrightarrow> (OBJ_FORMAT m obj = FORMAT_BYTES \<longrightarrow>
     is_smallint v \<and> 0 \<le> sint (untag_smallint v) \<and> sint (untag_smallint v) \<le> 255)"

lemma storable_byte:
  assumes "is_smallint v" and "0 \<le> sint (untag_smallint v)" and "sint (untag_smallint v) \<le> 255"
  shows "tag_smallint (ucast (ucast (untag_smallint v) :: u8)) = v"
proof -
  have "uint (untag_smallint v) = sint (untag_smallint v)"
    using assms(2,3) by (simp add: uint_sint take_bit_eq_mod)
  then have "uint (ucast (ucast (untag_smallint v) :: u8) :: u64) = uint (untag_smallint v)"
    using assms(2,3) by (simp add: unsigned_ucast_eq take_bit_eq_mod uint_mod)
  then have "ucast (ucast (untag_smallint v) :: u8) = untag_smallint v" by (rule word_uint_eqI)
  then show ?thesis using assms(1) by simp
qed

lemma prim_at_put_eq:
  assumes "is_object_value (stack_at s 2)"
    and "OBJ_FORMAT (memory s) (stack_at s 2) \<in> {FORMAT_INDEXABLE, FORMAT_BYTES}"
    and "storable_element (memory s) (stack_at s 2) (stack_at s 0)"
  shows "if index_in_range (memory s) (stack_at s 2) (stack_at s 1)
    then \<exists>s'. prim_at_put om 2 0 s = Done PRIMITIVE_SUCCEEDED s' \<and> vm_sp s' = slot (vm_sp s) 2 \<and>
      memory s' = (put_element (memory s) (stack_at s 2) (nat (sint (untag_smallint (stack_at s 1)) - 1))
        (stack_at s 0))(slot (vm_sp s) 2 := stack_at s 2)
    else prim_at_put om 2 0 s = Done PRIMITIVE_FAILED s"
proof (cases "index_in_range (memory s) (stack_at s 2) (stack_at s 1)")
  case True
  let ?i = "untag_smallint (stack_at s 1) - 1"
  have u: "uint ?i = sint (untag_smallint (stack_at s 1)) - 1"
    using True uint_untag_positive by (simp add: index_in_range_def)
  have i: "nat (sint (untag_smallint (stack_at s 1)) - 1) = unat ?i" unfolding u [symmetric] by simp
  have "\<not> (OBJ_FORMAT (memory s) (stack_at s 2) = FORMAT_BYTES \<and>
      (sint (untag_smallint (stack_at s 0)) < 0 \<or> sint (untag_smallint (stack_at s 0)) > 255))"
    using assms(3) by (auto simp: storable_element_def)
  then show ?thesis
    unfolding i using assms True
    by (auto simp: prim_at_put_def checked_index_eq store_byte_def store_field_def put_element_def
        storable_element_def is_smallint_def is_smallint_value_def replace_receiver_and_two_args_def Let_def)
next
  case False
  then show ?thesis using assms by (auto simp: prim_at_put_def checked_index_eq Let_def)
qed

text \<open>What \<^verbatim>\<open>at:put:\<close> accepts: an object with elements, an index inside it, a value that fits.\<close>

definition accepts_put :: "mem \<Rightarrow> u64 \<Rightarrow> u64 \<Rightarrow> u64 \<Rightarrow> bool" where
  "accepts_put m obj index v \<longleftrightarrow> OBJ_FORMAT m obj \<in> {FORMAT_INDEXABLE, FORMAT_BYTES} \<and>
     index_in_range m obj index \<and> storable_element m obj v"

lemma prim_at_put_fails:
  assumes "is_object_value (stack_at s 2)" and "\<not> accepts_put (memory s) (stack_at s 2) (stack_at s 1) (stack_at s 0)"
  shows "prim_at_put om 2 0 s = Done PRIMITIVE_FAILED s"
proof (cases "OBJ_FORMAT (memory s) (stack_at s 2) = FORMAT_FIELDS")
  case True
  then show ?thesis using assms(1) by (simp add: prim_at_put_def checked_index_def Let_def)
next
  case False
  then show ?thesis
    using assms by (auto simp: prim_at_put_def checked_index_eq accepts_put_def storable_element_def store_byte_def
        is_smallint_def is_smallint_value_def Let_def)
qed

text \<open>
  C19. \<^verbatim>\<open>at:put:\<close> then \<^verbatim>\<open>at:\<close>, outside a transaction, on an object of fewer than \<open>2 ^ 60\<close> elements that
  does not contain the stack slot of the result. When the object is indexable or has bytes, the index is
  between 1 and the size, and the value fits (any value in fields, a small integer in 0 .. 255 in bytes),
  \<^verbatim>\<open>at:put:\<close> answers the receiver, changes that element to the value and no other element and no word
  outside the object but the result's stack slot, and \<^verbatim>\<open>at:\<close> with the same index then answers the value;
  in every other case it fails and changes nothing.
\<close>

theorem at_put_at:
  assumes "obj = stack_at s 2" and "index = stack_at s 1" and "v = stack_at s 0" and "is_object_value obj"
    and "OBJ_SIZE (memory s) obj < 2 ^ 60" and "slot (vm_sp s) 2 \<notin> words_of_object (memory s) obj"
  shows "if accepts_put (memory s) obj index v
    then \<exists>s'. prim_at_put om 2 0 s = Done PRIMITIVE_SUCCEEDED s' \<and> vm_sp s' = slot (vm_sp s) 2 \<and>
      stack_at s' 0 = obj \<and>
      (\<forall>j < unat (OBJ_SIZE (memory s) obj). indexed_element (memory s') obj j =
         (if int j = sint (untag_smallint index) - 1 then v else indexed_element (memory s) obj j)) \<and>
      (\<forall>a. a \<notin> words_of_object (memory s) obj \<and> a \<noteq> slot (vm_sp s) 2 \<longrightarrow> memory s' a = memory s a) \<and>
      (\<forall>t. stack_at t 1 = obj \<and> stack_at t 0 = index \<and>
         (\<forall>a \<in> words_of_object (memory s) obj. memory t a = memory s' a) \<longrightarrow>
         prim_at 1 0 t = Done PRIMITIVE_SUCCEEDED (replace_receiver_and_arg v t))
    else prim_at_put om 2 0 s = Done PRIMITIVE_FAILED s"
proof (cases "accepts_put (memory s) obj index v")
  case True
  then have accepts: "OBJ_FORMAT (memory s) obj \<in> {FORMAT_INDEXABLE, FORMAT_BYTES}"
    "index_in_range (memory s) obj index" "storable_element (memory s) obj v"
    unfolding accepts_put_def by blast+
  let ?k = "nat (sint (untag_smallint index) - 1)"
  let ?m = "put_element (memory s) obj ?k v"
  obtain s' where s': "prim_at_put om 2 0 s = Done PRIMITIVE_SUCCEEDED s'" "vm_sp s' = slot (vm_sp s) 2"
    "memory s' = ?m(slot (vm_sp s) 2 := obj)"
    using prim_at_put_eq [of s om] assms(1-4) accepts by auto
  have k: "?k < unat (OBJ_SIZE (memory s) obj)"
    using accepts(2) unfolding index_in_range_def unat_eq_nat_uint zless_nat_conj by linarith
  have same: "memory s' a = ?m a" if "a \<in> words_of_object (memory s) obj" for a
    using that assms(6) by (auto simp: s'(3))
  have header: "OBJ_FORMAT ?m obj = OBJ_FORMAT (memory s) obj" "OBJ_SIZE ?m obj = OBJ_SIZE (memory s) obj"
    using put_element_header [OF assms(5) k, of 1 v] put_element_header [OF assms(5) k, of 2 v]
    by (simp_all add: obj_defs)
  have words: "words_of_object ?m obj = words_of_object (memory s) obj"
    by (simp add: words_of_object_def header)
  have byte: "OBJ_FORMAT (memory s) obj = FORMAT_BYTES \<longrightarrow> tag_smallint (ucast (ucast (untag_smallint v) :: u8)) = v"
    using accepts(3) storable_byte by (simp add: storable_element_def)
  have el: "indexed_element ?m obj j = (if ?k = j then v else indexed_element (memory s) obj j)"
    if "j < unat (OBJ_SIZE (memory s) obj)" for j
    by (rule indexed_element_put [OF assms(5) k that byte])
  have read: "prim_at 1 0 t = Done PRIMITIVE_SUCCEEDED (replace_receiver_and_arg v t)"
    if t: "stack_at t 1 = obj" "stack_at t 0 = index" "\<forall>a \<in> words_of_object (memory s) obj. memory t a = memory s' a" for t
  proof -
    have agree: "memory t a = ?m a" if "a \<in> words_of_object ?m obj" for a
      using t(3) same that by (simp add: words)
    then have h: "OBJ_FORMAT (memory t) obj = OBJ_FORMAT ?m obj" "OBJ_SIZE (memory t) obj = OBJ_SIZE ?m obj"
      using header_in_object by (simp_all add: obj_defs)
    have "indexed_element (memory t) obj ?k = v"
      using indexed_element_cong [of ?m obj "memory t" ?k] agree el [OF k] k by (simp add: header)
    moreover have "index_in_range (memory t) obj index" using accepts(2) by (simp add: index_in_range_def h header)
    ultimately show ?thesis using prim_at_eq [of t] assms(4) accepts(1) by (simp add: t(1,2) h header)
  qed
  have elements: "indexed_element (memory s') obj j =
      (if int j = sint (untag_smallint index) - 1 then v else indexed_element (memory s) obj j)"
    if "j < unat (OBJ_SIZE (memory s) obj)" for j
    using indexed_element_cong [of ?m obj "memory s'" j] el [OF that] that same accepts(2)
    by (auto simp: words header index_in_range_def)
  have outside: "memory s' a = memory s a"
    if "a \<notin> words_of_object (memory s) obj" "a \<noteq> slot (vm_sp s) 2" for a
    using that k by (simp add: s'(3) put_element_other)
  have "stack_at s' 0 = obj" by (simp add: stack_at_def s'(2,3))
  then show ?thesis
    unfolding if_P [OF True] using s'(1,2) elements outside read by (intro exI [of _ s'] conjI allI impI) blast+
next
  case False
  then show ?thesis using prim_at_put_fails [of s om] assms(1-4) by simp
qed

text \<open>An array of three fields at 4096, an index and a value on the stack.\<close>

definition array_vm :: "u64 \<Rightarrow> u64 \<Rightarrow> vm" where
  "array_vm index v = (idle_vm ((\<lambda>_. 0)(4104 := FORMAT_INDEXABLE, 4112 := 3, 8192 := v, 8200 := index, 8208 := 4096)) [])
     \<lparr>vm_sp := 8192\<rparr>"

theorem at_put_at_witness:
  "(\<exists>s'. prim_at_put 0 2 0 (array_vm 9 77) = Done PRIMITIVE_SUCCEEDED s' \<and>
      indexed_element (memory s') 4096 1 = 77 \<and> indexed_element (memory s') 4096 2 = 0) \<and>
   prim_at_put 0 2 0 (array_vm 17 77) = Done PRIMITIVE_FAILED (array_vm 17 77)"
proof -
  have st: "stack_at (array_vm index v) 2 = 4096" "stack_at (array_vm index v) 1 = index"
      "stack_at (array_vm index v) 0 = v" "vm_sp (array_vm index v) = 8192"
      "OBJ_FORMAT (memory (array_vm index v)) 4096 = FORMAT_INDEXABLE"
      "OBJ_SIZE (memory (array_vm index v)) 4096 = 3" for index v
    by (simp_all add: array_vm_def stack_at_def slot_def obj_defs)
  have far: "slot 8192 2 \<notin> words_of_object (memory (array_vm index v)) 4096" for index v
  proof
    assume "slot 8192 2 \<in> words_of_object (memory (array_vm index v)) 4096"
    then obtain i where i: "0 \<le> i" "i < 6" "slot 8192 2 = slot 4096 i" by (auto simp: words_of_object_def st)
    then have "i \<in> {0, 1, 2, 3, 4, 5}" by auto
    then show False using i(3) by (auto simp: slot_def)
  qed
  have in2: "index_in_range (memory (array_vm 9 77)) 4096 9" "\<not> index_in_range (memory (array_vm 17 77)) 4096 17"
    by (simp_all add: index_in_range_def st is_tag_mod sint_untag)
  have e: "indexed_element (memory (array_vm 9 77)) 4096 2 = 0"
    by (simp add: indexed_element_def st obj_defs) (simp add: array_vm_def slot_def)
  note law = at_put_at [OF st(1) [symmetric] st(2) [symmetric] st(3) [symmetric], of _ _ 0]
  have nine: "sint (untag_smallint 9) = 2" by (simp add: sint_untag)
  show ?thesis
    using law [of 9 77] law [of 17 77] in2 far e
    by (auto simp: st is_object_value_def accepts_put_def storable_element_def nine)
qed

end
