(* ===== verification/Interpret_Laws.thy ===== *)
theory Interpret_Laws
  imports Interpret
begin

text \<open>
  Laws of the interpreter. Fuel: the outcomes are ordered by \<open>agrees\<close> (out of fuel lies below everything),
  every definition that calls back into the interpreter is monotone in it, and so more fuel never changes a result.
\<close>

section \<open>More fuel\<close>

definition agrees :: "'a outcome \<Rightarrow> 'a outcome \<Rightarrow> bool" where
  "agrees p q \<longleftrightarrow> p = No_result \<or> p = q"

definition callee_agrees :: "callee \<Rightarrow> callee \<Rightarrow> bool" where
  "callee_agrees f g \<longleftrightarrow> (\<forall>ip class_table log s. agrees (f ip class_table log s) (g ip class_table log s))"

named_theorems fuel_mono \<open>monotonicity in the interpreter that is called back\<close>

lemma agrees_refl [simp, intro!, fuel_mono]: "agrees p p"
  by (simp add: agrees_def)

lemma agrees_trans: "agrees p q \<Longrightarrow> agrees q r \<Longrightarrow> agrees p r"
  by (auto simp: agrees_def)

lemma and_then_mono [fuel_mono]:
  assumes "agrees p q" and "\<And>v s. agrees (k v s) (l v s)"
  shows "agrees (and_then p k) (and_then q l)"
proof (cases "p = No_result")
  case False
  then have "p = q" using assms(1) by (simp add: agrees_def)
  with assms(2) show ?thesis by (cases q) simp_all
qed (simp add: agrees_def)

lemma if_mono [fuel_mono]:
  "(b \<Longrightarrow> agrees p p') \<Longrightarrow> (\<not> b \<Longrightarrow> agrees q q') \<Longrightarrow> agrees (if b then p else q) (if b then p' else q')"
  by simp

lemma prod_mono [fuel_mono]:
  "(\<And>a b. agrees (k a b) (l a b)) \<Longrightarrow> agrees (case x of (a, b) \<Rightarrow> k a b) (case x of (a, b) \<Rightarrow> l a b)"
  by (cases x) simp

lemma let_mono [fuel_mono]: "(\<And>x. agrees (k x) (l x)) \<Longrightarrow> agrees (Let a k) (Let a l)"
  by simp

lemma option_mono [fuel_mono]:
  "agrees p p' \<Longrightarrow> (\<And>a. agrees (k a) (l a)) \<Longrightarrow>
   agrees (case x of None \<Rightarrow> p | Some a \<Rightarrow> k a) (case x of None \<Rightarrow> p' | Some a \<Rightarrow> l a)"
  by (cases x) simp_all

lemma list_mono [fuel_mono]:
  "agrees p p' \<Longrightarrow> (\<And>a as. agrees (k a as) (l a as)) \<Longrightarrow>
   agrees (case x of [] \<Rightarrow> p | a # as \<Rightarrow> k a as) (case x of [] \<Rightarrow> p' | a # as \<Rightarrow> l a as)"
  by (cases x) simp_all

lemma result_mono [fuel_mono]:
  "agrees p p' \<Longrightarrow> agrees q q' \<Longrightarrow> agrees r r' \<Longrightarrow>
   agrees (case x of PRIMITIVE_SUCCEEDED \<Rightarrow> p | PRIMITIVE_FAILED \<Rightarrow> q | PRIMITIVE_UNSUPPORTED \<Rightarrow> r)
     (case x of PRIMITIVE_SUCCEEDED \<Rightarrow> p' | PRIMITIVE_FAILED \<Rightarrow> q' | PRIMITIVE_UNSUPPORTED \<Rightarrow> r')"
  by (cases x) simp_all

lemma flow_mono [fuel_mono]:
  "agrees p p' \<Longrightarrow> (\<And>v. agrees (k v) (l v)) \<Longrightarrow>
   agrees (case x of Next \<Rightarrow> p | Return v \<Rightarrow> k v) (case x of Next \<Rightarrow> p' | Return v \<Rightarrow> l v)"
  by (cases x) simp_all

lemma catching_mono [fuel_mono]:
  assumes "agrees p q" and "\<And>s. agrees (k s) (l s)"
  shows "agrees (catching i s p k) (catching i s q l)"
proof (cases "p = No_result")
  case False
  then have "p = q" using assms(1) by (simp add: agrees_def)
  with assms(2) show ?thesis by (cases q) (simp_all add: catching_def)
qed (simp add: agrees_def catching_def)

lemma protected_mono [fuel_mono]:
  assumes "agrees p q" and "\<And>v s. agrees (k v s) (k' v s)" and "\<And>c x s. agrees (l c x s) (l' c x s)"
  shows "agrees (run_protected i s0 p k l) (run_protected i s0 q k' l')"
proof (cases "p = No_result")
  case False
  then have "p = q" using assms(1) by (simp add: agrees_def)
  then show ?thesis using assms(2,3) by (cases q) (simp_all add: run_protected_def Let_def)
qed (simp add: agrees_def run_protected_def)

lemma callee_agrees_apply: "callee_agrees f g \<Longrightarrow> agrees (f ip ct log s) (g ip ct log s)"
  by (simp add: callee_agrees_def)

lemma run_nested_mono [fuel_mono]:
  "callee_agrees f g \<Longrightarrow> agrees (run_nested f ip ct log s) (run_nested g ip ct log s)"
  unfolding run_nested_def by (intro and_then_mono callee_agrees_apply agrees_refl)

lemma invoke_block_closure_mono [fuel_mono]:
  "callee_agrees f g \<Longrightarrow> agrees (invoke_block_closure f b n a ip ct log s) (invoke_block_closure g b n a ip ct log s)"
  unfolding invoke_block_closure_def by (intro fuel_mono)

lemma invoke_message_mono [fuel_mono]:
  "callee_agrees f g \<Longrightarrow>
   agrees (invoke_message_with_one_arg f r sel a ct log s) (invoke_message_with_one_arg g r sel a ct log s)"
  unfolding invoke_message_with_one_arg_def by (intro fuel_mono)

lemma class_matches_mono [fuel_mono]:
  "callee_agrees f g \<Longrightarrow>
   agrees (class_matches_exception f om h c ct log s) (class_matches_exception g om h c ct log s)"
  unfolding class_matches_exception_def by (intro fuel_mono)

lemma find_handler_mono [fuel_mono]:
  "callee_agrees f g \<Longrightarrow> agrees (find_handler f om c ct log n s) (find_handler g om c ct log n s)"
proof (induction n arbitrary: s)
  case (Suc n)
  then show ?case unfolding find_handler.simps by (intro fuel_mono Suc.IH)
qed simp

lemma has_matching_mono [fuel_mono]:
  "callee_agrees f g \<Longrightarrow>
   agrees (has_matching_exception_handler f om c ct log s) (has_matching_exception_handler g om c ct log s)"
  unfolding has_matching_exception_handler_def by (intro fuel_mono)

lemma propagate_signal_mono [fuel_mono]:
  "callee_agrees f g \<Longrightarrow>
   agrees (propagate_signal f om c x ct log s) (propagate_signal g om c x ct log s)"
  unfolding propagate_signal_def by (intro fuel_mono)

lemma prim_signal_mono [fuel_mono]:
  "callee_agrees f g \<Longrightarrow> agrees (prim_signal f om n log s) (prim_signal g om n log s)"
  unfolding prim_signal_def by (intro fuel_mono)

lemma try_indexed_mono [fuel_mono]:
  "callee_agrees f g \<Longrightarrow> agrees (try_indexed_primitive f om p n log s) (try_indexed_primitive g om p n log s)"
  unfolding try_indexed_primitive_def by (intro fuel_mono)

lemma prim_ensure_mono [fuel_mono]:
  "callee_agrees f g \<Longrightarrow> agrees (prim_ensure f om log s) (prim_ensure g om log s)"
  unfolding prim_ensure_def by (intro fuel_mono)

lemma prim_on_do_mono [fuel_mono]:
  "callee_agrees f g \<Longrightarrow> agrees (prim_on_do f log s) (prim_on_do g log s)"
  unfolding prim_on_do_def by (intro fuel_mono)

lemma try_block_mono [fuel_mono]:
  "callee_agrees f g \<Longrightarrow> agrees (try_block_primitive f om p n log s) (try_block_primitive g om p n log s)"
  unfolding try_block_primitive_def by (intro fuel_mono)

lemma outer_transaction_mono [fuel_mono]:
  "callee_agrees f g \<Longrightarrow> agrees (outer_transaction f om p b log s) (outer_transaction g om p b log s)"
  unfolding outer_transaction_def by (intro fuel_mono)

lemma try_transaction_mono [fuel_mono]:
  "callee_agrees f g \<Longrightarrow>
   agrees (try_transaction_primitive f om p n log s) (try_transaction_primitive g om p n log s)"
  unfolding try_transaction_primitive_def by (intro fuel_mono)

lemma or_else_mono [fuel_mono]:
  "agrees p p' \<Longrightarrow> (\<And>s. agrees (q s) (q' s)) \<Longrightarrow> agrees (or_else p q) (or_else p' q')"
  unfolding or_else_def by (intro fuel_mono)

lemma try_primitives_mono [fuel_mono]:
  "callee_agrees f g \<Longrightarrow> agrees (try_primitives f om log p n s) (try_primitives g om log p n s)"
  unfolding try_primitives_def by (intro fuel_mono)

lemma send_method_mono [fuel_mono]:
  "callee_agrees f g \<Longrightarrow> agrees (send_method f om log m n s) (send_method g om log m n s)"
  unfolding send_method_def by (intro fuel_mono)

lemma send_message_mono [fuel_mono]:
  "callee_agrees f g \<Longrightarrow> agrees (send_message f om log sel n s) (send_message g om log sel n s)"
  unfolding send_message_def by (intro fuel_mono)

lemma step_mono [fuel_mono]:
  "callee_agrees f g \<Longrightarrow> agrees (step f om log e s) (step g om log e s)"
  unfolding step_def op_send_message_def by (intro fuel_mono)

text \<open>One round of the loop over what the loop is with less fuel.\<close>

definition loop_round :: "(u64 \<Rightarrow> u64 \<Rightarrow> u64 \<Rightarrow> vm \<Rightarrow> u64 outcome) \<Rightarrow> u64 \<Rightarrow> u64 \<Rightarrow> u64 \<Rightarrow> vm \<Rightarrow> u64 outcome" where
  "loop_round loop om txn_log entry_fp s =
     and_then
       (step (\<lambda>ip class_table log s. loop om log (vm_fp s)
                (s\<lparr>vm_ip := ip, vm_base := ip, vm_class_table := class_table\<rparr>))
          om txn_log entry_fp s)
       (\<lambda>r s. case r of Return v \<Rightarrow> Done v s | Next \<Rightarrow> loop om txn_log entry_fp s)"

lemma interpret_loop_round: "interpret_loop (Suc n) = loop_round (interpret_loop n)"
  by (intro ext) (simp add: loop_round_def)

lemma loop_round_mono:
  assumes "\<And>log e s. agrees (f om log e s) (g om log e s)"
  shows "agrees (loop_round f om log e s) (loop_round g om log e s)"
  unfolding loop_round_def by (intro fuel_mono assms) (simp add: callee_agrees_def assms)

lemma interpret_loop_Suc: "agrees (interpret_loop n om log e s) (interpret_loop (Suc n) om log e s)"
proof (induction n arbitrary: log e s)
  case (Suc n)
  have "agrees (loop_round (interpret_loop n) om log e s) (loop_round (interpret_loop (Suc n)) om log e s)"
    by (rule loop_round_mono) (rule Suc)
  then show ?case by (simp only: interpret_loop_round)
qed (simp add: agrees_def)

lemma interpret_loop_mono:
  "n \<le> k \<Longrightarrow> agrees (interpret_loop n om log e s) (interpret_loop k om log e s)"
proof (induction k)
  case (Suc k)
  then show ?case
    using interpret_loop_Suc [of k om log e s] by (metis agrees_refl agrees_trans le_SucE)
qed simp

text \<open>
  More fuel never changes what the interpreter does: once a run has an outcome (a value, a trap or
  a jump), every larger amount of fuel gives the same outcome, so the fuel of the model is only a
  bound on the length of runs.
\<close>

theorem interpret_fuel_monotone:
  assumes "interpret_vm n om ip class_table txn_log s \<noteq> No_result" and "n \<le> k"
  shows "interpret_vm k om ip class_table txn_log s = interpret_vm n om ip class_table txn_log s"
  using interpret_loop_mono [OF assms(2)] assms(1) unfolding interpret_vm_def agrees_def by metis

text \<open>A machine whose code is one \<^verbatim>\<open>HALT\<close> byte at 4096 and whose stack top is 7.\<close>

definition halt_vm :: vm where
  "halt_vm = (idle_vm ((\<lambda>_. 0)(4096 := 13, 8192 := 7)) [])\<lparr>vm_sp := 8192\<rparr>"

lemma halt_vm_runs: "interpret_vm 1 0 4096 0 0 halt_vm =
    Done 7 (halt_vm\<lparr>vm_ip := 4097, vm_base := 4096, vm_class_table := 0\<rparr>)"
  by (simp add: interpret_vm_def step_def op_halt_def halt_vm_def code_byte_def byte_get_def)

theorem interpret_fuel_monotone_witness:
  "interpret_vm 5 0 4096 0 0 halt_vm = interpret_vm 1 0 4096 0 0 halt_vm"
proof (rule interpret_fuel_monotone)
  show "interpret_vm 1 0 4096 0 0 halt_vm \<noteq> No_result" unfolding halt_vm_runs by simp
qed simp

end
