(* ===== verification/Chains.thy ===== *)
theory Chains
  imports Interpret_Laws "HOL-Library.Sublist"
begin

text \<open>
  The chains of exception handlers, ensure frames and transaction logs through a run. The locale
  \<open>balanced_interpreter\<close> states what the primitives that run code rely on when they call the interpreter
  back: a call that returns leaves the chains as they were, and a call that jumps does so to the
  innermost ensure frame, or to a handler when there is none. Inside it the same is proved for every
  primitive and for the dispatch of an instruction, and \<open>interpret_loop\<close> is an instance.
\<close>

section \<open>Chains\<close>

type_synonym chains = "nat list \<times> nat list \<times> u64 list"

definition chain_ids :: "vm \<Rightarrow> chains" where
  "chain_ids s = (map handler_id (handlers s), map ensure_id (ensures s), txn_logs s)"

definition handler_ids :: "chains \<Rightarrow> nat list" where [simp]: "handler_ids c = fst c"
definition ensure_ids :: "chains \<Rightarrow> nat list" where [simp]: "ensure_ids c = fst (snd c)"
definition log_chain :: "chains \<Rightarrow> u64 list" where [simp]: "log_chain c = snd (snd c)"

text \<open>A jump from chains \<open>c\<close>: \<open>c'\<close> are the chains at the jump, which may have dead handlers in front.\<close>

definition jump_target :: "chains \<Rightarrow> chains \<Rightarrow> nat \<Rightarrow> bool" where
  "jump_target c c' i \<longleftrightarrow> ensure_ids c' = ensure_ids c \<and> log_chain c' = log_chain c \<and>
     suffix (handler_ids c) (handler_ids c') \<and>
     (case ensure_ids c of e # _ \<Rightarrow> i = e | [] \<Rightarrow> i \<in> set (handler_ids c'))"

definition balanced :: "chains \<Rightarrow> 'a outcome \<Rightarrow> bool" where
  "balanced c p \<longleftrightarrow> (case p of
     Done v s \<Rightarrow> chain_ids s = c
   | Longjmp i s \<Rightarrow> jump_target c (chain_ids s) i
   | _ \<Rightarrow> True)"

named_theorems balance \<open>rules for balanced outcomes\<close>

lemma balanced_simps [simp]:
  "balanced c (Trap s)" "balanced c No_result"
  "balanced c (Done v s) \<longleftrightarrow> chain_ids s = c"
  "balanced c (Longjmp i s) \<longleftrightarrow> jump_target c (chain_ids s) i"
  by (simp_all add: balanced_def)

lemma balanced_leaf [balance]:
  "balanced c (Trap s)" "balanced c No_result" "chain_ids s = c \<Longrightarrow> balanced c (Done v s)"
  by simp_all

lemma balanced_and_then [balance]:
  assumes "balanced c p" and "\<And>v s. chain_ids s = c \<Longrightarrow> balanced c (k v s)"
  shows "balanced c (and_then p k)"
  using assms by (cases p) simp_all

lemma balanced_if [balance]:
  "(b \<Longrightarrow> balanced c p) \<Longrightarrow> (\<not> b \<Longrightarrow> balanced c q) \<Longrightarrow> balanced c (if b then p else q)"
  by simp

lemma balanced_prod [balance]:
  "(\<And>a b. x = (a, b) \<Longrightarrow> balanced c (k a b)) \<Longrightarrow> balanced c (case x of (a, b) \<Rightarrow> k a b)"
  by (cases x) simp

lemma balanced_option [balance]:
  "balanced c p \<Longrightarrow> (\<And>a. x = Some a \<Longrightarrow> balanced c (k a)) \<Longrightarrow>
   balanced c (case x of None \<Rightarrow> p | Some a \<Rightarrow> k a)"
  by (cases x) simp_all

lemma balanced_result [balance]:
  "balanced c p \<Longrightarrow> balanced c q \<Longrightarrow> balanced c r \<Longrightarrow>
   balanced c (case x of PRIMITIVE_SUCCEEDED \<Rightarrow> p | PRIMITIVE_FAILED \<Rightarrow> q | PRIMITIVE_UNSUPPORTED \<Rightarrow> r)"
  by (cases x) simp_all

section \<open>What does not touch the chains\<close>

lemma chains_update [simp]:
  "chain_ids (s\<lparr>memory := m\<rparr>) = chain_ids s" "chain_ids (s\<lparr>vm_sp := a\<rparr>) = chain_ids s"
  "chain_ids (s\<lparr>vm_fp := a\<rparr>) = chain_ids s" "chain_ids (s\<lparr>vm_ip := a\<rparr>) = chain_ids s"
  "chain_ids (s\<lparr>vm_base := a\<rparr>) = chain_ids s" "chain_ids (s\<lparr>vm_class_table := a\<rparr>) = chain_ids s"
  "chain_ids (s\<lparr>c_stack := a\<rparr>) = chain_ids s" "chain_ids (s\<lparr>next_frame_id := i\<rparr>) = chain_ids s"
  "chain_ids (s\<lparr>files := f\<rparr>) = chain_ids s" "chain_ids (s\<lparr>console := l\<rparr>) = chain_ids s"
  "chain_ids (s\<lparr>os_calls := i\<rparr>) = chain_ids s" "chain_ids (s\<lparr>symbol_table := a\<rparr>) = chain_ids s"
  "chain_ids (s\<lparr>symbol_class := a\<rparr>) = chain_ids s" "chain_ids (s\<lparr>context_class := a\<rparr>) = chain_ids s"
  "chain_ids (s\<lparr>smalltalk_dictionary := a\<rparr>) = chain_ids s"
  by (simp_all add: chain_ids_def)

lemma chains_more: "heap.more s = heap.more s' \<Longrightarrow> chain_ids s = chain_ids s'"
  by (cases s; cases s') (simp add: chain_ids_def)

lemma more_update_om [simp]: "heap.more (update_om h i f) = heap.more h"
  by (simp add: update_om_def)

lemma more_om_alloc: "om_alloc h om k f n = (h', obj) \<Longrightarrow> heap.more h' = heap.more h"
  unfolding om_alloc_def Let_def by (auto split: option.splits if_splits)

lemma more_mark_range [simp]: "heap.more (om_mark_address_range_dirty h om a n) = heap.more h"
  by (simp add: om_mark_address_range_dirty_def Let_def split: option.split)

lemma more_mark_dirty [simp]:
  "heap.more (om_mark_field_dirty h om obj i) = heap.more h"
  "heap.more (om_mark_byte_dirty h om obj i) = heap.more h"
  "heap.more (om_clear_dirty_pages h om) = heap.more h"
  by (simp_all add: om_mark_field_dirty_def om_mark_byte_dirty_def om_clear_dirty_pages_def split: option.split)

lemma more_replay_entries: "heap.more (fst (replay_entries h body hs hu)) = heap.more h"
  by (induction h body hs hu rule: replay_entries.induct)
    (simp_all add: Let_def mark_replayed_byte_def mark_replayed_field_def)

lemma more_replay_frames: "heap.more (fst (replay_frames h bytes hs hu)) = heap.more h"
proof (induction h bytes hs hu rule: replay_frames.induct)
  case (1 h bytes hs hu)
  note IH = 1
  have "heap.more h' = heap.more h" if "replay_entries h body hs hu = (h', ok)" for h' ok body
    using more_replay_entries [of h body hs hu] that by simp
  then show ?case
    unfolding replay_frames.simps [of h bytes hs hu]
    by (auto simp: IH Let_def split: prod.split bool.split)
qed

lemma chains_om_alloc: "om_alloc s om k f n = (s', obj) \<Longrightarrow> chain_ids s' = chain_ids s"
  by (rule chains_more) (rule more_om_alloc)

lemma chains_mark_dirty [simp]:
  "chain_ids (om_mark_address_range_dirty s om a n) = chain_ids s"
  "chain_ids (om_mark_field_dirty s om obj i) = chain_ids s"
  "chain_ids (om_mark_byte_dirty s om obj i) = chain_ids s"
  "chain_ids (om_clear_dirty_pages s om) = chain_ids s"
  by (rule chains_more, simp)+

lemma chains_replay: "vm_log_replay start used s = (s', ok) \<Longrightarrow> chain_ids s' = chain_ids s"
  by (rule chains_more)
    (auto simp: vm_log_replay_def txn_log_replay_def split: option.splits dest: arg_cong [of _ _ "heap.more \<circ> fst"]
      simp: more_replay_frames)

lemma chains_log_file:
  "vm_log_append log a b s = (ok, s') \<Longrightarrow> chain_ids s' = chain_ids s"
  "vm_log_clear s = (ok, s') \<Longrightarrow> chain_ids s' = chain_ids s"
  by (auto simp: vm_log_append_def vm_log_clear_def os_next_def Let_def split: prod.splits)

lemma chains_os_next [simp]: "chain_ids (os_next s) = chain_ids s"
  by (simp add: os_next_def)

lemma handler_ids_restore: "restore_exception_handler_roots hs roots = (hs', rest) \<Longrightarrow>
    map handler_id hs' = map handler_id hs"
  by (induction hs roots arbitrary: hs' rest rule: restore_exception_handler_roots.induct)
    (auto split: prod.splits)

lemma ensure_ids_restore: "restore_ensure_roots es roots = (es', rest) \<Longrightarrow>
    map ensure_id es' = map ensure_id es"
  by (induction es roots arbitrary: es' rest rule: restore_ensure_roots.induct)
    (auto split: prod.splits)

lemma chains_restore_roots [simp]: "chain_ids (restore_vm_roots slots roots s) = chain_ids s"
  by (auto simp: restore_vm_roots_def chain_ids_def Let_def dest: handler_ids_restore ensure_ids_restore
      split: prod.split)

lemma balanced_collect [balance]: "chain_ids s = c \<Longrightarrow> balanced c (collect_and_retry_allocation om s)"
  unfolding collect_and_retry_allocation_def Let_def by (auto split: option.split)

lemma chains_context:
  assumes "ensure_frame_context_with_sp s fp sp om klass = Some (s', context)"
  shows "chain_ids s' = chain_ids s"
proof -
  have "chain_ids (fst (s', context)) = chain_ids s"
    by (rule ensure_frame_context_with_sp.raw_induct
          [where P = "\<lambda>s fp sp om klass r. chain_ids (fst r) = chain_ids s", OF _ assms])
      (auto simp: Let_def bind_eq_Some_conv dest!: chains_om_alloc split: if_splits prod.splits)
  then show ?thesis by simp
qed

lemma balanced_context [balance]:
  "chain_ids s = c \<Longrightarrow> balanced c (with_context (ensure_frame_context_with_sp s fp sp om klass))"
  using chains_context by (auto simp: with_context_def split: option.split)

lemma balanced_context_with_retry [balance]:
  "chain_ids s = c \<Longrightarrow> balanced c (ensure_frame_context_with_retry om s)"
  unfolding ensure_frame_context_with_retry_def by (intro balance) simp_all

lemma balanced_resume [balance]: "chain_ids s = c \<Longrightarrow> balanced c (resume_sender_context v ctx s)"
  unfolding resume_sender_context_def Let_def by (auto split: option.split prod.split)

section \<open>Primitives that do not run code\<close>

lemma chains_replace [simp]:
  "chain_ids (replace_receiver v s) = chain_ids s" "chain_ids (replace_receiver_and_arg v s) = chain_ids s"
  "chain_ids (replace_receiver_and_two_args v s) = chain_ids s"
  by (simp_all add: replace_receiver_def replace_receiver_and_arg_def replace_receiver_and_two_args_def Let_def)

lemma balanced_alloc [balance]: "chain_ids s = c \<Longrightarrow> balanced c (alloc_with_retry om operands s)"
  unfolding alloc_with_retry_def by (intro balance) (auto dest: chains_om_alloc)

lemma balanced_allocation [balance]: "chain_ids s = c \<Longrightarrow> balanced c (try_allocation_primitive om p n s)"
  unfolding try_allocation_primitive_def prim_basic_new_def prim_basic_new_size_def Let_def
  by (intro balance) (auto split: prod.split)

lemma balanced_smallint [balance]: "chain_ids s = c \<Longrightarrow> balanced c (try_smallint_primitive p n s)"
  unfolding try_smallint_primitive_def Let_def by (auto split: option.split)

lemma balanced_object [balance]: "chain_ids s = c \<Longrightarrow> balanced c (try_object_primitive p n s)"
  unfolding try_object_primitive_def Let_def by simp

lemma chains_prims:
  "prim_read_fd_count fd count om s = (s', v) \<Longrightarrow> chain_ids s' = chain_ids s"
  "prim_write_fd_string fd string s = (s', v) \<Longrightarrow> chain_ids s' = chain_ids s"
  "prim_string_as_symbol receiver s = (s', v) \<Longrightarrow> chain_ids s' = chain_ids s"
  "intern_cstring_symbol om text s = (s', v) \<Longrightarrow> chain_ids s' = chain_ids s"
  by (auto simp: prim_read_fd_count_def prim_write_fd_string_def prim_string_as_symbol_def
      intern_cstring_symbol_def Let_def dest!: chains_om_alloc split: if_splits prod.splits option.splits)

lemma balanced_retry:
  assumes "chain_ids s = c" and "\<And>s s' v. prim s = (s', v) \<Longrightarrow> chain_ids s' = chain_ids s"
  shows "balanced c (result_with_retry om prim s)"
  unfolding result_with_retry_def using assms by (intro balance) auto

lemma balanced_live_image [balance]: "chain_ids s = c \<Longrightarrow> balanced c (try_live_image_primitive om p n s)"
  unfolding try_live_image_primitive_def class_query_def Let_def
  by (intro balance balanced_retry) (auto dest: chains_prims)

lemma balanced_character [balance]: "chain_ids s = c \<Longrightarrow> balanced c (try_character_primitive p n s)"
  unfolding try_character_primitive_def Let_def by simp

lemma balanced_string [balance]: "chain_ids s = c \<Longrightarrow> balanced c (try_string_symbol_primitive p n s)"
  unfolding try_string_symbol_primitive_def Let_def by (intro balance) (auto dest: chains_prims)

lemma balanced_finish_checkpoint [balance]:
  "chain_ids s = c \<Longrightarrow> balanced c (finish_checkpoint om path temp file s)"
  unfolding finish_checkpoint_def Let_def by (intro balance) (auto dest: chains_log_file)

lemma balanced_checkpoint [balance]: "chain_ids s = c \<Longrightarrow> balanced c (prim_checkpoint_to om ct n s)"
  unfolding prim_checkpoint_to_def Let_def by (intro balance) (auto split: option.split)

lemma balanced_restart [balance]: "chain_ids s = c \<Longrightarrow> balanced c (restart_value heap header key s)"
  unfolding restart_value_def Let_def by (intro balance) (auto dest: chains_replay)

lemma balanced_image [balance]: "chain_ids s = c \<Longrightarrow> balanced c (try_image_primitive om ct p n s)"
  unfolding try_image_primitive_def prim_restart_value_of_global_def Let_def
  by (intro balance) (auto intro: balance split: option.split)

lemma balanced_indexed: "chain_ids s = c \<Longrightarrow> balanced c (prim_size n s)"
  "chain_ids s = c \<Longrightarrow> balanced c (prim_at n log s)" "chain_ids s = c \<Longrightarrow> balanced c (prim_at_put om n log s)"
  by (auto simp: prim_size_def prim_at_def prim_at_put_def store_byte_def store_field_def Let_def
      split: option.split if_splits)

section \<open>Popping chains\<close>

lemma chains_restore [simp]:
  "chain_ids (restore_locals s0 s) = chain_ids s" "chain_ids (restore_registers sp fp s) = chain_ids s"
  "chain_ids (push_word v s) = chain_ids s" "chain_ids (store_top sp fp v s) = chain_ids s"
  "chain_ids (enter_method s) = chain_ids s" "chain_ids (signal_handler i payload s) = chain_ids s"
  by (simp_all add: restore_locals_def restore_registers_def push_word_def store_top_def enter_method_def
      Let_def split_beta)
    (simp add: signal_handler_def chain_ids_def)

lemma chains_pop [simp]:
  "chain_ids (pop_ensures n s) = (case chain_ids s of (hs, es, ls) \<Rightarrow> (hs, drop (length es - n) es, ls))"
  "chain_ids (pop_handlers n s) = (case chain_ids s of (hs, es, ls) \<Rightarrow> (drop (length hs - n) hs, es, ls))"
  "chain_ids (pop_txn_logs n s) = (case chain_ids s of (hs, es, ls) \<Rightarrow> (hs, es, drop (length ls - n) ls))"
  by (simp_all add: pop_ensures_def pop_handlers_def pop_txn_logs_def chain_ids_def drop_map)

lemma chains_set [simp]:
  "chain_ids (s\<lparr>ensures := es\<rparr>) = (handler_ids (chain_ids s), map ensure_id es, log_chain (chain_ids s))"
  "chain_ids (s\<lparr>handlers := hs\<rparr>) = (map handler_id hs, snd (chain_ids s))"
  "chain_ids (s\<lparr>txn_logs := ls\<rparr>) = (handler_ids (chain_ids s), ensure_ids (chain_ids s), ls)"
  by (simp_all add: chain_ids_def)

lemma chain_ids_eqD:
  assumes "chain_ids s = (hs, es, ls)"
  shows "map handler_id (handlers s) = hs" "map ensure_id (ensures s) = es" "txn_logs s = ls"
    "length (handlers s) = length hs" "length (ensures s) = length es"
  using assms by (auto simp: chain_ids_def)

lemma suffix_drop_length: "suffix xs ys \<Longrightarrow> drop (length ys - length xs) ys = xs"
  by (auto simp: suffix_def)

lemma balanced_weaken:
  assumes "balanced c' p" and "\<And>v s. p \<noteq> Done v s"
    and "ensure_ids c' = ensure_ids c" and "log_chain c' = log_chain c" and "suffix (handler_ids c) (handler_ids c')"
  shows "balanced c p"
proof (cases p)
  case (Longjmp i s)
  with assms show ?thesis
    by (auto simp: jump_target_def intro: suffix_order.trans split: list.splits)
qed (use assms in auto)

lemma length_chains:
  "length (handlers s) = length (handler_ids (chain_ids s))" "length (ensures s) = length (ensure_ids (chain_ids s))"
  "length (txn_logs s) = length (log_chain (chain_ids s))"
  by (simp_all add: chain_ids_def)

lemma balanced_activate [balance]: "chain_ids s = c \<Longrightarrow> balanced c (vm_activate_method ip m n t s)"
  unfolding vm_activate_method_def by (auto split: option.split prod.split)

lemma balanced_activate_block [balance]: "chain_ids s = c \<Longrightarrow> balanced c (activate_block_call b n ct s)"
  unfolding activate_block_call_def Let_def by (intro balance) (auto simp: split_beta)

section \<open>Bytecodes that do not send\<close>

lemma chains_read [simp]: "chain_ids (snd (read_u32 s)) = chain_ids s" "chain_ids (snd (pop_word s)) = chain_ids s"
  by (simp_all add: read_u32_def pop_word_def Let_def split_beta)

lemma balanced_closure [balance]: "chain_ids s = c \<Longrightarrow> balanced c (alloc_closure om i ops s)"
  unfolding alloc_closure_def vm_next_def unsupported_bytecode_def Let_def
  by (intro balance) (auto simp: fill_closure_def Let_def dest!: chains_om_alloc)

lemma balanced_ops:
  "chain_ids s = c \<Longrightarrow> balanced c (op_push_literal s)"
  "chain_ids s = c \<Longrightarrow> balanced c (op_push_inst_var log s)"
  "chain_ids s = c \<Longrightarrow> balanced c (op_push_temp s)" "chain_ids s = c \<Longrightarrow> balanced c (op_push_self s)"
  "chain_ids s = c \<Longrightarrow> balanced c (op_store_inst_var om log s)"
  "chain_ids s = c \<Longrightarrow> balanced c (op_store_temp s)" "chain_ids s = c \<Longrightarrow> balanced c (op_push_arg s)"
  "chain_ids s = c \<Longrightarrow> balanced c (op_push_global s)" "chain_ids s = c \<Longrightarrow> balanced c (op_pop s)"
  "chain_ids s = c \<Longrightarrow> balanced c (op_duplicate s)" "chain_ids s = c \<Longrightarrow> balanced c (op_halt s)"
  "chain_ids s = c \<Longrightarrow> balanced c (op_jump s)" "chain_ids s = c \<Longrightarrow> balanced c (op_jump_if w s)"
  by (simp_all add: op_push_literal_def op_push_inst_var_def op_push_temp_def op_push_self_def
      op_store_inst_var_def op_store_temp_def op_push_arg_def op_push_global_def op_pop_def op_duplicate_def
      op_halt_def op_jump_def op_jump_if_def vm_next_def unsupported_bytecode_def split_beta Let_def)

lemma balanced_return: "chain_ids s = c \<Longrightarrow> balanced c (op_return_stack_top e s)"
  unfolding op_return_stack_top_def vm_next_def Let_def by (auto split: option.split prod.split)

lemma balanced_return_non_local: "chain_ids s = c \<Longrightarrow> balanced c (op_return_non_local e s)"
  unfolding op_return_non_local_def return_from_home_def send_cannot_return_def vm_next_def
    unsupported_bytecode_def Let_def
  by (intro balance) simp_all

lemma balanced_context_op: "chain_ids s = c \<Longrightarrow> balanced c (op_push_this_context om s)"
  unfolding op_push_this_context_def vm_next_def unsupported_bytecode_def by (intro balance) simp_all

lemma balanced_closure_op: "chain_ids s = c \<Longrightarrow> balanced c (op_push_closure om s)"
  unfolding op_push_closure_def vm_next_def unsupported_bytecode_def Let_def
  by (intro balance) (auto simp: read_u32_def Let_def)

lemmas balanced_bytecodes = balanced_ops balanced_return balanced_return_non_local balanced_context_op
  balanced_closure_op

section \<open>Calling the interpreter back\<close>

text \<open>
  The two invocations of \<^verbatim>\<open>ensure:\<close>: the protected block with a new ensure frame on the chain, and the
  ensure block from the state \<open>t\<close> the protected block ended in, with the registers and the ensure frames
  of the sender.
\<close>

definition ensure_pushed :: "vm \<Rightarrow> vm" where
  "ensure_pushed s = s\<lparr>next_frame_id := Suc (next_frame_id s),
     ensures := \<lparr>ensure_id = next_frame_id s, ensure_saved_ip = vm_ip s, ensure_saved_base = vm_base s,
       signaled_class = TAGGED_NIL, signaled_payload = TAGGED_NIL\<rparr> # ensures s\<rparr>"

definition protected_run :: "callee \<Rightarrow> u64 \<Rightarrow> vm \<Rightarrow> u64 outcome" where
  "protected_run interp log s =
     invoke_block_closure interp (stack_at s 1) 0 TAGGED_NIL (vm_ip s) (vm_class_table s) log (ensure_pushed s)"

definition ensure_entry :: "vm \<Rightarrow> vm \<Rightarrow> vm" where
  "ensure_entry s t = restore_registers (slot (vm_sp s) 2) (vm_fp s) (pop_ensures (length (ensures s)) t)"

definition ensure_run :: "callee \<Rightarrow> u64 \<Rightarrow> vm \<Rightarrow> vm \<Rightarrow> u64 outcome" where
  "ensure_run interp log s t =
     invoke_block_closure interp (stack_at s 0) 0 TAGGED_NIL (vm_ip s) (vm_class_table s) log (ensure_entry s t)"

locale balanced_interpreter =
  fixes interp :: callee
  assumes interp_balanced: "chain_ids s = c \<Longrightarrow> balanced c (interp ip class_table log s)"
begin

lemma balanced_nested [balance]: "chain_ids s = c \<Longrightarrow> balanced c (run_nested interp ip ct log s)"
  unfolding run_nested_def by (intro balance interp_balanced) simp_all

lemma balanced_invoke [balance]:
  "chain_ids s = c \<Longrightarrow> balanced c (invoke_block_closure interp b n a ip ct log s)"
  unfolding invoke_block_closure_def Let_def by (intro balance) simp_all

lemma balanced_message [balance]:
  "chain_ids s = c \<Longrightarrow> balanced c (invoke_message_with_one_arg interp r sel a ct log s)"
  unfolding invoke_message_with_one_arg_def Let_def by (intro balance) simp_all

lemma balanced_class_matches [balance]:
  "chain_ids s = c \<Longrightarrow> balanced c (class_matches_exception interp om h k ct log s)"
  unfolding class_matches_exception_def Let_def by (intro balance) (auto dest: chains_prims)

lemma balanced_find_handler:
  "chain_ids s = c \<Longrightarrow> n \<le> length (handlers s) \<Longrightarrow>
   balanced c (find_handler interp om k ct log n s) \<and>
   (\<forall>i s'. find_handler interp om k ct log n s = Done (Some i) s' \<longrightarrow> i \<in> set (handler_ids c))"
proof (induction n arbitrary: s)
  case (Suc n)
  let ?h = "handlers s ! (length (handlers s) - Suc n)"
  have h: "handler_id ?h \<in> set (handler_ids c)" using Suc.prems by (auto simp: chain_ids_def)
  have next_ok: "n \<le> length (handlers s')" if "chain_ids s' = c" for s'
    using Suc.prems that length_chains(1) [of s] length_chains(1) [of s'] by simp
  show ?case
    using Suc.IH next_ok h balanced_class_matches [OF Suc.prems(1), of om "exception_class ?h" k ct log]
    by (cases "class_matches_exception interp om (exception_class ?h) k ct log s")
      (auto simp: Let_def)
qed simp

lemma balanced_has_matching [balance]:
  "chain_ids s = c \<Longrightarrow> balanced c (has_matching_exception_handler interp om k ct log s)"
  unfolding has_matching_exception_handler_def
  by (intro balance) (simp_all add: balanced_find_handler)

lemma propagate_signal_not_Done [simp]: "propagate_signal interp om k payload ct log s \<noteq> Done v s'"
  by (auto simp: propagate_signal_def and_then_eq_Done split: list.splits option.splits)

lemma balanced_propagate [balance]:
  assumes "chain_ids s = c"
  shows "balanced c (propagate_signal interp om k payload ct log s)"
proof (cases "ensures s")
  case Nil
  then have "fst (snd c) = []" using assms by (auto simp: chain_ids_def)
  with Nil show ?thesis
    using balanced_find_handler [OF assms order_refl, of om k ct log] assms
    by (cases "find_handler interp om k ct log (length (handlers s)) s")
      (auto simp: propagate_signal_def jump_target_def split: option.split)
next
  case (Cons e es)
  then show ?thesis
    using assms by (auto simp: propagate_signal_def jump_target_def chain_ids_def)
qed

lemma balanced_signal [balance]: "chain_ids s = c \<Longrightarrow> balanced c (prim_signal interp om n log s)"
  unfolding prim_signal_def Let_def by (intro balance) simp_all

lemma balanced_indexed_primitive [balance]:
  "chain_ids s = c \<Longrightarrow> balanced c (try_indexed_primitive interp om p n log s)"
  unfolding try_indexed_primitive_def by (intro balance balanced_indexed) simp_all

text \<open>
  A block run under a frame \<open>i\<close> pushed on the ensure chain: it returns with the chains as they were
  pushed, or jumps to that frame.
\<close>

lemma balanced_protected [balance]:
  assumes "balanced (hs, i # es, ls) p"
    and "\<And>v s. chain_ids s = (hs, i # es, ls) \<Longrightarrow> balanced c (k v s)"
    and "\<And>x y s hs'. chain_ids s = (hs', i # es, ls) \<Longrightarrow> suffix hs hs' \<Longrightarrow> balanced c (l x y s)"
  shows "balanced c (run_protected i s0 p k l)"
proof (cases p)
  case (Longjmp j s)
  then have j: "j = i" "ensure_ids (chain_ids s) = i # es" "log_chain (chain_ids s) = ls"
    "suffix hs (handler_ids (chain_ids s))"
    using assms(1) by (auto simp: jump_target_def)
  then have "chain_ids s = (handler_ids (chain_ids s), i # es, ls)"
    by (metis ensure_ids_def handler_ids_def log_chain_def prod.collapse)
  then show ?thesis
    using Longjmp j assms(3) [of "restore_locals s0 s"] by (simp add: run_protected_def Let_def)
qed (use assms in \<open>auto simp: run_protected_def\<close>)

lemma balanced_ensure [balance]:
  assumes "chain_ids s = c"
  shows "balanced c (prim_ensure interp om log s)"
proof -
  obtain hs es ls where c: "c = (hs, es, ls)" by (cases c)
  note parts = chain_ids_eqD [OF assms [unfolded c]]
  have again: "balanced c (and_then (invoke_block_closure interp b n a ip ct log s1)
      (\<lambda>_ s. propagate_signal interp om x y ct log (restore_registers sp fp s)))"
    if "chain_ids s1 = (hs', es, ls)" "suffix hs hs'" for b n a ip ct s1 x y sp fp hs'
  proof (rule balanced_weaken [of "(hs', es, ls)"])
    show "balanced (hs', es, ls) (and_then (invoke_block_closure interp b n a ip ct log s1)
        (\<lambda>_ s. propagate_signal interp om x y ct log (restore_registers sp fp s)))"
      using that(1) by (intro balance) simp_all
  qed (use that c in \<open>auto simp: and_then_eq_Done\<close>)
  show ?thesis
    unfolding prim_ensure_def Let_def fresh_frame_id_def prod.case
    using assms c
    by (intro balanced_if balanced_protected [of hs _ es ls] again balanced_and_then balanced_invoke balanced_leaf)
      (simp_all add: parts)
qed

lemma balanced_on_do [balance]:
  assumes "chain_ids s = c"
  shows "balanced c (prim_on_do interp log s)"
proof -
  obtain hs es ls where c: "c = (hs, es, ls)" by (cases c)
  note parts = chain_ids_eqD [OF assms [unfolded c]]
  have caught: "balanced c (catching i s0 p k)"
    if p: "p = and_then q (\<lambda>v s. Done PRIMITIVE_SUCCEEDED (pop_handlers (length hs) (f v s)))"
      and q: "balanced (i # hs, es, ls) q" and f: "\<And>v s. chain_ids (f v s) = chain_ids s"
      and k: "\<And>s hs'. chain_ids s = (hs', es, ls) \<Longrightarrow> suffix hs hs' \<Longrightarrow> balanced c (k s)"
    for i s0 p q f k
  proof (cases q)
    case (Done v s)
    then show ?thesis using p q f c by (simp add: catching_def)
  next
    case (Longjmp j s)
    then have j: "ensure_ids (chain_ids s) = es" "log_chain (chain_ids s) = ls"
      "suffix (i # hs) (handler_ids (chain_ids s))" "jump_target (i # hs, es, ls) (chain_ids s) j"
      using q by (auto simp: jump_target_def)
    then have s: "chain_ids s = (handler_ids (chain_ids s), es, ls)"
      by (metis ensure_ids_def handler_ids_def log_chain_def prod.collapse)
    have suf: "suffix hs (handler_ids (chain_ids s))" using j(3) by (metis suffix_ConsD)
    show ?thesis
    proof (cases "j = i")
      case True
      then show ?thesis using Longjmp p k [of "restore_locals s0 s"] s suf by (simp add: catching_def)
    next
      case False
      have "jump_target c (chain_ids s) j"
        using j(4) suf c by (simp add: jump_target_def split: list.splits)
      with False show ?thesis using Longjmp p by (simp add: catching_def)
    qed
  qed (use p in \<open>simp_all add: catching_def\<close>)
  show ?thesis
    unfolding prim_on_do_def Let_def fresh_frame_id_def prod.case parts(4)
    using assms c
    by (intro caught [OF refl] balanced_if balanced_and_then balanced_invoke balanced_leaf)
      (simp_all add: parts suffix_drop_length)
qed

lemma balanced_block_primitive [balance]:
  "chain_ids s = c \<Longrightarrow> balanced c (try_block_primitive interp om p n log s)"
  unfolding try_block_primitive_def by (intro balance) simp_all

lemma chains_fold_mark [simp]: "chain_ids (fold (mark_dirty_entry om) es s) = chain_ids s"
proof (induction es arbitrary: s)
  case (Cons e es)
  have "chain_ids (mark_dirty_entry om e s) = chain_ids s"
    by (cases e) (simp add: mark_dirty_entry_def)
  then show ?case by (simp add: Cons.IH)
qed simp

lemma chains_finish_transaction:
  "finish_transaction om p log s = (ok, s') \<Longrightarrow> chain_ids s' = chain_ids s"
  by (auto simp: finish_transaction_def mark_dirty_pages_for_txn_log_def Let_def
      dest!: chains_log_file split: if_splits prod.splits)

lemma balanced_outer_transaction [balance]:
  assumes "chain_ids s = c"
  shows "balanced c (outer_transaction interp om p b log s)"
proof -
  obtain hs es ls where c: "c = (hs, es, ls)" by (cases c)
  note parts = chain_ids_eqD [OF assms [unfolded c]]
  have again: "balanced c (propagate_signal interp om x y ct log s1)"
    if "chain_ids s1 = (hs', es, ls)" "suffix hs hs'" for x y ct s1 hs'
    by (rule balanced_weaken [of "(hs', es, ls)"]) (use that c balanced_propagate in auto)
  show ?thesis
    unfolding outer_transaction_def Let_def fresh_frame_id_def prod.case
    using assms c
    by (intro balanced_if balanced_protected [of hs _ es "_ # ls"] again balanced_prod balanced_invoke balanced_leaf)
      (auto simp: parts dest!: chains_finish_transaction)
qed

lemma balanced_transaction_primitive [balance]:
  "chain_ids s = c \<Longrightarrow> balanced c (try_transaction_primitive interp om p n log s)"
  unfolding try_transaction_primitive_def Let_def
  by (intro balance balanced_outer_transaction) simp_all

lemma balanced_or_else [balance]:
  "balanced c p \<Longrightarrow> (\<And>s. chain_ids s = c \<Longrightarrow> balanced c (q s)) \<Longrightarrow> balanced c (or_else p q)"
  unfolding or_else_def by (intro balance) simp_all

lemma balanced_primitives [balance]: "chain_ids s = c \<Longrightarrow> balanced c (try_primitives interp om log p n s)"
  unfolding try_primitives_def by (intro balance)

lemma balanced_send_method [balance]: "chain_ids s = c \<Longrightarrow> balanced c (send_method interp om log m n s)"
  unfolding send_method_def activate_send_def unsupported_bytecode_def vm_next_def Let_def
  by (intro balance) simp_all

lemma balanced_send_message [balance]: "chain_ids s = c \<Longrightarrow> balanced c (send_message interp om log sel n s)"
  unfolding send_message_def unsupported_bytecode_def Let_def by (intro balance) simp_all

lemma balanced_step [balance]: "chain_ids s = c \<Longrightarrow> balanced c (step interp om log e s)"
  unfolding step_def op_send_message_def unsupported_bytecode_def Let_def
  by (intro balance balanced_bytecodes) (auto simp: read_u32_def Let_def)

text \<open>
  An \<^verbatim>\<open>ensure:\<close> that returns or jumps has run its second block to its end, from the state in which the
  protected block returned or jumped, with the registers and chains of the sender.
\<close>

lemma prim_ensure_unfold:
  assumes "block_num_args (memory s) (stack_at s 0) = 0"
  shows "prim_ensure interp om log s = run_protected (next_frame_id s) (s\<lparr>next_frame_id := Suc (next_frame_id s)\<rparr>)
    (protected_run interp log s)
    (\<lambda>v t. and_then (ensure_run interp log s t)
      (\<lambda>_ s2. Done PRIMITIVE_SUCCEEDED (store_top (slot (slot (vm_sp s) 2) (- 1)) (vm_fp s) v s2)))
    (\<lambda>sig payload t. and_then (ensure_run interp log s t)
      (\<lambda>_ s2. propagate_signal interp om sig payload (vm_class_table s) log
        (restore_registers (slot (vm_sp s) 2) (vm_fp s) s2)))"
  using assms
  by (simp add: prim_ensure_def fresh_frame_id_def Let_def protected_run_def ensure_pushed_def ensure_run_def
      ensure_entry_def)

lemma ensure_runs:
  assumes "prim_ensure interp om log s = r" and "block_num_args (memory s) (stack_at s 0) = 0"
    and "\<forall>s'. r \<noteq> Trap s'" and "r \<noteq> No_result"
  shows "(\<exists>v t. protected_run interp log s = Done v t \<and>
      map ensure_id (ensures (ensure_entry s t)) = map ensure_id (ensures s) \<and> txn_logs (ensure_entry s t) = txn_logs s \<and>
      (case ensure_run interp log s t of
         Done w s2 \<Rightarrow> r = Done PRIMITIVE_SUCCEEDED (store_top (slot (vm_sp s) 1) (vm_fp s) v s2)
       | Longjmp j s2 \<Rightarrow> r = Longjmp j s2 | _ \<Rightarrow> False)) \<or>
    (\<exists>t0 t. protected_run interp log s = Longjmp (next_frame_id s) t0 \<and> t = restore_locals s t0 \<and>
      map ensure_id (ensures (ensure_entry s t)) = map ensure_id (ensures s) \<and> txn_logs (ensure_entry s t) = txn_logs s \<and>
      (case ensure_run interp log s t of
         Done w s2 \<Rightarrow> r = propagate_signal interp om (signaled_class (hd (ensures t0)))
           (signaled_payload (hd (ensures t0))) (vm_class_table s) log (restore_registers (slot (vm_sp s) 2) (vm_fp s) s2)
       | Longjmp j s2 \<Rightarrow> r = Longjmp j s2 | _ \<Rightarrow> False))"
proof -
  obtain hs es ls where c: "chain_ids s = (hs, es, ls)" by (cases "chain_ids s")
  note parts = chain_ids_eqD [OF c] and unf = prim_ensure_unfold [OF assms(2), of om log]
  have bal: "balanced (hs, next_frame_id s # es, ls) (protected_run interp log s)"
    unfolding protected_run_def by (rule balanced_invoke) (simp add: ensure_pushed_def chain_ids_def parts)
  have state: "map ensure_id (ensures (ensure_entry s t)) = es \<and> txn_logs (ensure_entry s t) = ls"
    if "ensure_ids (chain_ids t) = next_frame_id s # es" "log_chain (chain_ids t) = ls" for t
    using that by (auto simp: ensure_entry_def restore_registers_def pop_ensures_def chain_ids_def parts drop_map)
  have result: "case p of Done v s2 \<Rightarrow> r = k v s2 | Longjmp j s2 \<Rightarrow> r = Longjmp j s2 | _ \<Rightarrow> False"
    if "r = and_then p k" for p :: "u64 outcome" and k
    using that assms(3,4) by (cases p) simp_all
  show ?thesis
  proof (cases "protected_run interp log s")
    case (Done v t)
    then have "r = and_then (ensure_run interp log s t)
        (\<lambda>_ s2. Done PRIMITIVE_SUCCEEDED (store_top (slot (vm_sp s) 1) (vm_fp s) v s2))"
      using assms(1) unf by (simp add: run_protected_def)
    from result [OF this] state [of t] show ?thesis using bal Done parts by simp
  next
    case (Longjmp j t)
    let ?t = "restore_locals s t"
    have j: "j = next_frame_id s" "ensure_ids (chain_ids t) = next_frame_id s # es" "log_chain (chain_ids t) = ls"
      using bal Longjmp by (auto simp: jump_target_def)
    have t: "restore_locals (s\<lparr>next_frame_id := Suc (next_frame_id s)\<rparr>) t = ?t" "ensures ?t = ensures t"
      "chain_ids ?t = chain_ids t" by (simp_all add: restore_locals_def chain_ids_def)
    have "r = and_then (ensure_run interp log s ?t)
        (\<lambda>_ s2. propagate_signal interp om (signaled_class (hd (ensures t))) (signaled_payload (hd (ensures t)))
          (vm_class_table s) log (restore_registers (slot (vm_sp s) 2) (vm_fp s) s2))"
      using Longjmp j(1) assms(1) unf t(1,2) by (simp add: run_protected_def Let_def)
    from result [OF this] state [of ?t] show ?thesis
      using Longjmp j parts t(3) by simp
  qed (use assms unf in \<open>auto simp: run_protected_def\<close>)
qed

end

section \<open>The interpreter\<close>

lemma balanced_interpret_loop: "chain_ids s = c \<Longrightarrow> balanced c (interpret_loop n om log e s)"
proof (induction n arbitrary: log e s c)
  case (Suc n)
  have "balanced_interpreter (\<lambda>ip class_table log s. interpret_loop n om log (vm_fp s)
      (s\<lparr>vm_ip := ip, vm_base := ip, vm_class_table := class_table\<rparr>))"
    by unfold_locales (simp add: Suc.IH)
  note step = balanced_interpreter.balanced_step [OF this Suc.prems]
  show ?case
    unfolding interpret_loop.simps
    by (intro balanced_and_then step) (auto split: flow.split intro: Suc.IH)
qed simp

interpretation nested: balanced_interpreter "\<lambda>ip class_table log s. interpret_loop n om log (vm_fp s)
    (s\<lparr>vm_ip := ip, vm_base := ip, vm_class_table := class_table\<rparr>)" for n om
  by unfold_locales (simp add: balanced_interpret_loop del: interpret_loop.simps)

text \<open>
  C7. A run leaves the chains as it found them: if \<^verbatim>\<open>interpret\<close> returns, the handlers, ensure frames and
  transaction logs are those of the call; if it leaves by \<^verbatim>\<open>longjmp\<close>, the ensure frames and logs are those
  of the call, and the jump goes to the innermost ensure frame of the call, or, when there is none, to
  a frame of the handler chain.
\<close>

theorem interpret_keeps_chains:
  "case interpret_vm fuel om ip class_table txn_log s of
     Done v s' \<Rightarrow> map handler_id (handlers s') = map handler_id (handlers s) \<and>
       map ensure_id (ensures s') = map ensure_id (ensures s) \<and> txn_logs s' = txn_logs s
   | Longjmp i s' \<Rightarrow> map ensure_id (ensures s') = map ensure_id (ensures s) \<and> txn_logs s' = txn_logs s \<and>
       (case ensures s of e # _ \<Rightarrow> i = ensure_id e | [] \<Rightarrow> i \<in> set (map handler_id (handlers s')))
   | _ \<Rightarrow> True"
proof -
  have "balanced (chain_ids s) (interpret_vm fuel om ip class_table txn_log s)"
    unfolding interpret_vm_def by (rule balanced_interpret_loop) simp
  then show ?thesis
    by (cases "interpret_vm fuel om ip class_table txn_log s"; cases "ensures s")
      (auto simp: chain_ids_def jump_target_def)
qed

text \<open>What \<^verbatim>\<open>ensure:\<close> calls: the interpreter with \<open>n\<close> units of fuel.\<close>

definition nested_interpret :: "nat \<Rightarrow> u64 \<Rightarrow> callee" where
  "nested_interpret n om ip class_table txn_log s = interpret_vm n om ip class_table txn_log s"

lemma nested_interpret_eq: "nested_interpret n om = (\<lambda>ip class_table log s. interpret_loop n om log (vm_fp s)
    (s\<lparr>vm_ip := ip, vm_base := ip, vm_class_table := class_table\<rparr>))"
  by (intro ext) (simp add: nested_interpret_def interpret_vm_def)

text \<open>
  The state in which the ensure block is invoked, with respect to the sender's state \<open>s\<close> and the state \<open>t\<close>
  in which the protected block ended: the memory of \<open>t\<close>, stack and frame of the sender, and the ensure frames
  and transaction logs the sender had.
\<close>

definition ensure_entered :: "vm \<Rightarrow> vm \<Rightarrow> vm \<Rightarrow> bool" where
  "ensure_entered s t e \<longleftrightarrow> memory e = memory t \<and> vm_sp e = slot (vm_sp s) 2 \<and> vm_fp e = vm_fp s \<and>
     map ensure_id (ensures e) = map ensure_id (ensures s) \<and> txn_logs e = txn_logs s"

text \<open>
  C6. An \<^verbatim>\<open>ensure:\<close> block always runs, after the protected block. Whenever \<^verbatim>\<open>prim_ensure\<close>,
  with an ensure block that takes no argument, returns or jumps (it was not stopped by SIGTRAP and did not run
  out of fuel), the protected block has either returned a value or jumped to the ensure frame of this
  \<^verbatim>\<open>ensure:\<close> and to no other frame; the ensure block has then been invoked from the state in which the
  protected block ended, with the stack, frame, ensure frames and logs of the sender. When the ensure block
  jumps, so does the primitive. When it returns, the primitive succeeds with the value of the protected block
  on top of the sender's stack, or, if the protected block was left by a signal, passes the signal on from there.
\<close>

theorem ensure_block_runs:
  assumes "prim_ensure (nested_interpret n om) om log s = r" and "block_num_args (memory s) (stack_at s 0) = 0"
    and "\<forall>s'. r \<noteq> Trap s'" and "r \<noteq> No_result"
  shows "(\<exists>v t. protected_run (nested_interpret n om) log s = Done v t \<and> ensure_entered s t (ensure_entry s t) \<and>
      (case ensure_run (nested_interpret n om) log s t of
         Done w s2 \<Rightarrow> (\<exists>s'. r = Done PRIMITIVE_SUCCEEDED s' \<and> s' = store_top (slot (vm_sp s) 1) (vm_fp s) v s2 \<and>
           stack_at s' 0 = v)
       | Longjmp j s2 \<Rightarrow> r = Longjmp j s2 | _ \<Rightarrow> False)) \<or>
    (\<exists>t. protected_run (nested_interpret n om) log s = Longjmp (next_frame_id s) t \<and>
      ensure_entered s t (ensure_entry s (restore_locals s t)) \<and>
      (case ensure_run (nested_interpret n om) log s (restore_locals s t) of
         Done w s2 \<Rightarrow> r = propagate_signal (nested_interpret n om) om (signaled_class (hd (ensures t)))
           (signaled_payload (hd (ensures t))) (vm_class_table s) log (restore_registers (slot (vm_sp s) 2) (vm_fp s) s2)
       | Longjmp j s2 \<Rightarrow> r = Longjmp j s2 | _ \<Rightarrow> False))"
proof -
  have entered: "ensure_entered s t (ensure_entry s t') \<longleftrightarrow>
      map ensure_id (ensures (ensure_entry s t')) = map ensure_id (ensures s) \<and> txn_logs (ensure_entry s t') = txn_logs s"
    if "memory t' = memory t" for t t'
    using that by (simp add: ensure_entered_def ensure_entry_def restore_registers_def pop_ensures_def)
  have top: "stack_at (store_top sp fp v s2) 0 = v" for sp fp v s2 by (simp add: stack_at_def store_top_def slot_def)
  have "memory (restore_locals s t) = memory t" for t by (simp add: restore_locals_def)
  note e = entered [OF refl] entered [OF this]
  show ?thesis
    using nested.ensure_runs [OF assms [unfolded nested_interpret_eq]]
    unfolding nested_interpret_eq e by (elim disjE exE conjE) (auto simp: top split: outcome.splits)
qed

text \<open>
  The protected and the ensure block are the same closure at 4096, whose method at 16384 has the
  bytecodes \<^verbatim>\<open>HALT\<close> at 20480.
\<close>

definition ensure_vm :: vm where
  "ensure_vm = (idle_vm ((\<lambda>_. 0)(20504 := 13, 4112 := 3, 4136 := 16384, 16408 + 32 := 20480, 16416 := 1, 16424 := 1,
     32768 := 4096, 32776 := 4096)) [])\<lparr>vm_sp := 32768, vm_fp := 32800, vm_class_table := 24576\<rparr>"

lemmas run_defs = prim_ensure_def fresh_frame_id_def run_protected_def Let_def ensure_vm_def stack_at_def
  block_num_args_def invoke_block_closure_def activate_block_call_def is_object_value_def OBJ_CLASS_def
  OBJ_FIELD_def OBJ_SIZE_def block_copied_count_def field_addr_def slot_def push_word_def push_def pop_def
  vm_activate_method_def activate_method_def populate_block_copied_values_def mark_block_frame_def
  enter_method_def run_nested_def nested_interpret_def interpret_vm_def step_def code_byte_def byte_get_def
  op_halt_def untag_smallint_def idle_vm_def restore_locals_def pop_ensures_def restore_registers_def

lemma ensure_vm_runs: "\<exists>s'. prim_ensure (nested_interpret 1 0) 0 0 ensure_vm = Done PRIMITIVE_SUCCEEDED s'"
  by (simp add: run_defs)

lemma ensure_vm_operands: "block_num_args (memory ensure_vm) (stack_at ensure_vm 0) = 0"
    "vm_sp ensure_vm = 32768" "stack_at ensure_vm 0 = 4096" "vm_class_table ensure_vm = 24576" "vm_ip ensure_vm = 0"
  by (simp_all add: run_defs)

theorem ensure_block_runs_witness:
  "\<exists>v t w s2. protected_run (nested_interpret 1 0) 0 ensure_vm = Done v t \<and>
     ensure_run (nested_interpret 1 0) 0 ensure_vm t = Done w s2 \<and>
     prim_ensure (nested_interpret 1 0) 0 0 ensure_vm = Done PRIMITIVE_SUCCEEDED (store_top 32776 32800 v s2)"
proof -
  obtain s' where s': "prim_ensure (nested_interpret 1 0) 0 0 ensure_vm = Done PRIMITIVE_SUCCEEDED s'"
    using ensure_vm_runs by blast
  have "\<exists>v t. protected_run (nested_interpret 1 0) 0 ensure_vm = Done v t"
    by (simp add: run_defs protected_run_def ensure_pushed_def)
  then obtain v t where p: "protected_run (nested_interpret 1 0) 0 ensure_vm = Done v t" by blast
  have sp: "slot (vm_sp ensure_vm) 1 = 32776" "vm_fp ensure_vm = 32800" by (simp_all add: run_defs)
  have "case ensure_run (nested_interpret 1 0) 0 ensure_vm t of
      Done w s2 \<Rightarrow> s' = store_top 32776 32800 v s2 | Longjmp j s2 \<Rightarrow> False | _ \<Rightarrow> False"
    using ensure_block_runs [OF s' ensure_vm_operands(1)] unfolding p sp
    by (cases "ensure_run (nested_interpret 1 0) 0 ensure_vm t") simp_all
  then show ?thesis
    using p s' by (cases "ensure_run (nested_interpret 1 0) 0 ensure_vm t") simp_all
qed

end
