(* ===== verification/Restart_Laws.thy ===== *)
theory Restart_Laws
  imports Durable_Laws Image_Laws
begin

text \<open>
  What \<open>prim_restart_value_of_global\<close> makes of a checkpoint file and the durable log: it refuses a file
  that is not valid, among them the files that the checkpoint itself spoils; it succeeds only when the
  whole log can be replayed, which fails on objects that are newer than the checkpoint and on a frame
  that was appended behind a torn one.
\<close>

section \<open>Restart and validity\<close>

lemma load_pages_validate: "load_pages m loaded_heap used t file pages = Some m' \<Longrightarrow>
    validate_pages file (map (\<lambda>p. checksum_table t ! p) pages)"
proof (induction m loaded_heap used t "file" pages rule: load_pages.induct)
  case (2 m loaded_heap used t bytes p pages)
  then show ?case by (simp add: Let_def split: if_splits)
qed simp

lemma loaded_checksums: "checkpoint_load_page_tables file count = Some (t, rest) \<Longrightarrow>
    length (checksum_table t) = unat count"
  by (simp add: checkpoint_load_page_tables_def Let_def split: if_splits prod.splits) auto

lemma load_image_validate:
  assumes "load_image m loaded_heap header t file = Some (Some m')"
    and "length (checksum_table t) = unat (page_count header)"
  shows "validate_pages file (checksum_table t)"
proof (cases "page_count header = 0")
  case True
  then show ?thesis using assms(2) by simp
next
  case False
  then obtain m1 where "load_pages m loaded_heap (used_size header) t file [0..<unat (page_count header)] = Some m1"
    using assms(1) by (auto simp: load_image_def Let_def split: option.splits)
  from load_pages_validate [OF this] show ?thesis by (simp add: assms(2) [symmetric] map_nth)
qed

lemma load_image_invalid:
  assumes "\<not> validate_pages file (checksum_table t)" and "length (checksum_table t) = unat (page_count header)"
  shows "load_image m loaded_heap header t file = Some None"
proof (cases "page_count header = 0")
  case True
  then show ?thesis using assms by simp
next
  case False
  have "load_pages m loaded_heap (used_size header) t file [0..<unat (page_count header)] = None"
  proof (rule ccontr)
    assume "\<not> ?thesis"
    then obtain m1 where "load_pages m loaded_heap (used_size header) t file [0..<unat (page_count header)] = Some m1"
      by blast
    from load_pages_validate [OF this] show False using assms(1) by (simp add: assms(2) [symmetric] map_nth)
  qed
  then show ?thesis using False by (simp add: load_image_def)
qed

lemma restart_refuses_invalid:
  assumes "bytes_object_to_cstring (memory s) (stack_at s 1) 1024 = Some path" and "files s path = Some file"
    and "\<not> image_checkpoint_validate (Some file)"
  shows "\<exists>s' \<in> {s, os_next s}. prim_restart_value_of_global n s = Done PRIMITIVE_FAILED s'"
proof (cases "bytes_object_to_cstring (memory s) (stack_at s 0) 512 = None \<or> n \<noteq> 2 \<or> read_header file = None")
  case True
  then show ?thesis using assms(1,2) by (auto simp: prim_restart_value_of_global_def split: option.splits)
next
  case False
  then obtain key header rest where k: "bytes_object_to_cstring (memory s) (stack_at s 0) 512 = Some key" "n = 2"
    "read_header file = Some (header, rest)" by auto
  show ?thesis
  proof (cases "checkpoint_load_page_tables rest (page_count header)")
    case None
    then show ?thesis using assms(1,2) k by (simp add: prim_restart_value_of_global_def)
  next
    case (Some loaded)
    obtain t rest' where t: "checkpoint_load_page_tables rest (page_count header) = Some (t, rest')"
      using Some by (cases loaded) simp
    have "\<not> checkpoint_header_is_valid header t \<or> \<not> validate_pages rest' (checksum_table t)"
      using assms(3) k(3) t by (simp add: image_checkpoint_validate_def)
    then show ?thesis
    proof
      assume "\<not> checkpoint_header_is_valid header t"
      then show ?thesis using assms(1,2) k t by (simp add: prim_restart_value_of_global_def)
    next
      assume "\<not> validate_pages rest' (checksum_table t)"
      from load_image_invalid [OF this loaded_checksums [OF t]] show ?thesis
        using assms(1,2) k t by (simp add: prim_restart_value_of_global_def Let_def)
    qed
  qed
qed

section \<open>Restart and the log\<close>

text \<open>The result of the restart once the checkpoint is loaded is the result of the replay.\<close>

definition durable_log_bytes :: "vm \<Rightarrow> u8 list" where
  "durable_log_bytes s = (case files s (txn_durable_log_path s) of None \<Rightarrow> [] | Some bytes \<Rightarrow> bytes)"

lemma replayed_durable_log:
  "txn_log_replay h (files s (txn_durable_log_path s)) hs hu = replay_frames h (durable_log_bytes s) hs hu"
  by (simp add: txn_log_replay_def durable_log_bytes_def split: option.splits)

lemma restart_value_result:
  "\<exists>s'. restart_value loaded_heap header key s =
    Done (if snd (replay_frames s (durable_log_bytes s) loaded_heap (used_size header))
          then PRIMITIVE_SUCCEEDED else PRIMITIVE_FAILED) s'"
proof -
  let ?s = "s\<lparr>symbol_table := loaded_heap + symbol_table_offset header,
                 symbol_class := loaded_heap + symbol_class_offset header,
                 context_class := loaded_heap + context_class_offset header,
                 smalltalk_dictionary := loaded_heap + smalltalk_dict_offset header\<rparr>"
  have d: "durable_log_bytes ?s = durable_log_bytes s" by (simp add: durable_log_bytes_def txn_durable_log_path_def)
  obtain s1 ok where r: "vm_log_replay loaded_heap (used_size header) ?s = (s1, ok)" by fastforce
  then have "ok = snd (replay_frames s (durable_log_bytes s) loaded_heap (used_size header))"
    using replay_frames_ok [of ?s "durable_log_bytes s" loaded_heap "used_size header" s loaded_heap]
    by (simp only: vm_log_replay_def replayed_durable_log d snd_conv)
  then show ?thesis by (simp add: restart_value_def r Let_def)
qed

lemma restart_succeeds_replay:
  assumes "prim_restart_value_of_global n s = Done PRIMITIVE_SUCCEEDED s'"
  shows "\<exists>path file header rest. bytes_object_to_cstring (memory s) (stack_at s 1) 1024 = Some path \<and>
    files s path = Some file \<and> read_header file = Some (header, rest) \<and>
    snd (replay_frames s (durable_log_bytes s) loaded_heap (used_size header))"
proof -
  obtain path img header rest loaded m key where
    r: "restart_value loaded header key ((os_next s)\<lparr>memory := m\<rparr>) = Done PRIMITIVE_SUCCEEDED s'"
    and f: "bytes_object_to_cstring (memory s) (stack_at s 1) 1024 = Some path" "files s path = Some img"
      "read_header img = Some (header, rest)"
    using assms
    by (auto simp: prim_restart_value_of_global_def Let_def bind_eq_Some_conv split: option.splits if_splits)
  have "durable_log_bytes ((os_next s)\<lparr>memory := m\<rparr>) = durable_log_bytes s"
    by (simp add: os_next_def txn_durable_log_path_def durable_log_bytes_def)
  then have "snd (replay_frames ((os_next s)\<lparr>memory := m\<rparr>) (durable_log_bytes s) loaded (used_size header))"
    using restart_value_result [of loaded header key "(os_next s)\<lparr>memory := m\<rparr>"] r by (auto split: if_splits)
  then show ?thesis
    using f replay_frames_ok [of "(os_next s)\<lparr>memory := m\<rparr>" "durable_log_bytes s" loaded "used_size header" s loaded_heap]
    by blast
qed

section \<open>A frame behind a torn one\<close>

lemma bit_foldr_word_of_bytes:
  "bit (foldr (\<lambda>b w. push_bit 8 w OR ucast b) (bs :: u8 list) (w :: u64)) k \<longleftrightarrow>
    k < 64 \<and> (if k < 8 * length bs then bit (bs ! (k div 8)) (k mod 8) else bit w (k - 8 * length bs))"
proof (induction bs arbitrary: k)
  case Nil
  then show ?case by (auto dest: bit_imp_le_length)
next
  case (Cons b bs)
  show ?case
  proof (cases "k < 8")
    case True
    then show ?thesis by (auto simp: bit_simps)
  next
    case False
    then have "k div 8 = Suc ((k - 8) div 8)" "(k - 8) mod 8 = k mod 8" by (auto simp: le_div_geq le_mod_geq)
    moreover have "\<not> bit b k" using False by (auto dest: bit_imp_le_length)
    ultimately show ?thesis using False by (auto simp: bit_simps Cons.IH)
  qed
qed

text \<open>A word whose last byte has bit 5 or 6 is too large for the count of a frame.\<close>

lemma count_too_large:
  assumes "length bs = 8" and "bit (bs ! 7) 5 \<or> bit (bs ! 7) 6"
  shows "word_of_bytes bs > UINT64_MAX div 24"
proof -
  obtain k where "k = 61 \<or> k = 62" "bit (word_of_bytes bs) k"
    using assms that [of 61] that [of 62] by (auto simp: word_of_bytes_def bit_foldr_word_of_bytes)
  then have "bit (drop_bit 61 (word_of_bytes bs)) (k - 61)" by (auto simp: bit_drop_bit_eq)
  then have "unat (drop_bit 61 (word_of_bytes bs)) \<noteq> 0" by (auto simp: unat_eq_zero)
  then have "2 ^ 61 \<le> unat (word_of_bytes bs)"
    unfolding unat_drop_bit_eq by (simp add: drop_bit_eq_div div_eq_0_iff)
  then show ?thesis by (simp add: UINT64_MAX_def word_less_nat_alt)
qed

lemma magic_bytes: "word_bytes DURABLE_TXN_FRAME_MAGIC = [0x31, 0x4e, 0x58, 0x54, 0x4f, 0x4c, 0x52, 0x41]"
  by (simp add: word_bytes_def DURABLE_TXN_FRAME_MAGIC_def upt_rec) 

lemma fread_three:
  assumes "24 \<le> length bytes"
  shows "fread_words 3 bytes = ([word_of_bytes (take 8 bytes), word_of_bytes (take 8 (drop 8 bytes)),
    word_of_bytes (take 8 (drop 16 bytes))], drop 24 bytes)"
proof -
  have "min 3 (length bytes div 8) = 3" using assms by simp
  then show ?thesis by (simp add: fread_words_def upt_rec)
qed

text \<open>The header that is read begins with the torn bytes and goes on with the next frame's magic number.\<close>

lemma replay_behind_torn:
  assumes "0 < n" and "n < 16"
  shows "replay_frames h (take n (frame_of old limit torn) @ frame_of old limit' es @ rest) hs hu = (h, False)"
proof -
  let ?m = "word_bytes DURABLE_TXN_FRAME_MAGIC" and ?bytes = "take n (frame_of old limit torn) @ frame_of old limit' es @ rest"
  obtain c body where t: "frame_of old limit torn = ?m @ word_bytes c @ body"
    by (simp add: frame_of_def frame_bytes_def frame_header_def)
  obtain body' where f: "frame_of old limit' es = ?m @ body'" "16 \<le> length body'"
    by (simp add: frame_of_def frame_bytes_def frame_header_def)
  have rd: "fread_words 3 ?bytes = ([word_of_bytes (take 8 ?bytes), word_of_bytes (take 8 (drop 8 ?bytes)),
    word_of_bytes (take 8 (drop 16 ?bytes))], drop 24 ?bytes)"
    using f by (intro fread_three) simp
  show ?thesis
  proof (cases "n < 8")
    case True
    then have b: "take 8 ?bytes = take n ?m @ take (8 - n) ?m" by (simp add: t f)
    have "n \<in> {1, 2, 3, 4, 5, 6, 7}" using True assms(1) by auto
    then have "take 8 ?bytes \<noteq> ?m" unfolding b magic_bytes by (elim insertE emptyE) simp_all
    moreover have "length (take 8 ?bytes) = 8" by (simp add: f)
    ultimately have "word_of_bytes (take 8 ?bytes) \<noteq> DURABLE_TXN_FRAME_MAGIC"
      using word_bytes_word_of_bytes by metis
    then show ?thesis unfolding replay_frames.simps [of h ?bytes] rd by simp
  next
    case False
    then have b: "take 8 ?bytes = ?m" "take 8 (drop 8 ?bytes) = take (n - 8) (word_bytes c) @ take (16 - n) ?m"
      using assms(2) by (simp_all add: t f)
    have "n \<in> {8, 9, 10, 11, 12, 13, 14, 15}" using False assms(2) by auto
    then have "bit (take 8 (drop 8 ?bytes) ! 7) 5 \<or> bit (take 8 (drop 8 ?bytes) ! 7) 6"
      unfolding b(2) magic_bytes by (elim insertE emptyE) (simp_all add: nth_append bit_numeral_rec)
    then have "word_of_bytes (take 8 (drop 8 ?bytes)) > UINT64_MAX div 24"
      using False assms(2) by (intro count_too_large) (simp_all only: b(2), simp)
    then show ?thesis unfolding replay_frames.simps [of h ?bytes] rd b(1) by simp
  qed
qed

section \<open>Properties\<close>

text \<open>
  The machine of the examples: the path of the checkpoint is the empty string, \<open>img\<close> its file, and
  \<open>log\<close> the file at every other path.
\<close>

definition demo_restart_vm :: "u8 list \<Rightarrow> u8 list option \<Rightarrow> vm" where
  "demo_restart_vm img log = (idle_vm ((\<lambda>_. 0)(800 := 8192, 808 := 8192, 8200 := FORMAT_BYTES)) [])
     \<lparr>vm_sp := 800, files := (\<lambda>path. if path = [] then Some img else log)\<rparr>"

lemma demo_restart_vm_files:
  "bytes_object_to_cstring (memory (demo_restart_vm img log)) (stack_at (demo_restart_vm img log) 1) 1024 = Some []"
  "files (demo_restart_vm img log) [] = Some img"
  "durable_log_bytes (demo_restart_vm img log) = (case log of None \<Rightarrow> [] | Some bytes \<Rightarrow> bytes)"
  by (simp_all add: demo_restart_vm_def bytes_object_to_cstring_def is_bytes_object_def is_object_value_def
      is_object_ptr_def stack_at_def slot_def obj_defs object_bytes_def until_nul_def bytes_of_def
      durable_log_bytes_def txn_durable_log_path_def DEFAULT_DURABLE_TXN_LOG_PATH_def c_string_def idle_vm_def)

text \<open>
  C10. A restart needs the objects of the log to be in the checkpoint. Once the checkpoint is loaded, the
  restart from a log of complete frames (of fewer than \<open>2 ^ 32\<close> entries each) succeeds exactly when every object written by a logged transaction
  lies below the used size of the checkpoint; so one durable commit to an object allocated after the last
  checkpoint makes every restart fail, and the transactions before it cannot be recovered either. (The commit only
  requires the object to lie below the current end of the heap.)
\<close>

theorem restart_needs_checkpointed_objects:
  assumes "durable_log_bytes s = log_file old txs" and "\<forall>(limit, es) \<in> set txs. length es < 2 ^ 32"
  shows "(\<exists>s'. restart_value loaded header key s =
      Done (if \<forall>(limit, es) \<in> set txs. \<forall>(obj, f, v) \<in> set es. obj - old < used_size header
            then PRIMITIVE_SUCCEEDED else PRIMITIVE_FAILED) s') \<and>
    (\<forall>n s'. prim_restart_value_of_global n s = Done PRIMITIVE_SUCCEEDED s' \<longrightarrow>
      (\<exists>path file header rest. bytes_object_to_cstring (memory s) (stack_at s 1) 1024 = Some path \<and>
        files s path = Some file \<and> read_header file = Some (header, rest) \<and>
        (\<forall>(limit, es) \<in> set txs. \<forall>(obj, f, v) \<in> set es. obj - old < used_size header)))"
proof -
  have "snd (replay_frames s (durable_log_bytes s) hs hu) \<longleftrightarrow>
      (\<forall>(limit, es) \<in> set txs. \<forall>(obj, f, v) \<in> set es. obj - old < hu)" for hs hu
    using replay_log_file_ok [OF assms(2), of s old "[]" hs hu] assms(1) by simp
  then show ?thesis
    using restart_value_result [of loaded header key s] restart_succeeds_replay [of _ s _ 0] by simp
qed

text \<open>A checkpoint of one page, and a log with a write to an object behind it.\<close>

theorem restart_needs_checkpointed_objects_witness:
  "\<forall>header. \<exists>s'. restart_value 65536 (header\<lparr>used_size := 4096\<rparr>) []
     (demo_restart_vm [] (Some (log_file 4096 [(16384, [(4096, 0, 5), (8192, 0, 5)])]))) = Done PRIMITIVE_FAILED s'"
proof
  fix header :: ImageCheckpointHeader
  show "\<exists>s'. restart_value 65536 (header\<lparr>used_size := 4096\<rparr>) []
     (demo_restart_vm [] (Some (log_file 4096 [(16384, [(4096, 0, 5), (8192, 0, 5)])]))) = Done PRIMITIVE_FAILED s'"
    using restart_needs_checkpointed_objects [of "demo_restart_vm [] (Some (log_file 4096 [(16384, [(4096, 0, 5), (8192, 0, 5)])]))"
      4096 "[(16384, [(4096, 0, 5), (8192, 0, 5)])]" 65536 "header\<lparr>used_size := 4096\<rparr>" "[]"]
    by (simp add: demo_restart_vm_files del: log_file_simps)
qed

text \<open>
  A logged pointer to an object that is newer than the checkpoint dangles after a restart. When a durable
  transaction stores such a pointer in an object of the checkpoint, the replay succeeds, and the field gets
  the bare offset \<open>v - old + 8\<close> that the log holds, which is no longer turned into a pointer, where the value
  stood for an object. (The transactions before it are \<open>recoverable\<close>; the store is a store to a field.)
\<close>

theorem replayed_new_pointer_dangles:
  assumes "old AND 3 = 0" and "old \<le> old + used" and "\<forall>tx \<in> set txs. recoverable old used tx"
    and "obj - old < used" and "\<not> bit f 63"
    and "is_object_ptr v" and "old \<le> v" and "v < limit" and "used < v - old + 8"
  shows "\<exists>h'. txn_log_replay h (Some (log_file old (txs @ [(limit, [(obj, f, v)])]))) new used = (h', True) \<and>
    memory h' = set_field (foldl apply_entry (memory h) (map (move_entry old (old + used) new) (concat (map snd txs))))
      (new + (obj - old)) f (v - old + 8)"
proof -
  obtain h1 where h1: "replay_frames h (log_file old txs @ frame_of old limit [(obj, f, v)] @ []) new used =
      replay_frames h1 (frame_of old limit [(obj, f, v)] @ []) new used"
    "memory h1 = foldl apply_entry (memory h) (map (move_entry old (old + used) new) (concat (map snd txs)))"
    using replay_log_file [OF assms(1-3), of h "frame_of old limit [(obj, f, v)] @ []" new] by blast
  let ?h2 = "mark_replayed_field (h1\<lparr>memory := set_field (memory h1) (new + (obj - old)) f (v - old + 8)\<rparr>)
    (new + (obj - old)) f"
  have "encode_entries old limit [(obj, f, v)] = [obj - old, f, v - old + 8]"
    using assms(6-8) by (simp add: encode_durable_log_value_def)
  moreover have "decode_durable_log_value (v - old + 8) new used = v - old + 8"
    using assms(9) by (auto simp only: decode_durable_log_value_def linorder_not_le [symmetric] split: if_split)
  moreover have "\<not> used \<le> obj - old" "drop_bit 63 f = 0" using assms(4,5) byte_bit_eq [of f] by auto
  ultimately have "replay_entries h1 (encode_entries old limit [(obj, f, v)]) new used = (?h2, True)"
    by (simp add: Let_def)
  then have "replay_frames h1 (frame_of old limit [(obj, f, v)] @ []) new used = (?h2, True)"
    by (subst replay_frame_of) simp_all
  then show ?thesis using h1 by (intro exI [of _ ?h2]) (simp add: txn_log_replay_def)
qed

theorem replayed_new_pointer_dangles_witness:
  "\<forall>h :: heap. \<exists>h'. txn_log_replay h (Some (frame_of 4096 16384 [(4096, 0, 12288)])) 65536 4096 = (h', True) \<and>
    memory h' = set_field (memory h) 65536 0 8200"
proof
  fix h :: heap
  show "\<exists>h'. txn_log_replay h (Some (frame_of 4096 16384 [(4096, 0, 12288)])) 65536 4096 = (h', True) \<and>
    memory h' = set_field (memory h) 65536 0 8200"
    using replayed_new_pointer_dangles [of 4096 4096 "[]" 4096 0 12288 16384 h 65536]
    by (simp add: is_object_ptr_def)
qed

text \<open>
  C37. A frame that was torn within its first two words makes the log unreadable once another transaction
  has been appended behind it: the replay takes the next frame's magic number for the rest of the torn
  header and fails, wherever in the log this is (behind complete frames of fewer than \<open>2 ^ 32\<close> entries, and
  whatever follows). So the later transaction is lost although its append succeeded: with the checkpoint
  loaded the restart fails, and the restart primitive never succeeds. (\<^verbatim>\<open>txn_log_append_fsync\<close> opens the file for appending and nothing
  truncates a torn tail.)
\<close>

theorem torn_header_loses_later_commit:
  assumes "durable_log_bytes s = log_file old txs @ take n (frame_of old limit torn) @ frame_of old limit' es @ rest"
    and "\<forall>(limit, es) \<in> set txs. length es < 2 ^ 32" and "0 < n" and "n < 16"
  shows "(\<exists>s'. restart_value loaded header key s = Done PRIMITIVE_FAILED s') \<and>
    prim_restart_value_of_global k s \<noteq> Done PRIMITIVE_SUCCEEDED s'"
proof -
  have "\<not> snd (replay_frames s (durable_log_bytes s) hs hu)" for hs hu
    unfolding assms(1) replay_log_file_ok [OF assms(2)] replay_behind_torn [OF assms(3,4)] by simp
  then show ?thesis
    using restart_value_result [of loaded header key s] restart_succeeds_replay [of k s s' 0] by auto
qed

theorem torn_header_loses_later_commit_witness:
  "\<forall>header. \<exists>s'. restart_value 65536 header [] (demo_restart_vm [] (Some (frame_of 4096 8192 [(4096, 0, 5)] @
     take 11 (frame_of 4096 8192 [(4096, 1, 9)]) @ frame_of 4096 8192 [(4096, 1, 13)]))) = Done PRIMITIVE_FAILED s'"
proof
  fix header :: ImageCheckpointHeader
  show "\<exists>s'. restart_value 65536 header [] (demo_restart_vm [] (Some (frame_of 4096 8192 [(4096, 0, 5)] @
     take 11 (frame_of 4096 8192 [(4096, 1, 9)]) @ frame_of 4096 8192 [(4096, 1, 13)]))) = Done PRIMITIVE_FAILED s'"
    using torn_header_loses_later_commit [of "demo_restart_vm [] (Some (frame_of 4096 8192 [(4096, 0, 5)] @
       take 11 (frame_of 4096 8192 [(4096, 1, 9)]) @ frame_of 4096 8192 [(4096, 1, 13)]))" 4096
       "[(8192, [(4096, 0, 5)])]" 11 8192 "[(4096, 1, 9)]" 8192 "[(4096, 1, 13)]" "[]" 65536 header "[]" 2]
    by (simp add: demo_restart_vm_files)
qed

text \<open>
  C11. A restart succeeds only from a valid checkpoint: when \<^verbatim>\<open>image_checkpoint_validate\<close> refuses the file at
  the path, the primitive fails and leaves memory, stack and globals as they were.
\<close>

theorem restart_refuses_invalid_checkpoint:
  assumes "bytes_object_to_cstring (memory s) (stack_at s 1) 1024 = Some path" and "files s path = Some file"
    and "\<not> image_checkpoint_validate (Some file)"
  shows "prim_restart_value_of_global n s \<in> {Done PRIMITIVE_FAILED s, Done PRIMITIVE_FAILED (os_next s)}"
  using restart_refuses_invalid [OF assms, of n] by blast

theorem restart_refuses_invalid_checkpoint_witness:
  "prim_restart_value_of_global 2 (demo_restart_vm [] None) \<in>
     {Done PRIMITIVE_FAILED (demo_restart_vm [] None), Done PRIMITIVE_FAILED (os_next (demo_restart_vm [] None))}"
proof -
  have "\<not> image_checkpoint_validate (Some [])"
    by (simp add: image_checkpoint_validate_def read_header_def fread_words_def)
  from restart_refuses_invalid_checkpoint [OF demo_restart_vm_files(1,2) this] show ?thesis .
qed

text \<open>
  C36. A page that changed without being marked dirty spoils the checkpoint: when a page of the heap differs
  in one byte from that page in the existing file and is not marked, the file that the primitive puts in
  place has the old bytes of the page with the checksum of the new ones; it is not valid, and a restart from
  it fails. (Every page is a head or a continuation page. \<^verbatim>\<open>om_alloc\<close> changes pages without marking them.)
\<close>

theorem unmarked_page_spoils_checkpoint:
  assumes "checkpoint_image s om class_table hs used count gen (Some old) ok file"
    and "\<forall>p < unat count. om_page_state s om (of_nat p) \<in> {1, 2}"
    and "p < unat count" and "\<not> om_page_is_dirty s om (of_nat p)"
    and "checkpoint_page_copy s om hs used (ucast (om_page_state s om (of_nat p))) (of_nat p) = Some b"
    and "take 4096 (drop (unat (checkpoint_page_file_offset count (of_nat p))) old) = b[i := w]"
    and "i < 4096" and "w \<noteq> b ! i"
    and "bytes_object_to_cstring (memory t) (stack_at t 1) 1024 = Some path" and "files t path = Some file"
  shows "\<not> image_checkpoint_validate (Some file) \<and>
    prim_restart_value_of_global n t \<in> {Done PRIMITIVE_FAILED t, Done PRIMITIVE_FAILED (os_next t)}"
proof -
  note len = length_checkpoint_page_copy [OF assms(5)]
  have "checkpoint_page_checksum (b[i := w]) \<noteq> checkpoint_page_checksum b"
    unfolding checkpoint_page_checksum_def using len assms(7,8) by (intro fnv64b.single_change_detected) simp_all
  then have "\<not> image_checkpoint_validate (Some file)"
    by (intro stale_page_invalid [OF assms(1-5) assms(6) [symmetric]]) (simp_all add: len)
  then show ?thesis using restart_refuses_invalid [OF assms(9,10)] by blast
qed

theorem unmarked_page_spoils_checkpoint_witness:
  "\<exists>old file. checkpoint_image (demo_image_vm 1 8192) 800 0 8192 24 1 2 (Some old) (\<lambda>_. True) file \<and>
    \<not> image_checkpoint_validate (Some file) \<and>
    (\<exists>t. prim_restart_value_of_global 2 (demo_restart_vm file None) = Done PRIMITIVE_FAILED t)"
proof -
  obtain b where b: "checkpoint_page_copy (demo_image_vm 1 8192) 800 8192 24 1 0 = Some b"
    using demo_image_copy by blast
  let ?old = "replicate 128 0 @ b[0 := b ! 0 + 1]"
  obtain file' where f: "checkpoint_image (demo_image_vm 1 8192) 800 0 8192 24 1 2 (Some ?old) (\<lambda>_. True) file'"
    using demo_checkpoint_image by blast
  have "unat (checkpoint_page_file_offset 1 (of_nat 0)) = 128"
    by (simp add: checkpoint_page_file_offset_def checkpoint_metadata_bytes_def)
  then have "\<not> image_checkpoint_validate (Some file') \<and> prim_restart_value_of_global 2 (demo_restart_vm file' None) \<in>
      {Done PRIMITIVE_FAILED (demo_restart_vm file' None), Done PRIMITIVE_FAILED (os_next (demo_restart_vm file' None))}"
    using length_checkpoint_page_copy [OF b] b
    by (intro unmarked_page_spoils_checkpoint [OF f, of 0 b 0 "b ! 0 + 1" "demo_restart_vm file' None" "[]" 2])
      (simp_all add: demo_image_pages demo_restart_vm_files)
  then show ?thesis using f by auto
qed

end
