(* ===== verification/Transaction_Laws.thy ===== *)
theory Transaction_Laws
  imports Chains Restart_Laws Heap_Laws
begin

text \<open>
  The durable transaction primitive and the durable log together: what \<open>finish_transaction\<close> leaves in
  memory and in the file, and what a restart makes of the file.
\<close>

section \<open>Replaying what an append left\<close>

text \<open>
  Appending one frame to a file of complete frames leaves a file that replays as before the append or
  as after it; as after it when the append reported success.
\<close>

lemma append_atomic:
  assumes "txn_log_append_fsync d file m log old limit = (ok, file')" and "log \<noteq> 0"
    and "(case file of None \<Rightarrow> [] | Some bytes \<Rightarrow> bytes) = log_file old txs"
    and "old AND 3 = 0" and "old \<le> old + used" and "\<forall>tx \<in> set txs. recoverable old used tx"
    and "recoverable old used (limit, log_entries m log)"
  shows "\<exists>committed. committed \<in> {txs, txs @ [(limit, log_entries m log)]} \<and>
    (ok \<longrightarrow> committed = txs @ [(limit, log_entries m log)]) \<and>
    (\<forall>h :: 'a heap_scheme. \<exists>h'. txn_log_replay h file' new used = (h', True) \<and>
      memory h' = foldl apply_entry (memory h) (map (move_entry old (old + used) new) (concat (map snd committed))))"
proof -
  let ?es = "log_entries m log" and ?content = "case file of None \<Rightarrow> [] | Some bytes \<Rightarrow> bytes"
  have replayed: "\<exists>h'. txn_log_replay h f new used = (h', True) \<and>
      memory h' = foldl apply_entry (memory h) (map (move_entry old (old + used) new) (concat (map snd ts)))"
    if "\<forall>tx \<in> set ts. recoverable old used tx" "\<And>h' :: 'a heap_scheme. replay_frames h' rest new used = (h', True)"
      "(case f of None \<Rightarrow> [] | Some bytes \<Rightarrow> bytes) = log_file old ts @ rest"
    for ts rest f and h :: "'a heap_scheme"
    using replay_log_file [OF assms(4,5) that(1), of h rest new] that(2,3)
    by (cases f) (auto simp: txn_log_replay_def)
  show ?thesis
  proof (cases "open_ok d")
    case False
    then have "\<not> ok \<and> file' = file" using assms(1,2) by (simp add: txn_log_append_fsync_def)
    then show ?thesis using replayed [OF assms(6), of "[]" file'] assms(3) by (intro exI [of _ txs]) simp
  next
    case True
    have "m log = 0 \<longrightarrow> encode_entries old limit ?es = []" by (simp add: log_entries_def)
    then obtain n where n: "file' = Some (?content @ take n (frame_of old limit ?es))"
      "ok \<longrightarrow> length (frame_of old limit ?es) \<le> n"
      using append_body(1) [OF assms(2) True recoverable_body [OF assms(7)] assms(1) frame_of_log] by auto
    show ?thesis
    proof (cases "n < length (frame_of old limit ?es)")
      case True
      have "length ?es < 2 ^ 32" using assms(7) by (simp add: recoverable_def)
      then have "replay_frames h' (take n (frame_of old limit ?es)) new used = (h', True)" for h' :: "'a heap_scheme"
        by (rule replay_frames_end [OF True])
      from replayed [OF assms(6) this, of file']
      have "\<exists>h'. txn_log_replay h file' new used = (h', True) \<and>
          memory h' = foldl apply_entry (memory h) (map (move_entry old (old + used) new) (concat (map snd txs)))"
        for h :: "'a heap_scheme"
        using n(1) assms(3) by simp
      then show ?thesis using True n by (intro exI [of _ txs]) simp
    next
      case False
      have "\<forall>tx \<in> set (txs @ [(limit, ?es)]). recoverable old used tx" using assms(6,7) by simp
      then have "\<exists>h'. txn_log_replay h file' new used = (h', True) \<and>
          memory h' = foldl apply_entry (memory h)
            (map (move_entry old (old + used) new) (concat (map snd (txs @ [(limit, ?es)]))))" for h :: "'a heap_scheme"
        using n(1) False assms(3) by (intro replayed [where rest = "[]"]) simp_all
      then show ?thesis using False n by (intro exI [of _ "txs @ [(limit, ?es)]"]) simp
    qed
  qed
qed

section \<open>Finishing a transaction\<close>

lemma memory_fold_mark [simp]: "memory (fold (mark_dirty_entry om) es h) = memory h"
proof (induction es arbitrary: h)
  case (Cons e es)
  have "memory (mark_dirty_entry om e h) = memory h"
    by (cases e) (simp add: mark_dirty_entry_def om_mark_byte_dirty_def om_mark_field_dirty_def)
  then show ?case by (simp add: Cons.IH)
qed simp

lemma more_fold_mark: "heap.more (fold (mark_dirty_entry om) es h) = heap.more h"
proof (induction es arbitrary: h)
  case (Cons e es)
  have "heap.more (mark_dirty_entry om e h) = heap.more h"
    by (cases e) (simp add: mark_dirty_entry_def)
  then show ?case by (simp add: Cons.IH)
qed simp

lemma files_more:
  assumes "heap.more s = heap.more t"
  shows "files s = files t" "log_path_override s = log_path_override t"
  using assms by (cases s; cases t; simp)+

text \<open>
  C1. A durable transaction is atomic, across crashes too. Let the durable log (a missing file counts as an
  empty one) hold the frames of the transactions committed so far, each with the end the heap had then, and
  let a checkpoint of the first \<open>used\<close> bytes of the heap, which begins at a multiple of 4, be given for which
  these transactions and the one that finishes are \<open>recoverable\<close>: their objects lie in the checkpoint, they
  have fewer than \<open>2 ^ 32\<close> entries, and their values are \<open>storable_value\<close>s there and not pointers into the
  part of the heap that came later. When the transaction finishes, memory has all of its
  writes or none of them; and whatever happened to the append (an open, write or sync error, or a torn
  frame), replaying the file on the checkpoint, loaded anywhere, succeeds and gives the writes of the
  transactions before it, or those and all of its own, and the latter when it was reported as committed.
\<close>

theorem durable_transaction_atomic:
  assumes "finish_transaction om PRIM_TRANSACTION_DURABLE log s = (ok, s')" and "log \<noteq> 0"
    and "old = heap_start_for_om s om" and "limit = memory s om" and "old AND 3 = 0" and "old \<le> old + used"
    and "durable_log_bytes s = log_file old txs"
    and "\<forall>tx \<in> set txs. recoverable old used tx" and "es = log_entries (memory s) log"
    and "recoverable old used (limit, es)"
  shows "memory s' = (if ok then txn_commit (memory s) log else txn_abort (memory s) log) \<and>
    (\<exists>committed. committed \<in> {txs, txs @ [(limit, es)]} \<and> (ok \<longrightarrow> committed = txs @ [(limit, es)]) \<and>
      (\<forall>h :: 'a heap_scheme. \<exists>h'. txn_log_replay h (files s' (txn_durable_log_path s')) new used = (h', True) \<and>
        memory h' = foldl apply_entry (memory h)
          (map (move_entry old (old + used) new) (concat (map snd committed)))))"
proof -
  let ?path = "txn_durable_log_path s"
  obtain appended file' where app: "txn_log_append_fsync (log_disk (os_now s)) (files s ?path) (memory s) log old limit =
      (appended, file')" by fastforce
  let ?s = "os_next (s\<lparr>files := (files s)(?path := file')\<rparr>)"
  have "ok = appended" and m: "memory s' = (if ok then txn_commit (memory s) log else txn_abort (memory s) log)"
    and more: "heap.more s' = heap.more ?s"
    using assms(1) app
    by (auto simp: finish_transaction_def vm_log_append_def mark_dirty_pages_for_txn_log_def assms(2-4) os_next_def
        txn_commit_durable_def more_fold_mark Let_def split: if_splits)
  have "files s' (txn_durable_log_path s') = file'"
    using files_more [OF more] by (simp add: os_next_def txn_durable_log_path_def)
  moreover have "recoverable old used (limit, log_entries (memory s) log)" using assms(9,10) by simp
  ultimately show ?thesis
    using append_atomic [OF app assms(2) _ assms(5,6,8), of new] assms(7,9) m \<open>ok = appended\<close>
    by (simp add: durable_log_bytes_def)
qed

text \<open>A heap from 4096 to 8192 with a log of two writes to its first object; there is no durable log yet.\<close>

definition demo_commit_vm :: vm where
  "demo_commit_vm = (idle_vm (demo_log(800 := 8192))
     [\<lparr>simple_om = 800, om_start = 4096, om_end = 8192, page_used = [0], page_first = [0], page_covering = [0],
       page_dirty = [0], page_state = [0], page_reusable = [0], page_counts = 1\<rparr>])
     \<lparr>files := (\<lambda>_. Some [])\<rparr>"

lemma demo_commit_entries: "log_entries (memory demo_commit_vm) 8192 = [(4096, 1, 5), (4096, 1, 13)]"
proof -
  have "log_entries (demo_log(800 := 8192)) 8192 = log_entries demo_log 8192"
    by (simp add: log_entries_def demo_log_entries(2) upt_rec log_entry_def slot_def)
  then show ?thesis by (simp add: demo_commit_vm_def demo_log_entries(1))
qed

theorem durable_transaction_atomic_witness:
  "\<exists>ok s'. finish_transaction 800 PRIM_TRANSACTION_DURABLE 8192 demo_commit_vm = (ok, s') \<and>
     (\<exists>committed h'. (ok \<longrightarrow> committed = [(8192 :: u64, [(4096, 1, 5), (4096, 1, 13)])]) \<and>
       txn_log_replay (demo_heap :: heap) (files s' (txn_durable_log_path s')) 65536 2048 = (h', True) \<and>
       memory h' = foldl apply_entry (memory demo_heap) (map (move_entry 4096 6144 65536) (concat (map snd committed))))"
proof -
  obtain ok s' where r: "finish_transaction 800 PRIM_TRANSACTION_DURABLE 8192 demo_commit_vm = (ok, s')" by fastforce
  have st: "recoverable 4096 2048 (8192, [(4096, 1, 5), (4096, 1, 13)])"
    by (simp add: recoverable_def durable_entry_ok_def is_object_ptr_def storable_value_def)
  have h: "4096 = heap_start_for_om demo_commit_vm 800" "8192 = memory demo_commit_vm 800"
    "durable_log_bytes demo_commit_vm = log_file 4096 []"
    by (simp_all add: demo_commit_vm_def heap_start_for_om_def gc_is_registered_context_def idle_vm_def
        om_registered_start_def om_registration_index_def durable_log_bytes_def)
  have n: "8192 \<noteq> (0 :: u64)" "4096 AND 3 = (0 :: u64)" "4096 \<le> (4096 + 2048 :: u64)"
    "\<forall>tx \<in> set []. recoverable 4096 2048 tx" by simp_all
  from durable_transaction_atomic [OF r n(1) h(1,2) n(2,3) h(3) n(4) demo_commit_entries [symmetric] st, of 65536,
      THEN conjunct2]
  obtain committed where c: "ok \<longrightarrow> committed = [(8192 :: u64, [(4096, 1, 5), (4096, 1, 13)])]"
    "\<forall>h :: heap. \<exists>h'. txn_log_replay h (files s' (txn_durable_log_path s')) 65536 2048 = (h', True) \<and>
      memory h' = foldl apply_entry (memory h) (map (move_entry 4096 (4096 + 2048) 65536) (concat (map snd committed)))"
    unfolding append_Nil by (elim exE conjE)
  then obtain h' where "txn_log_replay (demo_heap :: heap) (files s' (txn_durable_log_path s')) 65536 2048 = (h', True)"
    "memory h' = foldl apply_entry (memory demo_heap) (map (move_entry 4096 6144 65536) (concat (map snd committed)))"
    by fastforce
  with r c(1) show ?thesis by blast
qed

end
