(* ===== verification/Token_Laws.thy ===== *)
theory Token_Laws
  imports Classes
begin

text \<open>
  Laws of the tokenizer: it is a function of the text ahead of it, and it reads back every sequence
  of tokens that is printed with a blank behind each token.
\<close>

section \<open>The text ahead\<close>

definition ahead :: "BTokenizer \<Rightarrow> string" where
  "ahead t = drop (index t) (source t)"

lemma peek_ahead: "peek t = (case ahead t of [] \<Rightarrow> NUL | c # cs \<Rightarrow> c)"
  by (cases "index t < length (source t)")
    (auto simp: peek_def char_at_def ahead_def Cons_nth_drop_Suc [symmetric])

lemma ahead_advance: "ahead t = c # cs \<Longrightarrow> c \<noteq> NUL \<Longrightarrow> advance t = (c, snd (advance t)) \<and> ahead (snd (advance t)) = cs"
  by (auto simp: advance_def Let_def peek_ahead ahead_def drop_Suc tl_drop [symmetric])

lemma ahead_scan: "fst (scan P t) = takeWhile P (ahead t)" "ahead (snd (scan P t)) = dropWhile P (ahead t)"
proof -
  have d: "drop (length (takeWhile P xs)) xs = dropWhile P xs" for xs :: string
    by (simp add: dropWhile_eq_drop)
  show "fst (scan P t) = takeWhile P (ahead t)" by (simp add: scan_def ahead_def Let_def)
  show "ahead (snd (scan P t)) = dropWhile P (ahead t)"
    using d [of "ahead t"] by (simp add: scan_def ahead_def Let_def add.commute)
qed

lemma second_char: "char_at (source t) (index t + 1) = (case ahead t of a # b # cs \<Rightarrow> b | _ \<Rightarrow> NUL)"
proof (cases "index t + 1 < length (source t)")
  case True
  then have "drop (index t) (source t) = source t ! index t # source t ! (index t + 1) # drop (index t + 2) (source t)"
    by (simp add: Cons_nth_drop_Suc)
  then show ?thesis using True by (simp add: char_at_def ahead_def)
next
  case False
  then have "length (ahead t) \<le> 1" by (simp add: ahead_def)
  then show ?thesis using False by (auto simp: char_at_def split: list.split)
qed

lemma skip_blank: "ahead t = c # cs \<Longrightarrow> is_blank c \<Longrightarrow> skip_whitespace t = skip_whitespace (snd (advance t))"
  by (subst skip_whitespace.simps) (simp add: peek_ahead)

lemma skip_nothing: "\<not> is_blank (peek t) \<Longrightarrow> peek t \<noteq> CHR 0x22 \<Longrightarrow> skip_whitespace t = t"
  by (subst skip_whitespace.simps) simp

section \<open>Printing\<close>

fun double_quotes :: "string \<Rightarrow> string" where
  "double_quotes [] = []"
| "double_quotes (c # cs) = (if c = CHR 0x27 then [c, c] else [c]) @ double_quotes cs"

definition print_token :: "BToken \<Rightarrow> string" where
  "print_token token =
     (case token_type token of
        BTOK_CHARACTER \<Rightarrow> CHR ''$'' # token_text token
      | BTOK_STRING \<Rightarrow> CHR 0x27 # double_quotes (token_text token) @ [CHR 0x27]
      | BTOK_SYMBOL \<Rightarrow> CHR ''#'' # token_text token
      | _ \<Rightarrow> token_text token)"

definition is_word :: "string \<Rightarrow> bool" where
  "is_word s \<longleftrightarrow> s \<noteq> [] \<and> (isalpha (hd s) \<or> hd s = CHR ''_'') \<and> list_all is_word_char s"

definition is_special_char :: "char \<Rightarrow> bool" where
  "is_special_char c \<longleftrightarrow> c \<noteq> NUL \<and> \<not> is_blank c \<and> \<not> isalnum c \<and> c \<notin> {CHR 0x22, CHR 0x27, CHR ''$'', CHR ''_'', CHR ''#''}"

text \<open>The tokens the tokenizer can produce, with texts that fit their buffer.\<close>

definition printable :: "BToken \<Rightarrow> bool" where
  "printable token \<longleftrightarrow>
     (let s = token_text token
      in length s < TOKEN_TEXT_SIZE \<and>
         (case token_type token of
            BTOK_IDENTIFIER \<Rightarrow> is_word s \<and> int_value token = 0
          | BTOK_KEYWORD \<Rightarrow> s \<noteq> [] \<and> is_word (butlast s) \<and> last s = CHR '':'' \<and> int_value token = 0
          | BTOK_INTEGER \<Rightarrow> s \<noteq> [] \<and> list_all isdigit s \<and> int_value token = decimal_value s
          | BTOK_CHARACTER \<Rightarrow> (\<exists>c. c \<noteq> NUL \<and> s = [c] \<and> int_value token = of_char c)
          | BTOK_STRING \<Rightarrow> NUL \<notin> set s \<and> int_value token = 0
          | BTOK_SYMBOL \<Rightarrow> (list_all is_symbol_char s \<or> list_all is_binary_selector_char s) \<and> int_value token = 0
          | BTOK_SPECIAL \<Rightarrow> (s = '':='' \<or> s = ''#('' \<or> (\<exists>c. s = [c] \<and> is_special_char c)) \<and> int_value token = 0
          | _ \<Rightarrow> False))"

definition print_tokens :: "BToken list \<Rightarrow> string" where
  "print_tokens tokens = concat (map (\<lambda>token. print_token token @ '' '') tokens)"

text \<open>All tokens up to the end of the text.\<close>

function tokens_from :: "BTokenizer \<Rightarrow> BToken list" where
  "tokens_from t =
     (let (token, t') = bt_next t in if is_eof token then [] else token # tokens_from t')"
  by auto

termination tokens_from
  by (relation "measure (\<lambda>t. length (source t) - index t)") (auto intro: bt_next_less)

declare tokens_from.simps [simp del]

section \<open>Characters\<close>

lemma char_class_ascii:
  "is_word_char c \<Longrightarrow> c \<noteq> NUL \<and> \<not> is_blank c \<and> c \<noteq> CHR 0x22 \<and> c \<noteq> CHR 0x27 \<and> c \<noteq> CHR ''$'' \<and> c \<noteq> CHR ''#'' \<and> c \<noteq> CHR '':''"
  "isdigit c \<Longrightarrow> c \<noteq> NUL \<and> \<not> is_blank c \<and> c \<noteq> CHR 0x22"
  "isalpha c \<Longrightarrow> \<not> isdigit c" "\<not> isdigit (CHR ''_'')"
  by (auto simp: is_word_char_def isalnum_def isalpha_def isdigit_def is_blank_def NUL_def Let_def)

lemma blank_classes:
  "\<not> is_word_char (CHR '' '')" "\<not> isdigit (CHR '' '')" "\<not> is_symbol_char (CHR '' '')"
  "\<not> is_binary_selector_char (CHR '' '')" "is_blank (CHR '' '')"
  by (simp_all add: is_word_char_def isalnum_def isalpha_def isdigit_def is_symbol_char_def
      is_binary_selector_char_def is_blank_def Let_def)

lemma takeWhile_stop: "list_all P s \<Longrightarrow> \<not> P c \<Longrightarrow> takeWhile P (s @ c # cs) = s"
  "list_all P s \<Longrightarrow> \<not> P c \<Longrightarrow> dropWhile P (s @ c # cs) = c # cs"
  by (induction s) auto

section \<open>Reading back one token\<close>

text \<open>\<open>reads t token rest\<close>: the next token, and the text ahead after it.\<close>

definition reads :: "BToken \<times> BTokenizer \<Rightarrow> BToken \<Rightarrow> string \<Rightarrow> bool" where
  "reads r token rest \<longleftrightarrow> fst r = token \<and> ahead (snd r) = rest"

lemma text_token_eq:
  "length s < TOKEN_TEXT_SIZE \<Longrightarrow> text_token ty s = \<lparr>token_type = ty, token_text = s, int_value = 0\<rparr>"
  by (simp add: text_token_def make_token_def TOKEN_TEXT_SIZE_def)

lemma reads_word:
  assumes "is_word s" and "ahead t = s @ c # rest" and "\<not> is_word_char c" and "c \<noteq> CHR '':''"
    and "length s < TOKEN_TEXT_SIZE"
  shows "reads (word_token t) \<lparr>token_type = BTOK_IDENTIFIER, token_text = s, int_value = 0\<rparr> (c # rest)"
proof -
  have s: "list_all is_word_char s" using assms(1) by (simp add: is_word_def)
  have f: "fst (scan is_word_char t) = s" "ahead (snd (scan is_word_char t)) = c # rest"
    using takeWhile_stop [OF s assms(3)] by (simp_all add: ahead_scan assms(2))
  then show ?thesis
    using assms(4,5) by (simp add: reads_def word_token_def Let_def split_def peek_ahead text_token_eq)
qed

lemma advance_Cons:
  assumes "ahead t = c # cs" and "c \<noteq> NUL"
  obtains t' where "advance t = (c, t')" and "ahead t' = cs"
  using ahead_advance [OF assms] by (metis prod.collapse)

lemma reads_keyword:
  assumes "is_word s" and "ahead t = s @ CHR '':'' # rest" and "length s + 1 < TOKEN_TEXT_SIZE"
  shows "reads (word_token t) \<lparr>token_type = BTOK_KEYWORD, token_text = s @ '':'', int_value = 0\<rparr> rest"
proof -
  have s: "list_all is_word_char s" using assms(1) by (simp add: is_word_def)
  have n: "\<not> is_word_char (CHR '':'')"
    by (simp add: is_word_char_def isalnum_def isalpha_def isdigit_def Let_def)
  have f: "fst (scan is_word_char t) = s" "ahead (snd (scan is_word_char t)) = CHR '':'' # rest"
    using takeWhile_stop [OF s n] by (simp_all add: ahead_scan assms(2))
  obtain t1 where 1: "advance (snd (scan is_word_char t)) = (CHR '':'', t1)" "ahead t1 = rest"
    by (rule advance_Cons [OF f(2)]) (simp_all add: NUL_def)
  show ?thesis
    using assms(3) f 1 by (simp add: reads_def word_token_def Let_def split_def peek_ahead text_token_eq)
qed

lemma reads_integer:
  assumes "list_all isdigit s" and "ahead t = s @ c # rest" and "\<not> isdigit c" and "length s < TOKEN_TEXT_SIZE"
  shows "reads (integer_token t)
    \<lparr>token_type = BTOK_INTEGER, token_text = s, int_value = decimal_value s\<rparr> (c # rest)"
proof -
  have f: "fst (scan isdigit t) = s" "ahead (snd (scan isdigit t)) = c # rest"
    using takeWhile_stop [OF assms(1,3)] by (simp_all add: ahead_scan assms(2))
  then show ?thesis
    using assms(4) by (simp add: reads_def integer_token_def Let_def split_def text_token_eq)
qed

lemma reads_character:
  assumes "ahead t = CHR ''$'' # c # rest" and "c \<noteq> NUL"
  shows "reads (character_token t) \<lparr>token_type = BTOK_CHARACTER, token_text = [c], int_value = of_char c\<rparr> rest"
proof -
  obtain t1 where 1: "advance t = (CHR ''$'', t1)" "ahead t1 = c # rest"
    by (rule advance_Cons [OF assms(1)]) (simp_all add: NUL_def)
  obtain t2 where 2: "advance t1 = (c, t2)" "ahead t2 = rest"
    by (rule advance_Cons [OF 1(2) assms(2)])
  show ?thesis using 1 2 assms(2) by (simp add: reads_def character_token_def make_token_def)
qed

lemma scan_quoted:
  "NUL \<notin> set s \<Longrightarrow> ahead t = double_quotes s @ CHR 0x27 # c # rest \<Longrightarrow> c \<noteq> CHR 0x27 \<Longrightarrow>
    fst (scan_string t) = s \<and> ahead (snd (scan_string t)) = c # rest"
proof (induction s arbitrary: t)
  case Nil
  obtain t1 where 1: "advance t = (CHR 0x27, t1)" "ahead t1 = c # rest"
    using Nil.prems(2) by (auto intro: advance_Cons simp: NUL_def)
  show ?case
    using Nil 1 by (subst (1 2) scan_string.simps) (simp add: peek_ahead NUL_def)
next
  case (Cons d s)
  obtain t1 where 1: "advance t = (d, t1)"
    "ahead t1 = (if d = CHR 0x27 then [d] else []) @ double_quotes s @ CHR 0x27 # c # rest"
    using Cons.prems by (auto intro: advance_Cons split: if_splits)
  show ?case
  proof (cases "d = CHR 0x27")
    case True
    obtain t2 where 2: "advance t1 = (d, t2)" "ahead t2 = double_quotes s @ CHR 0x27 # c # rest"
      using 1(2) True by (auto intro: advance_Cons simp: NUL_def)
    show ?thesis
      using Cons.IH [OF _ 2(2)] Cons.prems 1 2(1) True
      by (subst (1 2) scan_string.simps) (simp add: peek_ahead NUL_def Let_def split_def)
  next
    case False
    have "d \<noteq> NUL" using Cons.prems(1) by auto
    then show ?thesis
      using Cons.IH [of t1] Cons.prems 1 False
      by (subst (1 2) scan_string.simps) (simp add: peek_ahead Let_def split_def)
  qed
qed

lemma reads_string:
  assumes "ahead t = CHR 0x27 # double_quotes s @ CHR 0x27 # c # rest" and "NUL \<notin> set s"
    and "c \<noteq> CHR 0x27" and "length s < TOKEN_TEXT_SIZE"
  shows "reads (string_token t) \<lparr>token_type = BTOK_STRING, token_text = s, int_value = 0\<rparr> (c # rest)"
proof -
  obtain t1 where 1: "advance t = (CHR 0x27, t1)" "ahead t1 = double_quotes s @ CHR 0x27 # c # rest"
    by (rule advance_Cons [OF assms(1)]) (simp_all add: NUL_def)
  show ?thesis
    using scan_quoted [OF assms(2) 1(2) assms(3)] 1(1) assms(4)
    by (simp add: reads_def string_token_def Let_def split_def text_token_eq)
qed

lemma reads_symbol:
  assumes "ahead t = CHR ''#'' # s @ CHR '' '' # rest"
    and "list_all is_symbol_char s \<or> list_all is_binary_selector_char s" and "length s < TOKEN_TEXT_SIZE"
  shows "reads (symbol_token t) \<lparr>token_type = BTOK_SYMBOL, token_text = s, int_value = 0\<rparr> ('' '' @ rest)"
proof -
  obtain t1 where 1: "advance t = (CHR ''#'', t1)" "ahead t1 = s @ CHR '' '' # rest"
    by (rule advance_Cons [OF assms(1)]) (simp_all add: NUL_def)
  have n: "is_binary_selector_char c \<Longrightarrow> \<not> is_symbol_char c" for c
    by (auto simp: is_binary_selector_char_def is_symbol_char_def isalnum_def isalpha_def isdigit_def Let_def)
  let ?P = "if is_symbol_char (peek t1) then is_symbol_char else is_binary_selector_char"
  have "list_all ?P s \<and> \<not> ?P (CHR '' '')"
    using assms(2) n blank_classes by (cases s) (auto simp: peek_ahead 1(2))
  then have "fst (scan ?P t1) = s" "ahead (snd (scan ?P t1)) = CHR '' '' # rest"
    using takeWhile_stop [of ?P s "CHR '' ''" rest] by (simp_all add: ahead_scan 1(2))
  then show ?thesis
    using 1(1) assms(3) by (simp add: reads_def symbol_token_def Let_def split_def text_token_eq)
qed

lemma reads_two:
  assumes "ahead t = a # b # rest" and "a \<noteq> NUL" and "b \<noteq> NUL"
  shows "reads (two_char_token t) \<lparr>token_type = BTOK_SPECIAL, token_text = [a, b], int_value = 0\<rparr> rest"
proof -
  obtain t1 where 1: "advance t = (a, t1)" "ahead t1 = b # rest" by (rule advance_Cons [OF assms(1,2)])
  obtain t2 where 2: "advance t1 = (b, t2)" "ahead t2 = rest" by (rule advance_Cons [OF 1(2) assms(3)])
  show ?thesis using 1 2 by (simp add: reads_def two_char_token_def text_token_eq TOKEN_TEXT_SIZE_def)
qed

lemma reads_special:
  assumes "ahead t = c # CHR '' '' # rest" and "c \<noteq> NUL"
  shows "reads (special_token t) \<lparr>token_type = BTOK_SPECIAL, token_text = [c], int_value = 0\<rparr> ('' '' @ rest)"
proof -
  obtain t1 where 1: "advance t = (c, t1)" "ahead t1 = CHR '' '' # rest" by (rule advance_Cons [OF assms])
  show ?thesis
    using 1 assms(1) unfolding special_token_def second_char
    by (simp add: reads_def text_token_eq TOKEN_TEXT_SIZE_def)
qed

text \<open>The token at the front of the text, by its first character.\<close>

lemma bt_next_here:
  assumes "ahead t = c # cs" and "c \<noteq> NUL" and "\<not> is_blank c" and "c \<noteq> CHR 0x22"
  shows "bt_next t =
    (if isdigit c then integer_token t
     else if c = CHR ''$'' then character_token t
     else if isalpha c \<or> c = CHR ''_'' then word_token t
     else if c = CHR 0x27 then string_token t
     else if c = CHR ''#'' then
       (if (case cs of [] \<Rightarrow> NUL | b # _ \<Rightarrow> b) = CHR ''('' then two_char_token t else symbol_token t)
     else special_token t)"
proof -
  have p: "peek t = c" by (simp add: peek_ahead assms(1))
  have s: "skip_whitespace t = t" by (rule skip_nothing) (simp_all add: p assms)
  have b: "char_at (source t) (index t + 1) = (case cs of [] \<Rightarrow> NUL | b # _ \<Rightarrow> b)"
    unfolding second_char assms(1) by (simp split: list.split)
  show ?thesis unfolding bt_next_def s Let_def p b using assms(2) by simp
qed

lemma bt_next_token:
  assumes "printable token" and "ahead t = print_token token @ CHR '' '' # rest"
  shows "reads (bt_next t) token ('' '' @ rest)"
proof -
  obtain ty s v where token: "token = \<lparr>token_type = ty, token_text = s, int_value = v\<rparr>" by (cases token)
  have l: "length s < TOKEN_TEXT_SIZE" using assms(1) by (simp add: printable_def token Let_def)
  show ?thesis
  proof (cases ty)
    case BTOK_IDENTIFIER
    then have w: "is_word s" "v = 0" and a: "ahead t = s @ CHR '' '' # rest"
      using assms by (simp_all add: printable_def print_token_def token Let_def)
    obtain c cs where s: "s = c # cs" using w(1) by (cases s) (auto simp: is_word_def)
    have c: "isalpha c \<or> c = CHR ''_''" "is_word_char c" using w(1) by (auto simp: is_word_def s)
    have "bt_next t = word_token t"
      using bt_next_here [of t c "cs @ CHR '' '' # rest"] a s c char_class_ascii by auto
    then show ?thesis
      using reads_word [OF w(1) a blank_classes(1) _ l] BTOK_IDENTIFIER w(2) token by simp
  next
    case BTOK_KEYWORD
    then have w: "s \<noteq> []" "is_word (butlast s)" "last s = CHR '':''" "v = 0"
      and a: "ahead t = s @ CHR '' '' # rest"
      using assms by (simp_all add: printable_def print_token_def token Let_def)
    have s': "s = butlast s @ '':''" using w(1,3) by (metis append_butlast_last_id)
    then have a': "ahead t = butlast s @ CHR '':'' # '' '' @ rest" using a by (metis append.assoc append_Cons append_Nil)
    obtain c cs where s: "butlast s = c # cs" using w(2) by (cases "butlast s") (auto simp: is_word_def)
    have c: "isalpha c \<or> c = CHR ''_''" "is_word_char c" using w(2) by (auto simp: is_word_def s)
    have "bt_next t = word_token t"
      using bt_next_here [of t c "cs @ CHR '':'' # '' '' @ rest"] a' s c char_class_ascii by auto
    then show ?thesis
      using reads_keyword [OF w(2) a'] l s' BTOK_KEYWORD w(4) token by (metis length_append_singleton Suc_eq_plus1)
  next
    case BTOK_INTEGER
    then have w: "s \<noteq> []" "list_all isdigit s" "v = decimal_value s" and a: "ahead t = s @ CHR '' '' # rest"
      using assms by (simp_all add: printable_def print_token_def token Let_def)
    obtain c cs where s: "s = c # cs" using w(1) by (cases s) auto
    have c: "isdigit c" using w(2) by (simp add: s)
    have "bt_next t = integer_token t"
      using bt_next_here [of t c "cs @ CHR '' '' # rest"] a s c char_class_ascii(2) by auto
    then show ?thesis
      using reads_integer [OF w(2) a blank_classes(2) l] BTOK_INTEGER w(3) token by simp
  next
    case BTOK_CHARACTER
    then obtain c where w: "c \<noteq> NUL" "s = [c]" "v = of_char c" and a: "ahead t = CHR ''$'' # c # '' '' @ rest"
      using assms by (auto simp: printable_def print_token_def token Let_def)
    have "bt_next t = character_token t"
      by (subst bt_next_here [OF a]) (simp_all add: NUL_def is_blank_def isdigit_def Let_def)
    then show ?thesis using reads_character [OF a w(1)] BTOK_CHARACTER w token by simp
  next
    case BTOK_STRING
    then have w: "NUL \<notin> set s" "v = 0" and a: "ahead t = CHR 0x27 # double_quotes s @ CHR 0x27 # '' '' @ rest"
      using assms by (simp_all add: printable_def print_token_def token Let_def)
    have "bt_next t = string_token t"
      by (subst bt_next_here [OF a]) (simp_all add: NUL_def is_blank_def isdigit_def isalpha_def Let_def)
    then show ?thesis using reads_string [of t s "CHR '' ''" rest] a w l BTOK_STRING token by simp
  next
    case BTOK_SYMBOL
    then have w: "list_all is_symbol_char s \<or> list_all is_binary_selector_char s" "v = 0"
      and a: "ahead t = CHR ''#'' # s @ CHR '' '' # rest"
      using assms by (simp_all add: printable_def print_token_def token Let_def)
    have "(case s @ CHR '' '' # rest of [] \<Rightarrow> NUL | b # _ \<Rightarrow> b) \<noteq> CHR ''(''"
      using w(1) by (cases s) (auto simp: is_binary_selector_char_def is_symbol_char_def isalnum_def
          isalpha_def isdigit_def Let_def)
    then have "bt_next t = symbol_token t"
      by (subst bt_next_here [OF a]) (simp_all add: NUL_def is_blank_def isdigit_def isalpha_def Let_def)
    then show ?thesis using reads_symbol [OF a w(1) l] w(2) BTOK_SYMBOL token by simp
  next
    case BTOK_SPECIAL
    then consider "s = '':=''" | "s = ''#(''" | c where "s = [c]" "is_special_char c"
      using assms(1) by (auto simp: printable_def token Let_def)
    moreover have v: "v = 0" and a: "ahead t = s @ CHR '' '' # rest"
      using assms BTOK_SPECIAL by (simp_all add: printable_def print_token_def token Let_def)
    ultimately show ?thesis
    proof cases
      case 1
      then have a': "ahead t = CHR '':'' # CHR ''='' # '' '' @ rest" using a by simp
      have "bt_next t = two_char_token t"
        by (subst bt_next_here [OF a'])
          (simp_all add: NUL_def is_blank_def isdigit_def isalpha_def Let_def special_token_def
            peek_ahead a' second_char [unfolded a', simplified])
      then show ?thesis using reads_two [OF a'] 1 v BTOK_SPECIAL token by (simp add: NUL_def)
    next
      case 2
      then have a': "ahead t = CHR ''#'' # CHR ''('' # '' '' @ rest" using a by simp
      have "bt_next t = two_char_token t"
        by (subst bt_next_here [OF a']) (simp_all add: NUL_def is_blank_def isdigit_def isalpha_def Let_def)
      then show ?thesis using reads_two [OF a'] 2 v BTOK_SPECIAL token by (simp add: NUL_def)
    next
      case 3
      then have a': "ahead t = c # CHR '' '' # rest" using a by simp
      have "bt_next t = special_token t"
        using bt_next_here [OF a'] 3(2) by (auto simp: is_special_char_def isalnum_def)
      then show ?thesis using reads_special [OF a'] 3 v BTOK_SPECIAL token by (simp add: is_special_char_def)
    qed
  qed (use assms(1) in \<open>simp_all add: printable_def token Let_def\<close>)
qed

section \<open>Reading back a text\<close>

lemma print_token_not_eof: "printable token \<Longrightarrow> \<not> is_eof token"
  by (auto simp: printable_def Let_def)

lemma tokens_from_blank: "ahead t = CHR '' '' # cs \<Longrightarrow> \<exists>t'. ahead t' = cs \<and> tokens_from t = tokens_from t'"
proof -
  assume a: "ahead t = CHR '' '' # cs"
  obtain t1 where 1: "advance t = (CHR '' '', t1)" "ahead t1 = cs"
    by (rule advance_Cons [OF a]) (simp_all add: NUL_def)
  have "bt_next t = bt_next t1"
    using skip_blank [OF a blank_classes(5)] by (simp add: bt_next_def 1(1))
  then have "tokens_from t = tokens_from t1" by (simp add: tokens_from.simps [of t] tokens_from.simps [of t1])
  then show ?thesis using 1(2) by blast
qed

lemma tokens_from_print:
  "list_all printable tokens \<Longrightarrow> ahead t = print_tokens tokens \<Longrightarrow> tokens_from t = tokens"
proof (induction tokens arbitrary: t)
  case Nil
  then have "ahead t = []" by (simp add: print_tokens_def)
  then have "is_eof (fst (bt_next t))" by (intro bt_next_at_end) (simp add: ahead_def)
  then show ?case by (subst tokens_from.simps) (simp add: split_def Let_def)
next
  case (Cons token tokens)
  have p: "printable token" and a: "ahead t = print_token token @ CHR '' '' # print_tokens tokens"
    using Cons.prems by (simp_all add: print_tokens_def)
  obtain t1 where 1: "bt_next t = (token, t1)" "ahead t1 = CHR '' '' # print_tokens tokens"
    using bt_next_token [OF p a] by (cases "bt_next t") (simp add: reads_def)
  obtain t2 where 2: "ahead t2 = print_tokens tokens" "tokens_from t1 = tokens_from t2"
    using tokens_from_blank [OF 1(2)] by blast
  have "tokens_from t = token # tokens_from t1"
    using print_token_not_eof [OF p] by (simp add: tokens_from.simps [of t] 1(1))
  then show ?case using Cons.IH [OF _ 2(1)] Cons.prems(1) 2(2) by simp
qed

text \<open>
  C15. Every sequence of tokens that is printed with a blank behind each token is read back as it was:
  identifiers, keywords, integers with their value, characters, strings with their quotes doubled,
  symbols and special characters, as long as their texts fit the buffer of a token.
\<close>

theorem tokens_roundtrip:
  assumes "list_all printable tokens"
  shows "tokens_from (bt_init (print_tokens tokens)) = tokens"
  by (rule tokens_from_print [OF assms]) (simp add: ahead_def bt_init_def)

definition demo_tokens :: "BToken list" where
  "demo_tokens =
     [\<lparr>token_type = BTOK_IDENTIFIER, token_text = ''x'', int_value = 0\<rparr>,
      \<lparr>token_type = BTOK_SPECIAL, token_text = '':='', int_value = 0\<rparr>,
      \<lparr>token_type = BTOK_INTEGER, token_text = ''42'', int_value = 42\<rparr>,
      \<lparr>token_type = BTOK_KEYWORD, token_text = ''at:'', int_value = 0\<rparr>,
      \<lparr>token_type = BTOK_STRING, token_text = [CHR ''a'', CHR 0x27, CHR '' ''], int_value = 0\<rparr>,
      \<lparr>token_type = BTOK_SYMBOL, token_text = ''+'', int_value = 0\<rparr>]"

lemma demo_tokens_printable: "list_all printable demo_tokens"
  by (simp add: demo_tokens_def printable_def is_word_def TOKEN_TEXT_SIZE_def is_word_char_def isalnum_def
      isalpha_def isdigit_def decimal_value_def digit_value_def is_binary_selector_char_def NUL_def Let_def)

lemma tokens_roundtrip_witness:
  "list_all printable demo_tokens \<and> tokens_from (bt_init (print_tokens demo_tokens)) = demo_tokens"
  using demo_tokens_printable tokens_roundtrip [OF demo_tokens_printable] by simp

section \<open>Chunk files\<close>

definition methods_for :: "BMethodChunk \<Rightarrow> string" where
  "methods_for c = class_name c @ (if class_side c then '' class'' else '''') @ '' methodsFor: '' @
     CHR 0x27 # category c @ [CHR 0x27]"

text \<open>A chunk as it stands in a file: the class and category between bangs, and the method up to a bang.\<close>

definition print_chunk :: "BMethodChunk \<Rightarrow> string" where
  "print_chunk c = bang # methods_for c @ bang # method_source c @ [bang]"

definition printable_chunk :: "BMethodChunk \<Rightarrow> bool" where
  "printable_chunk c \<longleftrightarrow>
     class_name c \<noteq> [] \<and> list_all is_word_char (class_name c) \<and> length (class_name c) < CLASS_NAME_SIZE \<and>
     CHR 0x27 \<notin> set (category c) \<and> bang \<notin> set (category c) \<and> length (category c) < CLASS_NAME_SIZE \<and>
     method_source c \<noteq> [] \<and> \<not> is_blank (hd (method_source c)) \<and> \<not> is_blank (last (method_source c)) \<and>
     bang \<notin> set (method_source c) \<and> length (method_source c) < METHOD_SOURCE_SIZE"

lemma until_bang: "bang \<notin> set s \<Longrightarrow> before_bang (s @ bang # rest) = s \<and> from_bang (s @ bang # rest) = bang # rest"
  by (induction s) (auto simp: before_bang_def from_bang_def)

lemma trim_nothing: "s \<noteq> [] \<Longrightarrow> \<not> is_blank (hd s) \<Longrightarrow> \<not> is_blank (last s) \<Longrightarrow> trim_blanks s = s"
proof -
  assume s: "s \<noteq> []" "\<not> is_blank (hd s)" "\<not> is_blank (last s)"
  have "dropWhile is_blank s = s" using s by (cases s) auto
  moreover have "dropWhile is_blank (rev s) = rev s" using s by (cases s rule: rev_cases) auto
  ultimately show ?thesis by (simp add: trim_blanks_def)
qed

lemma starts_with_append [simp]: "starts_with (p @ s) p"
  by (induction p) auto

lemma contains_here: "starts_with s p \<Longrightarrow> contains_text s p"
  by (cases s) auto

lemma contains_append: "contains_text (s @ p @ r) p"
  by (induction s) (simp_all add: contains_here)

lemma parse_methods_for_print:
  assumes "printable_chunk c"
  shows "parse_methods_for (methods_for c) = Some (class_name c, class_side c, category c)"
proof -
  let ?q = "CHR 0x27" and ?side = "if class_side c then '' class'' else ''''"
  let ?tail = "'' methodsFor: '' @ ?q # category c @ [?q]"
  note c = assms [unfolded printable_chunk_def]
  obtain d ds where d: "?side @ ?tail = CHR '' '' # ds"
    by (cases "class_side c") auto
  have cls: "takeWhile is_word_char (methods_for c) = class_name c"
    using takeWhile_stop(1) [of is_word_char "class_name c" "CHR '' ''" ds] c blank_classes d
    by (simp add: methods_for_def)
  have cut: "name_in CLASS_NAME_SIZE (class_name c) = class_name c" "name_in CLASS_NAME_SIZE (category c) = category c"
    using c by (auto simp: name_in_def CLASS_NAME_SIZE_def)
  have rest: "drop (length (class_name c)) (methods_for c) = ?side @ ?tail"
    by (simp add: methods_for_def)
  have cat: "takeWhile (\<lambda>x. x \<noteq> ?q) (category c @ [?q]) = category c"
    using c by (induction "category c") (auto simp: takeWhile_append2 takeWhile_append)
  show ?thesis
    by (cases "class_side c")
      (simp_all add: parse_methods_for_def cls cut rest skip_spaces_def char_at_def cat Let_def nth_append)
qed

lemma methods_for_segment:
  assumes "printable_chunk c"
  shows "bang \<notin> set (methods_for c)" "trim_blanks (methods_for c) = methods_for c"
    "length (methods_for c) < METHOD_SOURCE_SIZE" "contains_text (methods_for c) ''methodsFor:''"
proof -
  note c = assms [unfolded printable_chunk_def]
  have n: "x \<in> set (class_name c) \<Longrightarrow> x \<noteq> bang" for x
    using c by (auto simp: list_all_iff bang_def is_word_char_def isalnum_def isalpha_def isdigit_def Let_def)
  show "bang \<notin> set (methods_for c)"
    using c n by (auto simp: methods_for_def bang_def)
  have "methods_for c \<noteq> []" "\<not> is_blank (last (methods_for c))"
    by (simp_all add: methods_for_def is_blank_def)
  moreover have "\<not> is_blank (hd (methods_for c))"
    using c by (cases "class_name c") (auto simp: methods_for_def dest: char_class_ascii(1))
  ultimately show "trim_blanks (methods_for c) = methods_for c" by (intro trim_nothing)
  show "length (methods_for c) < METHOD_SOURCE_SIZE"
    using c by (simp add: methods_for_def CLASS_NAME_SIZE_def METHOD_SOURCE_SIZE_def)
  show "contains_text (methods_for c) ''methodsFor:''"
    using contains_append [of "class_name c @ (if class_side c then '' class'' else '''') @ '' ''"
        "''methodsFor:''" "'' '' @ CHR 0x27 # category c @ [CHR 0x27]"]
    by (simp add: methods_for_def)
qed

lemma parse_chunk_print:
  assumes "printable_chunk c" and "length chunks < max_chunks"
  shows "parse_chunks max_chunks (print_chunk c @ rest) cls side cat chunks =
    parse_chunks max_chunks rest (class_name c) (class_side c) (category c) (chunks @ [c])"
proof -
  note p = assms(1) [unfolded printable_chunk_def]
  note seg = methods_for_segment [OF assms(1)]
  obtain d ds where src: "method_source c = d # ds" using p by (cases "method_source c") auto
  have m: "trim_blanks (method_source c) = method_source c" by (rule trim_nothing) (use p in auto)
  have header: "parse_chunks max_chunks (print_chunk c @ rest) cls side cat chunks =
      parse_chunks max_chunks (method_source c @ bang # rest) (class_name c) (class_side c) (category c) chunks"
    using until_bang [OF seg(1), of "method_source c @ bang # rest"] seg parse_methods_for_print [OF assms(1)]
    by (simp add: print_chunk_def methods_for_def [THEN arg_cong [where f = "\<lambda>s. s = []"]])
  have b: "bang \<notin> set ds" "d \<noteq> bang" using p src by auto
  have whole: "\<lparr>class_name = class_name c, class_side = class_side c, category = category c,
      method_source = d # ds\<rparr> = c"
    by (simp add: src [symmetric])
  have "parse_chunks max_chunks (method_source c @ bang # rest) (class_name c) (class_side c) (category c) chunks =
      parse_chunks max_chunks rest (class_name c) (class_side c) (category c) (chunks @ [c])"
    using until_bang [OF b(1), of rest] b(2) m p assms(2) whole unfolding src by simp
  then show ?thesis using header by simp
qed

lemma parse_chunks_print:
  "list_all printable_chunk cs \<Longrightarrow> length chunks + length cs \<le> max_chunks \<Longrightarrow>
    parse_chunks max_chunks (concat (map print_chunk cs)) cls side cat chunks = Some (chunks @ cs)"
proof (induction cs arbitrary: cls side cat chunks)
  case (Cons c cs)
  then show ?case by (simp add: parse_chunk_print)
qed simp

text \<open>
  C14. A chunk file written from methods is split into the same methods again: class, side, category
  and source of each, in their order, as long as there is room for all of them and each of them is a
  \<open>printable_chunk\<close>: the class name is a word (letters, digits, underscores), the category has no quote,
  neither category nor source has an exclamation mark, the source is not empty and has no blank at its
  ends, and all three fit their buffers. (An exclamation mark in a source, also in a string or a
  character, ends the chunk; there is no way to write one.)
\<close>

theorem chunks_roundtrip:
  assumes "list_all printable_chunk chunks" and "length chunks \<le> max_chunks"
  shows "bc_parse_method_chunks (concat (map print_chunk chunks)) max_chunks = Some chunks"
  using parse_chunks_print [OF assms(1), of "[]" max_chunks] assms(2) by (simp add: bc_parse_method_chunks_def)

definition demo_chunks :: "BMethodChunk list" where
  "demo_chunks =
     [\<lparr>class_name = ''Point'', class_side = False, category = ''access'', method_source = ''x ^ x''\<rparr>,
      \<lparr>class_name = ''Point'', class_side = True, category = ''new'', method_source = ''origin ^ self new''\<rparr>]"

lemma demo_chunks_printable: "list_all printable_chunk demo_chunks"
  by (simp add: demo_chunks_def printable_chunk_def is_word_char_def isalnum_def isalpha_def isdigit_def
      bang_def is_blank_def CLASS_NAME_SIZE_def METHOD_SOURCE_SIZE_def Let_def)

lemma chunks_roundtrip_witness:
  "list_all printable_chunk demo_chunks \<and> length demo_chunks \<le> 8 \<and>
    bc_parse_method_chunks (concat (map print_chunk demo_chunks)) 8 = Some demo_chunks"
  using demo_chunks_printable chunks_roundtrip [OF demo_chunks_printable, of 8] by (simp add: demo_chunks_def)

end
