(* ===== verification/Codegen_Laws.thy ===== *)
theory Codegen_Laws
  imports Token_Laws
begin

text \<open>
  The code of some sources where it is not what it should be: loops that are inlined, temporaries and
  captured variables of blocks.
\<close>

fun emitted :: "CgState attempt \<Rightarrow> (u8 list \<times> u8 list list) option" where
  "emitted (Succeeds s) = Some (bytecodes (compiled s), map bytecodes (root_blocks s))"
| "emitted _ = None"

text \<open>
  The body of an inlined loop whose last statement is an expression without a full stop returns
  from the method in the first round: the code of \<open>[x] whileTrue: [y]\<close> has a return before the jump
  back. When the loop is the last statement, the code has no return at its end either.
\<close>

theorem loop_body_returns:
  "emitted (bc_codegen_method_body 20 ''[x] whileTrue: [y]'') = Some
     ([BC_CG_PUSH_INST_VAR, 0, 0, 0, 0, BC_CG_JUMP_IF_FALSE, 21, 0, 0, 0,
       BC_CG_PUSH_INST_VAR, 1, 0, 0, 0, BC_CG_RETURN, BC_CG_JUMP, 0, 0, 0, 0,
       BC_CG_PUSH_LITERAL, 0, 0, 0, 0], [])"
  by code_simp

text \<open>
  A loop that cannot be compiled in line leaves what it had emitted. In this example the body has a
  temporary and is compiled as a message to two blocks; the code still starts with the condition and a
  jump whose target was never patched.
\<close>

theorem failed_loop_leaves_code:
  "emitted (bc_codegen_method_body 20 ''[x] whileTrue: [|t| t := y]'') = Some
     ([BC_CG_PUSH_INST_VAR, 0, 0, 0, 0, BC_CG_JUMP_IF_FALSE, 0, 0, 0, 0,
       BC_CG_PUSH_CLOSURE, 0, 0, 0, 0, BC_CG_PUSH_CLOSURE, 1, 0, 0, 0,
       BC_CG_SEND_MESSAGE, 2, 0, 0, 0, 1, 0, 0, 0, BC_CG_RETURN],
      [[BC_CG_PUSH_INST_VAR, 0, 0, 0, 0, BC_CG_RETURN],
       [BC_CG_PUSH_INST_VAR, 0, 0, 0, 0, BC_CG_STORE_TEMP, 0, 0, 0, 0,
        BC_CG_PUSH_LITERAL, 0, 0, 0, 0, BC_CG_RETURN]])"
  by code_simp

text \<open>
  The temporaries of a block with arguments lie behind its frame: with one argument and one
  temporary the code stores to slot 1 of a frame that has one slot for temporaries.
\<close>

theorem block_temps_outside_frame:
  "case bc_codegen_method_body 20 ''^ [:x | |t| t := 5. x + t]'' of
     Succeeds s \<Rightarrow> map temp_count (root_blocks s) = [1] \<and>
       map bytecodes (root_blocks s) =
         [[BC_CG_PUSH_LITERAL, 0, 0, 0, 0, BC_CG_STORE_TEMP, 1, 0, 0, 0,
           BC_CG_PUSH_ARG, 0, 0, 0, 0, BC_CG_PUSH_TEMP, 1, 0, 0, 0,
           BC_CG_SEND_MESSAGE, 1, 0, 0, 0, 1, 0, 0, 0, BC_CG_RETURN]]
   | _ \<Rightarrow> False"
  by code_simp

text \<open>
  In a block in a block the variables of two scopes trade places. In this example the code of the inner
  block reads the temporary of the method from slot 0 and the argument of the outer block from slot 1;
  \<open>op_push_closure\<close>, run in the frame of the outer block, copies that frame's argument first.
\<close>

theorem nested_capture_order:
  "case bc_codegen_method_body 30 ''|a| ^ [:x | [a x: x]]'' of
     Succeeds s \<Rightarrow> map bytecodes (root_blocks s) =
         [[BC_CG_PUSH_CLOSURE, 0, 0, 0, 0, BC_CG_RETURN],
          [BC_CG_PUSH_TEMP, 0, 0, 0, 0, BC_CG_PUSH_TEMP, 1, 0, 0, 0,
           BC_CG_SEND_MESSAGE, 0, 0, 0, 0, 1, 0, 0, 0, BC_CG_RETURN]]
   | _ \<Rightarrow> False"
  by code_simp

end
