(* ===== verification/Code_Shape.thy ===== *)
theory Code_Shape
  imports Codegen_Laws "HOL-Library.Sublist"
begin

text \<open>
  The shape of compiled code: it is a sequence of whole instructions whose operands are in range -
  literals of the right kind, blocks of the table, arguments of the header, jump targets that are
  instruction boundaries - and it fits the arrays. Every function of the code generator keeps this
  and only adds to the code, also when it fails.
\<close>

section \<open>Instructions\<close>

datatype instruction = Plain u8 | Operand u8 nat | Send nat nat

fun encode :: "instruction \<Rightarrow> u8 list" where
  "encode (Plain b) = [b]"
| "encode (Operand b n) = b # u32_bytes (of_nat n)"
| "encode (Send i n) = BC_CG_SEND_MESSAGE # u32_bytes (of_nat i) @ u32_bytes (of_nat n)"

definition encode_all :: "instruction list \<Rightarrow> u8 list" where
  "encode_all is = concat (map encode is)"

text \<open>The offsets at which an instruction begins, and the end of the code.\<close>

definition boundaries :: "instruction list \<Rightarrow> nat set" where
  "boundaries is = {length (encode_all (take k is)) | k. k \<le> length is}"

definition is_jump :: "u8 \<Rightarrow> bool" where
  "is_jump b \<longleftrightarrow> b = BC_CG_JUMP \<or> b = BC_CG_JUMP_IF_FALSE"

definition pushed_literal :: "BTokenType set" where
  "pushed_literal = {BTOK_INTEGER, BTOK_CHARACTER, BTOK_STRING, BTOK_SYMBOL, BTOK_LITERAL_ARRAY, BTOK_IDENTIFIER}"

definition has_literal :: "BToken list \<Rightarrow> nat \<Rightarrow> BTokenType set \<Rightarrow> bool" where
  "has_literal lits n types \<longleftrightarrow> n < length lits \<and> token_type (lits ! n) \<in> types"

text \<open>An instruction in code with these literals, number of blocks and number of arguments.\<close>

fun instruction_ok :: "BToken list \<Rightarrow> nat \<Rightarrow> nat \<Rightarrow> instruction \<Rightarrow> bool" where
  "instruction_ok lits nblocks nargs (Plain b) = (b \<in> {BC_CG_PUSH_SELF, BC_CG_PUSH_THIS_CONTEXT,
     BC_CG_RETURN, BC_CG_RETURN_NON_LOCAL, BC_CG_POP})"
| "instruction_ok lits nblocks nargs (Operand b n) =
     (if b = BC_CG_PUSH_LITERAL then has_literal lits n pushed_literal
      else if b = BC_CG_PUSH_GLOBAL then has_literal lits n {BTOK_CLASS_REF}
      else if b = BC_CG_PUSH_CLOSURE then n < length lits \<and> (\<exists>i < nblocks. lits ! n = block_token i)
      else if b = BC_CG_PUSH_ARG then n < nargs
      else b \<in> {BC_CG_JUMP, BC_CG_JUMP_IF_FALSE, BC_CG_PUSH_TEMP, BC_CG_STORE_TEMP,
                 BC_CG_PUSH_INST_VAR, BC_CG_STORE_INST_VAR})"
| "instruction_ok lits nblocks nargs (Send i n) = has_literal lits i {BTOK_SELECTOR}"

definition instructions_ok :: "BToken list \<Rightarrow> nat \<Rightarrow> nat \<Rightarrow> instruction list \<Rightarrow> bool" where
  "instructions_ok lits nblocks nargs is \<longleftrightarrow>
     list_all (instruction_ok lits nblocks nargs) is \<and>
     (\<forall>b n. Operand b n \<in> set is \<and> is_jump b \<longrightarrow> n \<in> boundaries is) \<and>
     length lits \<le> MAX_LITERALS \<and> length (encode_all is) \<le> MAX_BYTECODES"

definition code_ok :: "nat \<Rightarrow> 'a BCompiledBlock_scheme \<Rightarrow> bool" where
  "code_ok nblocks code \<longleftrightarrow> arg_count code \<le> MAX_ARGS \<and> temp_count code \<le> MAX_TEMPS \<and>
     (\<exists>is. bytecodes code = encode_all is \<and> instructions_ok (literals code) nblocks (arg_count code) is)"

definition table_ok :: "BCompiledBlock list \<Rightarrow> bool" where
  "table_ok bs \<longleftrightarrow> length bs \<le> MAX_BLOCKS \<and> list_all (code_ok (length bs)) bs"

lemma encode_all_simps [simp]:
  "encode_all [] = []" "encode_all (is @ js) = encode_all is @ encode_all js"
  "encode_all (i # is) = encode i @ encode_all is"
  by (simp_all add: encode_all_def)

lemma boundaries_append: "boundaries is \<subseteq> boundaries (is @ js)"
proof
  fix n
  assume "n \<in> boundaries is"
  then obtain k where "k \<le> length is" "n = length (encode_all (take k is))" by (auto simp: boundaries_def)
  then show "n \<in> boundaries (is @ js)" unfolding boundaries_def by (auto intro!: exI [of _ k])
qed

lemma boundaries_end: "length (encode_all is) \<in> boundaries (is @ js)"
  unfolding boundaries_def by (auto intro!: exI [of _ "length is"])

lemma boundaries_same_sizes:
  assumes "map (\<lambda>i. length (encode i)) is = map (\<lambda>i. length (encode i)) js"
  shows "boundaries is = boundaries js"
proof -
  have l: "length (encode_all xs) = sum_list (map (\<lambda>i. length (encode i)) xs)" for xs
    by (induction xs) simp_all
  have n: "length is = length js" using assms map_eq_imp_length_eq by blast
  have "length (encode_all (take k is)) = length (encode_all (take k js))" for k
    by (simp add: l take_map [symmetric] assms)
  then show ?thesis by (simp add: boundaries_def n)
qed

section \<open>States that only grow\<close>

definition header_args :: "CgState \<Rightarrow> nat" where
  "header_args s = (case header s of None \<Rightarrow> 0 | Some h \<Rightarrow> length (arg_names h))"

definition good :: "instruction list \<Rightarrow> CgState \<Rightarrow> bool" where
  "good is s \<longleftrightarrow> bytecodes (compiled s) = encode_all is \<and>
     instructions_ok (literals (compiled s)) (length (root_blocks s)) (header_args s) is \<and>
     table_ok (root_blocks s) \<and> header_args s \<le> MAX_ARGS \<and> length (temp_names (body s)) \<le> MAX_TEMPS"

definition grows :: "CgState \<Rightarrow> CgState \<Rightarrow> bool" where
  "grows s s' \<longleftrightarrow> prefix (literals (compiled s)) (literals (compiled s')) \<and>
     length (root_blocks s) \<le> length (root_blocks s') \<and> header s' = header s \<and>
     body s' = body s \<and> local_arg_count s' = local_arg_count s \<and> in_block s' = in_block s"

text \<open>\<open>keeps is s a\<close>: whatever an attempt started in \<open>s\<close> with the code \<open>is\<close> leaves is good code that begins with \<open>is\<close>.\<close>

definition leaves :: "instruction list \<Rightarrow> CgState \<Rightarrow> CgState \<Rightarrow> bool" where
  "leaves is s s' \<longleftrightarrow> grows s s' \<and> (\<exists>more. good (is @ more) s')"

fun keeps :: "instruction list \<Rightarrow> CgState \<Rightarrow> CgState attempt \<Rightarrow> bool" where
  "keeps is s (Succeeds s') = leaves is s s'"
| "keeps is s (Fails s') = leaves is s s'"
| "keeps is s Overruns = True"
| "keeps is s Runs_out = True"

lemma grows_refl [simp]: "grows s s"
  by (simp add: grows_def)

lemma grows_trans: "grows s s' \<Longrightarrow> grows s' s'' \<Longrightarrow> grows s s''"
  by (auto simp: grows_def)

lemma parser_update [simp]:
  "good is (s\<lparr>parser := p\<rparr>) = good is s" "grows (s\<lparr>parser := p\<rparr>) s' = grows s s'"
  "grows s (s'\<lparr>parser := p\<rparr>) = grows s s'" "leaves is (s\<lparr>parser := p\<rparr>) s' = leaves is s s'"
  "leaves is s (s'\<lparr>parser := p\<rparr>) = leaves is s s'"
  "good is (s\<lparr>saw_return := r\<rparr>) = good is s" "leaves is s (s'\<lparr>saw_return := r\<rparr>) = leaves is s s'"
  by (simp_all add: good_def grows_def header_args_def leaves_def)

lemma keeps_parser [simp]:
  "keeps is (s\<lparr>parser := p\<rparr>) a = keeps is s a" "keeps is (s\<lparr>saw_return := r\<rparr>) a = keeps is s a"
  by (cases a; simp add: leaves_def grows_def)+

lemma unread_update [simp]:
  "good is (unread token s) = good is s" "leaves is s (unread token s') = leaves is s s'"
  "keeps is (unread token s) a = keeps is s a"
  by (simp_all add: unread_def)

lemma good_leaves: "good is s \<Longrightarrow> leaves is s s"
  unfolding leaves_def by (metis append_Nil2 grows_refl)

lemma leaves_trans: "leaves is s s' \<Longrightarrow> (\<And>more. good (is @ more) s' \<Longrightarrow> leaves (is @ more) s' s'') \<Longrightarrow> leaves is s s''"
  unfolding leaves_def using grows_trans by (metis append.assoc)

named_theorems shape \<open>what the functions of the code generator keep\<close>

lemma keeps_after:
  assumes "leaves is s s'" and "\<And>more. good (is @ more) s' \<Longrightarrow> keeps (is @ more) s' a"
  shows "keeps is s a"
proof (cases a)
  case (Succeeds s'')
  then show ?thesis using assms leaves_trans [of "is" s s' s''] by auto
next
  case (Fails s'')
  then show ?thesis using assms leaves_trans [of "is" s s' s''] by auto
qed simp_all

lemma keeps_and_also [shape]:
  assumes "keeps is s a"
    and "\<And>s' more. grows s s' \<Longrightarrow> good (is @ more) s' \<Longrightarrow> keeps (is @ more) s' (f s')"
  shows "keeps is s (and_also a f)"
proof (cases a)
  case (Succeeds s')
  then have l: "leaves is s s'" using assms(1) by simp
  have "keeps is s (f s')"
    using l by (intro keeps_after [OF l]) (auto simp: leaves_def intro: assms(2))
  then show ?thesis by (simp add: Succeeds)
qed (use assms(1) in simp_all)

lemma keeps_if [shape]: "(P \<Longrightarrow> keeps is s a) \<Longrightarrow> (\<not> P \<Longrightarrow> keeps is s b) \<Longrightarrow> keeps is s (if P then a else b)"
  by simp

lemma keeps_done [shape]: "good is s \<Longrightarrow> keeps is s (Succeeds s)" "good is s \<Longrightarrow> keeps is s (Fails s)"
  by (simp_all add: good_leaves)

lemma keeps_token [shape]:
  assumes "good is s" and "\<And>token s'. good is s' \<Longrightarrow> grows s s' \<Longrightarrow> keeps is s' (f token s')"
  shows "keeps is s (let (token, s') = next_token s in f token s')"
proof -
  obtain token p where n: "next_token s = (token, s\<lparr>parser := p\<rparr>)" by (auto simp: next_token_def split_def Let_def)
  have "keeps is (s\<lparr>parser := p\<rparr>) (f token (s\<lparr>parser := p\<rparr>))" by (rule assms(2)) (simp_all add: assms(1))
  then show ?thesis by (simp add: n)
qed

section \<open>Emitting\<close>

lemma code_update [simp]:
  "compiled (s\<lparr>compiled := c\<rparr>) = c" "root_blocks (s\<lparr>compiled := c\<rparr>) = root_blocks s"
  by simp_all

lemma instruction_ok_mono:
  assumes "instruction_ok lits nb na i" and "prefix lits lits'" and "nb \<le> nb'"
  shows "instruction_ok lits' nb' na i"
proof -
  have n: "n < length lits' \<and> lits' ! n = lits ! n" if "n < length lits" for n
    using assms(2) that by (auto simp: prefix_def nth_append)
  have h: "has_literal lits n T \<Longrightarrow> has_literal lits' n T" for n T
    using n by (auto simp: has_literal_def)
  show ?thesis
    using assms(1,3) h n by (cases i) (auto split: if_splits intro: less_le_trans)
qed

lemma instructions_ok_mono:
  assumes "instructions_ok lits nb na is" and "prefix lits lits'" and "nb \<le> nb'" and "length lits' \<le> MAX_LITERALS"
  shows "instructions_ok lits' nb' na is"
  using assms instruction_ok_mono [OF _ assms(2,3)]
  by (auto simp: instructions_ok_def list_all_iff)

lemma emit_bytes_eq:
  "emit_bytes bs s = (if bs = [] \<or> code_length s + length bs \<le> MAX_BYTECODES
     then Succeeds (s\<lparr>compiled := (compiled s)\<lparr>bytecodes := bytecodes (compiled s) @ bs\<rparr>\<rparr>) else Overruns)"
proof (induction bs arbitrary: s)
  case (Cons b bs)
  then show ?case by (auto simp: cg_emit_byte_def)
qed simp

lemma length_u32_bytes [simp]: "length (u32_bytes v) = 4"
  by (simp add: u32_bytes_def)

text \<open>Emitting one instruction, whose operands are in range.\<close>

lemma keeps_emit:
  assumes "good is s" and "instruction_ok (literals (compiled s)) (length (root_blocks s)) (header_args s) i"
    and "\<And>b n. i = Operand b n \<Longrightarrow> is_jump b \<Longrightarrow> n \<in> boundaries is"
  shows "keeps is s (emit_bytes (encode i) s)"
proof (cases "code_length s + length (encode i) \<le> MAX_BYTECODES")
  case True
  let ?s = "s\<lparr>compiled := (compiled s)\<lparr>bytecodes := bytecodes (compiled s) @ encode i\<rparr>\<rparr>"
  have "good (is @ [i]) ?s"
    using assms True boundaries_append [of "is" "[i]"]
    by (auto simp: good_def header_args_def instructions_ok_def)
  then have "leaves is s ?s" unfolding leaves_def by (auto simp: grows_def)
  then show ?thesis using True by (simp add: emit_bytes_eq)
qed (cases i; simp add: emit_bytes_eq)

lemma emit_eqs:
  "cg_emit_byte b s = emit_bytes (encode (Plain b)) s"
  "emit_op b n s = emit_bytes (encode (Operand b n)) s"
proof -
  show "cg_emit_byte b s = emit_bytes (encode (Plain b)) s" by (simp add: cg_emit_byte_def)
  show "emit_op b n s = emit_bytes (encode (Operand b n)) s" by (simp add: emit_op_def cg_emit_u32_def)
qed

lemma emit_bytes_append: "emit_bytes (xs @ ys) s = and_also (emit_bytes xs s) (emit_bytes ys)"
  by (induction xs arbitrary: s) (auto simp: cg_emit_byte_def)

lemma keeps_byte [shape]:
  "good is s \<Longrightarrow> instruction_ok [] 0 0 (Plain b) \<Longrightarrow> keeps is s (cg_emit_byte b s)"
  unfolding emit_eqs by (rule keeps_emit) auto

lemma keeps_op:
  "good is s \<Longrightarrow> instruction_ok (literals (compiled s)) (length (root_blocks s)) (header_args s) (Operand b n) \<Longrightarrow>
    \<not> is_jump b \<Longrightarrow> keeps is s (emit_op b n s)"
  unfolding emit_eqs by (rule keeps_emit) auto

lemma keeps_slot [shape]:
  "good is s \<Longrightarrow> b \<in> {BC_CG_PUSH_TEMP, BC_CG_STORE_TEMP, BC_CG_PUSH_INST_VAR, BC_CG_STORE_INST_VAR} \<Longrightarrow>
    keeps is s (emit_op b n s)"
  by (rule keeps_op) (auto simp: bc_cg_codes is_jump_def)

lemma keeps_push_arg [shape]: "good is s \<Longrightarrow> n < header_args s \<Longrightarrow> keeps is s (emit_op BC_CG_PUSH_ARG n s)"
  by (rule keeps_op) (auto simp: bc_cg_codes is_jump_def)

lemma keeps_jump [shape]:
  "good is s \<Longrightarrow> n \<in> boundaries is \<Longrightarrow> b = BC_CG_JUMP \<or> b = BC_CG_JUMP_IF_FALSE \<Longrightarrow> keeps is s (emit_op b n s)"
  unfolding emit_eqs by (rule keeps_emit) (auto simp: bc_cg_codes is_jump_def)

lemma literal_index_good:
  assumes "good is s" and "cg_literal_index literal s = Some (i, s')"
  shows "good is s'" "leaves is s s'" "i < length (literals (compiled s'))" "literals (compiled s') ! i = literal"
    "header_args s' = header_args s" "root_blocks s' = root_blocks s"
proof -
  let ?lits = "literals (compiled s)"
  have "good is s' \<and> leaves is s s' \<and> i < length (literals (compiled s')) \<and>
      literals (compiled s') ! i = literal \<and> header_args s' = header_args s \<and> root_blocks s' = root_blocks s"
  proof (cases "index_where (\<lambda>e. e = literal) ?lits")
    case (Some j)
    then have "i = j" "s' = s" using assms(2) by (simp_all add: cg_literal_index_def)
    then show ?thesis using assms(1) index_where_SomeD [OF Some] good_leaves by simp
  next
    case None
    then have 2: "i = length ?lits" "length ?lits < MAX_LITERALS"
        "s' = s\<lparr>compiled := (compiled s)\<lparr>literals := ?lits @ [literal]\<rparr>\<rparr>"
      using assms(2) by (simp_all add: cg_literal_index_def Let_def split: if_splits)
    have "instructions_ok (?lits @ [literal]) (length (root_blocks s)) (header_args s) is"
      by (rule instructions_ok_mono [where lits = ?lits and nb = "length (root_blocks s)"])
        (use assms(1) 2(2) in \<open>simp_all add: good_def\<close>)
    then have g: "good is s'" using assms(1) 2 by (simp add: good_def header_args_def)
    have "leaves is s s'"
      unfolding leaves_def
      by (intro conjI exI [of _ "[]"]) (use g in \<open>simp_all add: 2 grows_def\<close>)
    then show ?thesis using g 2 by (simp add: header_args_def)
  qed
  then show "good is s'" "leaves is s s'" "i < length (literals (compiled s'))" "literals (compiled s') ! i = literal"
    "header_args s' = header_args s" "root_blocks s' = root_blocks s"
    by simp_all
qed

lemma keeps_with_literal [shape]:
  assumes "good is s"
    and "b = BC_CG_PUSH_LITERAL \<and> token_type literal \<in> pushed_literal
      \<or> b = BC_CG_PUSH_GLOBAL \<and> token_type literal = BTOK_CLASS_REF
      \<or> b = BC_CG_PUSH_CLOSURE \<and> (\<exists>i < length (root_blocks s). literal = block_token i)"
  shows "keeps is s (emit_with_literal b literal s)"
proof (cases "cg_literal_index literal s")
  case (Some r)
  then obtain i s' where s': "cg_literal_index literal s = Some (i, s')" by (cases r) auto
  note g = literal_index_good [OF assms(1) s']
  have "keeps is s (emit_op b i s')"
  proof (rule keeps_after [OF g(2)])
    fix more
    assume "good (is @ more) s'"
    then show "keeps (is @ more) s' (emit_op b i s')"
      by (rule keeps_op) (use assms(2) g in \<open>auto simp: has_literal_def bc_cg_codes is_jump_def\<close>)
  qed
  then show ?thesis by (simp add: emit_with_literal_def s')
qed (simp add: emit_with_literal_def)

lemma keeps_send [shape]:
  assumes "good is s"
  shows "keeps is s (cg_emit_selector_send sel argc s)"
proof (cases "cg_literal_index (text_token BTOK_SELECTOR sel) s")
  case (Some r)
  then obtain i s' where s': "cg_literal_index (text_token BTOK_SELECTOR sel) s = Some (i, s')" by (cases r) auto
  note g = literal_index_good [OF assms s']
  have c: "encode (Send i argc) = encode (Operand BC_CG_SEND_MESSAGE i) @ u32_bytes (of_nat argc)" by simp
  have e: "cg_emit_selector_send sel argc s = emit_bytes (encode (Send i argc)) s'"
    by (simp only: cg_emit_selector_send_def emit_with_literal_def s' option.case prod.case emit_eqs
        cg_emit_u32_def c emit_bytes_append)
  have "keeps is s (emit_bytes (encode (Send i argc)) s')"
  proof (rule keeps_after [OF g(2)])
    fix more
    assume "good (is @ more) s'"
    then show "keeps (is @ more) s' (emit_bytes (encode (Send i argc)) s')"
      by (rule keeps_emit) (use g in \<open>simp_all add: has_literal_def text_token_def make_token_def\<close>)
  qed
  then show ?thesis by (simp only: e)
qed (simp add: cg_emit_selector_send_def emit_with_literal_def)

section \<open>Expressions\<close>

lemma special_types: "is_special_text token x \<Longrightarrow> token_type token = BTOK_SPECIAL"
  by (simp add: is_special_text_def)

lemma literal_types: "is_literal_token token \<Longrightarrow> token_type token \<in> pushed_literal"
  by (auto simp: is_literal_token_def pushed_literal_def)

text \<open>Skipping nested brackets only reads.\<close>

lemma skip_nested_parser:
  "skip_nested bra ket depth s = Succeeds s' \<Longrightarrow> \<exists>p. s' = s\<lparr>parser := p\<rparr>"
  "skip_nested bra ket depth s = Fails s' \<Longrightarrow> \<exists>p. s' = s\<lparr>parser := p\<rparr>"
proof (induction bra ket depth s rule: skip_nested.induct)
  case (1 bra ket depth s)
  obtain token s1 where n: "next_token s = (token, s1)" by (cases "next_token s")
  then obtain p where p: "s1 = s\<lparr>parser := p\<rparr>" by (auto simp: next_token_def split_def Let_def)
  {
    case 1
    show ?case
      using "1.IH"(1) [OF _ n [symmetric] refl] 1 skip_nested.simps [of bra ket depth s]
      by (auto simp: n p split: if_splits intro: exI [of _ "parser s"])
  next
    case 2
    show ?case
      using "1.IH"(2) [OF _ n [symmetric] refl] 2 skip_nested.simps [of bra ket depth s]
      by (auto simp: n p split: if_splits)
  }
qed

lemma skip_nested_results: "skip_nested bra ket depth s \<noteq> Overruns" "skip_nested bra ket depth s \<noteq> Runs_out"
proof (induction bra ket depth s rule: skip_nested.induct)
  case (1 bra ket depth s)
  obtain token s1 where n: "next_token s = (token, s1)" by (cases "next_token s")
  {
    case 1
    show ?case
      using "1.IH"(1) [OF _ n [symmetric] refl] skip_nested.simps [of bra ket depth s] by (auto simp: n)
  next
    case 2
    show ?case
      using "1.IH"(2) [OF _ n [symmetric] refl] skip_nested.simps [of bra ket depth s] by (auto simp: n)
  }
qed

definition fresh :: "CgState \<Rightarrow> bool" where
  "fresh s \<longleftrightarrow> compiled s = empty_compiled \<and> body s = empty_body \<and> table_ok (root_blocks s) \<and>
     (\<not> in_block s \<longrightarrow> header_args s \<le> MAX_ARGS)"

fun body_keeps :: "CgState \<Rightarrow> CgState attempt \<Rightarrow> bool" where
  "body_keeps s (Succeeds s') = (table_ok (root_blocks s') \<and> length (root_blocks s) \<le> length (root_blocks s') \<and>
     code_ok (length (root_blocks s')) (compiled s'))"
| "body_keeps s (Fails s') = (table_ok (root_blocks s') \<and> length (root_blocks s) \<le> length (root_blocks s'))"
| "body_keeps s Overruns = True"
| "body_keeps s Runs_out = True"

definition rec_keeps :: "cg_rec \<Rightarrow> bool" where
  "rec_keeps rec \<longleftrightarrow>
     (\<forall>c s is. c \<noteq> Codegen_body \<longrightarrow> good is s \<longrightarrow> keeps is s (rec c s)) \<and>
     (\<forall>s. fresh s \<longrightarrow> body_keeps s (rec Codegen_body s))"

lemma rec_keepsD: "rec_keeps rec \<Longrightarrow> good is s \<Longrightarrow> c \<noteq> Codegen_body \<Longrightarrow> keeps is s (rec c s)"
  by (simp add: rec_keeps_def)

lemma inst_var_index_leaves:
  assumes "cg_inst_var_index name s = Some (i, s')" and "good is s"
  shows "leaves is s s'"
proof -
  have s': "s' = s \<or> (\<exists>ns. s' = s\<lparr>compiled := (compiled s)\<lparr>inst_var_names := ns\<rparr>\<rparr>)"
    using assms(1) by (auto simp: cg_inst_var_index_def Let_def split: if_splits option.splits)
  then have "good is s'" using assms(2) by (auto simp: good_def header_args_def)
  then show ?thesis
    unfolding leaves_def by (intro conjI exI [of _ "[]"]) (use s' in \<open>auto simp: grows_def\<close>)
qed

lemma keeps_identifier [shape]:
  assumes "good is s" and "token_type token = BTOK_IDENTIFIER"
  shows "keeps is s (cg_emit_identifier token s)"
proof -
  have lit: "token_type token \<in> pushed_literal" using assms(2) by (simp add: pushed_literal_def)
  have arg: "i < header_args s" if "cg_arg_index (header s) name = Some i" for i name
    using that by (auto simp: cg_arg_index_def name_index_def header_args_def dest: index_where_SomeD split: option.splits)
  have var: "keeps is s (case cg_inst_var_index name s of None \<Rightarrow> Runs_out
      | Some (Some i, s) \<Rightarrow> emit_op BC_CG_PUSH_INST_VAR i s
      | Some (None, s) \<Rightarrow> emit_with_literal BC_CG_PUSH_GLOBAL (text_token BTOK_CLASS_REF name) s)" for name
  proof (cases "cg_inst_var_index name s")
    case (Some r)
    obtain i s' where r: "r = (i, s')" by (cases r)
    have l: "leaves is s s'" using inst_var_index_leaves assms(1) Some r by simp
    show ?thesis
      using l by (cases i) (auto simp: Some r text_token_def make_token_def intro!: keeps_after [OF l] shape)
  qed (simp add: assms)
  show ?thesis
    unfolding cg_emit_identifier_def Let_def
    using assms lit arg var by (auto split: option.split intro!: shape)
qed

lemma keeps_literal_array [shape]:
  assumes "good is s"
  shows "keeps is s (cg_emit_literal_array s)"
proof (cases "skip_nested ''#('' '')'' 1 s")
  case (Succeeds s')
  then obtain p where p: "s' = s\<lparr>parser := p\<rparr>" using skip_nested_parser(1) by blast
  have "token_type ((make_token BTOK_LITERAL_ARRAY)\<lparr>token_text := w\<rparr>) \<in> pushed_literal" for w
    by (simp add: make_token_def pushed_literal_def)
  then have "keeps is s (emit_with_literal BC_CG_PUSH_LITERAL ((make_token BTOK_LITERAL_ARRAY)\<lparr>token_text := w\<rparr>) s')" for w
    using assms keeps_with_literal [of "is" s'] by (simp add: p)
  then show ?thesis
    using assms by (simp add: cg_emit_literal_array_def cg_capture_literal_array_def Succeeds p good_leaves del: One_nat_def)
next
  case (Fails s')
  then obtain p where p: "s' = s\<lparr>parser := p\<rparr>" using skip_nested_parser(2) by blast
  show ?thesis
    using assms by (simp add: cg_emit_literal_array_def cg_capture_literal_array_def Fails p good_leaves del: One_nat_def)
qed (simp_all add: cg_emit_literal_array_def cg_capture_literal_array_def del: One_nat_def)

text \<open>A new table of blocks that is well formed and not shorter.\<close>

lemma root_blocks_update:
  assumes "good is s" and "table_ok bs" and "length (root_blocks s) \<le> length bs"
  shows "good is (s\<lparr>root_blocks := bs\<rparr>)" "leaves is s (s\<lparr>root_blocks := bs\<rparr>)"
proof -
  have "instructions_ok (literals (compiled s)) (length bs) (header_args s) is"
    by (rule instructions_ok_mono [OF _ _ assms(3)]) (use assms(1) in \<open>auto simp: good_def instructions_ok_def\<close>)
  then show g: "good is (s\<lparr>root_blocks := bs\<rparr>)" using assms by (simp add: good_def header_args_def)
  show "leaves is s (s\<lparr>root_blocks := bs\<rparr>)"
    unfolding leaves_def by (intro conjI exI [of _ "[]"]) (use g assms(3) in \<open>simp_all add: grows_def\<close>)
qed

lemma table_ok_update:
  assumes "table_ok bs" and "code_ok (length bs) code"
  shows "table_ok (bs[i := BCompiledBlock.truncate code])"
proof -
  have "code_ok (length bs) (BCompiledBlock.truncate code)"
    using assms(2) by (simp add: code_ok_def BCompiledBlock.defs)
  then show ?thesis
    using assms(1) set_update_subset_insert [of bs i "BCompiledBlock.truncate code"]
    by (auto simp: table_ok_def list_all_iff)
qed

lemma fresh_block_state: "good is s \<Longrightarrow> fresh (block_state src s)"
  by (simp add: fresh_def block_state_def good_def)

lemma keeps_store:
  assumes "good is s" and "body_keeps (block_state src s) (Succeeds inner)"
  shows "leaves is s (store_block i inner s)"
proof -
  have "table_ok ((root_blocks inner)[i := BCompiledBlock.truncate (compiled inner)])"
    using assms(2) by (intro table_ok_update) simp_all
  then show ?thesis
    using root_blocks_update(2) [OF assms(1), of "(root_blocks inner)[i := BCompiledBlock.truncate (compiled inner)]"]
      assms(2) by (simp add: store_block_def block_state_def)
qed

lemma keeps_compile_block [shape]:
  assumes "rec_keeps rec" and "good is s"
  shows "keeps is s (cg_compile_and_store_block rec src i s)"
proof -
  have inner: "body_keeps (block_state x t) (rec Codegen_body (block_state x t))" if "good is t" for x t
    using assms(1) fresh_block_state [OF that] by (simp add: rec_keeps_def)
  note first = inner [OF assms(2), of src]
  show ?thesis
  proof (cases "rec Codegen_body (block_state src s)")
    case (Succeeds s1)
    then show ?thesis
      using keeps_store [OF assms(2)] first by (simp add: cg_compile_and_store_block_def)
  next
    case (Fails s1)
    let ?s = "s\<lparr>root_blocks := root_blocks s1\<rparr>"
    have t: "table_ok (root_blocks s1)" "length (root_blocks s) \<le> length (root_blocks s1)"
      using first Fails by (simp_all add: block_state_def)
    note g = root_blocks_update [OF assms(2) t]
    have "keeps is s (case cg_build_implicit_return_source src of None \<Rightarrow> Fails ?s
        | Some src' \<Rightarrow> (case rec Codegen_body (block_state src' ?s) of
             Succeeds inner \<Rightarrow> Succeeds (store_block i inner ?s)
           | Overruns \<Rightarrow> Overruns | Runs_out \<Rightarrow> Runs_out
           | Fails inner \<Rightarrow> Fails (?s\<lparr>root_blocks := root_blocks inner\<rparr>)))"
    proof (cases "cg_build_implicit_return_source src")
      case (Some src')
      note second = inner [OF g(1), of src']
      have st: "leaves is s (store_block i s2 ?s)" if "rec Codegen_body (block_state src' ?s) = Succeeds s2" for s2
        using second that t(2) table_ok_update [of "root_blocks s2" "compiled s2" i]
          root_blocks_update(2) [OF assms(2), of "(root_blocks s2)[i := BCompiledBlock.truncate (compiled s2)]"]
        by (simp add: store_block_def block_state_def)
      have fl: "leaves is s (?s\<lparr>root_blocks := root_blocks s2\<rparr>)"
        if "rec Codegen_body (block_state src' ?s) = Fails s2" for s2
        using second that root_blocks_update(2) [OF assms(2), of "root_blocks s2"] t(2)
        by (simp add: block_state_def)
      show ?thesis
        using st fl by (cases "rec Codegen_body (block_state src' ?s)") (simp_all add: Some)
    qed (use g(2) in simp)
    then show ?thesis by (simp add: cg_compile_and_store_block_def Fails Let_def)
  qed (simp_all add: cg_compile_and_store_block_def)
qed

lemma code_ok_mono:
  assumes "code_ok n b" and "n \<le> n'"
  shows "code_ok n' b"
proof -
  obtain "is" where i: "bytecodes b = encode_all is" "instructions_ok (literals b) n (arg_count b) is"
    using assms(1) by (auto simp: code_ok_def)
  have "length (literals b) \<le> MAX_LITERALS" using i(2) by (simp add: instructions_ok_def)
  then have "instructions_ok (literals b) n' (arg_count b) is"
    by (rule instructions_ok_mono [OF i(2) prefix_order.order_refl assms(2)])
  then show ?thesis using assms(1) i(1) by (auto simp: code_ok_def)
qed

lemma table_ok_append:
  assumes "table_ok bs" and "length bs < MAX_BLOCKS"
  shows "table_ok (bs @ [empty_block])"
proof -
  have "boundaries [] = {0}" by (simp add: boundaries_def)
  then have e: "code_ok n empty_block" for n
    unfolding code_ok_def empty_block_def instructions_ok_def by (intro conjI exI [of _ "[]"]) simp_all
  have "code_ok (Suc (length bs)) b" if "b \<in> set bs" for b
    using assms(1) that by - (rule code_ok_mono [of "length bs"], simp_all add: table_ok_def list_all_iff)
  then show ?thesis using e assms by (simp add: table_ok_def list_all_iff)
qed

lemma keeps_block [shape]:
  assumes "rec_keeps rec" and "good is s"
  shows "keeps is s (cg_emit_block rec s)"
proof (cases "cg_skip_block_literal s")
  case (Succeeds s')
  then obtain p where p: "s' = s\<lparr>parser := p\<rparr>"
    using skip_nested_parser(1) unfolding cg_skip_block_literal_def by blast
  let ?s = "s'\<lparr>root_blocks := root_blocks s' @ [empty_block]\<rparr>"
  have blocks: "keeps is s (and_also (cg_compile_and_store_block rec src (length (root_blocks s')) ?s)
      (emit_with_literal BC_CG_PUSH_CLOSURE (block_token (length (root_blocks s')))))"
    if room: "length (root_blocks s') < MAX_BLOCKS" for src
  proof (rule keeps_after)
    have t: "table_ok (root_blocks s' @ [empty_block])"
      using assms(2) room by (intro table_ok_append) (simp_all add: good_def p)
    have "good is s'" using assms(2) by (simp add: p)
    note g = root_blocks_update [OF this t]
    show "leaves is s ?s" using g(2) by (simp add: p)
    fix more
    assume g1: "good (is @ more) ?s"
    show "keeps (is @ more) ?s (and_also (cg_compile_and_store_block rec src (length (root_blocks s')) ?s)
        (emit_with_literal BC_CG_PUSH_CLOSURE (block_token (length (root_blocks s')))))"
      by (intro keeps_and_also keeps_compile_block assms(1) g1 keeps_with_literal)
        (auto simp: grows_def intro!: disjI2 exI [of _ "length (root_blocks s')"])
  qed
  show ?thesis
    using assms blocks by (simp add: cg_emit_block_def Succeeds p good_leaves Let_def)
next
  case (Fails s')
  then obtain p where p: "s' = s\<lparr>parser := p\<rparr>"
    using skip_nested_parser(2) unfolding cg_skip_block_literal_def by blast
  show ?thesis using assms by (simp add: cg_emit_block_def Fails p good_leaves)
qed (simp_all add: cg_emit_block_def)

lemma keeps_primary:
  assumes "rec_keeps rec" and "good is s"
  shows "keeps is s (cg_emit_primary_token rec token s)" "keeps is s (cg_parse_primary rec s)"
proof -
  have p: "keeps is s (cg_emit_primary_token rec token s)" if "good is s" for token s "is"
    unfolding cg_emit_primary_token_def
    by (intro keeps_if keeps_identifier keeps_with_literal keeps_and_also rec_keepsD [OF assms(1)] keeps_token
        keeps_literal_array keeps_block assms(1) that keeps_done)
      (use literal_types in auto)
  then show "keeps is s (cg_emit_primary_token rec token s)" using assms(2) by simp
  show "keeps is s (cg_parse_primary rec s)"
    unfolding cg_parse_primary_def by (intro keeps_token assms(2) p)
qed

lemma keeps_unary:
  assumes "rec_keeps rec" and "good is s"
  shows "keeps is s (cg_parse_unary_expression rec s)" "keeps is s (cg_unary_rest rec s)"
proof -
  show "keeps is s (cg_parse_unary_expression rec s)"
    unfolding cg_parse_unary_expression_def
    by (intro keeps_and_also keeps_primary(2) rec_keepsD [OF assms(1)] assms) simp_all
  show "keeps is s (cg_unary_rest rec s)"
    unfolding cg_unary_rest_def
    by (intro keeps_token keeps_if keeps_and_also keeps_send rec_keepsD [OF assms(1)] assms)
      (simp_all add: good_leaves)
qed

lemma keeps_binary_message:
  assumes "rec_keeps rec" and "good is s"
  shows "keeps is s (cg_binary_message rec token s)"
proof -
  have u: "keeps is s (cg_parse_unary_expression rec (if b then s else unread second s))"
    if "good is s" for b second s "is"
    using keeps_unary(1) [OF assms(1) that] keeps_unary(1) [OF assms(1), of "is" "unread second s"] that
    by simp
  show ?thesis
    unfolding cg_binary_message_def Let_def [of "is_binary_token _"] Let_def [of "_ @ _"]
    by (intro keeps_token keeps_and_also keeps_send u assms(2))
qed

lemma keeps_binary:
  assumes "rec_keeps rec" and "good is s"
  shows "keeps is s (cg_parse_binary_expression rec s)" "keeps is s (cg_binary_rest rec s)"
proof -
  show "keeps is s (cg_parse_binary_expression rec s)"
    unfolding cg_parse_binary_expression_def
    by (intro keeps_and_also keeps_unary(1) rec_keepsD [OF assms(1)] assms) simp_all
  show "keeps is s (cg_binary_rest rec s)"
    unfolding cg_binary_rest_def
    by (intro keeps_token keeps_if keeps_and_also keeps_binary_message rec_keepsD [OF assms(1)] assms)
      (simp_all add: good_leaves)
qed

lemma keeps_expression:
  assumes "rec_keeps rec" and "good is s"
  shows "keeps is s (cg_parse_expression rec s)" "keeps is s (cg_keyword_args rec sel argc s)"
    "keeps is s (cg_parse_expression_continuation rec s)"
proof -
  have send: "keeps is s (cg_emit_selector_send sel n (unread token s))" if "good is s" for sel n token s "is"
    using keeps_send [of "is" "unread token s"] that by simp
  show "keeps is s (cg_parse_expression rec s)"
    unfolding cg_parse_expression_def
    by (intro keeps_and_also keeps_binary(1) rec_keepsD [OF assms(1)] assms) simp_all
  show "keeps is s (cg_keyword_args rec sel argc s)"
    unfolding cg_keyword_args_def
    by (intro keeps_and_also keeps_binary(1) keeps_token keeps_if send rec_keepsD [OF assms(1)] assms) simp_all
  show "keeps is s (cg_parse_expression_continuation rec s)"
    unfolding cg_parse_expression_continuation_def
    by (intro keeps_token keeps_if keeps_and_also keeps_send keeps_binary_message rec_keepsD [OF assms(1)] assms)
      (simp_all add: good_leaves)
qed

section \<open>Statements\<close>

lemma emit_instruction_good:
  assumes "emit_bytes (encode i) s = Succeeds s'" and "good is s"
    and "instruction_ok (literals (compiled s)) (length (root_blocks s)) (header_args s) i"
    and "\<And>b n. i = Operand b n \<Longrightarrow> is_jump b \<Longrightarrow> n \<in> boundaries is"
  shows "good (is @ [i]) s'" "grows s s'"
proof -
  have e: "encode i \<noteq> []" by (cases i) simp_all
  have s': "s' = s\<lparr>compiled := (compiled s)\<lparr>bytecodes := bytecodes (compiled s) @ encode i\<rparr>\<rparr>"
    "code_length s + length (encode i) \<le> MAX_BYTECODES"
    using assms(1) e by (simp_all add: emit_bytes_eq split: if_splits)
  show "good (is @ [i]) s'"
    using assms(2-) s' boundaries_append [of "is" "[i]"]
    by (auto simp: good_def header_args_def instructions_ok_def)
  show "grows s s'" by (simp add: s' grows_def)
qed

lemma emit_bytes_no_fail: "emit_bytes bs s \<noteq> Fails s'"
  by (simp add: emit_bytes_eq)

lemma keeps_restoring: "keeps is s a \<Longrightarrow> keeps is s (restoring p a)"
  by (cases a) simp_all

lemma keeps_inline:
  assumes "rec_keeps rec" and "good is s"
  shows "keeps is s (cg_emit_inline_expression rec src s)" "keeps is s (cg_emit_inline_statements rec src s)"
proof -
  have r: "keeps is s (rec c (s\<lparr>parser := p\<rparr>))" if "c \<noteq> Codegen_body" for c p
    using rec_keepsD [OF assms(1), of "is" "s\<lparr>parser := p\<rparr>" c] assms(2) that by simp
  show "keeps is s (cg_emit_inline_expression rec src s)"
    unfolding cg_emit_inline_expression_def
    by (intro keeps_restoring keeps_and_also keeps_token keeps_if keeps_done r) simp_all
  show "keeps is s (cg_emit_inline_statements rec src s)"
    unfolding cg_emit_inline_statements_def by (intro keeps_restoring r) simp
qed

lemma capture_block_parser:
  assumes "good is s"
  shows "cg_capture_block_source_from_open s = Inl a \<Longrightarrow> keeps is s a"
    and "cg_capture_block_source_from_open s = Inr (src, s') \<Longrightarrow> \<exists>p. s' = s\<lparr>parser := p\<rparr>"
proof -
  have k: "good is t \<and> leaves is s t" if "\<exists>p. t = s\<lparr>parser := p\<rparr>" for t
    using that assms good_leaves by auto
  show "keeps is s a" if "cg_capture_block_source_from_open s = Inl a"
  proof (cases "cg_skip_block_literal s")
    case (Succeeds t)
    then have "\<exists>p. t = s\<lparr>parser := p\<rparr>"
      using skip_nested_parser(1) unfolding cg_skip_block_literal_def by blast
    then show ?thesis
      using that k [of t] by (auto simp: cg_capture_block_source_from_open_def Succeeds Let_def split: if_splits)
  next
    case (Fails t)
    then have "\<exists>p. t = s\<lparr>parser := p\<rparr>"
      using skip_nested_parser(2) unfolding cg_skip_block_literal_def by blast
    then show ?thesis
      using that k [of t] by (auto simp: cg_capture_block_source_from_open_def Fails Let_def)
  qed (use that in \<open>auto simp: cg_capture_block_source_from_open_def\<close>)
  show "\<exists>p. s' = s\<lparr>parser := p\<rparr>" if "cg_capture_block_source_from_open s = Inr (src, s')"
    using that skip_nested_parser(1) unfolding cg_skip_block_literal_def cg_capture_block_source_from_open_def
    by (auto simp: Let_def split: attempt.splits if_splits)
qed

text \<open>Patching the operand of a jump.\<close>

lemma put_list_append: "length ys = length zs \<Longrightarrow> put_list (xs @ ys @ ws) (length xs) zs = xs @ zs @ ws"
  by (simp add: put_list_def)

lemma patch_good:
  assumes "good (is @ Operand b n # js) s" and "is_jump b" and "target = code_length s"
  shows "good (is @ Operand b target # js) (cg_patch_u32 (length (encode_all is) + 1) (of_nat target) s)"
    "grows s (cg_patch_u32 (length (encode_all is) + 1) (of_nat target) s)"
proof -
  let ?old = "is @ Operand b n # js"
  let ?new = "is @ Operand b target # js"
  have b: "bytecodes (compiled s) = (encode_all is @ [b]) @ u32_bytes (of_nat n) @ encode_all js"
    using assms(1) by (simp add: good_def)
  have put: "put_list (bytecodes (compiled s)) (length (encode_all is) + 1) (u32_bytes v) =
      (encode_all is @ [b]) @ u32_bytes v @ encode_all js" for v
  proof -
    have "length (encode_all is @ [b]) = length (encode_all is) + 1" by simp
    then show ?thesis
      using put_list_append [of "u32_bytes (of_nat n)" "u32_bytes v" "encode_all is @ [b]" "encode_all js"]
      by (simp only: b length_u32_bytes)
  qed
  have same: "boundaries ?new = boundaries ?old" by (rule boundaries_same_sizes) simp
  have l: "length (encode_all ?new) = length (encode_all ?old)" by simp
  have t: "target = length (encode_all ?old)" using assms(1,3) by (simp add: good_def)
  then have "target \<in> boundaries ?old" using boundaries_end [of ?old "[]"] by simp
  then have "instructions_ok (literals (compiled s)) (length (root_blocks s)) (header_args s) ?new"
  proof -
    have o: "instructions_ok (literals (compiled s)) (length (root_blocks s)) (header_args s) ?old"
      using assms(1) by (simp add: good_def)
    have "instruction_ok lits nb na (Operand b target)" for lits nb na
      using assms(2) by (auto simp: is_jump_def bc_cg_codes)
    then have "list_all (instruction_ok (literals (compiled s)) (length (root_blocks s)) (header_args s)) ?new"
      using o by (simp add: instructions_ok_def del: instruction_ok.simps)
    moreover have "m \<in> boundaries ?old" if "Operand c m \<in> set ?new" "is_jump c" for c m
    proof (cases "Operand c m \<in> set ?old")
      case True
      then show ?thesis using o that(2) unfolding instructions_ok_def by blast
    next
      case False
      then show ?thesis using that(1) \<open>target \<in> boundaries ?old\<close> by auto
    qed
    ultimately show ?thesis using o unfolding instructions_ok_def same l by blast
  qed
  then show "good ?new (cg_patch_u32 (length (encode_all is) + 1) (of_nat target) s)"
    using assms(1) put by (simp add: good_def cg_patch_u32_def header_args_def)
  show "grows s (cg_patch_u32 (length (encode_all is) + 1) (of_nat target) s)"
    by (simp add: grows_def cg_patch_u32_def)
qed

lemma good_length: "good is s \<Longrightarrow> code_length s = length (encode_all is)"
  by (simp add: good_def)

lemma keeps_loop:
  assumes "rec_keeps rec" and "good is s"
  shows "keeps is s (emit_loop rec condition_source body_source s)"
proof -
  have start: "code_length s \<in> boundaries (is @ more)" for more
    using boundaries_end by (simp add: good_length [OF assms(2)])
  have rest: "keeps (is @ m1) s1 (and_also (and_also (and_also (cg_emit_jump_placeholder BC_CG_JUMP_IF_FALSE s1)
        (cg_emit_inline_statements rec body_source)) (emit_op BC_CG_JUMP (code_length s)))
        (\<lambda>s. cg_emit_push_literal_token nil_token (cg_patch_u32 (code_length s1 + 1) (of_nat (code_length s)) s)))"
    if g1: "good (is @ m1) s1" for m1 s1
  proof (cases "cg_emit_jump_placeholder BC_CG_JUMP_IF_FALSE s1")
    case (Succeeds s2)
    let ?jump = "Operand BC_CG_JUMP_IF_FALSE 0"
    have "0 \<in> boundaries (is @ m1)" unfolding boundaries_def by (auto intro!: exI [of _ 0])
    moreover have "emit_bytes (encode ?jump) s1 = Succeeds s2"
      using Succeeds by (simp only: cg_emit_jump_placeholder_def emit_eqs)
    ultimately have s2: "good ((is @ m1) @ [?jump]) s2" "grows s1 s2"
      using emit_instruction_good [of ?jump s1 s2 "is @ m1"] g1 by (simp_all add: bc_cg_codes)
    let ?body = "and_also (cg_emit_inline_statements rec body_source s2) (emit_op BC_CG_JUMP (code_length s))"
    have body: "keeps ((is @ m1) @ [?jump]) s2 ?body"
      by (intro keeps_and_also keeps_inline(2) keeps_jump assms(1) s2(1)) (use start in simp_all)
    show ?thesis
    proof (cases ?body)
      case (Succeeds s3)
      then obtain m2 where s3: "grows s2 s3" "good (is @ m1 @ ?jump # m2) s3"
        using body by (auto simp: leaves_def)
      let ?s3 = "cg_patch_u32 (code_length s1 + 1) (of_nat (code_length s3)) s3"
      have p: "good ((is @ m1) @ Operand BC_CG_JUMP_IF_FALSE (code_length s3) # m2) ?s3" "grows s3 ?s3"
        using patch_good [of "is @ m1" BC_CG_JUMP_IF_FALSE 0 m2 s3 "code_length s3"] s3(2)
        by (simp_all add: is_jump_def good_length [OF g1])
      have "leaves (is @ m1) s1 ?s3"
        unfolding leaves_def
        by (intro conjI exI [of _ "Operand BC_CG_JUMP_IF_FALSE (code_length s3) # m2"])
          (use p grows_trans [OF s2(2) grows_trans [OF s3(1) p(2)]] in simp_all)
      moreover have "keeps is' ?s3 (cg_emit_push_literal_token nil_token ?s3)" if "good is' ?s3" for "is'"
        unfolding cg_emit_push_literal_token_def
        by (rule keeps_with_literal [OF that])
          (simp add: nil_token_def text_token_def make_token_def pushed_literal_def)
      ultimately have "keeps (is @ m1) s1 (cg_emit_push_literal_token nil_token ?s3)" by (rule keeps_after)
      then show ?thesis by (simp add: \<open>cg_emit_jump_placeholder BC_CG_JUMP_IF_FALSE s1 = Succeeds s2\<close> Succeeds)
    next
      case (Fails s3)
      then obtain m3 where s3: "grows s2 s3" "good (is @ m1 @ ?jump # m3) s3"
        using body by (auto simp: leaves_def)
      have "leaves (is @ m1) s1 s3"
        unfolding leaves_def
        by (intro conjI exI [of _ "?jump # m3"]) (use s3 grows_trans [OF s2(2) s3(1)] in simp_all)
      then have "keeps (is @ m1) s1 (Fails s3)" by simp
      then show ?thesis by (simp add: \<open>cg_emit_jump_placeholder BC_CG_JUMP_IF_FALSE s1 = Succeeds s2\<close> Fails)
    qed (simp_all add: \<open>cg_emit_jump_placeholder BC_CG_JUMP_IF_FALSE s1 = Succeeds s2\<close>)
  next
    case (Fails s2)
    then have "emit_bytes (encode (Operand BC_CG_JUMP_IF_FALSE 0)) s1 = Fails s2"
      by (simp only: cg_emit_jump_placeholder_def emit_eqs)
    then show ?thesis using emit_bytes_no_fail by blast
  qed simp_all
  show ?thesis
    unfolding emit_loop_def Let_def by (intro keeps_and_also keeps_inline(1) assms rest)
qed

lemma keeps_while_true:
  assumes "rec_keeps rec" and "good is s"
  shows "keeps is s (cg_parse_while_true_statement rec s)"
proof -
  have captured: "keeps is t (case cg_capture_block_source_from_open t of Inl failed \<Rightarrow> failed | Inr (src, t) \<Rightarrow> f src t)"
    if "good is t" "\<And>src t. good is t \<Longrightarrow> keeps is t (f src t)" for t f
  proof (cases "cg_capture_block_source_from_open t")
    case (Inl a)
    then show ?thesis using capture_block_parser(1) [OF that(1) Inl] by simp
  next
    case (Inr r)
    obtain src t' where r: "r = (src, t')" by (cases r)
    have "\<exists>p. t' = t\<lparr>parser := p\<rparr>"
      using capture_block_parser(2) [OF that(1) Inr [unfolded r]] .
    then obtain p where p: "t' = t\<lparr>parser := p\<rparr>" ..
    then show ?thesis using that(2) [of t' src] that(1) by (simp add: Inr r)
  qed
  show ?thesis
    unfolding cg_parse_while_true_statement_def
    by (intro captured keeps_token keeps_if keeps_done keeps_loop assms)
qed

lemma keeps_after_statement:
  assumes "rec_keeps rec" and "good is s"
  shows "keeps is s (after_expression rec s)" "keeps is s (after_loop rec s)" "keeps is s (after_assignment rec s)"
proof -
  have saw: "keeps is s (Succeeds (s\<lparr>saw_return := True\<rparr>))" if "good is s" for "is" s
    using that by (simp add: good_leaves)
  show "keeps is s (after_expression rec s)"
    unfolding after_expression_def
    by (intro keeps_token keeps_if keeps_and_also keeps_byte saw keeps_done rec_keepsD [OF assms(1)] assms) simp_all
  show "keeps is s (after_loop rec s)"
    unfolding after_loop_def
    by (intro keeps_token keeps_if keeps_and_also keeps_byte keeps_done rec_keepsD [OF assms(1)] assms) simp_all
  show "keeps is s (after_assignment rec s)"
    unfolding after_assignment_def
    by (intro keeps_token keeps_if keeps_done rec_keepsD [OF assms(1)] assms) simp_all
qed

lemma keeps_return_statement:
  assumes "rec_keeps rec" and "good is s"
  shows "keeps is s (return_statement rec s)"
proof -
  have eof: "keeps is s (let (eof, s) = next_token (s\<lparr>saw_return := True\<rparr>) in if is_eof eof then Succeeds s else Fails s)"
    if "good is s" for "is" s
    using keeps_token [of "is" "s\<lparr>saw_return := True\<rparr>" "\<lambda>eof s. if is_eof eof then Succeeds s else Fails s"] that
    by (simp add: good_leaves)
  show ?thesis
    unfolding return_statement_def
    by (intro keeps_and_also keeps_byte eof rec_keepsD [OF assms(1)] assms) simp_all
qed

lemma keeps_bracket_statement:
  assumes "rec_keeps rec" and "good is s"
  shows "keeps is s (bracket_statement rec token s)"
proof (cases "cg_parse_while_true_statement rec s")
  case (Succeeds s')
  then have "leaves is s s'" using keeps_while_true [OF assms] by simp
  then have "keeps is s (after_loop rec s')"
    by (rule keeps_after) (rule keeps_after_statement [OF assms(1)])
  then show ?thesis by (simp add: bracket_statement_def Succeeds)
next
  case (Fails s')
  then have l: "leaves is s s'" using keeps_while_true [OF assms] by simp
  let ?s = "unread token (s'\<lparr>parser := parser s\<rparr>)"
  have "keeps is s (and_also (rec Cg_expression ?s) (after_expression rec))"
  proof (rule keeps_after [OF l])
    fix more
    assume "good (is @ more) s'"
    then have g: "good (is @ more) ?s" by simp
    have "keeps (is @ more) ?s (and_also (rec Cg_expression ?s) (after_expression rec))"
      by (intro keeps_and_also keeps_after_statement(1) rec_keepsD [OF assms(1)] assms(1) g) simp_all
    then show "keeps (is @ more) s' (and_also (rec Cg_expression ?s) (after_expression rec))" by simp
  qed
  then show ?thesis by (simp add: bracket_statement_def Fails)
qed (simp_all add: bracket_statement_def)

lemma keeps_assignment:
  assumes "rec_keeps rec" and "good is s"
  shows "keeps is s (assignment rec name s)"
proof -
  have store: "keeps is s (and_also (rec Cg_expression s) (\<lambda>s. emit_op b (f s) s))"
    if "good is s" "b \<in> {BC_CG_STORE_TEMP, BC_CG_STORE_INST_VAR}" for b f "is" s
    using that by (intro keeps_and_also keeps_slot rec_keepsD [OF assms(1)]) auto
  have inst: "keeps is s (case cg_inst_var_index name s of None \<Rightarrow> Runs_out
      | Some (None, s) \<Rightarrow> Fails s
      | Some (Some i, s) \<Rightarrow> and_also (rec Cg_expression s) (emit_op BC_CG_STORE_INST_VAR i))"
  proof (cases "cg_inst_var_index name s")
    case (Some r)
    obtain i s' where r: "r = (i, s')" by (cases r)
    have l: "leaves is s s'" using inst_var_index_leaves assms(2) Some r by simp
    show ?thesis
      using l keeps_after [OF l store [of _ s' BC_CG_STORE_INST_VAR "\<lambda>s. the i"]] by (cases i) (simp_all add: Some r)
  qed simp
  show ?thesis
    unfolding assignment_def using inst by (auto split: option.split intro!: store assms(2))
qed

lemma keeps_identifier_statement:
  assumes "rec_keeps rec" and "good is s"
  shows "keeps is s (identifier_statement rec token s)"
proof -
  have p: "keeps is s (cg_emit_primary_token rec token (unread other s))" if "good is s" for "is" other s
    using keeps_primary(1) [OF assms(1), of "is" "unread other s"] that by simp
  show ?thesis
    unfolding identifier_statement_def
    by (intro keeps_token keeps_if keeps_and_also keeps_assignment keeps_after_statement p
        rec_keepsD [OF assms(1)] assms) simp_all
qed

lemma keeps_statements:
  assumes "rec_keeps rec" and "good is s"
  shows "keeps is s (cg_parse_statements rec s)"
proof -
  have e: "keeps is s (rec Cg_expression (unread token s))" if "good is s" for "is" token s
    using rec_keepsD [OF assms(1), of "is" "unread token s" Cg_expression] that by simp
  show ?thesis
    unfolding cg_parse_statements_def
    by (intro keeps_token keeps_if keeps_and_also keeps_done keeps_return_statement keeps_bracket_statement
        keeps_identifier_statement keeps_after_statement e rec_keepsD [OF assms(1)] assms) simp_all
qed

section \<open>Bodies\<close>

lemma block_header_state:
  assumes "block_header h s = (r, s')" and "length (arg_names h) \<le> MAX_ARGS"
  shows "(\<exists>p. s' = s\<lparr>parser := p\<rparr>) \<and> (case r of None \<Rightarrow> True | Some h' \<Rightarrow> length (arg_names h') \<le> MAX_ARGS)"
  using assms
proof (induction h s arbitrary: r s' rule: block_header.induct)
  case (1 h s)
  obtain arg p where a: "next_token s = (arg, s\<lparr>parser := p\<rparr>)" by (auto simp: next_token_def split_def Let_def)
  obtain token q where b: "next_token (s\<lparr>parser := p\<rparr>) = (token, s\<lparr>parser := q\<rparr>)"
    by (auto simp: next_token_def split_def Let_def)
  show ?case
  proof (cases "\<not> is_identifier arg \<or> length (arg_names h) \<ge> MAX_ARGS")
    case True
    then show ?thesis using "1.prems" block_header.simps [of h s] by (auto simp: a)
  next
    case False
    let ?h = "h\<lparr>arg_names := arg_names h @ [name_in NAME_SIZE (token_text arg)]\<rparr>"
    show ?thesis
    proof (cases "is_special_text token '':''")
      case True
      then have "block_header ?h (s\<lparr>parser := q\<rparr>) = (r, s')"
        using "1.prems"(1) False block_header.simps [of h s] by (simp add: a b)
      then show ?thesis using "1.IH" [OF a [symmetric] refl False refl b [symmetric] refl True] False by auto
    next
      case no: False
      then show ?thesis
        using "1.prems" False block_header.simps [of h s] by (auto simp: a b split: if_splits)
    qed
  qed
qed

lemma parse_temps_state:
  fixes s :: CgState
  assumes "length (temp_names (body s)) \<le> MAX_TEMPS"
  shows "parse_temps s = Succeeds s' \<Longrightarrow> \<exists>p b. s' = s\<lparr>parser := p, body := b\<rparr> \<and> length (temp_names b) \<le> MAX_TEMPS"
    and "parse_temps s = Fails s' \<Longrightarrow> \<exists>p b. s' = s\<lparr>parser := p, body := b\<rparr>"
  using assms
proof (induction s rule: parse_temps.induct)
  case (1 s)
  obtain temp p where a: "next_token s = (temp, s\<lparr>parser := p\<rparr>)" by (auto simp: next_token_def split_def Let_def)
  let ?stop = "\<not> is_identifier temp \<or> length (temp_names (body (s\<lparr>parser := p\<rparr>))) \<ge> MAX_TEMPS"
  let ?next = "s\<lparr>parser := p, body := (body s)\<lparr>temp_names := temp_names (body s) @ [name_in NAME_SIZE (token_text temp)]\<rparr>\<rparr>"
  have unfold: "parse_temps s = (if is_special_text temp ''|'' then Succeeds (s\<lparr>parser := p\<rparr>)
      else if ?stop then Fails (s\<lparr>parser := p\<rparr>) else parse_temps ?next)"
    using parse_temps.simps [of s] by (simp add: a)
  {
    case 1
    show ?case
    proof (cases "is_special_text temp ''|'' \<or> ?stop")
      case True
      then show ?thesis using 1 unfold by (auto split: if_splits intro!: exI [of _ p] exI [of _ "body s"])
    next
      case False
      then have "\<exists>q b. s' = ?next\<lparr>parser := q, body := b\<rparr> \<and> length (temp_names b) \<le> MAX_TEMPS"
        using "1.IH"(1) [OF a [symmetric]] 1 unfold by simp
      then show ?thesis by auto
    qed
  next
    case 2
    show ?case
    proof (cases "is_special_text temp ''|'' \<or> ?stop")
      case True
      then show ?thesis using 2 unfold by (auto split: if_splits intro!: exI [of _ p] exI [of _ "body s"])
    next
      case False
      then have "\<exists>q b. s' = ?next\<lparr>parser := q, body := b\<rparr>"
        using "1.IH"(2) [OF a [symmetric]] 2 unfold by simp
      then show ?thesis by auto
    qed
  }
qed

text \<open>The state in which the statements of a body start.\<close>

definition ready :: "CgState \<Rightarrow> CgState \<Rightarrow> bool" where
  "ready s s' \<longleftrightarrow> good [] s' \<and> local_arg_count s' = header_args s' \<and> root_blocks s' = root_blocks s"

lemma fresh_good: "fresh s \<Longrightarrow> header_args s \<le> MAX_ARGS \<Longrightarrow> good [] s"
  by (simp add: good_def fresh_def empty_compiled_def empty_body_def instructions_ok_def)

lemma enter_scope_ready:
  assumes "fresh s"
  shows "enter_scope s = Succeeds s' \<Longrightarrow> ready s s' \<and> length (temp_names (body s')) = 0"
    and "enter_scope s = Fails s' \<Longrightarrow> root_blocks s' = root_blocks s"
proof -
  obtain token p where n: "next_token s = (token, s\<lparr>parser := p\<rparr>)" by (auto simp: next_token_def split_def Let_def)
  have e: "length (arg_names empty_header) \<le> MAX_ARGS" by (simp add: empty_header_def)
  have h: "\<exists>q. t = s\<lparr>parser := q\<rparr> \<and> (case r of None \<Rightarrow> True | Some h \<Rightarrow> length (arg_names h) \<le> MAX_ARGS)"
    if "cg_parse_block_header s = (r, t)" for r t
    using that block_header_state [of empty_header "s\<lparr>parser := p\<rparr>" r t] e
    by (auto simp: cg_parse_block_header_def n unread_def split: if_splits)
  obtain r t where rt: "cg_parse_block_header s = (r, t)" by fastforce
  obtain q where q: "t = s\<lparr>parser := q\<rparr>" "case r of None \<Rightarrow> True | Some h \<Rightarrow> length (arg_names h) \<le> MAX_ARGS"
    using h [OF rt] by auto
  have "good [] (s\<lparr>parser := q, header := Some h, local_arg_count := n\<rparr>)" if "length (arg_names h) \<le> MAX_ARGS" for h n
    using assms that by (intro fresh_good) (simp_all add: fresh_def header_args_def)
  moreover have "good [] (s\<lparr>local_arg_count := n\<rparr>)" if "\<not> in_block s" for n
    using assms that by (intro fresh_good) (simp_all add: fresh_def header_args_def)
  ultimately show "ready s s' \<and> length (temp_names (body s')) = 0" if "enter_scope s = Succeeds s'"
    using that q assms
    by (auto simp: enter_scope_def rt ready_def header_args_def fresh_def empty_body_def split: if_splits option.splits)
  show "root_blocks s' = root_blocks s" if "enter_scope s = Fails s'"
    using that q by (auto simp: enter_scope_def rt split: if_splits option.splits)
qed

lemma temp_decls_ready:
  assumes "ready s0 s" and "length (temp_names (body s)) = 0"
  shows "cg_parse_temp_decls s = Succeeds s' \<Longrightarrow> ready s0 s'"
    and "cg_parse_temp_decls s = Fails s' \<Longrightarrow> root_blocks s' = root_blocks s0"
proof -
  obtain token p where n: "next_token s = (token, s\<lparr>parser := p\<rparr>)" by (auto simp: next_token_def split_def Let_def)
  have z: "length (temp_names (body (s\<lparr>parser := p\<rparr>))) \<le> MAX_TEMPS" using assms(2) by simp
  have r: "ready s0 (s\<lparr>parser := q, body := b\<rparr>)" if "length (temp_names b) \<le> MAX_TEMPS" for q b
    using assms that by (auto simp: ready_def good_def header_args_def)
  show "ready s0 s'" if "cg_parse_temp_decls s = Succeeds s'"
    using that parse_temps_state(1) [OF z] r assms(1)
    by (auto simp: cg_parse_temp_decls_def n ready_def header_args_def unread_def split: if_splits)
  show "root_blocks s' = root_blocks s0" if "cg_parse_temp_decls s = Fails s'"
    using that parse_temps_state(2) [OF z] assms(1)
    by (auto simp: cg_parse_temp_decls_def n ready_def split: if_splits)
qed

lemma keeps_end_block:
  assumes "good is s"
  shows "keeps is s (end_block s)"
proof -
  have nil: "keeps is s (cg_emit_push_literal_token nil_token s)"
    unfolding cg_emit_push_literal_token_def
    by (rule keeps_with_literal [OF assms])
      (simp add: nil_token_def text_token_def make_token_def pushed_literal_def)
  have saw: "keeps is s (Succeeds (s\<lparr>saw_return := True\<rparr>))" if "good is s" for "is" s
    using that by (simp add: good_leaves)
  show ?thesis
    unfolding end_block_def
    by (intro keeps_if keeps_and_also nil keeps_byte saw keeps_done assms) simp_all
qed

lemma body_keeps_codegen:
  assumes "rec_keeps rec" and "fresh s"
  shows "body_keeps s (bc_codegen_body_with_outer_state rec s)"
proof -
  have t: "table_ok (root_blocks s)" using assms(2) by (simp add: fresh_def)
  have failed: "body_keeps s (Fails s')" if "root_blocks s' = root_blocks s" for s'
    using t that by simp
  let ?finish = "\<lambda>s. let s = s\<lparr>compiled := (compiled s)\<lparr>arg_count := local_arg_count s,
                        temp_count := length (temp_names (body s))\<rparr>\<rparr>
            in if saw_return s then Succeeds s else Fails s"
  have rest: "body_keeps s (and_also (and_also (rec Cg_statements s1) end_block) ?finish)" if r: "ready s s1" for s1
  proof -
    let ?a = "and_also (rec Cg_statements s1) end_block"
    have "good [] s1" using r by (simp add: ready_def)
    then have k: "keeps [] s1 ?a"
      by (intro keeps_and_also keeps_end_block rec_keepsD [OF assms(1)]) simp_all
    have kept: "table_ok (root_blocks s2) \<and> length (root_blocks s) \<le> length (root_blocks s2)"
      if "leaves [] s1 s2" for s2
      using that r by (auto simp: leaves_def good_def grows_def ready_def)
    show ?thesis
    proof (cases ?a)
      case (Succeeds s2)
      then have l: "leaves [] s1 s2" using k by simp
      then obtain "is" where g: "good is s2" by (auto simp: leaves_def)
      have args: "local_arg_count s2 = header_args s2"
        using l r by (simp add: leaves_def grows_def ready_def header_args_def)
      have "code_ok (length (root_blocks s2)) ((compiled s2)\<lparr>arg_count := local_arg_count s2,
          temp_count := length (temp_names (body s2))\<rparr>)"
        unfolding code_ok_def using g args by (auto simp: good_def)
      then show ?thesis using kept [OF l] Succeeds by (simp add: Let_def)
    next
      case (Fails s2)
      then show ?thesis using k kept [of s2] by simp
    qed simp_all
  qed
  show ?thesis
  proof (cases "enter_scope s")
    case (Succeeds s1)
    note s1 = enter_scope_ready(1) [OF assms(2) Succeeds]
    show ?thesis
    proof (cases "cg_parse_temp_decls s1")
      case inner: (Succeeds s2)
      then have "ready s s2" using temp_decls_ready(1) s1 by blast
      then show ?thesis using rest by (simp add: bc_codegen_body_with_outer_state_def Succeeds inner)
    next
      case inner: (Fails s2)
      then have "root_blocks s2 = root_blocks s" using temp_decls_ready(2) s1 by blast
      then show ?thesis using failed by (simp add: bc_codegen_body_with_outer_state_def Succeeds inner)
    qed (simp_all add: bc_codegen_body_with_outer_state_def Succeeds)
  next
    case (Fails s1)
    then show ?thesis
      using failed enter_scope_ready(2) [OF assms(2) Fails] by (simp add: bc_codegen_body_with_outer_state_def)
  qed (simp_all add: bc_codegen_body_with_outer_state_def)
qed

theorem cg_run_keeps: "rec_keeps (cg_run fuel)"
proof (induction fuel)
  case 0
  then show ?case by (simp add: rec_keeps_def)
next
  case (Suc fuel)
  have "keeps is s (cg_step (cg_run fuel) c s)" if "c \<noteq> Codegen_body" "good is s" for c s "is"
    using that keeps_expression [OF Suc that(2)] keeps_unary [OF Suc that(2)] keeps_binary [OF Suc that(2)]
      keeps_statements [OF Suc that(2)] by (cases c) simp_all
  then show ?case using body_keeps_codegen [OF Suc] by (simp add: rec_keeps_def)
qed

text \<open>
  C2. Code that the compiler answers is well formed: for every source, header of at most eight
  arguments, class and memory, if a method body compiles then its bytes are a sequence of whole
  instructions, each with its operands in range - a literal of the kind the instruction pushes, a
  selector, a block of the table, an argument of the method - every jump, also those that have been
  patched, leads to the start of an instruction or to the end of the code, bytes, literals, arguments
  and temporaries fit their arrays, and the same is true of all the blocks of the method.
\<close>

theorem compiled_code_well_formed:
  assumes "bc_codegen_body fuel m src h klass = Succeeds s"
    and "case h of None \<Rightarrow> True | Some h \<Rightarrow> length (arg_names h) \<le> MAX_ARGS"
  shows "code_ok (length (blocks (compiled_method s))) (compiled_method s) \<and>
    table_ok (blocks (compiled_method s))"
proof -
  have "fresh (method_state m src h klass)"
    using assms(2) by (auto simp: fresh_def method_state_def table_ok_def header_args_def split: option.splits)
  then have "body_keeps (method_state m src h klass) (bc_codegen_body fuel m src h klass)"
    using cg_run_keeps [of fuel] by (simp add: rec_keeps_def bc_codegen_body_def)
  then show ?thesis using assms(1) by (simp add: compiled_method_def code_ok_def)
qed

definition one_argument :: BMethodHeader where
  "one_argument = empty_header\<lparr>arg_names := [''n'']\<rparr>"

theorem compiled_code_well_formed_witness:
  "\<exists>s. bc_codegen_body 20 (\<lambda>_. 0) ''^ [:each | each + n] value: 3'' (Some one_argument) 0 = Succeeds s \<and>
     length (root_blocks s) = 1 \<and> table_ok (blocks (compiled_method s))"
proof -
  let ?a = "bc_codegen_body 20 (\<lambda>_. 0) ''^ [:each | each + n] value: 3'' (Some one_argument) 0"
  have "case ?a of Succeeds s \<Rightarrow> length (root_blocks s) = 1 | _ \<Rightarrow> False" by code_simp
  then obtain s where s: "?a = Succeeds s" "length (root_blocks s) = 1" by (cases ?a) simp_all
  have "case Some one_argument of None \<Rightarrow> True | Some h \<Rightarrow> length (arg_names h) \<le> MAX_ARGS"
    by (simp add: one_argument_def empty_header_def MAX_ARGS_def)
  then have "table_ok (blocks (compiled_method s))" using compiled_code_well_formed [OF s(1)] by blast
  then show ?thesis using s by blast
qed

end
