(* ===== verification/Codegen_Ends.thy ===== *)
theory Codegen_Ends
  imports Codegen_Laws
begin

text \<open>
  The code generator comes to an end. Every call it makes is for a text that weighs less: a character
  weighs two, an opening bracket twelve, because the text of a block is compiled once more with a
  return put in when it does not compile as it is.
\<close>

section \<open>The weight of a text\<close>

definition char_weight :: "char \<Rightarrow> nat" where
  "char_weight c = (if c = CHR ''['' then 12 else 2)"

definition text_weight :: "string \<Rightarrow> nat" where
  "text_weight cs = sum_list (map char_weight cs)"

definition token_weight :: "BToken \<Rightarrow> nat" where
  "token_weight token = (if is_eof token then 0 else if is_special_text token ''['' then 12 else 2)"

definition parser_weight :: "BParser \<Rightarrow> nat" where
  "parser_weight p = text_weight (drop (index (tokenizer p)) (source (tokenizer p))) +
     (case buffered p of None \<Rightarrow> 0 | Some token \<Rightarrow> token_weight token)"

abbreviation weight :: "'a parse_state_scheme \<Rightarrow> nat" where
  "weight s \<equiv> parser_weight (parser s)"

lemma text_weight_simps [simp]:
  "text_weight [] = 0" "text_weight (c # cs) = char_weight c + text_weight cs"
  "text_weight (cs @ ds) = text_weight cs + text_weight ds"
  by (simp_all add: text_weight_def)

lemma char_weight_bounds: "2 \<le> char_weight c" "char_weight c \<le> 12"
  by (simp_all add: char_weight_def)

lemma text_weight_bounds: "2 * length cs \<le> text_weight cs" "text_weight cs \<le> 12 * length cs"
proof -
  show "2 * length cs \<le> text_weight cs"
  proof (induction cs)
    case (Cons c cs)
    then show ?case using char_weight_bounds(1) [of c] by simp
  qed simp
  show "text_weight cs \<le> 12 * length cs"
  proof (induction cs)
    case (Cons c cs)
    then show ?case using char_weight_bounds(2) [of c] by simp
  qed simp
qed

lemma text_weight_split: "text_weight (take n cs) + text_weight (drop n cs) = text_weight cs"
  using text_weight_simps(3) [of "take n cs" "drop n cs"] by simp

lemma text_weight_take: "text_weight (take n cs) \<le> text_weight cs"
  using text_weight_split [of n cs] by simp

lemma text_weight_drop: "i \<le> j \<Longrightarrow> text_weight (drop j cs) \<le> text_weight (drop i cs)"
  using text_weight_split [of "j - i" "drop i cs"] by simp

lemma text_weight_drop_char:
  assumes "i \<le> k" and "k < j" and "k < length cs"
  shows "char_weight (cs ! k) + text_weight (drop j cs) \<le> text_weight (drop i cs)"
proof -
  have "drop k cs = cs ! k # drop (Suc k) cs" using assms(3) by (simp add: Cons_nth_drop_Suc)
  then show ?thesis
    using text_weight_drop [of "Suc k" j cs] text_weight_drop [of i k cs] assms by simp
qed

section \<open>Reading\<close>

lemma bracket_token:
  assumes "is_special_text (fst (bt_next t)) ''[''"
  shows "peek (skip_whitespace t) = CHR ''[''"
proof (rule ccontr)
  let ?t = "skip_whitespace t"
  assume no: "peek ?t \<noteq> CHR ''[''"
  have "token_type (fst (bt_next t)) = BTOK_SPECIAL" "token_text (fst (bt_next t)) = ''[''"
    using assms by (simp_all add: is_special_text_def)
  then show False
    using no
    by (auto simp: bt_next_def Let_def make_token_def integer_token_def character_token_def word_token_def
        string_token_def symbol_token_def special_token_def two_char_token_def text_token_def advance_def split_def
        TOKEN_TEXT_SIZE_def
        split: if_splits)
qed

lemma bt_next_weight:
  "token_weight (fst (bt_next t)) + text_weight (drop (index (snd (bt_next t))) (source t))
    \<le> text_weight (drop (index t) (source t))"
proof (cases "is_eof (fst (bt_next t))")
  case True
  then show ?thesis using later_bt_next [of t] by (simp add: token_weight_def text_weight_drop later_def)
next
  case False
  let ?k = "index (skip_whitespace t)"
  have k: "index t \<le> ?k" "source (skip_whitespace t) = source t"
    using later_skip_whitespace [of t] by (simp_all add: later_def)
  have n: "peek (skip_whitespace t) \<noteq> NUL" using False by (auto simp: bt_next_def make_token_def Let_def)
  then have l: "?k < length (source t)" by (auto simp: peek_def char_at_def k split: if_splits)
  have "?k < index (snd (bt_next t))"
    using tokens_move [OF n] word_token_moves [OF _ n] n
    by (auto simp: bt_next_def Let_def is_word_char_def isalnum_def)
  then have "char_weight (source t ! ?k) + text_weight (drop (index (snd (bt_next t))) (source t))
      \<le> text_weight (drop (index t) (source t))"
    using text_weight_drop_char k l by blast
  moreover have "token_weight (fst (bt_next t)) \<le> char_weight (source t ! ?k)"
    using bracket_token [of t] l char_weight_bounds(1)
    by (auto simp: token_weight_def peek_def char_at_def k char_weight_def)
  ultimately show ?thesis by simp
qed

lemma next_token_weight:
  assumes "next_token s = (token, s')"
  shows "weight s' + token_weight token \<le> weight s" "\<exists>p. s' = s\<lparr>parser := p\<rparr>"
proof -
  show "weight s' + token_weight token \<le> weight s"
    using assms bt_next_weight [of "tokenizer (parser s)"]
    by (auto simp: next_token_def bp_next_def parser_weight_def split_def Let_def split: option.splits)
  show "\<exists>p. s' = s\<lparr>parser := p\<rparr>" using assms by (auto simp: next_token_def split_def Let_def)
qed

lemma unread_weight: "weight (unread token s) \<le> weight s + token_weight token"
  by (simp add: unread_def bp_unread_def parser_weight_def)

lemma unread_fields [simp]:
  "unread token (s\<lparr>parser := p\<rparr>) = s\<lparr>parser := bp_unread token p\<rparr>"
  by (simp add: unread_def)

lemma token_weight_positive: "\<not> is_eof token \<Longrightarrow> 2 \<le> token_weight token"
  by (simp add: token_weight_def)

section \<open>Attempts that end\<close>

text \<open>
  \<open>settles d s a\<close>: an attempt started in \<open>s\<close> has a result, which weighs at least \<open>d\<close> less than \<open>s\<close>. The names
  of the class stay the same.
\<close>

definition same_class :: "CgState \<Rightarrow> CgState \<Rightarrow> bool" where
  "same_class s s' \<longleftrightarrow> target_class s' = target_class s \<and> object_memory s' = object_memory s"

fun settles :: "nat \<Rightarrow> CgState \<Rightarrow> CgState attempt \<Rightarrow> bool" where
  "settles d s (Succeeds s') = (weight s' + d \<le> weight s \<and> same_class s s')"
| "settles d s (Fails s') = same_class s s'"
| "settles d s Overruns = True"
| "settles d s Runs_out = False"

definition names_known :: "CgState \<Rightarrow> bool" where
  "names_known s \<longleftrightarrow>
     target_class s = 0 \<or> (\<forall>name. bc_class_inst_var_index (object_memory s) (target_class s) name \<noteq> None)"

lemma same_class_refl [simp]: "same_class s s"
  by (simp add: same_class_def)

lemma same_class_trans: "same_class s s' \<Longrightarrow> same_class s' s'' \<Longrightarrow> same_class s s''"
  by (simp add: same_class_def)

lemma same_class_update [simp]:
  "same_class s (s'\<lparr>parser := p\<rparr>) = same_class s s'" "same_class (s\<lparr>parser := p\<rparr>) s' = same_class s s'"
  "same_class s (s'\<lparr>compiled := c\<rparr>) = same_class s s'" "same_class s (s'\<lparr>saw_return := r\<rparr>) = same_class s s'"
  "same_class s (s'\<lparr>root_blocks := bs\<rparr>) = same_class s s'" "same_class s (s'\<lparr>body := b\<rparr>) = same_class s s'"
  "same_class s (s'\<lparr>header := h\<rparr>) = same_class s s'" "same_class s (s'\<lparr>local_arg_count := n\<rparr>) = same_class s s'"
  "same_class s (unread token s') = same_class s s'" "same_class (unread token s) s' = same_class s s'"
  by (simp_all add: same_class_def unread_def)

lemma same_class_known: "same_class s s' \<Longrightarrow> names_known s \<Longrightarrow> names_known s'"
  by (simp add: same_class_def names_known_def)

lemma settles_weaken: "settles d s a \<Longrightarrow> d' \<le> d \<Longrightarrow> settles d' s a"
  by (cases a) auto

lemma settles_from:
  assumes "settles d' s' a" and "weight s' + d \<le> weight s + d'" and "same_class s s'"
  shows "settles d s a"
  using assms same_class_trans [OF assms(3)] by (cases a) auto

lemma settles_and_also:
  assumes "settles d s a"
    and "\<And>s'. weight s' + d \<le> weight s \<Longrightarrow> same_class s s' \<Longrightarrow> settles 0 s' (f s')"
  shows "settles d s (and_also a f)"
proof (cases a)
  case (Succeeds s')
  then have "weight s' + d \<le> weight s" "same_class s s'" using assms(1) by simp_all
  then show ?thesis using settles_from [OF assms(2)] by (simp add: Succeeds)
qed (use assms(1) in simp_all)

lemma settles_token:
  assumes "\<And>token s'. weight s' + token_weight token \<le> weight s \<Longrightarrow> same_class s s' \<Longrightarrow> settles d s (f token s')"
  shows "settles d s (let (token, s') = next_token s in f token s')"
proof -
  obtain token s' where n: "next_token s = (token, s')" by fastforce
  show ?thesis using assms [of s' token] next_token_weight [OF n] by (auto simp: n)
qed

lemma settles_token_then:
  assumes "\<And>token s'. weight s' + token_weight token \<le> weight s \<Longrightarrow> same_class s s' \<Longrightarrow> settles 0 s' (f token s')"
  shows "settles 0 s (let (token, s') = next_token s in f token s')"
proof (rule settles_token)
  fix token s'
  assume t: "weight s' + token_weight token \<le> weight s" "same_class s s'"
  then show "settles 0 s (f token s')" using settles_from [OF assms, of s' token 0 s] by simp
qed

lemma settles_if: "(P \<Longrightarrow> settles d s a) \<Longrightarrow> (\<not> P \<Longrightarrow> settles d s b) \<Longrightarrow> settles d s (if P then a else b)"
  by simp

lemma settles_fails: "same_class s s' \<Longrightarrow> settles d s (Fails s')"
  by simp

section \<open>Emitting and skipping\<close>

named_theorems settles_emit \<open>emitting has a result\<close>

lemma settles_emit_byte [settles_emit]: "settles 0 s (cg_emit_byte b s)"
  by (simp add: cg_emit_byte_def)

lemma settles_emit_bytes: "settles 0 s (emit_bytes bs s)"
proof (induction bs arbitrary: s)
  case (Cons b bs)
  show ?case unfolding emit_bytes.simps by (intro settles_and_also settles_emit_byte Cons)
qed simp

lemma settles_emit_u32 [settles_emit]: "settles 0 s (cg_emit_u32 v s)"
  by (simp add: cg_emit_u32_def settles_emit_bytes)

lemma settles_emit_op [settles_emit]: "settles 0 s (emit_op b n s)"
  unfolding emit_op_def by (intro settles_and_also settles_emit)

lemma settles_with_literal [settles_emit]: "settles 0 s (emit_with_literal b literal s)"
proof (cases "cg_literal_index literal s")
  case (Some r)
  then obtain i s' where s': "cg_literal_index literal s = Some (i, s')" by (cases r) auto
  then have "weight s' = weight s" "same_class s s'"
    by (auto simp: cg_literal_index_def Let_def split: option.splits if_splits)
  then show ?thesis using settles_from [OF settles_emit_op, of s' 0 s] by (simp add: emit_with_literal_def s')
qed (simp add: emit_with_literal_def)

lemma settles_send [settles_emit]: "settles 0 s (cg_emit_selector_send sel n s)"
  unfolding cg_emit_selector_send_def by (intro settles_and_also settles_emit)

lemma settles_skip_nested: "settles 0 s (skip_nested bra ket depth s)"
proof (induction bra ket depth s rule: skip_nested.induct)
  case (1 bra ket depth s)
  obtain token s' where n: "next_token s = (token, s')" by fastforce
  have s': "weight s' \<le> weight s" "same_class s s'" using next_token_weight [OF n] by auto
  show ?case
  proof (cases "depth = 0 \<or> is_eof token")
    case True
    then show ?thesis using s' skip_nested.simps [of bra ket depth s] by (auto simp: n)
  next
    case False
    then have "settles 0 s' (skip_nested bra ket (if is_special_text token bra then depth + 1
        else if is_special_text token ket then depth - 1 else depth) s')"
      using "1.IH" [OF _ n [symmetric] refl] by simp
    from settles_from [OF this, of 0 s] show ?thesis
      using s' False skip_nested.simps [of bra ket depth s] by (simp add: n)
  qed
qed

lemma source_next_token: "next_token s = (token, s') \<Longrightarrow> source_text s' = source_text s"
  by (auto simp: next_token_def bp_next_def split_def Let_def split: option.splits)

lemma source_skip_nested: "skip_nested bra ket depth s = Succeeds s' \<Longrightarrow> source_text s' = source_text s"
proof (induction bra ket depth s rule: skip_nested.induct)
  case (1 bra ket depth s)
  obtain token s1 where n: "next_token s = (token, s1)" by fastforce
  show ?case
  proof (cases "depth = 0 \<or> is_eof token")
    case True
    then show ?thesis using "1.prems" skip_nested.simps [of bra ket depth s] by (auto simp: n split: if_splits)
  next
    case False
    then show ?thesis
      using "1.IH" [OF _ n [symmetric] refl] "1.prems" skip_nested.simps [of bra ket depth s] source_next_token [OF n]
      by (simp add: n)
  qed
qed

lemma slice_weight: "text_weight (slice (source_text s) (position s) j) \<le> weight s"
  using text_weight_take [of "j - position s" "drop (position s) (source_text s)"]
  by (simp add: slice_def parser_weight_def)

lemma capture_block_ends:
  "cg_capture_block_source_from_open s = Inl a \<Longrightarrow> settles 0 s a"
  "cg_capture_block_source_from_open s = Inr (src, s') \<Longrightarrow>
     weight s' \<le> weight s \<and> same_class s s' \<and> text_weight src \<le> weight s"
proof -
  have e: "settles 0 s (cg_skip_block_literal s)" by (simp add: cg_skip_block_literal_def settles_skip_nested)
  show "settles 0 s a" if "cg_capture_block_source_from_open s = Inl a"
    using that e by (cases "cg_skip_block_literal s")
      (auto simp: cg_capture_block_source_from_open_def Let_def split: if_splits)
  assume c: "cg_capture_block_source_from_open s = Inr (src, s')"
  then have k: "cg_skip_block_literal s = Succeeds s'"
    by (auto simp: cg_capture_block_source_from_open_def Let_def split: if_splits attempt.splits)
  then have "source_text s' = source_text s"
    using source_skip_nested unfolding cg_skip_block_literal_def by blast
  then have "src = slice (source_text s) (position s) (position s' - 1)"
    using c k by (auto simp: cg_capture_block_source_from_open_def Let_def split: if_splits)
  then show "weight s' \<le> weight s \<and> same_class s s' \<and> text_weight src \<le> weight s"
    using e k slice_weight by simp
qed

lemma settles_literal_array [settles_emit]: "settles 0 s (cg_emit_literal_array s)"
proof -
  have e: "settles 0 s (skip_nested ''#('' '')'' 1 s)" by (rule settles_skip_nested)
  show ?thesis
  proof (cases "skip_nested ''#('' '')'' 1 s")
    case (Succeeds s')
    then show ?thesis
      using e settles_from [OF settles_with_literal, of s' 0 s]
      by (auto simp: cg_emit_literal_array_def cg_capture_literal_array_def Succeeds simp del: One_nat_def)
  qed (use e in \<open>simp_all add: cg_emit_literal_array_def cg_capture_literal_array_def del: One_nat_def\<close>)
qed

section \<open>Expressions\<close>

fun call_rank :: "cg_call \<Rightarrow> nat" where
  "call_rank Cg_statements = 1"
| "call_rank Codegen_body = 2"
| "call_rank _ = 0"

definition rec_settles :: "nat \<Rightarrow> cg_rec \<Rightarrow> bool" where
  "rec_settles n rec \<longleftrightarrow>
     (\<forall>c s. names_known s \<and> weight s + call_rank c < n \<longrightarrow>
        rec c s \<noteq> Runs_out \<and> (c \<noteq> Codegen_body \<longrightarrow> settles 0 s (rec c s)))"

lemma rec_settlesD:
  "rec_settles n rec \<Longrightarrow> names_known s \<Longrightarrow> weight s + call_rank c < n \<Longrightarrow> c \<noteq> Codegen_body \<Longrightarrow> settles 0 s (rec c s)"
  by (simp add: rec_settles_def)

lemma body_ends: "rec_settles n rec \<Longrightarrow> names_known s \<Longrightarrow> weight s + 2 < n \<Longrightarrow> rec Codegen_body s \<noteq> Runs_out"
  by (simp add: rec_settles_def)

lemma inst_var_index_known:
  assumes "names_known s"
  shows "\<exists>i s'. cg_inst_var_index name s = Some (i, s') \<and> weight s' = weight s \<and> same_class s s'"
  using assms by (auto simp: cg_inst_var_index_def names_known_def Let_def split: option.splits)

lemma settles_identifier:
  assumes "names_known s"
  shows "settles 0 s (cg_emit_identifier token s)"
proof -
  obtain i s' where s': "cg_inst_var_index (token_text token) s = Some (i, s')" "weight s' = weight s" "same_class s s'"
    using inst_var_index_known [OF assms] by blast
  have "settles 0 s (case i of Some j \<Rightarrow> emit_op BC_CG_PUSH_INST_VAR j s'
      | None \<Rightarrow> emit_with_literal BC_CG_PUSH_GLOBAL (text_token BTOK_CLASS_REF (token_text token)) s')"
    using settles_from [OF settles_emit_op, of s' 0 s] settles_from [OF settles_with_literal, of s' 0 s] s'(2,3)
    by (cases i) simp_all
  then show ?thesis
    unfolding cg_emit_identifier_def Let_def
    by (auto simp: s'(1) intro!: settles_emit split: option.split)
qed

lemma implicit_return_weight:
  assumes "cg_build_implicit_return_source raw = Some out"
  shows "text_weight out \<le> text_weight raw + 6"
proof -
  have "text_weight (implicit_return_text raw i j) \<le> text_weight raw + 6" for i j
    using text_weight_split [of i raw] text_weight_take [of "j - i" "drop i raw"]
    by (simp add: implicit_return_text_def slice_def char_weight_def)
  then show ?thesis
    using assms by (auto simp: cg_build_implicit_return_source_def split_def Let_def split: if_splits)
qed

lemma settles_compile_block:
  assumes "rec_settles n rec" and "names_known s" and "text_weight src + 8 < n"
  shows "settles 0 s (cg_compile_and_store_block rec src i s)"
proof -
  have w: "weight (block_state x t) = text_weight x" for x t
    by (simp add: block_state_def parser_weight_def bp_init_def bt_init_def)
  have k: "names_known (block_state x t)" if "same_class s t" for x t
    using assms(2) that by (simp add: names_known_def same_class_def block_state_def)
  have b: "rec Codegen_body (block_state x t) \<noteq> Runs_out" if "text_weight x \<le> text_weight src + 6" "same_class s t" for x t
    using body_ends [OF assms(1) k [OF that(2)]] that(1) assms(3) by (simp add: w)
  have first: "rec Codegen_body (block_state src s) \<noteq> Runs_out" by (rule b) simp_all
  show ?thesis
  proof (cases "rec Codegen_body (block_state src s)")
    case (Fails inner)
    show ?thesis
    proof (cases "cg_build_implicit_return_source src")
      case (Some src')
      have "rec Codegen_body (block_state src' (s\<lparr>root_blocks := root_blocks inner\<rparr>)) \<noteq> Runs_out"
        using implicit_return_weight [OF Some] by (intro b) simp_all
      then show ?thesis
        by (cases "rec Codegen_body (block_state src' (s\<lparr>root_blocks := root_blocks inner\<rparr>))")
          (simp_all add: cg_compile_and_store_block_def Fails Some Let_def store_block_def)
    qed (simp add: cg_compile_and_store_block_def Fails Let_def)
  qed (use first in \<open>simp_all add: cg_compile_and_store_block_def store_block_def\<close>)
qed

lemma settles_block:
  assumes "rec_settles n rec" and "names_known s" and "weight s + 12 \<le> n"
  shows "settles 0 s (cg_emit_block rec s)"
proof -
  have e: "settles 0 s (cg_skip_block_literal s)" by (simp add: cg_skip_block_literal_def settles_skip_nested)
  show ?thesis
  proof (cases "cg_skip_block_literal s")
    case (Succeeds s')
    then have s': "weight s' \<le> weight s" "same_class s s'" using e by simp_all
    let ?s = "s'\<lparr>root_blocks := root_blocks s' @ [empty_block]\<rparr>"
    let ?src = "slice (source_text s') (position s) (position s' - 1)"
    have "source_text s' = source_text s"
      using Succeeds source_skip_nested unfolding cg_skip_block_literal_def by blast
    then have "text_weight ?src \<le> weight s" using slice_weight by simp
    then have c: "settles 0 ?s (cg_compile_and_store_block rec ?src i ?s)" for i
      using assms(3) same_class_known [OF _ assms(2), of ?s] s'(2) by (intro settles_compile_block [OF assms(1)]) simp_all
    have "settles 0 s (and_also (cg_compile_and_store_block rec ?src i ?s) (emit_with_literal BC_CG_PUSH_CLOSURE literal))"
      for i literal
    proof (rule settles_from)
      show "settles 0 ?s (and_also (cg_compile_and_store_block rec ?src i ?s) (emit_with_literal BC_CG_PUSH_CLOSURE literal))"
        by (intro settles_and_also c settles_emit)
    qed (use s' in simp_all)
    then show ?thesis using s' by (simp add: cg_emit_block_def Succeeds Let_def)
  qed (use e in \<open>simp_all add: cg_emit_block_def\<close>)
qed

text \<open>The calls that a function makes behind a token it has read.\<close>

lemma settles_rec:
  assumes "rec_settles n rec" and "names_known s" and "weight s \<le> n" and "weight s' + 2 \<le> weight s" and "same_class s s'"
    and "c \<noteq> Codegen_body"
  shows "settles 0 s' (rec c s')"
proof -
  have "call_rank c \<le> 1" using assms(6) by (cases c) simp_all
  then show ?thesis using rec_settlesD [OF assms(1) same_class_known [OF assms(5,2)]] assms(3,4,6) by simp
qed

lemma settles_expect:
  "settles 0 s (let (token, s) = next_token s in if P token then Succeeds s else Fails s)"
  by (intro settles_token settles_if) simp_all

lemma settles_primary_token:
  assumes "rec_settles n rec" and "names_known s" and "weight s + token_weight token \<le> n"
  shows "settles 0 s (cg_emit_primary_token rec token s)"
proof -
  have e: "settles 0 s (rec Cg_expression s)" if "is_special_text token x" for x
    using rec_settlesD [OF assms(1,2), of Cg_expression] assms(3) token_weight_positive [of token] that
    by (simp add: is_special_text_def)
  have b: "settles 0 s (cg_emit_block rec s)" if "is_special_text token ''[''"
    using settles_block [OF assms(1,2)] assms(3) that by (simp add: token_weight_def is_special_text_def)
  show ?thesis
    unfolding cg_emit_primary_token_def
    by (intro settles_if settles_identifier assms(2) settles_emit settles_and_also e settles_expect b settles_fails same_class_refl)
qed

lemma settles_primary:
  assumes "rec_settles n rec" and "names_known s" and "weight s \<le> n"
  shows "settles 2 s (cg_parse_primary rec s)"
  unfolding cg_parse_primary_def
proof (rule settles_token)
  fix token s'
  assume t: "weight s' + token_weight token \<le> weight s" "same_class s s'"
  show "settles 2 s (cg_emit_primary_token rec token s')"
  proof (cases "is_eof token")
    case True
    then show ?thesis using t(2) by (simp add: cg_emit_primary_token_def is_literal_token_def is_special_text_def)
  next
    case False
    have "settles 0 s' (cg_emit_primary_token rec token s')"
      using t assms(3) same_class_known [OF t(2) assms(2)] by (intro settles_primary_token [OF assms(1)]) simp_all
    then show ?thesis using t token_weight_positive [OF False] by (elim settles_from) simp_all
  qed
qed

text \<open>Behind a token that is not the end of the text.\<close>

lemma settles_behind:
  assumes "weight s' + token_weight token \<le> weight s" and "same_class s s'" and "\<not> is_eof token" and "settles 0 s' a"
  shows "settles 2 s a" "settles 0 s a"
  using settles_from [OF assms(4), of 2 s] assms token_weight_positive [OF assms(3)] settles_weaken [of 2 s a 0] by auto

lemma settles_unread:
  assumes "weight s' + token_weight token \<le> weight s" and "same_class s s'"
  shows "settles 0 s (Succeeds (unread token s'))"
  using assms unread_weight [of token s'] by simp

lemma settles_unary_expression:
  assumes "rec_settles n rec" and "names_known s" and "weight s \<le> n"
  shows "settles 2 s (cg_parse_unary_expression rec s)"
  unfolding cg_parse_unary_expression_def
  by (intro settles_and_also settles_primary settles_rec [OF assms]) (use assms in simp_all)

text \<open>One round of a loop: a token has been read, the rest of the round ends, and the loop goes on.\<close>

lemma settles_round:
  assumes "rec_settles n rec" and "names_known s" and "weight s \<le> n"
    and "weight s' + token_weight token \<le> weight s" and "same_class s s'" and "\<not> is_eof token"
    and "settles 0 s' a" and "c \<noteq> Codegen_body"
  shows "settles 0 s (and_also a (rec c))"
proof (rule settles_behind(2) [OF assms(4-6)])
  show "settles 0 s' (and_also a (rec c))"
  proof (intro settles_and_also assms(7))
    fix s''
    assume s: "weight s'' + 0 \<le> weight s'" "same_class s' s''"
    show "settles 0 s'' (rec c s'')"
      using assms(4,8) s token_weight_positive [OF assms(6)] same_class_trans [OF assms(5) s(2)]
      by (intro settles_rec [OF assms(1-3)]) simp_all
  qed
qed

lemma settles_unary_rest:
  assumes "rec_settles n rec" and "names_known s" and "weight s \<le> n"
  shows "settles 0 s (cg_unary_rest rec s)"
  unfolding cg_unary_rest_def
proof (intro settles_token settles_if settles_unread)
  fix token s'
  assume t: "weight s' + token_weight token \<le> weight s" "same_class s s'" "\<not> \<not> is_identifier token"
  then show "settles 0 s (and_also (cg_emit_selector_send (token_text token) 0 s') (rec Unary_rest))"
    by (intro settles_round [OF assms t(1,2)] settles_emit) simp_all
qed

lemma settles_binary_message:
  assumes "rec_settles n rec" and "names_known s" and "weight s \<le> n"
  shows "settles 0 s (cg_binary_message rec token s)"
proof -
  have u: "settles 0 s (cg_parse_unary_expression rec (if b then s' else unread second s'))"
    if "weight s' + token_weight second \<le> weight s" "same_class s s'" for b second s'
  proof (rule settles_from)
    let ?s = "if b then s' else unread second s'"
    show w: "weight ?s + 0 \<le> weight s + 2" using that unread_weight [of second s'] by simp
    show "same_class s ?s" using that by simp
    then show "settles 2 ?s (cg_parse_unary_expression rec ?s)"
      using that unread_weight [of second s'] assms(3) same_class_known [OF _ assms(2)]
      by (intro settles_unary_expression [OF assms(1)]) auto
  qed
  show ?thesis
    unfolding cg_binary_message_def Let_def [of "is_binary_token _"] Let_def [of "_ @ _"]
    by (intro settles_token settles_and_also u settles_emit)
qed

lemma settles_binary_rest:
  assumes "rec_settles n rec" and "names_known s" and "weight s \<le> n"
  shows "settles 0 s (cg_binary_rest rec s)"
  unfolding cg_binary_rest_def
proof (intro settles_token settles_if settles_unread)
  fix token s'
  assume t: "weight s' + token_weight token \<le> weight s" "same_class s s'" "\<not> \<not> is_binary_token token"
  show "settles 0 s (and_also (cg_binary_message rec token s') (rec Binary_rest))"
    using t assms(3) same_class_known [OF t(2) assms(2)]
    by (intro settles_round [OF assms t(1,2)] settles_binary_message [OF assms(1)]) (auto simp: is_binary_token_def)
qed

lemma settles_binary_expression:
  assumes "rec_settles n rec" and "names_known s" and "weight s \<le> n"
  shows "settles 2 s (cg_parse_binary_expression rec s)"
  unfolding cg_parse_binary_expression_def
  by (intro settles_and_also settles_unary_expression settles_rec [OF assms]) (use assms in simp_all)

lemma settles_expression:
  assumes "rec_settles n rec" and "names_known s" and "weight s \<le> n"
  shows "settles 2 s (cg_parse_expression rec s)"
  unfolding cg_parse_expression_def
  by (intro settles_and_also settles_binary_expression settles_rec [OF assms]) (use assms in simp_all)

lemma settles_keyword_args:
  assumes "rec_settles n rec" and "names_known s" and "weight s \<le> n"
  shows "settles 0 s (cg_keyword_args rec sel argc s)"
proof -
  have r: "settles 0 s1 (let (token, s) = next_token s1
        in if \<not> is_keyword token then cg_emit_selector_send sel (argc + 1) (unread token s)
           else rec (Keyword_args (name_in SELECTOR_SIZE (sel @ token_text token)) (argc + 1)) s)"
    if s1: "weight s1 + 2 \<le> weight s" "same_class s s1" for s1
  proof (intro settles_token settles_if)
    fix token s'
    assume t: "weight s' + token_weight token \<le> weight s1" "same_class s1 s'"
    show "settles 0 s1 (cg_emit_selector_send sel (argc + 1) (unread token s'))"
      by (rule settles_from [OF settles_send]) (use t unread_weight [of token s'] in simp_all)
    have "settles 0 s' (rec c s')" if "c \<noteq> Codegen_body" for c
      using s1 t same_class_trans [OF s1(2) t(2)] that by (intro settles_rec [OF assms]) simp_all
    then show "settles 0 s1 (rec (Keyword_args (name_in SELECTOR_SIZE (sel @ token_text token)) (argc + 1)) s')"
      using settles_from [of 0 s' _ 0 s1] t by simp
  qed
  have "settles 2 s (cg_keyword_args rec sel argc s)"
    unfolding cg_keyword_args_def by (rule settles_and_also [OF settles_binary_expression [OF assms]]) (rule r)
  then show ?thesis by (rule settles_weaken) simp
qed

lemma settles_continuation:
  assumes "rec_settles n rec" and "names_known s" and "weight s \<le> n"
  shows "settles 0 s (cg_parse_expression_continuation rec s)"
  unfolding cg_parse_expression_continuation_def
proof (intro settles_token)
  fix token s'
  assume t: "weight s' + token_weight token \<le> weight s" "same_class s s'"
  have r: "settles 0 s' (rec c s')" if "c \<noteq> Codegen_body" "\<not> is_eof token" for c
    using t that token_weight_positive [OF that(2)] by (intro settles_rec [OF assms]) simp_all
  show "settles 0 s (if is_eof token \<or> is_terminator token then Succeeds (unread token s')
         else if is_special_text token '';'' then rec Continuation s'
         else if is_identifier token then
           and_also (cg_emit_selector_send (token_text token) 0 s') (rec Continuation)
         else if is_binary_token token then
           and_also (cg_binary_message rec token s') (rec Continuation)
         else if is_keyword token then
           and_also (rec (Keyword_args (name_in SELECTOR_SIZE (token_text token)) 0) s') (rec Continuation)
         else Fails s')"
    using t assms(3) same_class_known [OF t(2) assms(2)]
    by (intro settles_if settles_unread settles_round [OF assms t] settles_behind(2) [OF t] settles_emit r
        settles_binary_message [OF assms(1)]) simp_all
qed

section \<open>Statements\<close>

lemma settles_saw_return: "settles 0 s (Succeeds (s\<lparr>saw_return := True\<rparr>))"
  by simp

lemma settles_restoring: "settles d s' a \<Longrightarrow> same_class s s' \<Longrightarrow> settles 0 s (restoring (parser s) a)"
  using same_class_trans [of s s'] by (cases a) auto

lemma settles_inline:
  assumes "rec_settles n rec" and "names_known s" and "text_weight src + 1 < n"
  shows "settles 0 s (cg_emit_inline_expression rec src s)" "settles 0 s (cg_emit_inline_statements rec src s)"
proof -
  let ?s = "s\<lparr>parser := bp_init src\<rparr>"
  have w: "weight ?s = text_weight src" by (simp add: parser_weight_def bp_init_def bt_init_def)
  have k: "names_known ?s" using assms(2) by (simp add: names_known_def)
  have "settles 0 ?s (and_also (rec Cg_expression ?s)
      (\<lambda>s. let (eof, s) = next_token s in if is_eof eof then Succeeds s else Fails s))"
    by (intro settles_and_also rec_settlesD [OF assms(1) k] settles_expect) (use assms(3) w in simp_all)
  then show "settles 0 s (cg_emit_inline_expression rec src s)"
    unfolding cg_emit_inline_expression_def by (rule settles_restoring) simp
  have "settles 0 ?s (rec Cg_statements ?s)"
    by (intro rec_settlesD [OF assms(1) k]) (use assms(3) w in simp_all)
  then show "settles 0 s (cg_emit_inline_statements rec src s)"
    unfolding cg_emit_inline_statements_def by (rule settles_restoring) simp
qed

lemma settles_loop:
  assumes "rec_settles n rec" and "names_known s" and "text_weight condition_source + 1 < n" and "text_weight body_source + 1 < n"
  shows "settles 0 s (emit_loop rec condition_source body_source s)"
proof -
  have nil: "settles 0 s (cg_emit_push_literal_token nil_token (cg_patch_u32 i v s))" for i v s
    unfolding cg_emit_push_literal_token_def
    by (rule settles_from [OF settles_with_literal]) (simp_all add: cg_patch_u32_def)
  have j: "settles 0 s (cg_emit_jump_placeholder b s)" for b s
    unfolding cg_emit_jump_placeholder_def by (rule settles_emit_op)
  show ?thesis
    unfolding emit_loop_def Let_def
  proof (intro settles_and_also settles_inline(1) [OF assms(1) _ assms(3)] assms(2) nil j settles_emit)
    fix s1 s2
    assume "same_class s s1" "same_class s1 s2"
    then have "same_class s s2" using same_class_trans by blast
    then show "settles 0 s2 (cg_emit_inline_statements rec body_source s2)"
      using same_class_known [OF _ assms(2)] by (intro settles_inline(2) [OF assms(1) _ assms(4)])
  qed
qed

lemma settles_while_true:
  assumes "rec_settles n rec" and "names_known s" and "weight s + 2 \<le> n"
  shows "settles 0 s (cg_parse_while_true_statement rec s)"
proof -
  have captured: "settles 0 t (case cg_capture_block_source_from_open t of Inl failed \<Rightarrow> failed | Inr (src, t) \<Rightarrow> f src t)"
    if f: "\<And>src t'. weight t' \<le> weight t \<Longrightarrow> same_class t t' \<Longrightarrow> text_weight src \<le> weight t \<Longrightarrow> settles 0 t' (f src t')" for t f
  proof (cases "cg_capture_block_source_from_open t")
    case (Inl a)
    then show ?thesis using capture_block_ends(1) [OF Inl] by simp
  next
    case (Inr r)
    obtain src t' where r: "r = (src, t')" by (cases r)
    note c = capture_block_ends(2) [OF Inr [unfolded r]]
    then have "settles 0 t' (f src t')" using f by blast
    then show ?thesis using c settles_from [of 0 t' _ 0 t] by (simp add: Inr r)
  qed
  show ?thesis
    unfolding cg_parse_while_true_statement_def
  proof (rule captured)
    fix condition_source s1
    assume s1: "weight s1 \<le> weight s" "same_class s s1" "text_weight condition_source \<le> weight s"
    have loop: "settles 0 s3 (case cg_capture_block_source_from_open s3 of Inl failed \<Rightarrow> failed
        | Inr (body_source, s) \<Rightarrow> emit_loop rec condition_source body_source s)"
      if s3: "weight s3 \<le> weight s" "same_class s s3" for s3
    proof (rule captured)
      fix body_source s4
      assume s4: "weight s4 \<le> weight s3" "same_class s3 s4" "text_weight body_source \<le> weight s3"
      show "settles 0 s4 (emit_loop rec condition_source body_source s4)"
        using s1 s3 s4 assms(3) same_class_known [OF same_class_trans [OF s3(2) s4(2)] assms(2)]
        by (intro settles_loop [OF assms(1)]) simp_all
    qed
    show "settles 0 s1 (let (keyword, s) = next_token s1
          in if \<not> (is_keyword keyword \<and> token_text keyword = ''whileTrue:'') then Fails s
             else
               let (body_open, s) = next_token s
               in if \<not> is_special_text body_open ''['' then Fails s
                  else case cg_capture_block_source_from_open s of
                         Inl failed \<Rightarrow> failed
                       | Inr (body_source, s) \<Rightarrow> emit_loop rec condition_source body_source s)"
    proof (intro settles_token_then settles_if)
      fix keyword s2 body_open s3
      assume s2: "weight s2 + token_weight keyword \<le> weight s1" "same_class s1 s2"
        and s3: "weight s3 + token_weight body_open \<le> weight s2" "same_class s2 s3"
      have "same_class s s3" using s1(2) s2(2) s3(2) same_class_trans by blast
      then show "settles 0 s3 (case cg_capture_block_source_from_open s3 of Inl failed \<Rightarrow> failed
          | Inr (body_source, s) \<Rightarrow> emit_loop rec condition_source body_source s)"
        using s1(1) s2(1) s3(1) by (intro loop) simp_all
    qed simp_all
  qed
qed

lemma settles_after_statement:
  assumes "rec_settles n rec" and "names_known s" and "weight s \<le> n"
  shows "settles 0 s (after_expression rec s)" "settles 0 s (after_loop rec s)" "settles 0 s (after_assignment rec s)"
proof -
  have pop: "settles 0 s (and_also (cg_emit_byte BC_CG_POP s') (rec Cg_statements))"
    and go: "settles 0 s (rec Cg_statements s')"
    if "weight s' + token_weight token \<le> weight s" "same_class s s'" "\<not> \<not> is_special_text token ''.''" for token s'
  proof -
    have e: "\<not> is_eof token" using that(3) by (auto simp: is_special_text_def)
    show "settles 0 s (and_also (cg_emit_byte BC_CG_POP s') (rec Cg_statements))"
      by (intro settles_round [OF assms that(1,2) e] settles_emit) simp
    have "settles 0 s' (rec Cg_statements s')"
      using that token_weight_positive [OF e] by (intro settles_rec [OF assms]) simp_all
    then show "settles 0 s (rec Cg_statements s')" by (rule settles_behind(2) [OF that(1,2) e])
  qed
  have return: "settles 0 s (and_also (cg_emit_byte BC_CG_RETURN s') (\<lambda>s. Succeeds (s\<lparr>saw_return := True\<rparr>)))"
    if "weight s' + token_weight token \<le> weight s" "same_class s s'" for token s'
    by (rule settles_from [of 0 s']) (use that in \<open>auto intro!: settles_and_also settles_emit\<close>)
  show "settles 0 s (after_expression rec s)"
    unfolding after_expression_def by (intro settles_token settles_if) (blast intro: return pop settles_fails)+
  show "settles 0 s (after_loop rec s)"
    unfolding after_loop_def by (intro settles_token settles_if) (auto intro: pop)
  show "settles 0 s (after_assignment rec s)"
    unfolding after_assignment_def by (intro settles_token settles_if) (auto intro: go)
qed

lemma settles_return_statement:
  assumes "rec_settles n rec" and "names_known s" and "weight s < n"
  shows "settles 0 s (return_statement rec s)"
proof -
  have eof: "settles 0 s (let (eof, s) = next_token (s\<lparr>saw_return := True\<rparr>) in if is_eof eof then Succeeds s else Fails s)" for s
    by (rule settles_from [OF settles_expect]) simp_all
  show ?thesis
    unfolding return_statement_def
    by (intro settles_and_also rec_settlesD [OF assms(1,2)] settles_emit eof) (use assms(3) in simp_all)
qed

text \<open>An expression statement that starts in \<open>t\<close>, which does not weigh more than \<open>s\<close>.\<close>

lemma settles_expression_statement:
  assumes "rec_settles n rec" and "names_known s" and "weight s < n" and "weight t \<le> weight s" and "same_class s t"
  shows "settles 0 s (and_also (rec Cg_expression t) (after_expression rec))"
proof -
  note k = same_class_known [OF assms(5,2)]
  have "settles 0 t (and_also (rec Cg_expression t) (after_expression rec))"
  proof (intro settles_and_also)
    show "settles 0 t (rec Cg_expression t)" using assms(3,4) by (intro rec_settlesD [OF assms(1) k]) simp_all
    fix s'
    assume s': "weight s' + 0 \<le> weight t" "same_class t s'"
    show "settles 0 s' (after_expression rec s')"
      using s' assms(3,4) same_class_known [OF s'(2) k] by (intro settles_after_statement(1) [OF assms(1)]) simp_all
  qed
  then show ?thesis by (rule settles_from) (use assms in simp_all)
qed

lemma settles_bracket_statement:
  assumes "rec_settles n rec" and "names_known s" and "weight s < n"
    and "weight t + token_weight token \<le> weight s" and "same_class s t" and "is_special_text token ''[''"
  shows "settles 0 s (bracket_statement rec token t)"
proof -
  have w: "weight t + 12 \<le> weight s" using assms(4,6) by (simp add: token_weight_def is_special_text_def)
  have l: "settles 0 t (cg_parse_while_true_statement rec t)"
    using w assms(3) by (intro settles_while_true [OF assms(1)] same_class_known [OF assms(5,2)]) simp
  show ?thesis
  proof (cases "cg_parse_while_true_statement rec t")
    case (Succeeds s')
    then have s': "weight s' \<le> weight t" "same_class s s'" using l same_class_trans [OF assms(5)] by simp_all
    have "settles 0 s' (after_loop rec s')"
      using s' w assms(3) by (intro settles_after_statement(2) [OF assms(1)] same_class_known [OF s'(2) assms(2)]) simp
    then have "settles 0 s (after_loop rec s')" by (rule settles_from) (use s' w in simp_all)
    then show ?thesis by (simp add: bracket_statement_def Succeeds)
  next
    case (Fails s')
    let ?s = "unread token (s'\<lparr>parser := parser t\<rparr>)"
    have "same_class s ?s" using l Fails same_class_trans [OF assms(5)] by simp
    moreover have "weight ?s \<le> weight s" using unread_weight [of token "s'\<lparr>parser := parser t\<rparr>"] assms(4) by simp
    ultimately have "settles 0 s (and_also (rec Cg_expression ?s) (after_expression rec))"
      by (intro settles_expression_statement [OF assms(1-3)])
    then show ?thesis by (simp add: bracket_statement_def Fails)
  qed (use l in \<open>simp_all add: bracket_statement_def\<close>)
qed

lemma settles_assignment:
  assumes "rec_settles n rec" and "names_known s" and "weight s < n"
  shows "settles 0 s (assignment rec name s)"
proof -
  have store: "settles 0 t (and_also (rec Cg_expression t) (\<lambda>s. emit_op b (f s) s))"
    if "weight t \<le> weight s" "same_class s t" for b f t
    using that assms(3) same_class_known [OF that(2) assms(2)]
    by (intro settles_and_also rec_settlesD [OF assms(1)] settles_emit) simp_all
  obtain i t where t: "cg_inst_var_index name s = Some (i, t)" "weight t = weight s" "same_class s t"
    using inst_var_index_known [OF assms(2)] by blast
  have inst: "settles 0 s (case i of None \<Rightarrow> Fails t | Some j \<Rightarrow> and_also (rec Cg_expression t) (emit_op BC_CG_STORE_INST_VAR j))"
    using t settles_from [OF store [of t BC_CG_STORE_INST_VAR "\<lambda>s. the i"], of 0 s] by (cases i) simp_all
  show ?thesis
    unfolding assignment_def using inst by (auto simp: t(1) split: option.split intro!: store)
qed

lemma settles_identifier_statement:
  assumes "rec_settles n rec" and "names_known s" and "weight s + 2 \<le> n" and "weight s + token_weight token \<le> n"
  shows "settles 0 s (identifier_statement rec token s)"
  unfolding identifier_statement_def
proof (intro settles_token settles_if)
  fix other t
  assume t: "weight t + token_weight other \<le> weight s" "same_class s t"
  have after: "settles 0 u (f rec u)"
    if "weight u \<le> weight s" "same_class s u" "f = after_expression \<or> f = after_assignment" for f u
    using that assms(3) settles_after_statement [OF assms(1) same_class_known [OF that(2) assms(2)]] by auto
  show "settles 0 s (and_also (assignment rec (token_text token) t) (after_assignment rec))"
  proof (rule settles_from [of 0 t])
    show "settles 0 t (and_also (assignment rec (token_text token) t) (after_assignment rec))"
      using t assms(3) same_class_known [OF t(2) assms(2)]
      by (intro settles_and_also settles_assignment [OF assms(1)] after) (auto intro: same_class_trans)
  qed (use t in simp_all)
  let ?u = "unread other t"
  have u: "weight ?u \<le> weight s" "same_class s ?u" using t unread_weight [of other t] by simp_all
  show "settles 0 s (and_also (and_also (cg_emit_primary_token rec token ?u) (rec Continuation)) (after_expression rec))"
  proof (rule settles_from [of 0 ?u])
    have c: "settles 0 v (rec Continuation v)" if "weight v \<le> weight ?u" "same_class ?u v" for v
      using that u assms(3) same_class_known [OF same_class_trans [OF u(2) that(2)] assms(2)]
      by (intro rec_settlesD [OF assms(1)]) simp_all
    show "settles 0 ?u (and_also (and_also (cg_emit_primary_token rec token ?u) (rec Continuation)) (after_expression rec))"
      using u assms(4) same_class_known [OF u(2) assms(2)]
      by (intro settles_and_also settles_primary_token [OF assms(1)] c after) (auto intro: same_class_trans)
  qed (use u in simp_all)
qed

lemma settles_statements:
  assumes "rec_settles n rec" and "names_known s" and "weight s < n"
  shows "settles 0 s (cg_parse_statements rec s)"
  unfolding cg_parse_statements_def
proof (intro settles_token)
  fix token t
  assume t: "weight t + token_weight token \<le> weight s" "same_class s t"
  note k = same_class_known [OF t(2) assms(2)]
  have n: "weight s \<le> n" using assms(3) by simp
  have u: "weight (unread token t) \<le> weight s" using t(1) unread_weight [of token t] by simp
  have p: "weight t + 2 \<le> weight s" if "\<not> is_eof token" using t(1) token_weight_positive [OF that] by simp
  show "settles 0 s (if is_eof token then Succeeds t
         else if is_special_text token ''.'' then rec Cg_statements t
         else if is_special_text token ''^'' then return_statement rec t
         else if is_special_text token ''['' then bracket_statement rec token t
         else if is_identifier token then identifier_statement rec token t
         else and_also (rec Cg_expression (unread token t)) (after_expression rec))"
  proof (intro settles_if settles_bracket_statement [OF assms t] settles_expression_statement [OF assms u])
    assume e: "\<not> is_eof token"
    show "settles 0 s (rec Cg_statements t)"
      using p [OF e] t(2) by (intro settles_behind(2) [OF t e] settles_rec [OF assms(1,2) n]) simp_all
    show "settles 0 s (return_statement rec t)"
      using p [OF e] assms(3) by (intro settles_behind(2) [OF t e] settles_return_statement [OF assms(1) k]) simp
    show "settles 0 s (identifier_statement rec token t)"
      using p [OF e] t(1) assms(3)
      by (intro settles_behind(2) [OF t e] settles_identifier_statement [OF assms(1) k]) simp_all
  qed (use t in simp_all)
qed

section \<open>Bodies\<close>

lemma settles_parse_temps: "settles 0 s (parse_temps s)"
proof (induction s rule: parse_temps.induct)
  case (1 s)
  obtain temp t where n: "next_token s = (temp, t)" by fastforce
  have t: "weight t \<le> weight s" "same_class s t" using next_token_weight [OF n] by auto
  let ?next = "t\<lparr>body := (body t)\<lparr>temp_names := temp_names (body t) @ [name_in NAME_SIZE (token_text temp)]\<rparr>\<rparr>"
  show ?case
  proof (cases "is_special_text temp ''|'' \<or> \<not> is_identifier temp \<or> length (temp_names (body t)) \<ge> MAX_TEMPS")
    case True
    then show ?thesis using t parse_temps.simps [of s] by (auto simp: n)
  next
    case False
    then have "settles 0 ?next (parse_temps ?next)" using "1.IH" [OF n [symmetric]] by simp
    then have "settles 0 s (parse_temps ?next)" by (rule settles_from) (use t in simp_all)
    then show ?thesis using False parse_temps.simps [of s] by (simp add: n)
  qed
qed

lemma block_header_ends:
  "block_header h s = (r, s') \<Longrightarrow> weight s' \<le> weight s \<and> same_class s s'"
proof (induction h s arbitrary: r s' rule: block_header.induct)
  case (1 h s)
  obtain arg s1 where a: "next_token s = (arg, s1)" by fastforce
  obtain token s2 where b: "next_token s1 = (token, s2)" by fastforce
  have s1: "weight s1 \<le> weight s" "same_class s s1" using next_token_weight [OF a] by auto
  have s2: "weight s2 \<le> weight s1" "same_class s1 s2" using next_token_weight [OF b] by auto
  let ?h = "h\<lparr>arg_names := arg_names h @ [name_in NAME_SIZE (token_text arg)]\<rparr>"
  show ?case
  proof (cases "\<not> is_identifier arg \<or> length (arg_names h) \<ge> MAX_ARGS \<or> \<not> is_special_text token '':''")
    case True
    then have "s' = s1 \<or> s' = s2" using "1.prems" block_header.simps [of h s] by (auto simp: a b split: if_splits)
    then show ?thesis using s1 s2 same_class_trans [OF s1(2) s2(2)] by auto
  next
    case False
    then have "block_header ?h s2 = (r, s')" using "1.prems" block_header.simps [of h s] by (simp add: a b)
    then have "weight s' \<le> weight s2 \<and> same_class s2 s'"
      using "1.IH" [OF a [symmetric] refl _ refl b [symmetric] refl] False by simp
    then show ?thesis using s1 s2 same_class_trans same_class_trans [OF s1(2) s2(2)] by auto
  qed
qed

lemma settles_enter_scope: "settles 0 s (enter_scope s)"
proof -
  obtain token s1 where n: "next_token s = (token, s1)" by fastforce
  have s1: "weight s1 + token_weight token \<le> weight s" "same_class s s1" using next_token_weight [OF n] by auto
  have "weight t \<le> weight s \<and> same_class s t" if "cg_parse_block_header s = (r, t)" for r t
    using that s1 block_header_ends [of empty_header s1 r t] unread_weight [of token s1] same_class_trans [OF s1(2)]
    by (auto simp: cg_parse_block_header_def n split: if_splits)
  then show ?thesis by (auto simp: enter_scope_def split: prod.split option.split)
qed

lemma settles_temp_decls: "settles 0 s (cg_parse_temp_decls s)"
  unfolding cg_parse_temp_decls_def
proof (intro settles_token settles_if settles_unread)
  fix token t
  assume t: "weight t + token_weight token \<le> weight s" "same_class s t"
  then show "settles 0 s (parse_temps t)" by (intro settles_from [OF settles_parse_temps]) simp_all
qed

lemma settles_end_block: "settles 0 s (end_block s)"
  unfolding end_block_def cg_emit_push_literal_token_def by (intro settles_if settles_and_also settles_emit settles_saw_return) simp

lemma body_does_not_run_out:
  assumes "rec_settles n rec" and "names_known s" and "weight s + 1 < n"
  shows "bc_codegen_body_with_outer_state rec s \<noteq> Runs_out"
proof -
  let ?a = "and_also (and_also (and_also (enter_scope s) cg_parse_temp_decls) (rec Cg_statements)) end_block"
  have "settles 0 s ?a"
  proof (intro settles_and_also settles_enter_scope settles_temp_decls settles_end_block)
    fix t
    assume t: "weight t + 0 \<le> weight s" "same_class s t"
    then show "settles 0 t (rec Cg_statements t)"
      using assms(3) same_class_known [OF t(2) assms(2)] by (intro rec_settlesD [OF assms(1)]) simp_all
  qed
  then show ?thesis by (cases ?a) (simp_all add: bc_codegen_body_with_outer_state_def Let_def)
qed

lemma cg_run_ends: "rec_settles n (cg_run n)"
proof (induction n)
  case 0
  then show ?case by (simp add: rec_settles_def)
next
  case (Suc n)
  have "settles 0 s (cg_step (cg_run n) c s)"
    if "c \<noteq> Codegen_body" "names_known s" "weight s + call_rank c \<le> n" for c s
  proof -
    have w: "weight s \<le> n" using that(3) by simp
    show ?thesis
      using that settles_unary_rest [OF Suc that(2) w] settles_binary_rest [OF Suc that(2) w]
        settles_continuation [OF Suc that(2) w] settles_keyword_args [OF Suc that(2) w]
        settles_weaken [OF settles_expression [OF Suc that(2) w]] settles_statements [OF Suc that(2)]
      by (cases c) simp_all
  qed
  then have other: "cg_run (Suc n) c s \<noteq> Runs_out \<and> settles 0 s (cg_run (Suc n) c s)"
    if "c \<noteq> Codegen_body" "names_known s" "weight s + call_rank c < Suc n" for c s
    using that by (cases "cg_step (cg_run n) c s") fastforce+
  show ?case
    unfolding rec_settles_def
  proof (intro allI impI)
    fix c s
    assume s: "names_known s \<and> weight s + call_rank c < Suc n"
    show "cg_run (Suc n) c s \<noteq> Runs_out \<and> (c \<noteq> Codegen_body \<longrightarrow> settles 0 s (cg_run (Suc n) c s))"
    proof (cases "c = Codegen_body")
      case True
      then show ?thesis using body_does_not_run_out [OF Suc] s by simp
    qed (use other s in blast)
  qed
qed

text \<open>
  C8. The compiler comes to an end: for every source, with fuel for more than twelve calls for each
  character the code generator has an answer - compiled code, a failure, or a write behind one of
  its arrays. The class the method is for, if there is one, must have its superclasses in a chain
  that ends; the code generator walks it for the names of the instance variables.
\<close>

theorem codegen_ends:
  assumes "12 * length src + 2 < fuel"
    and "klass = 0 \<or> (\<forall>name. bc_class_inst_var_index m klass name \<noteq> None)"
  shows "bc_codegen_body fuel m src h klass \<noteq> Runs_out"
proof -
  let ?s = "method_state m src h klass"
  have "weight ?s = text_weight src" by (simp add: method_state_def parser_weight_def bp_init_def bt_init_def)
  then have "weight ?s + call_rank Codegen_body < fuel" using text_weight_bounds(2) [of src] assms(1) by simp
  moreover have "names_known ?s" using assms(2) by (simp add: names_known_def method_state_def)
  ultimately show ?thesis using cg_run_ends [of fuel] by (simp add: rec_settles_def bc_codegen_body_def)
qed

theorem codegen_ends_witness: "bc_codegen_body 40 (\<lambda>_. 0) ''[x]'' None 0 \<noteq> Runs_out"
  by (rule codegen_ends) simp_all

end
