(* ===== verification/Codegen_Fuel.thy ===== *)
theory Codegen_Fuel
  imports Codegen_Ends
begin

text \<open>
  The code generator without fuel. More fuel never changes an answer, so the answers have a limit, and
  the limit satisfies the equations of the code generator.
\<close>

section \<open>More fuel\<close>

definition extends :: "'s attempt \<Rightarrow> 's attempt \<Rightarrow> bool" where
  "extends a b \<longleftrightarrow> a = Runs_out \<or> a = b"

definition rec_extends :: "cg_rec \<Rightarrow> cg_rec \<Rightarrow> bool" where
  "rec_extends rec rec' \<longleftrightarrow> (\<forall>c s. extends (rec c s) (rec' c s))"

named_theorems fuel_mono \<open>functions that answer the same when the calls they make do\<close>

lemma extends_refl [fuel_mono]: "extends a a"
  by (simp add: extends_def)

lemma extends_trans: "extends a b \<Longrightarrow> extends b c \<Longrightarrow> extends a c"
  by (auto simp: extends_def)

lemma extends_call: "rec_extends rec rec' \<Longrightarrow> extends (rec c s) (rec' c s)"
  by (simp add: rec_extends_def)

lemma extends_and_also [fuel_mono]:
  "extends a b \<Longrightarrow> (\<And>s. extends (f s) (g s)) \<Longrightarrow> extends (and_also a f) (and_also b g)"
  by (cases a; cases b) (auto simp: extends_def)

lemma extends_if [fuel_mono]:
  "(P \<Longrightarrow> extends a b) \<Longrightarrow> (\<not> P \<Longrightarrow> extends c d) \<Longrightarrow> extends (if P then a else c) (if P then b else d)"
  by simp

lemma extends_token [fuel_mono]:
  "(\<And>token s. extends (f token s) (g token s)) \<Longrightarrow>
    extends (let (token, s) = next_token s in f token s) (let (token, s) = next_token s in g token s)"
  by (simp add: split_def Let_def)

lemma extends_option [fuel_mono]:
  "extends a b \<Longrightarrow> (\<And>x. extends (f x) (g x)) \<Longrightarrow>
    extends (case x of None \<Rightarrow> a | Some y \<Rightarrow> f y) (case x of None \<Rightarrow> b | Some y \<Rightarrow> g y)"
  by (cases x) simp_all

lemma extends_prod [fuel_mono]:
  "(\<And>x y. extends (f x y) (g x y)) \<Longrightarrow> extends (case p of (x, y) \<Rightarrow> f x y) (case p of (x, y) \<Rightarrow> g x y)"
  by (cases p) simp

lemma extends_sum [fuel_mono]:
  "(\<And>x. extends (f x) (f' x)) \<Longrightarrow> (\<And>y. extends (g y) (g' y)) \<Longrightarrow>
    extends (case r of Inl x \<Rightarrow> f x | Inr y \<Rightarrow> g y) (case r of Inl x \<Rightarrow> f' x | Inr y \<Rightarrow> g' y)"
  by (cases r) simp_all

lemma extends_attempt [fuel_mono]:
  assumes "extends a b" and "\<And>s. extends (f s) (f' s)" and "\<And>s. extends (g s) (g' s)"
  shows "extends (case a of Succeeds s \<Rightarrow> f s | Fails s \<Rightarrow> g s | Overruns \<Rightarrow> Overruns | Runs_out \<Rightarrow> Runs_out)
      (case b of Succeeds s \<Rightarrow> f' s | Fails s \<Rightarrow> g' s | Overruns \<Rightarrow> Overruns | Runs_out \<Rightarrow> Runs_out)"
  using assms unfolding extends_def by (cases a) (auto split: attempt.split)

lemma extends_restoring [fuel_mono]: "extends a b \<Longrightarrow> extends (restoring p a) (restoring p b)"
  by (auto simp: extends_def)

lemma cg_emit_block_mono [fuel_mono]:
  assumes "rec_extends rec rec'"
  shows "extends (cg_emit_block rec s) (cg_emit_block rec' s)"
  unfolding cg_emit_block_def cg_compile_and_store_block_def Let_def
  by (cases "cg_skip_block_literal s") (auto intro!: fuel_mono assms extends_call [OF assms])

lemma primary_mono [fuel_mono]:
  assumes "rec_extends rec rec'"
  shows "extends (cg_emit_primary_token rec token s) (cg_emit_primary_token rec' token s)"
    "extends (cg_parse_primary rec s) (cg_parse_primary rec' s)"
proof -
  show p: "extends (cg_emit_primary_token rec token s) (cg_emit_primary_token rec' token s)" for token s
    unfolding cg_emit_primary_token_def by (intro fuel_mono assms extends_call [OF assms])
  show "extends (cg_parse_primary rec s) (cg_parse_primary rec' s)"
    unfolding cg_parse_primary_def by (intro fuel_mono p)
qed

lemma expression_mono [fuel_mono]:
  assumes "rec_extends rec rec'"
  shows "extends (cg_parse_unary_expression rec s) (cg_parse_unary_expression rec' s)"
    "extends (cg_unary_rest rec s) (cg_unary_rest rec' s)"
    "extends (cg_binary_message rec token s) (cg_binary_message rec' token s)"
    "extends (cg_binary_rest rec s) (cg_binary_rest rec' s)"
    "extends (cg_parse_binary_expression rec s) (cg_parse_binary_expression rec' s)"
    "extends (cg_keyword_args rec sel argc s) (cg_keyword_args rec' sel argc s)"
    "extends (cg_parse_expression_continuation rec s) (cg_parse_expression_continuation rec' s)"
    "extends (cg_parse_expression rec s) (cg_parse_expression rec' s)"
proof -
  show u: "extends (cg_parse_unary_expression rec s) (cg_parse_unary_expression rec' s)" for s
    unfolding cg_parse_unary_expression_def by (intro fuel_mono assms extends_call [OF assms])
  show "extends (cg_unary_rest rec s) (cg_unary_rest rec' s)"
    unfolding cg_unary_rest_def by (intro fuel_mono assms extends_call [OF assms])
  show m: "extends (cg_binary_message rec token s) (cg_binary_message rec' token s)" for token s
    unfolding cg_binary_message_def Let_def [of "is_binary_token _"] Let_def [of "_ @ _"]
    by (intro fuel_mono assms extends_call [OF assms] u)
  show "extends (cg_binary_rest rec s) (cg_binary_rest rec' s)"
    unfolding cg_binary_rest_def by (intro fuel_mono assms extends_call [OF assms] m)
  show b: "extends (cg_parse_binary_expression rec s) (cg_parse_binary_expression rec' s)" for s
    unfolding cg_parse_binary_expression_def by (intro fuel_mono assms extends_call [OF assms] u)
  show "extends (cg_keyword_args rec sel argc s) (cg_keyword_args rec' sel argc s)"
    unfolding cg_keyword_args_def by (intro fuel_mono assms extends_call [OF assms] b)
  show "extends (cg_parse_expression_continuation rec s) (cg_parse_expression_continuation rec' s)"
    unfolding cg_parse_expression_continuation_def by (intro fuel_mono assms extends_call [OF assms] m)
  show "extends (cg_parse_expression rec s) (cg_parse_expression rec' s)"
    unfolding cg_parse_expression_def by (intro fuel_mono assms extends_call [OF assms] b)
qed

lemma while_true_mono [fuel_mono]:
  assumes "rec_extends rec rec'"
  shows "extends (cg_parse_while_true_statement rec s) (cg_parse_while_true_statement rec' s)"
  unfolding cg_parse_while_true_statement_def emit_loop_def cg_emit_inline_expression_def
    cg_emit_inline_statements_def Let_def [of "code_length _"] Let_def [of "code_length _ + 1"]
  by (intro fuel_mono assms extends_call [OF assms])

lemma after_statement_mono [fuel_mono]:
  assumes "rec_extends rec rec'"
  shows "extends (after_expression rec s) (after_expression rec' s)" "extends (after_loop rec s) (after_loop rec' s)"
    "extends (after_assignment rec s) (after_assignment rec' s)"
  unfolding after_expression_def after_loop_def after_assignment_def by (intro fuel_mono assms extends_call [OF assms])+

lemma bracket_statement_mono [fuel_mono]:
  assumes "rec_extends rec rec'"
  shows "extends (bracket_statement rec token s) (bracket_statement rec' token s)"
proof -
  have w: "extends (cg_parse_while_true_statement rec s) (cg_parse_while_true_statement rec' s)"
    by (intro fuel_mono assms extends_call [OF assms])
  show ?thesis
  proof (cases "cg_parse_while_true_statement rec s = Runs_out")
    case False
    then have "cg_parse_while_true_statement rec' s = cg_parse_while_true_statement rec s"
      using w by (simp add: extends_def)
    then show ?thesis
      by (cases "cg_parse_while_true_statement rec s") (auto simp: bracket_statement_def intro!: fuel_mono assms extends_call [OF assms])
  qed (simp add: bracket_statement_def extends_def)
qed

lemma statement_mono [fuel_mono]:
  assumes "rec_extends rec rec'"
  shows "extends (return_statement rec s) (return_statement rec' s)"
    "extends (assignment rec name s) (assignment rec' name s)"
    "extends (identifier_statement rec token s) (identifier_statement rec' token s)"
    "extends (cg_parse_statements rec s) (cg_parse_statements rec' s)"
proof -
  show r: "extends (return_statement rec s) (return_statement rec' s)" for s
    unfolding return_statement_def by (intro fuel_mono assms extends_call [OF assms])
  show a: "extends (assignment rec name s) (assignment rec' name s)" for name s
    unfolding assignment_def by (intro fuel_mono assms extends_call [OF assms])
  show i: "extends (identifier_statement rec token s) (identifier_statement rec' token s)" for token s
    unfolding identifier_statement_def by (intro fuel_mono assms extends_call [OF assms] a)
  show "extends (cg_parse_statements rec s) (cg_parse_statements rec' s)"
    unfolding cg_parse_statements_def by (intro fuel_mono assms extends_call [OF assms] r i)
qed

lemma body_mono [fuel_mono]:
  assumes "rec_extends rec rec'"
  shows "extends (bc_codegen_body_with_outer_state rec s) (bc_codegen_body_with_outer_state rec' s)"
  unfolding bc_codegen_body_with_outer_state_def by (intro fuel_mono assms extends_call [OF assms])

lemma cg_step_mono: "rec_extends rec rec' \<Longrightarrow> rec_extends (cg_step rec) (cg_step rec')"
  unfolding rec_extends_def [of "cg_step rec"]
proof (intro allI)
  fix c s
  assume "rec_extends rec rec'"
  then show "extends (cg_step rec c s) (cg_step rec' c s)" by (cases c) (simp_all add: fuel_mono)
qed

lemma cg_run_Suc: "rec_extends (cg_run n) (cg_run (Suc n))"
proof (induction n)
  case 0
  then show ?case by (simp add: rec_extends_def extends_def)
next
  case (Suc n)
  then show ?case using cg_step_mono by simp
qed

lemma cg_run_mono: "n \<le> m \<Longrightarrow> extends (cg_run n c s) (cg_run m c s)"
proof (induction rule: dec_induct)
  case (step k)
  have "extends (cg_run k c s) (cg_run (Suc k) c s)" using cg_run_Suc [of k] unfolding rec_extends_def by blast
  then show ?case by (rule extends_trans [OF step.IH])
qed (rule extends_refl)

section \<open>The limit\<close>

definition cg :: cg_rec where
  "cg c s = (if \<exists>n. cg_run n c s \<noteq> Runs_out then cg_run (LEAST n. cg_run n c s \<noteq> Runs_out) c s else Runs_out)"

lemma cg_run_extends: "extends (cg_run n c s) (cg c s)"
proof (cases "cg_run n c s = Runs_out")
  case False
  let ?k = "LEAST n. cg_run n c s \<noteq> Runs_out"
  have k: "?k \<le> n" "cg_run ?k c s \<noteq> Runs_out"
    using Least_le [of "\<lambda>n. cg_run n c s \<noteq> Runs_out", OF False] LeastI [of "\<lambda>n. cg_run n c s \<noteq> Runs_out", OF False]
    by simp_all
  then have "cg_run ?k c s = cg_run n c s" using cg_run_mono [OF k(1), of c s] by (simp add: extends_def)
  then show ?thesis using False by (auto simp: cg_def extends_def)
qed (simp add: extends_def)

lemma cg_is_run: "\<exists>n. cg c s = cg_run (Suc n) c s"
proof (cases "\<exists>n. cg_run n c s \<noteq> Runs_out")
  case True
  let ?k = "LEAST n. cg_run n c s \<noteq> Runs_out"
  have k: "cg_run ?k c s \<noteq> Runs_out" using True by (rule LeastI_ex)
  then have "?k \<noteq> 0" by (metis cg_run.simps(1))
  then obtain j where "?k = Suc j" by (cases ?k) auto
  then show ?thesis using True by (metis cg_def)
next
  case False
  then have "cg c s = Runs_out" by (simp add: cg_def)
  moreover have "cg_run (Suc 0) c s = Runs_out" using False by blast
  ultimately show ?thesis by metis
qed

lemma cg_ends: "names_known s \<Longrightarrow> cg c s \<noteq> Runs_out"
proof -
  assume "names_known s"
  then have "cg_run (Suc (weight s + call_rank c)) c s \<noteq> Runs_out"
    using cg_run_ends [of "Suc (weight s + call_rank c)"] unfolding rec_settles_def by blast
  then show ?thesis using cg_run_extends [of "Suc (weight s + call_rank c)" c s] unfolding extends_def by metis
qed

lemma cg_equation: "names_known s \<Longrightarrow> cg c s = cg_step cg c s"
proof -
  assume k: "names_known s"
  obtain n where n: "cg c s = cg_run (Suc n) c s" using cg_is_run by blast
  have "rec_extends (cg_run n) cg" by (simp add: rec_extends_def cg_run_extends)
  then have "extends (cg_run (Suc n) c s) (cg_step cg c s)" using cg_step_mono by (simp add: rec_extends_def)
  then show ?thesis using n cg_ends [OF k, of c] by (simp add: extends_def)
qed

lemma cg_run_enough:
  assumes "names_known s" and "weight s + call_rank c < n"
  shows "cg_run n c s = cg c s"
proof -
  have "cg_run n c s \<noteq> Runs_out" using cg_run_ends [of n] assms unfolding rec_settles_def by blast
  then show ?thesis using cg_run_extends [of n c s] by (simp add: extends_def)
qed

lemma cg_settles: "names_known s \<Longrightarrow> c \<noteq> Codegen_body \<Longrightarrow> settles 0 s (cg c s)"
  using cg_run_enough [of s c "Suc (weight s + call_rank c)"] cg_run_ends [of "Suc (weight s + call_rank c)"]
  unfolding rec_settles_def by (metis lessI)

end
