(* ===== verification/Codegen_Syntax.thy ===== *)
theory Codegen_Syntax
  imports Codegen_Fuel
begin

text \<open>
  A syntax of methods by precedence, how it is written, and the code of each construct: the reference
  for what the code generator does with a text. Receivers come before arguments, a message is sent
  behind its arguments, and parentheses leave no trace.
\<close>

section \<open>Syntax\<close>

datatype primary = Atom BToken | Parenthesis expression
  and unary = Receiver primary | Unary_send unary string
  and binary = Unary_part unary | Binary_send binary string unary
  and expression = Binary_part binary | Keyword_send binary arguments
  and arguments = Last_argument string binary | Argument string binary arguments

datatype statement = Evaluate expression | Assign string expression

text \<open>The tokens they are written with.\<close>

abbreviation name_token :: "string \<Rightarrow> BToken" where
  "name_token \<equiv> text_token BTOK_IDENTIFIER"

abbreviation keyword_token :: "string \<Rightarrow> BToken" where
  "keyword_token \<equiv> text_token BTOK_KEYWORD"

abbreviation mark_token :: "char \<Rightarrow> BToken" where
  "mark_token c \<equiv> text_token BTOK_SPECIAL [c]"

primrec primary_tokens :: "primary \<Rightarrow> BToken list"
  and unary_tokens :: "unary \<Rightarrow> BToken list"
  and binary_tokens :: "binary \<Rightarrow> BToken list"
  and expression_tokens :: "expression \<Rightarrow> BToken list"
  and argument_tokens :: "arguments \<Rightarrow> BToken list" where
  "primary_tokens (Atom token) = [token]"
| "primary_tokens (Parenthesis e) = mark_token CHR ''('' # expression_tokens e @ [mark_token CHR '')'']"
| "unary_tokens (Receiver p) = primary_tokens p"
| "unary_tokens (Unary_send u sel) = unary_tokens u @ [name_token sel]"
| "binary_tokens (Unary_part u) = unary_tokens u"
| "binary_tokens (Binary_send b sel u) = binary_tokens b @ map mark_token sel @ unary_tokens u"
| "expression_tokens (Binary_part b) = binary_tokens b"
| "expression_tokens (Keyword_send b args) = binary_tokens b @ argument_tokens args"
| "argument_tokens (Last_argument key b) = keyword_token key # binary_tokens b"
| "argument_tokens (Argument key b args) = keyword_token key # binary_tokens b @ argument_tokens args"

primrec keyword_selector :: "arguments \<Rightarrow> string" where
  "keyword_selector (Last_argument key b) = key"
| "keyword_selector (Argument key b args) = key @ keyword_selector args"

primrec argument_count :: "arguments \<Rightarrow> nat" where
  "argument_count (Last_argument key b) = 1"
| "argument_count (Argument key b args) = Suc (argument_count args)"

fun statement_tokens :: "statement \<Rightarrow> BToken list" where
  "statement_tokens (Evaluate e) = expression_tokens e @ [mark_token CHR ''.'']"
| "statement_tokens (Assign name e) =
     name_token name # text_token BTOK_SPECIAL '':='' # expression_tokens e @ [mark_token CHR ''.'']"

definition temp_tokens :: "string list \<Rightarrow> BToken list" where
  "temp_tokens names =
     (if names = [] then [] else mark_token CHR ''|'' # map name_token names @ [mark_token CHR ''|''])"

definition method_tokens :: "string list \<Rightarrow> statement list \<Rightarrow> expression \<Rightarrow> BToken list" where
  "method_tokens names statements result =
     temp_tokens names @ concat (map statement_tokens statements) @ mark_token CHR ''^'' # expression_tokens result"

text \<open>
  What can be written: identifiers and literals, selectors of one or two special characters, and
  keyword selectors that fit the buffer the compiler collects them in.
\<close>

definition atom_ok :: "BToken \<Rightarrow> bool" where
  "atom_ok token \<longleftrightarrow> printable token \<and> (is_identifier token \<or> is_literal_token token)"

definition name_ok :: "string \<Rightarrow> bool" where
  "name_ok s \<longleftrightarrow> is_word s \<and> length s < TOKEN_TEXT_SIZE"

definition operator_ok :: "string \<Rightarrow> bool" where
  "operator_ok s \<longleftrightarrow> length s \<in> {1, 2} \<and> list_all (\<lambda>c. is_special_char c \<and> is_binary_selector_char c) s"

definition key_ok :: "string \<Rightarrow> bool" where
  "key_ok s \<longleftrightarrow> s \<noteq> [] \<and> is_word (butlast s) \<and> last s = CHR '':'' \<and> length s < TOKEN_TEXT_SIZE"

primrec primary_ok :: "primary \<Rightarrow> bool"
  and unary_ok :: "unary \<Rightarrow> bool"
  and binary_ok :: "binary \<Rightarrow> bool"
  and expression_ok :: "expression \<Rightarrow> bool"
  and arguments_ok :: "arguments \<Rightarrow> bool" where
  "primary_ok (Atom token) = atom_ok token"
| "primary_ok (Parenthesis e) = expression_ok e"
| "unary_ok (Receiver p) = primary_ok p"
| "unary_ok (Unary_send u sel) = (unary_ok u \<and> name_ok sel)"
| "binary_ok (Unary_part u) = unary_ok u"
| "binary_ok (Binary_send b sel u) = (binary_ok b \<and> operator_ok sel \<and> unary_ok u)"
| "expression_ok (Binary_part b) = binary_ok b"
| "expression_ok (Keyword_send b args) =
     (binary_ok b \<and> arguments_ok args \<and> length (keyword_selector args) < SELECTOR_SIZE)"
| "arguments_ok (Last_argument key b) = (key_ok key \<and> binary_ok b)"
| "arguments_ok (Argument key b args) = (key_ok key \<and> binary_ok b \<and> arguments_ok args)"

fun statement_ok :: "statement \<Rightarrow> bool" where
  "statement_ok (Evaluate e) = expression_ok e"
| "statement_ok (Assign name e) = (name_ok name \<and> expression_ok e)"

section \<open>The code of a method\<close>

primrec emit_primary :: "primary \<Rightarrow> CgState \<Rightarrow> CgState attempt"
  and emit_unary :: "unary \<Rightarrow> CgState \<Rightarrow> CgState attempt"
  and emit_binary :: "binary \<Rightarrow> CgState \<Rightarrow> CgState attempt"
  and emit_expression :: "expression \<Rightarrow> CgState \<Rightarrow> CgState attempt"
  and emit_arguments :: "arguments \<Rightarrow> CgState \<Rightarrow> CgState attempt" where
  "emit_primary (Atom token) =
     (if is_identifier token then cg_emit_identifier token else emit_with_literal BC_CG_PUSH_LITERAL token)"
| "emit_primary (Parenthesis e) = emit_expression e"
| "emit_unary (Receiver p) = emit_primary p"
| "emit_unary (Unary_send u sel) = (\<lambda>s. and_also (emit_unary u s) (cg_emit_selector_send sel 0))"
| "emit_binary (Unary_part u) = emit_unary u"
| "emit_binary (Binary_send b sel u) =
     (\<lambda>s. and_also (and_also (emit_binary b s) (emit_unary u)) (cg_emit_selector_send sel 1))"
| "emit_expression (Binary_part b) = emit_binary b"
| "emit_expression (Keyword_send b args) =
     (\<lambda>s. and_also (and_also (emit_binary b s) (emit_arguments args))
        (cg_emit_selector_send (keyword_selector args) (argument_count args)))"
| "emit_arguments (Last_argument key b) = emit_binary b"
| "emit_arguments (Argument key b args) = (\<lambda>s. and_also (emit_binary b s) (emit_arguments args))"

fun emit_statement :: "statement \<Rightarrow> CgState \<Rightarrow> CgState attempt" where
  "emit_statement (Evaluate e) s = and_also (emit_expression e s) (cg_emit_byte BC_CG_POP)"
| "emit_statement (Assign name e) s = assignment (\<lambda>_. emit_expression e) name s"

fun emit_statements :: "statement list \<Rightarrow> CgState \<Rightarrow> CgState attempt" where
  "emit_statements [] s = Succeeds s"
| "emit_statements (st # sts) s = and_also (emit_statement st s) (emit_statements sts)"

text \<open>
  The state in which the statements of a method start, and the code of the method: the statements,
  the result and a return.
\<close>

definition method_start :: "mem \<Rightarrow> string list \<Rightarrow> BMethodHeader option \<Rightarrow> u64 \<Rightarrow> CgState" where
  "method_start m names h klass = (method_state m '''' h klass)
     \<lparr>local_arg_count := (case h of None \<Rightarrow> 0 | Some h \<Rightarrow> length (arg_names h)),
      body := empty_body\<lparr>temp_names := map (name_in NAME_SIZE) names\<rparr>\<rparr>"

definition emit_method ::
  "mem \<Rightarrow> string list \<Rightarrow> statement list \<Rightarrow> expression \<Rightarrow> BMethodHeader option \<Rightarrow> u64 \<Rightarrow> CgState attempt" where
  "emit_method m names statements result h klass =
     and_also (and_also (and_also (emit_statements statements (method_start m names h klass))
         (emit_expression result)) (cg_emit_byte BC_CG_RETURN))
       (\<lambda>s. Succeeds (s\<lparr>compiled := (compiled s)\<lparr>arg_count := local_arg_count s, temp_count := length names\<rparr>\<rparr>))"

fun code_of :: "CgState attempt \<Rightarrow> BCompiledBody attempt" where
  "code_of (Succeeds s) = Succeeds (compiled_method s)"
| "code_of (Fails s) = Fails (compiled_method s)"
| "code_of Overruns = Overruns"
| "code_of Runs_out = Runs_out"

section \<open>The tokens ahead\<close>

definition coming :: "BParser \<Rightarrow> BToken list" where
  "coming p =
     (case buffered p of
        None \<Rightarrow> tokens_from (tokenizer p)
      | Some token \<Rightarrow> if is_eof token then [] else token # tokens_from (tokenizer p))"

lemma tokens_from_cases:
  "tokens_from t = (if is_eof (fst (bt_next t)) then [] else fst (bt_next t) # tokens_from (snd (bt_next t)))"
  by (simp add: tokens_from.simps [of t] split_def Let_def)

lemma next_coming:
  assumes "coming p = token # tokens"
  shows "\<exists>p'. bp_next p = (token, p') \<and> coming p' = tokens \<and> coming (bp_unread token p') = token # tokens \<and> \<not> is_eof token"
proof (cases "buffered p")
  case None
  let ?t = "snd (bt_next (tokenizer p))"
  have t: "\<not> is_eof token" "bt_next (tokenizer p) = (token, ?t)" "tokens = tokens_from ?t"
    using None assms tokens_from_cases [of "tokenizer p"]
    by (auto simp: coming_def prod_eq_iff split: if_splits)
  have "bp_next p = (token, p\<lparr>tokenizer := ?t\<rparr>)" using None by (subst bp_next_def, subst t(2)) simp
  then show ?thesis using None t(1) by (simp add: coming_def bp_unread_def t(3))
next
  case (Some other)
  then show ?thesis using assms by (auto simp: bp_next_def coming_def bp_unread_def split: if_splits)
qed

lemma next_end:
  assumes "coming p = []"
  shows "\<exists>token p'. bp_next p = (token, p') \<and> is_eof token \<and> coming (bp_unread token p') = []"
proof (cases "buffered p")
  case None
  then show ?thesis
    using assms tokens_from_cases [of "tokenizer p"]
    by (auto simp: bp_next_def coming_def bp_unread_def Let_def split_def split: if_splits)
next
  case (Some other)
  then show ?thesis using assms by (auto simp: bp_next_def coming_def bp_unread_def split: if_splits)
qed

lemma coming_init: "list_all printable tokens \<Longrightarrow> coming (bp_init (print_tokens tokens)) = tokens"
  using tokens_from_print [of tokens "bt_init (print_tokens tokens)"]
  by (simp add: coming_def bp_init_def ahead_def bt_init_def)

end
