(* ===== verification/Codegen_Equiv.thy ===== *)
theory Codegen_Equiv
  imports Codegen_Syntax
begin

text \<open>
  The code generator on the text of a method emits the code of its syntax. \<open>reads_as f tokens g rest\<close>:
  where these tokens come, the parsing function \<open>f\<close> leaves the rest and otherwise does what \<open>g\<close> does,
  which only emits.
\<close>

section \<open>Emitting does not read\<close>

definition same_scope :: "CgState \<Rightarrow> CgState \<Rightarrow> bool" where
  "same_scope s s' \<longleftrightarrow> header s' = header s \<and> body s' = body s \<and> in_block s' = in_block s \<and>
     local_arg_count s' = local_arg_count s"

definition emits :: "(CgState \<Rightarrow> CgState attempt) \<Rightarrow> bool" where
  "emits f \<longleftrightarrow> (\<forall>s p. f (s\<lparr>parser := p\<rparr>) = restoring p (f s)) \<and> (\<forall>s. names_known s \<longrightarrow> settles 0 s (f s)) \<and>
     (\<forall>s s'. f s = Succeeds s' \<longrightarrow> same_scope s s')"

lemma and_also_assoc: "and_also (and_also a f) g = and_also a (\<lambda>s. and_also (f s) g)"
  by (cases a) simp_all

lemma and_also_Succeeds [simp]: "and_also a Succeeds = a"
  by (cases a) simp_all

lemma restoring_and_also:
  "(\<And>s. f (s\<lparr>parser := p\<rparr>) = restoring p (f s)) \<Longrightarrow> restoring p (and_also a f) = and_also (restoring p a) f"
  by (cases a) simp_all

lemma emits_and_also:
  assumes "emits f" and "emits g"
  shows "emits (\<lambda>s. and_also (f s) g)"
proof -
  have "and_also (f (s\<lparr>parser := p\<rparr>)) g = restoring p (and_also (f s) g)" for s p
    using assms restoring_and_also [of g p "f s"] by (simp add: emits_def)
  moreover have "settles 0 s (and_also (f s) g)" if "names_known s" for s
    using assms that same_class_known [OF _ that] by (intro settles_and_also) (simp_all add: emits_def)
  moreover have "same_scope s s'" if "and_also (f s) g = Succeeds s'" for s s'
    using assms that by (auto simp: emits_def and_also_eq_Succeeds same_scope_def)
  ultimately show ?thesis by (simp add: emits_def)
qed

named_theorems emitting \<open>functions that only emit\<close>

lemma emits_and_also_eq:
  assumes "\<And>s. h s = and_also (f s) g" and "emits f" and "emits g"
  shows "emits h"
proof -
  have "h = (\<lambda>s. and_also (f s) g)" using assms(1) by (rule ext)
  then show ?thesis using emits_and_also [OF assms(2,3)] by simp
qed

lemma emits_byte [emitting]: "emits (cg_emit_byte b)"
  by (simp add: emits_def settles_emit) (auto simp: cg_emit_byte_def same_scope_def)

lemma emits_bytes: "emits (emit_bytes bs)"
proof (induction bs)
  case (Cons b bs)
  then show ?case using emits_and_also [OF emits_byte, of "emit_bytes bs" b] by simp
qed (simp add: emits_def same_scope_def)

lemma emits_u32 [emitting]: "emits (cg_emit_u32 v)"
  using emits_bytes by (simp add: cg_emit_u32_def)

lemma emits_op [emitting]: "emits (emit_op b n)"
  by (rule emits_and_also_eq [of _ "cg_emit_byte b" "cg_emit_u32 (of_nat n)"]) (simp_all add: emit_op_def emitting)

lemma emits_with_literal [emitting]: "emits (emit_with_literal b literal)"
proof -
  have "emit_with_literal b literal (s\<lparr>parser := p\<rparr>) = restoring p (emit_with_literal b literal s)" for s p
  proof (cases "cg_literal_index literal s")
    case (Some r)
    obtain i s' where r: "r = (i, s')" by (cases r)
    then have "cg_literal_index literal (s\<lparr>parser := p\<rparr>) = Some (i, s'\<lparr>parser := p\<rparr>)"
      using Some by (auto simp: cg_literal_index_def Let_def split: option.splits if_splits)
    then show ?thesis using emits_op [of b i] by (simp add: emit_with_literal_def Some r emits_def)
  next
    case None
    then have "cg_literal_index literal (s\<lparr>parser := p\<rparr>) = None"
      by (auto simp: cg_literal_index_def Let_def split: option.splits if_splits)
    then show ?thesis by (simp add: emit_with_literal_def None)
  qed
  moreover have "same_scope s s'" if lit: "emit_with_literal b literal s = Succeeds s'" for s s'
  proof -
    obtain i t where t: "cg_literal_index literal s = Some (i, t)" "emit_op b i t = Succeeds s'"
      using lit by (auto simp: emit_with_literal_def split: option.splits)
    then have "same_scope t s'" using emits_op by (simp add: emits_def)
    moreover have "same_scope s t"
      using t(1) by (auto simp: cg_literal_index_def Let_def same_scope_def split: option.splits if_splits)
    ultimately show ?thesis by (simp add: same_scope_def)
  qed
  ultimately show ?thesis by (simp add: emits_def settles_emit)
qed

lemma emits_send [emitting]: "emits (cg_emit_selector_send sel n)"
  by (rule emits_and_also_eq [of _ "emit_with_literal BC_CG_SEND_MESSAGE (text_token BTOK_SELECTOR sel)"
      "cg_emit_u32 (of_nat n)"]) (simp_all add: cg_emit_selector_send_def emitting)

lemma names_parser [simp]:
  "cg_temp_index (s\<lparr>parser := p\<rparr>) = cg_temp_index s" "cg_local_temp_slot (s\<lparr>parser := p\<rparr>) = cg_local_temp_slot s"
  "cg_outer_arg_slot (s\<lparr>parser := p\<rparr>) = cg_outer_arg_slot s" "cg_outer_temp_slot (s\<lparr>parser := p\<rparr>) = cg_outer_temp_slot s"
  "names_known (s\<lparr>parser := p\<rparr>) = names_known s"
  by (rule ext, simp add: cg_temp_index_def cg_local_temp_slot_def cg_outer_arg_slot_def cg_outer_temp_slot_def)+
    (simp add: names_known_def)

lemma inst_var_index_parser:
  "cg_inst_var_index name (s\<lparr>parser := p\<rparr>) =
     map_option (\<lambda>(i, s). (i, s\<lparr>parser := p\<rparr>)) (cg_inst_var_index name s)"
  by (cases "bc_class_inst_var_index (object_memory s) (target_class s) name")
    (auto simp: cg_inst_var_index_def Let_def split: option.split)

lemma emits_identifier [emitting]: "emits (cg_emit_identifier token)"
proof -
  have e: "f (s\<lparr>parser := p\<rparr>) = restoring p (f s)" if "emits f" for f s p
    using that by (simp add: emits_def)
  have "cg_emit_identifier token (s\<lparr>parser := p\<rparr>) = restoring p (cg_emit_identifier token s)" for s p
    unfolding cg_emit_identifier_def Let_def
    by (auto simp: inst_var_index_parser e emitting split: option.split)
  moreover have "same_scope s s'" if i: "cg_emit_identifier token s = Succeeds s'" for s s'
  proof -
    have sc: "same_scope s s'" if "f s = Succeeds s'" "emits f" for f s
      using that by (simp add: emits_def)
    have v: "same_scope s s'"
      if "cg_inst_var_index name s = Some (j, t)" "f t = Succeeds s'" "emits f" for name j t f
    proof -
      have "same_scope s t"
        using that(1) by (auto simp: cg_inst_var_index_def Let_def same_scope_def split: option.splits if_splits)
      then show ?thesis using sc [OF that(2,3)] by (simp add: same_scope_def)
    qed
    show ?thesis
      using i unfolding cg_emit_identifier_def Let_def
      by (auto split: if_splits option.splits intro: sc v [OF _ _ emits_with_literal] v [OF _ _ emits_op] emitting)
  qed
  ultimately show ?thesis by (simp add: emits_def settles_identifier)
qed

lemma emits_syntax [emitting]:
  "emits (emit_primary x)" "emits (emit_unary u)" "emits (emit_binary b)" "emits (emit_expression e)"
  "emits (emit_arguments args)"
  by (induction x and u and b and e and args) (auto intro!: emits_and_also emitting)

section \<open>Reading and emitting\<close>

text \<open>Where an attempt fails, the place in the text does not matter.\<close>

fun forget :: "CgState attempt \<Rightarrow> CgState attempt" where
  "forget (Fails s) = Fails (s\<lparr>parser := bp_init []\<rparr>)"
| "forget a = a"

lemma forget_result:
  "forget a = Succeeds s \<longleftrightarrow> a = Succeeds s" "forget a = Overruns \<longleftrightarrow> a = Overruns" "forget a = Runs_out \<longleftrightarrow> a = Runs_out"
  "forget (Fails s) = forget a \<Longrightarrow> \<exists>s'. a = Fails s'"
  by (cases a; simp)+

lemma forget_restoring: "forget a = Fails s \<Longrightarrow> forget (restoring p a) = Fails s"
  by (cases a) simp_all

definition reads_to ::
  "(CgState \<Rightarrow> CgState attempt) \<Rightarrow> BToken list \<Rightarrow> (CgState \<Rightarrow> CgState attempt) \<Rightarrow> (BParser \<Rightarrow> bool) \<Rightarrow> bool" where
  "reads_to f tokens g R \<longleftrightarrow>
     (\<forall>p. coming p = tokens \<longrightarrow>
        (\<exists>p'. R p' \<and> (\<forall>s. parser s = p \<and> names_known s \<longrightarrow> forget (f s) = forget (g (s\<lparr>parser := p'\<rparr>)))))"

abbreviation reads_as ::
  "(CgState \<Rightarrow> CgState attempt) \<Rightarrow> BToken list \<Rightarrow> (CgState \<Rightarrow> CgState attempt) \<Rightarrow> BToken list \<Rightarrow> bool" where
  "reads_as f tokens g rest \<equiv> reads_to f tokens g (\<lambda>p. coming p = rest)"

lemma emits_result:
  assumes "emits f" and "f s = Succeeds s'"
  shows "parser s' = parser s" "names_known s \<Longrightarrow> names_known s'" "f (s\<lparr>parser := p\<rparr>) = Succeeds (s'\<lparr>parser := p\<rparr>)"
proof -
  have r: "f (s\<lparr>parser := p\<rparr>) = restoring p (f s)" for p using assms(1) by (simp add: emits_def)
  show "f (s\<lparr>parser := p\<rparr>) = Succeeds (s'\<lparr>parser := p\<rparr>)" by (simp add: r assms(2))
  have "Succeeds s' = Succeeds (s'\<lparr>parser := parser s\<rparr>)" using r [of "parser s"] assms(2) by simp
  then have "s' = s'\<lparr>parser := parser s\<rparr>" by simp
  then show "parser s' = parser s" by (metis parse_state.select_convs(1) parse_state.surjective parse_state.update_convs(1))
  show "names_known s'" if "names_known s"
    using assms that same_class_known by (auto simp: emits_def dest!: spec [of _ s])
qed

lemma reads_and_also:
  assumes "reads_as f tokens g middle" and "emits g" and "reads_to k middle h R"
  shows "reads_to (\<lambda>s. and_also (f s) k) tokens (\<lambda>s. and_also (g s) h) R"
  unfolding reads_to_def
proof (intro allI impI)
  fix p
  assume "coming p = tokens"
  then obtain p1 where p1: "coming p1 = middle"
      "\<And>s. parser s = p \<Longrightarrow> names_known s \<Longrightarrow> forget (f s) = forget (g (s\<lparr>parser := p1\<rparr>))"
    using assms(1) unfolding reads_to_def by blast
  obtain p2 where p2: "R p2"
      "\<And>s. parser s = p1 \<Longrightarrow> names_known s \<Longrightarrow> forget (k s) = forget (h (s\<lparr>parser := p2\<rparr>))"
    using assms(3) p1(1) unfolding reads_to_def by blast
  have "forget (and_also (f s) k) = forget (and_also (g (s\<lparr>parser := p2\<rparr>)) h)" if s: "parser s = p" "names_known s" for s
  proof -
    have r: "g (s\<lparr>parser := q\<rparr>) = restoring q (g s)" for q using assms(2) by (simp add: emits_def)
    show ?thesis
    proof (cases "g s")
      case (Succeeds t)
      have "forget (k (t\<lparr>parser := p1\<rparr>)) = forget (h (t\<lparr>parser := p2\<rparr>))"
        using p2(2) [of "t\<lparr>parser := p1\<rparr>"] emits_result(2) [OF assms(2) Succeeds s(2)] by simp
      then show ?thesis using p1(2) [OF s] by (simp add: r Succeeds forget_result)
    next
      case (Fails t)
      have "forget (f s) = Fails (t\<lparr>parser := bp_init []\<rparr>)" using p1(2) [OF s] by (simp add: r Fails)
      then show ?thesis by (cases "f s") (simp_all add: r Fails)
    qed (use p1(2) [OF s] in \<open>simp_all add: r forget_result\<close>)
  qed
  then show "\<exists>p'. R p' \<and> (\<forall>s. parser s = p \<and> names_known s \<longrightarrow>
      forget (and_also (f s) k) = forget (and_also (g (s\<lparr>parser := p'\<rparr>)) h))"
    using p2(1) by blast
qed

lemma reads_token:
  assumes "\<not> is_eof token \<Longrightarrow> reads_to (f token) tokens g R"
  shows "reads_to (\<lambda>s. let (token, s) = next_token s in f token s) (token # tokens) g R"
  unfolding reads_to_def
proof (intro allI impI)
  fix p
  assume "coming p = token # tokens"
  then obtain p1 where p1: "bp_next p = (token, p1)" "coming p1 = tokens" "\<not> is_eof token" using next_coming by blast
  then obtain p2 where p2: "R p2"
      "\<And>s. parser s = p1 \<Longrightarrow> names_known s \<Longrightarrow> forget (f token s) = forget (g (s\<lparr>parser := p2\<rparr>))"
    using assms unfolding reads_to_def by blast
  have "forget (f token (s\<lparr>parser := p1\<rparr>)) = forget (g (s\<lparr>parser := p2\<rparr>))" if "names_known s" for s
    using p2(2) [of "s\<lparr>parser := p1\<rparr>"] that by simp
  then show "\<exists>p'. R p' \<and> (\<forall>s. parser s = p \<and> names_known s \<longrightarrow>
      forget (let (token, s) = next_token s in f token s) = forget (g (s\<lparr>parser := p'\<rparr>)))"
    using p1(1) p2(1) by (intro exI [of _ p2]) (auto simp: next_token_def)
qed

text \<open>A token that is looked at and given back.\<close>

definition looks :: "(BToken \<Rightarrow> bool) \<Rightarrow> BToken list \<Rightarrow> bool" where
  "looks P tokens \<longleftrightarrow> (case tokens of [] \<Rightarrow> \<forall>token. is_eof token \<longrightarrow> P token | token # _ \<Rightarrow> \<not> is_eof token \<longrightarrow> P token)"

lemma reads_unread:
  assumes "\<And>token s. P token \<Longrightarrow> f token s = h (unread token s)" and "looks P tokens" and "reads_as h tokens g rest"
  shows "reads_as (\<lambda>s. let (token, s) = next_token s in f token s) tokens g rest"
  unfolding reads_to_def
proof (intro allI impI)
  fix p
  assume p: "coming p = tokens"
  have "\<exists>token p1. bp_next p = (token, p1) \<and> coming (bp_unread token p1) = tokens \<and> P token"
    using p next_end [of p] next_coming [of p] assms(2) by (cases tokens) (auto simp: looks_def)
  then obtain token p1 where p1: "bp_next p = (token, p1)" "coming (bp_unread token p1) = tokens" "P token" by blast
  then obtain p2 where p2: "coming p2 = rest"
      "\<And>s. parser s = bp_unread token p1 \<Longrightarrow> names_known s \<Longrightarrow> forget (h s) = forget (g (s\<lparr>parser := p2\<rparr>))"
    using assms(3) unfolding reads_to_def by blast
  have "forget (f token (s\<lparr>parser := p1\<rparr>)) = forget (g (s\<lparr>parser := p2\<rparr>))" if "names_known s" for s
    using p2(2) [of "unread token (s\<lparr>parser := p1\<rparr>)"] that assms(1) [OF p1(3)] by (simp add: unread_def)
  then show "\<exists>p'. coming p' = rest \<and> (\<forall>s. parser s = p \<and> names_known s \<longrightarrow>
      forget (let (token, s) = next_token s in f token s) = forget (g (s\<lparr>parser := p'\<rparr>)))"
    using p1(1) p2(1) by (intro exI [of _ p2]) (auto simp: next_token_def)
qed

lemma reads_nothing: "reads_as g rest g rest"
  unfolding reads_to_def
proof (intro allI impI)
  fix p
  assume "coming p = rest"
  then show "\<exists>p'. coming p' = rest \<and> (\<forall>s. parser s = p \<and> names_known s \<longrightarrow> forget (g s) = forget (g (s\<lparr>parser := p'\<rparr>)))"
    by (intro exI [of _ p]) auto
qed

lemma reads_cg: "reads_to (cg_step cg c) tokens g R \<Longrightarrow> reads_to (cg c) tokens g R"
  unfolding reads_to_def using cg_equation by metis

lemma reads_cong: "reads_as f tokens g rest \<Longrightarrow> (\<And>s. f' s = f s) \<Longrightarrow> (\<And>s. g' s = g s) \<Longrightarrow> reads_as f' tokens g' rest"
  unfolding reads_to_def by simp

text \<open>A parsing function behind which another goes on.\<close>

lemma reads_trans: "reads_as f tokens g middle \<Longrightarrow> reads_to g middle h R \<Longrightarrow> reads_to f tokens h R"
  unfolding reads_to_def
proof (intro allI impI)
  fix p
  assume f: "\<forall>p. coming p = tokens \<longrightarrow> (\<exists>p'. coming p' = middle \<and>
      (\<forall>s. parser s = p \<and> names_known s \<longrightarrow> forget (f s) = forget (g (s\<lparr>parser := p'\<rparr>))))"
    and g: "\<forall>p. coming p = middle \<longrightarrow> (\<exists>p'. R p' \<and>
      (\<forall>s. parser s = p \<and> names_known s \<longrightarrow> forget (g s) = forget (h (s\<lparr>parser := p'\<rparr>))))"
    and "coming p = tokens"
  then obtain p1 where p1: "coming p1 = middle"
      "\<And>s. parser s = p \<Longrightarrow> names_known s \<Longrightarrow> forget (f s) = forget (g (s\<lparr>parser := p1\<rparr>))" by blast
  then obtain p2 where p2: "R p2"
      "\<And>s. parser s = p1 \<Longrightarrow> names_known s \<Longrightarrow> forget (g s) = forget (h (s\<lparr>parser := p2\<rparr>))"
    using g by blast
  have "forget (g (s\<lparr>parser := p1\<rparr>)) = forget (h (s\<lparr>parser := p2\<rparr>))" if "names_known s" for s
    using p2(2) [of "s\<lparr>parser := p1\<rparr>"] that by simp
  then show "\<exists>p'. R p' \<and>
      (\<forall>s. parser s = p \<and> names_known s \<longrightarrow> forget (f s) = forget (h (s\<lparr>parser := p'\<rparr>)))"
    using p1(2) p2(1) by (intro exI [of _ p2]) auto
qed

lemma reads_then:
  assumes "reads_as f tokens (\<lambda>s. and_also (g s) k) middle" and "emits g" and "reads_to k middle h R"
  shows "reads_to f tokens (\<lambda>s. and_also (g s) h) R"
  by (rule reads_trans [OF assms(1) reads_and_also [OF reads_nothing assms(2,3)]])

section \<open>Messages\<close>

lemma word_tokens [simp]:
  "token_type (text_token ty s) = ty" "length s < TOKEN_TEXT_SIZE \<Longrightarrow> token_text (text_token ty s) = s"
  "token_text (mark_token c) = [c]"
  by (auto simp: text_token_def make_token_def TOKEN_TEXT_SIZE_def)

lemma mark_binary [simp]: "is_binary_token (mark_token c) = is_binary_selector_char c"
  by (simp add: is_binary_token_def)

lemma special_mark [simp]: "is_special_text (mark_token c) x \<longleftrightarrow> x = [c]"
  by (auto simp: is_special_text_def)

lemma unary_rest_send:
  assumes "name_ok sel"
  shows "reads_as (cg Unary_rest) (name_token sel # rest)
    (\<lambda>s. and_also (cg_emit_selector_send sel 0 s) (cg Unary_rest)) rest"
proof (rule reads_cg)
  have "reads_as (\<lambda>s. let (token, s) = next_token s
      in if \<not> is_identifier token then Succeeds (unread token s)
         else and_also (cg_emit_selector_send (token_text token) 0 s) (cg Unary_rest))
     (name_token sel # rest) (\<lambda>s. and_also (cg_emit_selector_send sel 0 s) (cg Unary_rest)) rest"
    by (rule reads_token) (use assms in \<open>simp add: name_ok_def reads_nothing\<close>)
  then show "reads_as (cg_step cg Unary_rest) (name_token sel # rest)
      (\<lambda>s. and_also (cg_emit_selector_send sel 0 s) (cg Unary_rest)) rest"
    by (rule reads_cong) (simp_all add: cg_unary_rest_def)
qed

lemma unary_rest_stop:
  assumes "looks (\<lambda>token. \<not> is_identifier token) rest"
  shows "reads_as (cg Unary_rest) rest Succeeds rest"
proof (rule reads_cg)
  have "reads_as (\<lambda>s. let (token, s) = next_token s
      in if \<not> is_identifier token then Succeeds (unread token s)
         else and_also (cg_emit_selector_send (token_text token) 0 s) (cg Unary_rest)) rest Succeeds rest"
    by (rule reads_unread [OF _ assms reads_nothing]) simp
  then show "reads_as (cg_step cg Unary_rest) rest Succeeds rest"
    by (rule reads_cong) (simp_all add: cg_unary_rest_def)
qed

lemma binary_rest_stop:
  assumes "looks (\<lambda>token. \<not> is_binary_token token) rest"
  shows "reads_as (cg Binary_rest) rest Succeeds rest"
proof (rule reads_cg)
  have "reads_as (\<lambda>s. let (token, s) = next_token s
      in if \<not> is_binary_token token then Succeeds (unread token s)
         else and_also (cg_binary_message cg token s) (cg Binary_rest)) rest Succeeds rest"
    by (rule reads_unread [OF _ assms reads_nothing]) simp
  then show "reads_as (cg_step cg Binary_rest) rest Succeeds rest"
    by (rule reads_cong) (simp_all add: cg_binary_rest_def)
qed

lemma continuation_stop:
  assumes "looks (\<lambda>token. is_eof token \<or> is_terminator token) rest"
  shows "reads_as (cg Continuation) rest Succeeds rest"
proof (rule reads_cg)
  have "reads_as (cg_parse_expression_continuation cg) rest Succeeds rest"
    unfolding cg_parse_expression_continuation_def
    by (rule reads_unread [OF _ assms reads_nothing]) auto
  then show "reads_as (cg_step cg Continuation) rest Succeeds rest" by simp
qed

lemma binary_message_reads:
  assumes "reads_as (cg_parse_unary_expression cg) tokens (emit_unary u) rest"
    and "looks (\<lambda>token. \<not> is_binary_token token) tokens" and "operator_ok sel"
  shows "reads_as (cg_binary_message cg (mark_token (hd sel))) (map mark_token (tl sel) @ tokens)
    (\<lambda>s. and_also (emit_unary u s) (cg_emit_selector_send sel 1)) rest"
proof -
  let ?g = "\<lambda>s. and_also (emit_unary u s) (cg_emit_selector_send sel 1)"
  let ?f = "\<lambda>second s. and_also (cg_parse_unary_expression cg (if is_binary_token second then s else unread second s))
       (cg_emit_selector_send (token_text (mark_token (hd sel)) @ (if is_binary_token second then token_text second else [])) 1)"
  have r: "reads_as (\<lambda>s. and_also (cg_parse_unary_expression cg s) (cg_emit_selector_send sel 1)) tokens ?g rest"
    by (intro reads_and_also [OF assms(1)] emitting reads_nothing)
  consider a where "sel = [a]" | a b where "sel = [a, b]" "is_binary_selector_char b"
    using assms(3) by (auto simp: operator_ok_def length_Suc_conv numeral_2_eq_2)
  then have "reads_as (\<lambda>s. let (second, s) = next_token s in ?f second s) (map mark_token (tl sel) @ tokens) ?g rest"
  proof cases
    case 1
    have "reads_as (\<lambda>s. let (second, s) = next_token s in ?f second s) tokens ?g rest"
      by (rule reads_unread [OF _ assms(2) r]) (simp add: 1)
    then show ?thesis by (simp add: 1)
  next
    case 2
    have "reads_as (?f (mark_token b)) tokens ?g rest" by (rule reads_cong [OF r]) (simp_all add: 2)
    then have "reads_as (\<lambda>s. let (second, s) = next_token s in ?f second s) (mark_token b # tokens) ?g rest"
      by (rule reads_token)
    then show ?thesis by (simp add: 2)
  qed
  then show ?thesis by (rule reads_cong) (simp_all add: cg_binary_message_def Let_def)
qed

section \<open>Expressions\<close>

abbreviation ended :: "BToken list \<Rightarrow> bool" where
  "ended \<equiv> looks (\<lambda>token. is_eof token \<or> is_terminator token)"

lemma looks_Cons [simp]: "looks P (token # tokens) \<longleftrightarrow> (\<not> is_eof token \<longrightarrow> P token)"
  by (simp add: looks_def)

lemma ended_looks:
  assumes "ended rest"
  shows "looks (\<lambda>token. \<not> is_identifier token) rest" "looks (\<lambda>token. \<not> is_binary_token token) rest"
    "looks (\<lambda>token. \<not> is_keyword token) rest"
  using assms
  by (auto simp: looks_def is_terminator_def is_special_text_def is_binary_token_def is_binary_selector_char_def
      split: list.splits)

lemma unary_first:
  "primary_ok x \<Longrightarrow> \<exists>token tokens. primary_tokens x = token # tokens \<and> \<not> is_binary_token token"
  "unary_ok u \<Longrightarrow> \<exists>token tokens. unary_tokens u = token # tokens \<and> \<not> is_binary_token token"
proof -
  show p: "\<exists>token tokens. primary_tokens x = token # tokens \<and> \<not> is_binary_token token" if "primary_ok x" for x
    using that
    by (cases x) (auto simp: atom_ok_def is_literal_token_def is_binary_token_def is_binary_selector_char_def
        text_token_def make_token_def TOKEN_TEXT_SIZE_def)
  show "\<exists>token tokens. unary_tokens u = token # tokens \<and> \<not> is_binary_token token" if "unary_ok u" for u
    using that
  proof (induction u rule: unary.induct [where ?P1.0 = "\<lambda>_. True" and ?P3.0 = "\<lambda>_. True" and ?P4.0 = "\<lambda>_. True"
        and ?P5.0 = "\<lambda>_. True"])
    case (Receiver x)
    then show ?case using p by simp
  next
    case (Unary_send u sel)
    then show ?case by auto
  qed simp_all
qed

lemma unary_reads_all:
  assumes "reads_as (cg_parse_unary_expression cg) tokens (\<lambda>s. and_also (emit_unary u s) (cg Unary_rest)) rest"
    and "looks (\<lambda>token. \<not> is_identifier token) rest"
  shows "reads_as (cg_parse_unary_expression cg) tokens (emit_unary u) rest"
  using reads_then [OF assms(1) _ unary_rest_stop [OF assms(2)]] by (simp add: emitting)

lemma binary_reads_all:
  assumes "reads_as (cg_parse_binary_expression cg) tokens (\<lambda>s. and_also (emit_binary b s) (cg Binary_rest)) rest"
    and "ended rest \<or> looks is_keyword rest \<and> rest \<noteq> []"
  shows "reads_as (cg_parse_binary_expression cg) tokens (emit_binary b) rest"
proof -
  have "looks (\<lambda>token. \<not> is_binary_token token) rest"
  proof (cases "ended rest")
    case False
    then show ?thesis using assms(2) by (cases rest) (auto simp: is_binary_token_def)
  qed (rule ended_looks)
  then show ?thesis using reads_then [OF assms(1) _ binary_rest_stop] by (simp add: emitting)
qed

lemma binary_rest_send:
  assumes "reads_as (cg_parse_unary_expression cg) tokens (emit_unary u) rest"
    and "looks (\<lambda>token. \<not> is_binary_token token) tokens" and "operator_ok sel"
  shows "reads_as (cg Binary_rest) (map mark_token sel @ tokens)
    (\<lambda>s. and_also (and_also (emit_unary u s) (cg_emit_selector_send sel 1)) (cg Binary_rest)) rest"
proof (rule reads_cg)
  obtain c cs where sel: "sel = c # cs" "is_binary_selector_char c"
    using assms(3) by (cases sel) (auto simp: operator_ok_def)
  have "reads_as (cg_binary_message cg (mark_token c)) (map mark_token cs @ tokens)
      (\<lambda>s. and_also (emit_unary u s) (cg_emit_selector_send sel 1)) rest"
    using binary_message_reads [OF assms] by (simp add: sel)
  then have m: "reads_as (\<lambda>s. and_also (cg_binary_message cg (mark_token c) s) (cg Binary_rest)) (map mark_token cs @ tokens)
      (\<lambda>s. and_also (and_also (emit_unary u s) (cg_emit_selector_send sel 1)) (cg Binary_rest)) rest"
    by (rule reads_and_also [OF _ emits_and_also [OF emits_syntax(2) emits_send] reads_nothing])
  have "reads_as (cg_binary_rest cg) (mark_token c # map mark_token cs @ tokens)
      (\<lambda>s. and_also (and_also (emit_unary u s) (cg_emit_selector_send sel 1)) (cg Binary_rest)) rest"
    unfolding cg_binary_rest_def
    by (rule reads_token) (use m sel(2) in \<open>simp add: mark_binary\<close>)
  then show "reads_as (cg_step cg Binary_rest) (map mark_token sel @ tokens)
      (\<lambda>s. and_also (and_also (emit_unary u s) (cg_emit_selector_send sel 1)) (cg Binary_rest)) rest"
    by (simp add: sel)
qed

lemma reads_primary_token:
  assumes "atom_ok token"
  shows "reads_as (cg_emit_primary_token cg token) rest (emit_primary (Atom token)) rest"
  by (rule reads_cong [OF reads_nothing])
    (use assms in \<open>auto simp: atom_ok_def cg_emit_primary_token_def\<close>)

lemma name_in_short: "length s < n \<Longrightarrow> name_in n s = s"
  by (simp add: name_in_def)

primrec first_key :: "arguments \<Rightarrow> string" where
  "first_key (Last_argument key b) = key"
| "first_key (Argument key b args) = key"

lemma argument_tokens_first: "argument_tokens args = keyword_token (first_key args) # tl (argument_tokens args)"
  by (cases args) simp_all

lemma keyword_selector_first: "\<exists>more. keyword_selector args = first_key args @ more"
  by (cases args) auto

lemma first_key_ok: "arguments_ok args \<Longrightarrow> length (first_key args) < TOKEN_TEXT_SIZE"
  by (cases args) (simp_all add: key_ok_def)

text \<open>The rest of a keyword message, behind the first keyword of the arguments.\<close>

definition reads_arguments :: "arguments \<Rightarrow> bool" where
  "reads_arguments args \<longleftrightarrow>
     (\<forall>sel n rest. arguments_ok args \<and> ended rest \<and> length (sel @ keyword_selector args) < SELECTOR_SIZE \<longrightarrow>
        reads_as (cg (Keyword_args (sel @ first_key args) n)) (tl (argument_tokens args) @ rest)
          (\<lambda>s. and_also (emit_arguments args s)
             (cg_emit_selector_send (sel @ keyword_selector args) (n + argument_count args))) rest)"

lemma continuation_keywords:
  assumes "reads_arguments args" and "arguments_ok args" and "length (keyword_selector args) < SELECTOR_SIZE" and "ended rest"
  shows "reads_as (cg Continuation) (argument_tokens args @ rest)
    (\<lambda>s. and_also (emit_arguments args s) (cg_emit_selector_send (keyword_selector args) (argument_count args))) rest"
proof (rule reads_cg)
  let ?key = "first_key args" let ?more = "tl (argument_tokens args)"
  let ?g = "\<lambda>s. and_also (emit_arguments args s) (cg_emit_selector_send (keyword_selector args) (argument_count args))"
  have "length ?key \<le> length (keyword_selector args)" using keyword_selector_first [of args] by auto
  then have k: "token_text (keyword_token ?key) = ?key" "name_in SELECTOR_SIZE ?key = ?key"
    using assms(3) first_key_ok [OF assms(2)] by (simp_all add: name_in_short)
  have a: "reads_as (cg (Keyword_args ?key 0)) (?more @ rest) ?g rest"
    using assms(1) [unfolded reads_arguments_def, rule_format, of rest "[]" 0] assms(2-) by simp
  have "reads_as (\<lambda>s. and_also (cg (Keyword_args ?key 0) s) (cg Continuation)) (?more @ rest) ?g rest"
    using reads_and_also [OF a emits_and_also [OF emits_syntax(5) emits_send] continuation_stop [OF assms(4)]] by simp
  then have "reads_as (cg_parse_expression_continuation cg) (keyword_token ?key # ?more @ rest) ?g rest"
    unfolding cg_parse_expression_continuation_def
    by (intro reads_token) (simp add: k is_terminator_def is_special_text_def is_binary_token_def)
  moreover have "argument_tokens args @ rest = keyword_token ?key # ?more @ rest"
    by (subst argument_tokens_first) simp
  ultimately show "reads_as (cg_step cg Continuation) (argument_tokens args @ rest) ?g rest" by (simp only: cg_step.simps)
qed

lemma keyword_args_cong:
  assumes "reads_as (\<lambda>s. and_also (cg_parse_binary_expression cg s)
       (\<lambda>s. let (token, s) = next_token s
            in if \<not> is_keyword token then cg_emit_selector_send sel (argc + 1) (unread token s)
               else cg (Keyword_args (name_in SELECTOR_SIZE (sel @ token_text token)) (argc + 1)) s)) tokens g rest"
  shows "reads_as (cg (Keyword_args sel argc)) tokens g rest"
  by (rule reads_cg, rule reads_cong [OF assms]) (simp_all add: cg_keyword_args_def)

theorem expressions_read:
  "primary_ok x \<Longrightarrow> reads_as (cg_parse_primary cg) (primary_tokens x @ rest) (emit_primary x) rest"
  "unary_ok u \<Longrightarrow> reads_as (cg_parse_unary_expression cg) (unary_tokens u @ rest)
     (\<lambda>s. and_also (emit_unary u s) (cg Unary_rest)) rest"
  "binary_ok b \<Longrightarrow> looks (\<lambda>token. \<not> is_identifier token) rest \<Longrightarrow>
     reads_as (cg_parse_binary_expression cg) (binary_tokens b @ rest) (\<lambda>s. and_also (emit_binary b s) (cg Binary_rest)) rest"
  "expression_ok e \<Longrightarrow> ended rest \<Longrightarrow>
     reads_as (cg Cg_expression) (expression_tokens e @ rest) (emit_expression e) rest"
  "reads_arguments args"
proof (induction x and u and b and e and args arbitrary: rest and rest and rest and rest and rest)
  case (Atom token)
  then have a: "atom_ok token" by simp
  have "reads_as (cg_parse_primary cg) (token # rest) (emit_primary (Atom token)) rest"
    by (rule reads_cong [OF reads_token [of token "cg_emit_primary_token cg"]])
      (simp_all add: cg_parse_primary_def reads_primary_token [OF a] del: emit_primary.simps)
  then show ?case by simp
next
  case (Parenthesis e)
  let ?close = "mark_token CHR '')''"
  have e: "reads_as (cg Cg_expression) (expression_tokens e @ ?close # rest) (emit_expression e) (?close # rest)"
    using Parenthesis by (intro Parenthesis.IH) (simp_all add: is_terminator_def)
  have c: "reads_as (\<lambda>s. let (close, s) = next_token s in if is_special_text close '')'' then Succeeds s else Fails s)
      (?close # rest) Succeeds rest"
    by (rule reads_token) (simp add: reads_nothing)
  have "reads_as (cg_emit_primary_token cg (mark_token CHR ''('')) (expression_tokens e @ ?close # rest)
      (\<lambda>s. and_also (emit_expression e s) Succeeds) rest"
    by (rule reads_cong [OF reads_and_also [OF e emits_syntax(4) c]])
      (simp_all add: cg_emit_primary_token_def is_literal_token_def)
  then have "reads_as (cg_parse_primary cg) (mark_token CHR ''('' # expression_tokens e @ ?close # rest)
      (\<lambda>s. and_also (emit_expression e s) Succeeds) rest"
    unfolding cg_parse_primary_def by (intro reads_token)
  then show ?case by simp
next
  case (Receiver x)
  then have "reads_as (cg_parse_primary cg) (primary_tokens x @ rest) (emit_primary x) rest" by simp
  from reads_and_also [OF this emits_syntax(1) reads_nothing]
  have "reads_as (cg_parse_unary_expression cg) (primary_tokens x @ rest)
      (\<lambda>s. and_also (emit_primary x s) (cg Unary_rest)) rest"
    by (rule reads_cong) (simp_all add: cg_parse_unary_expression_def)
  then show ?case by simp
next
  case (Unary_send u sel)
  then have "reads_as (cg_parse_unary_expression cg) (unary_tokens u @ name_token sel # rest)
      (\<lambda>s. and_also (emit_unary u s) (cg Unary_rest)) (name_token sel # rest)" by simp
  from reads_then [OF this emits_syntax(2) unary_rest_send] Unary_send.prems
  have "reads_as (cg_parse_unary_expression cg) (unary_tokens u @ name_token sel # rest)
      (\<lambda>s. and_also (emit_unary u s) (\<lambda>s. and_also (cg_emit_selector_send sel 0 s) (cg Unary_rest))) rest" by simp
  then show ?case by (simp add: and_also_assoc)
next
  case (Unary_part u)
  then have "reads_as (cg_parse_unary_expression cg) (unary_tokens u @ rest) (emit_unary u) rest"
    by (intro unary_reads_all) simp_all
  from reads_and_also [OF this emits_syntax(2) reads_nothing]
  have "reads_as (cg_parse_binary_expression cg) (unary_tokens u @ rest)
      (\<lambda>s. and_also (emit_unary u s) (cg Binary_rest)) rest"
    by (rule reads_cong) (simp_all add: cg_parse_binary_expression_def)
  then show ?case by simp
next
  case (Binary_send b sel u)
  have ok: "binary_ok b" "operator_ok sel" "unary_ok u" using Binary_send.prems by simp_all
  let ?tokens = "unary_tokens u @ rest"
  have u: "reads_as (cg_parse_unary_expression cg) ?tokens (emit_unary u) rest"
    using Binary_send ok by (intro unary_reads_all) simp_all
  have l: "looks (\<lambda>token. \<not> is_binary_token token) ?tokens" using unary_first(2) [OF ok(3)] by auto
  have "looks (\<lambda>token. \<not> is_identifier token) (map mark_token sel @ ?tokens)"
    using ok(2) by (cases sel) (auto simp: operator_ok_def)
  then have "reads_as (cg_parse_binary_expression cg) (binary_tokens b @ map mark_token sel @ ?tokens)
      (\<lambda>s. and_also (emit_binary b s) (cg Binary_rest)) (map mark_token sel @ ?tokens)"
    by (rule Binary_send.IH(1) [OF ok(1)])
  from reads_then [OF this emits_syntax(3) binary_rest_send [OF u l ok(2)]] show ?case by (simp add: and_also_assoc)
next
  case (Binary_part b)
  have "reads_as (cg_parse_binary_expression cg) (binary_tokens b @ rest) (emit_binary b) rest"
    using Binary_part by (intro binary_reads_all) (simp_all add: ended_looks)
  from reads_and_also [OF this emits_syntax(3) continuation_stop [OF Binary_part.prems(2)]]
  have "reads_as (cg_step cg Cg_expression) (binary_tokens b @ rest) (\<lambda>s. and_also (emit_binary b s) Succeeds) rest"
    by (rule reads_cong) (simp_all add: cg_parse_expression_def)
  then show ?case by (intro reads_cg) simp
next
  case (Keyword_send b args)
  have ok: "binary_ok b" "arguments_ok args" "length (keyword_selector args) < SELECTOR_SIZE"
    using Keyword_send.prems by simp_all
  let ?rest = "argument_tokens args @ rest"
  have key: "looks is_keyword ?rest \<and> ?rest \<noteq> []"
    using argument_tokens_first [of args] by (cases args) simp_all
  then have "looks (\<lambda>token. \<not> is_identifier token) ?rest" by (cases args) simp_all
  then have b: "reads_as (cg_parse_binary_expression cg) (binary_tokens b @ ?rest) (emit_binary b) ?rest"
    using key by (intro binary_reads_all Keyword_send.IH(1) ok(1)) simp_all
  from reads_and_also [OF b emits_syntax(3) continuation_keywords [OF Keyword_send.IH(2) ok(2,3) Keyword_send.prems(2)]]
  have "reads_as (cg_step cg Cg_expression) (binary_tokens b @ ?rest) (emit_expression (Keyword_send b args)) rest"
    by (rule reads_cong) (simp_all add: cg_parse_expression_def and_also_assoc)
  then show ?case by (intro reads_cg) simp
next
  case (Last_argument key b)
  show ?case
    unfolding reads_arguments_def
  proof (intro allI impI)
    fix sel n rest
    assume a: "arguments_ok (Last_argument key b) \<and> ended rest \<and>
        length (sel @ keyword_selector (Last_argument key b)) < SELECTOR_SIZE"
    let ?send = "cg_emit_selector_send (sel @ key) (n + 1)"
    have b: "reads_as (cg_parse_binary_expression cg) (binary_tokens b @ rest) (emit_binary b) rest"
      using a by (intro binary_reads_all Last_argument.IH) (simp_all add: ended_looks)
    have s: "?send (unread token s) = cg_emit_selector_send (sel @ key) (n + 1) (unread token s)" for token s ..
    have stop: "reads_as (\<lambda>s. let (token, s) = next_token s
            in if \<not> is_keyword token then cg_emit_selector_send (sel @ key) (n + 1) (unread token s)
               else cg (Keyword_args (name_in SELECTOR_SIZE ((sel @ key) @ token_text token)) (n + 1)) s) rest ?send rest"
      by (rule reads_unread [where P = "\<lambda>token. \<not> is_keyword token" and h = ?send])
        (use a in \<open>simp_all add: ended_looks reads_nothing\<close>)
    have "reads_as (cg (Keyword_args (sel @ key) n)) (binary_tokens b @ rest) (\<lambda>s. and_also (emit_binary b s) ?send) rest"
      by (rule keyword_args_cong [OF reads_and_also [OF b emits_syntax(3) stop]])
    then show "reads_as (cg (Keyword_args (sel @ first_key (Last_argument key b)) n))
        (tl (argument_tokens (Last_argument key b)) @ rest)
        (\<lambda>s. and_also (emit_arguments (Last_argument key b) s)
           (cg_emit_selector_send (sel @ keyword_selector (Last_argument key b))
              (n + argument_count (Last_argument key b)))) rest" by simp
  qed
next
  case (Argument key b args)
  show ?case
    unfolding reads_arguments_def
  proof (intro allI impI)
    fix sel n rest
    assume a: "arguments_ok (Argument key b args) \<and> ended rest \<and>
        length (sel @ keyword_selector (Argument key b args)) < SELECTOR_SIZE"
    let ?key = "first_key args" let ?more = "tl (argument_tokens args)"
    let ?rest = "keyword_token ?key # ?more @ rest"
    let ?g = "\<lambda>s. and_also (emit_arguments args s)
        (cg_emit_selector_send ((sel @ key) @ keyword_selector args) ((n + 1) + argument_count args))"
    have arguments: "tl (argument_tokens (Argument key b args)) @ rest = binary_tokens b @ ?rest"
      unfolding argument_tokens.simps list.sel append_assoc by (subst argument_tokens_first) simp
    have b: "reads_as (cg_parse_binary_expression cg) (binary_tokens b @ ?rest) (emit_binary b) ?rest"
      using a by (intro binary_reads_all Argument.IH(1)) simp_all
    have more: "reads_as (cg (Keyword_args ((sel @ key) @ ?key) (n + 1))) (?more @ rest) ?g rest"
      using Argument.IH(2) [unfolded reads_arguments_def, rule_format, of rest "sel @ key" "n + 1"] a by simp
    have "length ?key \<le> length (keyword_selector args)" using keyword_selector_first [of args] by auto
    then have k: "token_text (keyword_token ?key) = ?key"
        "name_in SELECTOR_SIZE ((sel @ key) @ ?key) = (sel @ key) @ ?key"
      using a first_key_ok [of args] name_in_short [of "(sel @ key) @ ?key" SELECTOR_SIZE] by simp_all
    have go: "reads_as (\<lambda>s. let (token, s) = next_token s
            in if \<not> is_keyword token then cg_emit_selector_send (sel @ key) (n + 1) (unread token s)
               else cg (Keyword_args (name_in SELECTOR_SIZE ((sel @ key) @ token_text token)) (n + 1)) s) ?rest ?g rest"
      by (rule reads_token) (use more k in simp)
    have "reads_as (cg (Keyword_args (sel @ key) n)) (binary_tokens b @ ?rest) (\<lambda>s. and_also (emit_binary b s) ?g) rest"
      by (rule keyword_args_cong [OF reads_and_also [OF b emits_syntax(3) go]])
    then show "reads_as (cg (Keyword_args (sel @ first_key (Argument key b args)) n))
        (tl (argument_tokens (Argument key b args)) @ rest)
        (\<lambda>s. and_also (emit_arguments (Argument key b args) s)
           (cg_emit_selector_send (sel @ keyword_selector (Argument key b args))
              (n + argument_count (Argument key b args)))) rest"
      unfolding arguments by (simp add: and_also_assoc)
  qed
qed

section \<open>Expressions that start with a name\<close>

text \<open>
  A statement that starts with a name is compiled from its second token on, and the loop that
  continues an expression takes all the messages.
\<close>

primrec unary_head :: "unary \<Rightarrow> primary" where
  "unary_head (Receiver x) = x"
| "unary_head (Unary_send u sel) = unary_head u"

primrec binary_head :: "binary \<Rightarrow> primary" where
  "binary_head (Unary_part u) = unary_head u"
| "binary_head (Binary_send b sel u) = binary_head b"

fun expression_head :: "expression \<Rightarrow> primary" where
  "expression_head (Binary_part b) = binary_head b"
| "expression_head (Keyword_send b args) = binary_head b"

lemma continuation_unary:
  assumes "name_ok sel"
  shows "reads_as (cg Continuation) (name_token sel # rest)
    (\<lambda>s. and_also (cg_emit_selector_send sel 0 s) (cg Continuation)) rest"
proof (rule reads_cg)
  have "reads_as (cg_parse_expression_continuation cg) (name_token sel # rest)
    (\<lambda>s. and_also (cg_emit_selector_send sel 0 s) (cg Continuation)) rest"
    unfolding cg_parse_expression_continuation_def
    by (rule reads_token)
      (use assms in \<open>simp add: name_ok_def reads_nothing is_terminator_def is_special_text_def\<close>)
  then show "reads_as (cg_step cg Continuation) (name_token sel # rest)
    (\<lambda>s. and_also (cg_emit_selector_send sel 0 s) (cg Continuation)) rest" by simp
qed

lemma continuation_binary:
  assumes "reads_as (cg_parse_unary_expression cg) tokens (emit_unary u) rest"
    and "looks (\<lambda>token. \<not> is_binary_token token) tokens" and "operator_ok sel"
  shows "reads_as (cg Continuation) (map mark_token sel @ tokens)
    (\<lambda>s. and_also (and_also (emit_unary u s) (cg_emit_selector_send sel 1)) (cg Continuation)) rest"
proof (rule reads_cg)
  obtain c cs where sel: "sel = c # cs" "is_binary_selector_char c"
    using assms(3) by (cases sel) (auto simp: operator_ok_def)
  have "reads_as (cg_binary_message cg (mark_token c)) (map mark_token cs @ tokens)
      (\<lambda>s. and_also (emit_unary u s) (cg_emit_selector_send sel 1)) rest"
    using binary_message_reads [OF assms] by (simp add: sel)
  then have m: "reads_as (\<lambda>s. and_also (cg_binary_message cg (mark_token c) s) (cg Continuation)) (map mark_token cs @ tokens)
      (\<lambda>s. and_also (and_also (emit_unary u s) (cg_emit_selector_send sel 1)) (cg Continuation)) rest"
    by (rule reads_and_also [OF _ emits_and_also [OF emits_syntax(2) emits_send] reads_nothing])
  have "reads_as (cg_parse_expression_continuation cg) (mark_token c # map mark_token cs @ tokens)
      (\<lambda>s. and_also (and_also (emit_unary u s) (cg_emit_selector_send sel 1)) (cg Continuation)) rest"
    unfolding cg_parse_expression_continuation_def
    by (rule reads_token) (use m sel(2) in \<open>auto simp: is_terminator_def is_binary_selector_char_def\<close>)
  then show "reads_as (cg_step cg Continuation) (map mark_token sel @ tokens)
      (\<lambda>s. and_also (and_also (emit_unary u s) (cg_emit_selector_send sel 1)) (cg Continuation)) rest"
    by (simp add: sel)
qed

abbreviation from_name :: "BToken \<Rightarrow> CgState \<Rightarrow> CgState attempt" where
  "from_name token s \<equiv> and_also (cg_emit_primary_token cg token s) (cg Continuation)"

lemma head_tokens:
  "unary_head u = Atom token \<Longrightarrow> unary_tokens u = token # tl (unary_tokens u)"
  "binary_head b = Atom token \<Longrightarrow> binary_tokens b = token # tl (binary_tokens b)"
proof -
  have u: "\<exists>tokens. unary_tokens u = token # tokens" if "unary_head u = Atom token" for u
    using that
    by (induction u rule: unary.induct [where ?P1.0 = "\<lambda>_. True" and ?P3.0 = "\<lambda>_. True" and ?P4.0 = "\<lambda>_. True"
        and ?P5.0 = "\<lambda>_. True"]) auto
  have b: "\<exists>tokens. binary_tokens b = token # tokens" if "binary_head b = Atom token" for b
    using that
    by (induction b rule: binary.induct [where ?P1.0 = "\<lambda>_. True" and ?P2.0 = "\<lambda>_. True" and ?P4.0 = "\<lambda>_. True"
        and ?P5.0 = "\<lambda>_. True"]) (auto dest: u)
  show "unary_tokens u = token # tl (unary_tokens u)" if "unary_head u = Atom token" using u [OF that] by auto
  show "binary_tokens b = token # tl (binary_tokens b)" if "binary_head b = Atom token" using b [OF that] by auto
qed

lemma unary_from_name:
  "unary_ok u \<Longrightarrow> unary_head u = Atom token \<Longrightarrow>
    reads_as (from_name token) (tl (unary_tokens u) @ rest) (\<lambda>s. and_also (emit_unary u s) (cg Continuation)) rest"
proof (induction u arbitrary: rest rule: unary.induct [where ?P1.0 = "\<lambda>_. True" and ?P3.0 = "\<lambda>_. True"
      and ?P4.0 = "\<lambda>_. True" and ?P5.0 = "\<lambda>_. True"])
  case (Receiver x)
  then have "reads_as (cg_emit_primary_token cg token) rest (emit_primary x) rest"
    using reads_primary_token by simp
  from reads_and_also [OF this emits_syntax(1) reads_nothing] Receiver show ?case by simp
next
  case (Unary_send u sel)
  then have "reads_as (from_name token) (tl (unary_tokens u) @ name_token sel # rest)
      (\<lambda>s. and_also (emit_unary u s) (cg Continuation)) (name_token sel # rest)" by simp
  from reads_then [OF this emits_syntax(2) continuation_unary] Unary_send.prems
  have "reads_as (from_name token) (tl (unary_tokens u) @ name_token sel # rest)
      (\<lambda>s. and_also (emit_unary (Unary_send u sel) s) (cg Continuation)) rest" by (simp add: and_also_assoc)
  moreover have "tl (unary_tokens u @ [name_token sel]) = tl (unary_tokens u) @ [name_token sel]"
    using head_tokens(1) [of u token] Unary_send.prems(2) by (cases "unary_tokens u") simp_all
  ultimately show ?case by simp
qed simp_all

lemma binary_from_name:
  "binary_ok b \<Longrightarrow> binary_head b = Atom token \<Longrightarrow> looks (\<lambda>token. \<not> is_identifier token) rest \<Longrightarrow>
    reads_as (from_name token) (tl (binary_tokens b) @ rest) (\<lambda>s. and_also (emit_binary b s) (cg Continuation)) rest"
proof (induction b arbitrary: rest rule: binary.induct [where ?P1.0 = "\<lambda>_. True" and ?P2.0 = "\<lambda>_. True"
      and ?P4.0 = "\<lambda>_. True" and ?P5.0 = "\<lambda>_. True"])
  case (Unary_part u)
  then show ?case using unary_from_name by simp
next
  case (Binary_send b sel u)
  have ok: "binary_ok b" "operator_ok sel" "unary_ok u" "binary_head b = Atom token"
    using Binary_send.prems by simp_all
  let ?tokens = "unary_tokens u @ rest"
  have u: "reads_as (cg_parse_unary_expression cg) ?tokens (emit_unary u) rest"
    using expressions_read(2) ok Binary_send.prems(3) by (intro unary_reads_all) simp_all
  have l: "looks (\<lambda>token. \<not> is_binary_token token) ?tokens" using unary_first(2) [OF ok(3)] by auto
  have "looks (\<lambda>token. \<not> is_identifier token) (map mark_token sel @ ?tokens)"
    using ok(2) by (cases sel) (auto simp: operator_ok_def)
  then have "reads_as (from_name token) (tl (binary_tokens b) @ map mark_token sel @ ?tokens)
      (\<lambda>s. and_also (emit_binary b s) (cg Continuation)) (map mark_token sel @ ?tokens)"
    by (rule Binary_send.IH(1) [OF ok(1,4)])
  from reads_then [OF this emits_syntax(3) continuation_binary [OF u l ok(2)]]
  have "reads_as (from_name token) (tl (binary_tokens b) @ map mark_token sel @ ?tokens)
      (\<lambda>s. and_also (emit_binary (Binary_send b sel u) s) (cg Continuation)) rest" by (simp add: and_also_assoc)
  moreover have "tl (binary_tokens (Binary_send b sel u)) = tl (binary_tokens b) @ map mark_token sel @ unary_tokens u"
    using head_tokens(2) [OF ok(4)] by (cases "binary_tokens b") simp_all
  ultimately show ?case by simp
qed simp_all

lemma expression_from_name:
  assumes "expression_ok e" and "expression_head e = Atom token" and "ended rest"
  shows "reads_as (from_name token) (tl (expression_tokens e) @ rest) (emit_expression e) rest"
proof (cases e)
  case (Binary_part b)
  then have "reads_as (from_name token) (tl (binary_tokens b) @ rest) (\<lambda>s. and_also (emit_binary b s) (cg Continuation)) rest"
    using binary_from_name assms ended_looks(1) by simp
  from reads_then [OF this emits_syntax(3) continuation_stop [OF assms(3)]] show ?thesis by (simp add: Binary_part)
next
  case (Keyword_send b args)
  have ok: "binary_ok b" "arguments_ok args" "length (keyword_selector args) < SELECTOR_SIZE" "binary_head b = Atom token"
    using assms by (simp_all add: Keyword_send)
  let ?rest = "argument_tokens args @ rest"
  have "looks (\<lambda>token. \<not> is_identifier token) ?rest" by (cases args) simp_all
  then have "reads_as (from_name token) (tl (binary_tokens b) @ ?rest) (\<lambda>s. and_also (emit_binary b s) (cg Continuation)) ?rest"
    by (rule binary_from_name [OF ok(1,4)])
  from reads_then [OF this emits_syntax(3) continuation_keywords [OF expressions_read(5) ok(2,3) assms(3)]]
  have "reads_as (from_name token) (tl (binary_tokens b) @ ?rest) (emit_expression e) rest"
    by (simp add: Keyword_send and_also_assoc)
  moreover have "tl (expression_tokens e) = tl (binary_tokens b) @ argument_tokens args"
    using head_tokens(2) [OF ok(4)] by (cases "binary_tokens b") (simp_all add: Keyword_send)
  ultimately show ?thesis by simp
qed

section \<open>Statements\<close>

lemma reads_statements:
  "reads_to (cg_parse_statements cg) tokens g R \<Longrightarrow> reads_to (cg Cg_statements) tokens g R"
  by (rule reads_cg) simp

lemma after_expression_period:
  "reads_as (after_expression cg) (mark_token CHR ''.'' # rest) (\<lambda>s. and_also (cg_emit_byte BC_CG_POP s) (cg Cg_statements)) rest"
  unfolding after_expression_def by (rule reads_token) (simp add: reads_nothing)

lemma after_assignment_period:
  "reads_as (after_assignment cg) (mark_token CHR ''.'' # rest) (cg Cg_statements) rest"
  unfolding after_assignment_def by (rule reads_token) (simp add: reads_nothing)

lemma ended_period [simp]: "ended (mark_token CHR ''.'' # rest)"
  by (simp add: is_terminator_def)

text \<open>The tokens of an expression: its first one, and that no assignment is among them.\<close>

abbreviation no_assignment :: "BToken \<Rightarrow> bool" where
  "no_assignment token \<equiv> \<not> is_special_text token '':=''"

lemma expression_no_assignment:
  "primary_ok x \<Longrightarrow> list_all no_assignment (primary_tokens x)"
  "unary_ok u \<Longrightarrow> list_all no_assignment (unary_tokens u)"
  "binary_ok b \<Longrightarrow> list_all no_assignment (binary_tokens b)"
  "expression_ok e \<Longrightarrow> list_all no_assignment (expression_tokens e)"
  "arguments_ok args \<Longrightarrow> list_all no_assignment (argument_tokens args)"
proof (induction x and u and b and e and args)
  case (Atom token)
  then show ?case by (auto simp: atom_ok_def is_literal_token_def is_special_text_def)
qed (auto simp: is_special_text_def list_all_iff)

lemma expression_first:
  assumes "expression_ok e"
  shows "(\<exists>token. is_identifier token \<and> expression_head e = Atom token \<and>
      expression_tokens e = token # tl (expression_tokens e)) \<or>
    (\<exists>token. expression_tokens e = token # tl (expression_tokens e) \<and>
      (is_literal_token token \<or> token = mark_token CHR ''(''))"
proof -
  have p: "\<exists>token. primary_tokens x = token # tl (primary_tokens x) \<and>
      (is_identifier token \<and> x = Atom token \<or> is_literal_token token \<or> token = mark_token CHR ''('')" if "primary_ok x" for x
    using that by (cases x) (auto simp: atom_ok_def)
  have u: "\<exists>token. unary_tokens u = token # tl (unary_tokens u) \<and>
      (is_identifier token \<and> unary_head u = Atom token \<or> is_literal_token token \<or> token = mark_token CHR ''('')"
    if "unary_ok u" for u
    using that
  proof (induction u rule: unary.induct [where ?P1.0 = "\<lambda>_. True" and ?P3.0 = "\<lambda>_. True" and ?P4.0 = "\<lambda>_. True"
        and ?P5.0 = "\<lambda>_. True"])
    case (Receiver x)
    then show ?case using p [of x] by simp
  next
    case (Unary_send u sel)
    then obtain token where "unary_tokens u = token # tl (unary_tokens u)"
        "is_identifier token \<and> unary_head u = Atom token \<or> is_literal_token token \<or> token = mark_token CHR ''(''" by auto
    then show ?case by (cases "unary_tokens u") auto
  qed simp_all
  have b: "\<exists>token. binary_tokens b = token # tl (binary_tokens b) \<and>
      (is_identifier token \<and> binary_head b = Atom token \<or> is_literal_token token \<or> token = mark_token CHR ''('')"
    if "binary_ok b" for b
    using that
  proof (induction b rule: binary.induct [where ?P1.0 = "\<lambda>_. True" and ?P2.0 = "\<lambda>_. True" and ?P4.0 = "\<lambda>_. True"
        and ?P5.0 = "\<lambda>_. True"])
    case (Unary_part x)
    then show ?case using u [of x] by simp
  next
    case (Binary_send b sel x)
    then obtain token where "binary_tokens b = token # tl (binary_tokens b)"
        "is_identifier token \<and> binary_head b = Atom token \<or> is_literal_token token \<or> token = mark_token CHR ''(''" by auto
    then show ?case by (cases "binary_tokens b") auto
  qed simp_all
  show ?thesis
  proof (cases e)
    case (Binary_part x)
    then show ?thesis using b [of x] assms by auto
  next
    case (Keyword_send x args)
    then obtain token where "binary_tokens x = token # tl (binary_tokens x)"
        "is_identifier token \<and> binary_head x = Atom token \<or> is_literal_token token \<or> token = mark_token CHR ''(''"
      using b [of x] assms by auto
    then show ?thesis by (cases "binary_tokens x") (auto simp: Keyword_send)
  qed
qed

lemma evaluate_reads:
  assumes "expression_ok e"
  shows "reads_as (cg Cg_statements) (expression_tokens e @ mark_token CHR ''.'' # rest)
    (\<lambda>s. and_also (and_also (emit_expression e s) (cg_emit_byte BC_CG_POP)) (cg Cg_statements)) rest"
    (is "reads_as _ (_ @ ?period) ?g rest")
proof (rule reads_statements)
  have g: "(\<lambda>s. and_also (emit_expression e s) (\<lambda>s. and_also (cg_emit_byte BC_CG_POP s) (cg Cg_statements))) = ?g"
    by (simp add: and_also_assoc)
  consider token tokens where "is_identifier token" "expression_head e = Atom token" "expression_tokens e = token # tokens"
    | token tokens where "expression_tokens e = token # tokens" "is_literal_token token \<or> token = mark_token CHR ''(''"
    using expression_first [OF assms] by blast
  then show "reads_as (cg_parse_statements cg) (expression_tokens e @ ?period) ?g rest"
  proof cases
    case 1
    have "list_all no_assignment tokens" using expression_no_assignment(4) [OF assms] 1(3) by simp
    then have l: "looks no_assignment (tokens @ ?period)" by (cases tokens) simp_all
    have "reads_as (from_name token) (tokens @ ?period) (emit_expression e) ?period"
      using expression_from_name [OF assms 1(2) ended_period, of rest] by (simp add: 1(3))
    from reads_and_also [OF this emits_syntax(4) after_expression_period]
    have r: "reads_as (\<lambda>s. and_also (from_name token s) (after_expression cg)) (tokens @ ?period) ?g rest" by (simp only: g)
    have "reads_as (identifier_statement cg token) (tokens @ ?period) ?g rest"
      unfolding identifier_statement_def by (rule reads_unread [OF _ l r]) simp
    then have "reads_as (cg_parse_statements cg) (token # tokens @ ?period) ?g rest"
      unfolding cg_parse_statements_def by (intro reads_token) (simp add: 1(1) is_special_text_def)
    then show ?thesis by (simp add: 1(3))
  next
    case 2
    have "reads_as (cg Cg_expression) (expression_tokens e @ ?period) (emit_expression e) ?period"
      by (rule expressions_read(4) [OF assms ended_period])
    from reads_and_also [OF this emits_syntax(4) after_expression_period]
    have r: "reads_as (\<lambda>s. and_also (cg Cg_expression s) (after_expression cg)) (token # tokens @ ?period) ?g rest"
      by (simp only: g 2(1) append_Cons)
    let ?P = "\<lambda>token. is_literal_token token \<or> token = mark_token CHR ''(''"
    have "reads_as (cg_parse_statements cg) (token # tokens @ ?period) ?g rest"
      unfolding cg_parse_statements_def
      by (rule reads_unread [where P = ?P, OF _ _ r]) (use 2(2) in \<open>auto simp: is_literal_token_def is_special_text_def\<close>)
    then show ?thesis by (simp add: 2(1))
  qed
qed

lemma emits_assignment: "emits f \<Longrightarrow> emits (assignment (\<lambda>_. f) name)"
proof -
  assume f: "emits f"
  have st: "and_also (f (s\<lparr>parser := p\<rparr>)) (\<lambda>t. emit_op b (slot t) t) = restoring p (and_also (f s) (\<lambda>t. emit_op b (slot t) t))"
    if "\<And>t p. slot (t\<lparr>parser := p\<rparr>) = slot t" for s p b slot
  proof -
    have "emit_op b n (t\<lparr>parser := p\<rparr>) = restoring p (emit_op b n t)" for n t
      using emits_op by (simp add: emits_def)
    then show ?thesis using f that by (cases "f s") (simp_all add: emits_def)
  qed
  have sl: "cg_local_temp_slot (t\<lparr>parser := p\<rparr>) i = cg_local_temp_slot t i" for t p i by simp
  have "assignment (\<lambda>_. f) name (s\<lparr>parser := p\<rparr>) = restoring p (assignment (\<lambda>_. f) name s)" for s p
    unfolding assignment_def using st [of "\<lambda>t. cg_local_temp_slot t _"] st [of "\<lambda>_. _"]
    by (auto simp: inst_var_index_parser split: option.split)
  moreover have "settles 0 s (assignment (\<lambda>_. f) name s)" if k: "names_known s" for s
  proof -
    obtain i t where t: "cg_inst_var_index name s = Some (i, t)" "weight t = weight s" "same_class s t"
      using inst_var_index_known [OF k] by blast
    have "settles 0 u (f u)" if "same_class s u" for u
      using f same_class_known [OF that k] by (simp add: emits_def)
    then have store: "settles 0 u (and_also (f u) (\<lambda>v. emit_op b (slot v) v))" if "same_class s u" for u b slot
      using that by (intro settles_and_also settles_emit) simp
    have "settles 0 s (case i of None \<Rightarrow> Fails t | Some j \<Rightarrow> and_also (f t) (emit_op BC_CG_STORE_INST_VAR j))"
      using t settles_from [OF store [of t BC_CG_STORE_INST_VAR "\<lambda>_. the i"], of 0 s] by (cases i) simp_all
    then show ?thesis
      unfolding assignment_def using store [OF same_class_refl] by (auto simp: t(1) split: option.split)
  qed
  moreover have "same_scope s s'" if a: "assignment (\<lambda>_. f) name s = Succeeds s'" for s s'
  proof -
    have sc: "same_scope t s'" if e: "and_also (f t) (\<lambda>v. emit_op b (slot v) v) = Succeeds s'" for t b slot
    proof -
      obtain u where u: "f t = Succeeds u" "emit_op b (slot u) u = Succeeds s'"
        using e by (auto simp: and_also_eq_Succeeds)
      then have "same_scope t u" "same_scope u s'" using f emits_op by (simp_all add: emits_def)
      then show ?thesis by (simp add: same_scope_def)
    qed
    have v: "same_scope s s'" if "cg_inst_var_index name s = Some (j, t)" "same_scope t s'" for j t
      using that by (auto simp: cg_inst_var_index_def Let_def same_scope_def split: option.splits if_splits)
    show ?thesis
      using a unfolding assignment_def
      by (auto split: option.splits prod.splits intro: sc sc [of _ _ "\<lambda>_. _"] v)
  qed
  ultimately show ?thesis by (simp add: emits_def)
qed

lemma forget_and_also: "forget a = forget b \<Longrightarrow> forget (and_also a k) = forget (and_also b k)"
  by (cases a; cases b) simp_all

lemma assignment_reads:
  assumes "reads_as (cg Cg_expression) tokens f rest"
  shows "reads_as (assignment cg name) tokens (assignment (\<lambda>_. f) name) rest"
  unfolding reads_to_def
proof (intro allI impI)
  fix p
  assume "coming p = tokens"
  then obtain p' where p': "coming p' = rest"
      "\<And>s. parser s = p \<Longrightarrow> names_known s \<Longrightarrow> forget (cg Cg_expression s) = forget (f (s\<lparr>parser := p'\<rparr>))"
    using assms unfolding reads_to_def by blast
  have "forget (assignment cg name s) = forget (assignment (\<lambda>_. f) name (s\<lparr>parser := p'\<rparr>))"
    if s: "parser s = p" "names_known s" for s
  proof -
    have here: "forget (and_also (cg Cg_expression s) k) = forget (and_also (f (s\<lparr>parser := p'\<rparr>)) k)" for k
      by (rule forget_and_also) (rule p'(2) [OF s])
    obtain i t where t: "cg_inst_var_index name s = Some (i, t)" "same_class s t"
      using inst_var_index_known [OF s(2)] by blast
    have pt: "parser t = p" using t(1) s(1) by (auto simp: cg_inst_var_index_def Let_def split: option.splits if_splits)
    have there: "forget (and_also (cg Cg_expression t) k) = forget (and_also (f (t\<lparr>parser := p'\<rparr>)) k)" for k
      by (rule forget_and_also) (rule p'(2) [OF pt same_class_known [OF t(2) s(2)]])
    show ?thesis
      unfolding assignment_def
      by (simp add: inst_var_index_parser t(1) here there split: option.split)
  qed
  then show "\<exists>p'. coming p' = rest \<and> (\<forall>s. parser s = p \<and> names_known s \<longrightarrow>
      forget (assignment cg name s) = forget (assignment (\<lambda>_. f) name (s\<lparr>parser := p'\<rparr>)))"
    using p'(1) by blast
qed

lemma assign_reads:
  assumes "expression_ok e" and "name_ok name"
  shows "reads_as (cg Cg_statements) (statement_tokens (Assign name e) @ rest)
    (\<lambda>s. and_also (emit_statement (Assign name e) s) (cg Cg_statements)) rest"
proof (rule reads_statements)
  let ?period = "mark_token CHR ''.'' # rest" and ?assign = "text_token BTOK_SPECIAL '':=''"
  let ?g = "\<lambda>s. and_also (assignment (\<lambda>_. emit_expression e) name s) (cg Cg_statements)"
  have "reads_as (cg Cg_expression) (expression_tokens e @ ?period) (emit_expression e) ?period"
    by (rule expressions_read(4) [OF assms(1) ended_period])
  from reads_and_also [OF assignment_reads [OF this] emits_assignment [OF emits_syntax(4)] after_assignment_period]
  have r: "reads_as (\<lambda>s. and_also (assignment cg name s) (after_assignment cg)) (expression_tokens e @ ?period) ?g rest" .
  have a: "is_special_text ?assign '':=''" by (simp add: is_special_text_def TOKEN_TEXT_SIZE_def)
  have n: "token_text (name_token name) = name" using assms(2) by (simp add: name_ok_def)
  have "reads_as (identifier_statement cg (name_token name)) (?assign # expression_tokens e @ ?period) ?g rest"
    unfolding identifier_statement_def by (rule reads_token) (simp add: a n r)
  then have "reads_as (cg_parse_statements cg) (name_token name # ?assign # expression_tokens e @ ?period) ?g rest"
    unfolding cg_parse_statements_def by (intro reads_token) (simp add: is_special_text_def)
  then show "reads_as (cg_parse_statements cg) (statement_tokens (Assign name e) @ rest)
    (\<lambda>s. and_also (emit_statement (Assign name e) s) (cg Cg_statements)) rest" by simp
qed

lemma emits_statement: "emits (emit_statement st)"
proof (cases st)
  case (Evaluate e)
  then have "emit_statement st = (\<lambda>s. and_also (emit_expression e s) (cg_emit_byte BC_CG_POP))" by (simp add: fun_eq_iff)
  then show ?thesis by (simp add: emits_and_also emitting)
next
  case (Assign name e)
  then have "emit_statement st = assignment (\<lambda>_. emit_expression e) name" by (simp add: fun_eq_iff)
  then show ?thesis by (simp add: emits_assignment emitting)
qed

lemma emits_statements: "emits (emit_statements sts)"
proof (induction sts)
  case Nil
  have "emit_statements [] = Succeeds" by (simp add: fun_eq_iff)
  then show ?case by (simp add: emits_def same_scope_def)
next
  case (Cons st sts)
  have "emit_statements (st # sts) = (\<lambda>s. and_also (emit_statement st s) (emit_statements sts))" by (simp add: fun_eq_iff)
  then show ?case using Cons by (simp add: emits_and_also emits_statement)
qed

lemma statement_reads:
  assumes "statement_ok st"
  shows "reads_as (cg Cg_statements) (statement_tokens st @ rest) (\<lambda>s. and_also (emit_statement st s) (cg Cg_statements)) rest"
proof (cases st)
  case (Evaluate e)
  then show ?thesis using evaluate_reads [of e rest] assms by simp
next
  case (Assign name e)
  then show ?thesis using assign_reads [of e name rest] assms by simp
qed

lemma statements_read:
  "list_all statement_ok sts \<Longrightarrow>
    reads_as (cg Cg_statements) (concat (map statement_tokens sts) @ rest)
      (\<lambda>s. and_also (emit_statements sts s) (cg Cg_statements)) rest"
proof (induction sts)
  case Nil
  then show ?case using reads_nothing by simp
next
  case (Cons st sts)
  then have "reads_as (cg Cg_statements) (statement_tokens st @ concat (map statement_tokens sts) @ rest)
      (\<lambda>s. and_also (emit_statement st s) (cg Cg_statements)) (concat (map statement_tokens sts) @ rest)"
    by (intro statement_reads) simp
  from reads_then [OF this emits_statement Cons.IH] Cons.prems show ?case by (simp add: and_also_assoc)
qed

section \<open>Methods\<close>

lemma return_reads:
  assumes "expression_ok e"
  shows "reads_to (cg Cg_statements) (mark_token CHR ''^'' # expression_tokens e)
    (\<lambda>s. and_also (and_also (emit_expression e s) (\<lambda>s. cg_emit_byte (if in_block s then BC_CG_RETURN_NON_LOCAL else BC_CG_RETURN) s))
       (\<lambda>s. Succeeds (s\<lparr>saw_return := True\<rparr>))) (\<lambda>_. True)"
proof (rule reads_statements)
  let ?byte = "\<lambda>s. cg_emit_byte (if in_block s then BC_CG_RETURN_NON_LOCAL else BC_CG_RETURN) s"
  let ?eof = "\<lambda>s. let (eof, s) = next_token (s\<lparr>saw_return := True\<rparr>) in if is_eof eof then Succeeds s else Fails s"
  let ?saw = "\<lambda>s. Succeeds (s\<lparr>saw_return := True\<rparr>)"
  have b: "emits ?byte"
    by (auto simp: emits_def cg_emit_byte_def same_scope_def)
  have "ended []" by (simp add: looks_def)
  from expressions_read(4) [OF assms this]
  have e: "reads_as (cg Cg_expression) (expression_tokens e) (emit_expression e) []" by simp
  have eof: "reads_to ?eof [] ?saw (\<lambda>_. True)"
    unfolding reads_to_def
  proof (intro allI impI)
    fix p
    assume "coming p = []"
    then obtain token q where q: "bp_next p = (token, q)" "is_eof token" using next_end by blast
    show "\<exists>p'. True \<and> (\<forall>s. parser s = p \<and> names_known s \<longrightarrow>
        forget (?eof s) = forget (?saw (s\<lparr>parser := p'\<rparr>)))"
    proof (intro exI [of _ q] conjI TrueI allI impI)
      fix s :: CgState
      assume "parser s = p \<and> names_known s"
      then have "?eof s = ?saw (s\<lparr>parser := q\<rparr>)" using q by (simp add: next_token_def)
      then show "forget (?eof s) = forget (?saw (s\<lparr>parser := q\<rparr>))" by (rule arg_cong)
    qed
  qed
  have "reads_to (return_statement cg) (expression_tokens e)
      (\<lambda>s. and_also (and_also (emit_expression e s) ?byte) ?saw) (\<lambda>_. True)"
    unfolding return_statement_def
    by (rule reads_and_also [OF reads_and_also [OF e emits_syntax(4) reads_nothing] emits_and_also [OF emits_syntax(4) b] eof])
  then show "reads_to (cg_parse_statements cg) (mark_token CHR ''^'' # expression_tokens e)
      (\<lambda>s. and_also (and_also (emit_expression e s) ?byte) ?saw) (\<lambda>_. True)"
    unfolding cg_parse_statements_def by (intro reads_token) simp
qed

end
