(* ===== verification/Codegen_Methods.thy ===== *)
theory Codegen_Methods
  imports Codegen_Equiv
begin

text \<open>
  The code generator on whole methods: temporaries, statements and a result, compiled from their text
  and from their syntax.
\<close>

section \<open>Temporaries\<close>

lemma parse_temps_reads:
  assumes "list_all name_ok names" and "coming p = map name_token names @ mark_token CHR ''|'' # rest"
  shows "\<exists>p'. coming p' = rest \<and> (\<forall>s :: CgState. parser s = p \<and> length (temp_names (body s)) + length names \<le> MAX_TEMPS \<longrightarrow>
     parse_temps s = Succeeds (s\<lparr>parser := p', body := (body s)\<lparr>temp_names :=
       temp_names (body s) @ map (name_in NAME_SIZE) names\<rparr>\<rparr>))"
  using assms
proof (induction names arbitrary: p)
  case Nil
  then have "coming p = mark_token CHR ''|'' # rest" by simp
  then obtain p' where p': "bp_next p = (mark_token CHR ''|'', p')" "coming p' = rest" using next_coming by blast
  then have "parse_temps s = Succeeds (s\<lparr>parser := p'\<rparr>)" if "parser s = p" for s :: CgState
    using that by (simp add: parse_temps.simps [of s] next_token_def)
  then show ?case using p'(2) by (intro exI [of _ p']) auto
next
  case (Cons name names)
  then have "coming p = name_token name # map name_token names @ mark_token CHR ''|'' # rest" by simp
  then obtain p1 where p1: "bp_next p = (name_token name, p1)" "coming p1 = map name_token names @ mark_token CHR ''|'' # rest"
    using next_coming by blast
  obtain p' where p': "coming p' = rest"
      "\<And>s :: CgState. parser s = p1 \<Longrightarrow> length (temp_names (body s)) + length names \<le> MAX_TEMPS \<Longrightarrow>
       parse_temps s = Succeeds (s\<lparr>parser := p', body := (body s)\<lparr>temp_names :=
         temp_names (body s) @ map (name_in NAME_SIZE) names\<rparr>\<rparr>)"
    using Cons.IH [OF _ p1(2)] Cons.prems(1) by auto
  have n: "token_text (name_token name) = name" "\<not> is_special_text (name_token name) ''|''"
    using Cons.prems(1) by (simp_all add: name_ok_def is_special_text_def)
  have "parse_temps s = Succeeds (s\<lparr>parser := p', body := (body s)\<lparr>temp_names :=
         temp_names (body s) @ map (name_in NAME_SIZE) (name # names)\<rparr>\<rparr>)"
    if "parser s = p" "length (temp_names (body s)) + length (name # names) \<le> MAX_TEMPS" for s :: CgState
    using that p1(1) n p'(2) [of "s\<lparr>parser := p1, body := (body s)\<lparr>temp_names := temp_names (body s) @ [name_in NAME_SIZE name]\<rparr>\<rparr>"]
    by (simp add: parse_temps.simps [of s] next_token_def)
  then show ?case using p'(1) by blast
qed

lemma temp_decls_read:
  assumes "list_all name_ok names" and "length names \<le> MAX_TEMPS"
    and "coming p = temp_tokens names @ rest" and "looks (\<lambda>token. \<not> is_special_text token ''|'') rest"
  shows "\<exists>p'. coming p' = rest \<and> (\<forall>s :: CgState. parser s = p \<and> body s = empty_body \<longrightarrow>
     cg_parse_temp_decls s =
       Succeeds (s\<lparr>parser := p', body := empty_body\<lparr>temp_names := map (name_in NAME_SIZE) names\<rparr>\<rparr>))"
proof (cases "names = []")
  case True
  then have c: "coming p = rest" using assms(3) by (simp add: temp_tokens_def)
  then have "\<exists>token p1. bp_next p = (token, p1) \<and> coming (bp_unread token p1) = rest \<and> \<not> is_special_text token ''|''"
    using next_end [of p] next_coming [of p] assms(4) by (cases rest) (auto simp: looks_def is_special_text_def)
  then obtain token p1 where p1: "bp_next p = (token, p1)" "coming (bp_unread token p1) = rest"
      "\<not> is_special_text token ''|''" by blast
  have "cg_parse_temp_decls s = Succeeds (s\<lparr>parser := bp_unread token p1, body := empty_body\<lparr>temp_names := []\<rparr>\<rparr>)"
    if "parser s = p" "body s = empty_body" for s :: CgState
  proof -
    have "s\<lparr>parser := q\<rparr> = s\<lparr>parser := q, body := empty_body\<lparr>temp_names := []\<rparr>\<rparr>" for q
      using that(2) by (cases s) (simp add: empty_body_def)
    then show ?thesis using that p1 by (simp add: cg_parse_temp_decls_def next_token_def unread_def)
  qed
  then show ?thesis using p1(2) True by (intro exI [of _ "bp_unread token p1"]) simp
next
  case False
  then have "coming p = mark_token CHR ''|'' # map name_token names @ mark_token CHR ''|'' # rest"
    using assms(3) by (simp add: temp_tokens_def)
  then obtain p1 where p1: "bp_next p = (mark_token CHR ''|'', p1)"
      "coming p1 = map name_token names @ mark_token CHR ''|'' # rest" using next_coming by blast
  obtain p' where p': "coming p' = rest"
      "\<And>s :: CgState. parser s = p1 \<Longrightarrow> length (temp_names (body s)) + length names \<le> MAX_TEMPS \<Longrightarrow>
       parse_temps s = Succeeds (s\<lparr>parser := p', body := (body s)\<lparr>temp_names :=
         temp_names (body s) @ map (name_in NAME_SIZE) names\<rparr>\<rparr>)"
    using parse_temps_reads [OF assms(1) p1(2)] by blast
  have "cg_parse_temp_decls s = Succeeds (s\<lparr>parser := p', body := empty_body\<lparr>temp_names := map (name_in NAME_SIZE) names\<rparr>\<rparr>)"
    if "parser s = p" "body s = empty_body" for s :: CgState
    using that p1(1) p'(2) [of "s\<lparr>parser := p1\<rparr>"] assms(2)
    by (simp add: cg_parse_temp_decls_def next_token_def empty_body_def)
  then show ?thesis using p'(1) by blast
qed

text \<open>What comes behind the temporaries.\<close>

lemma statements_first:
  assumes "list_all statement_ok sts"
  shows "looks (\<lambda>token. \<not> is_special_text token ''|'') (concat (map statement_tokens sts) @ mark_token CHR ''^'' # rest)"
proof (cases sts)
  case (Cons st more)
  show ?thesis
  proof (cases st)
    case (Evaluate e)
    then show ?thesis
      using expression_first [of e] assms Cons
      by (cases "expression_tokens e") (auto simp: is_literal_token_def is_special_text_def)
  next
    case (Assign name e)
    then show ?thesis by (simp add: Cons is_special_text_def)
  qed
qed simp

section \<open>The text of a method\<close>

lemma printable_tokens:
  "name_ok s \<Longrightarrow> printable (name_token s)" "key_ok s \<Longrightarrow> printable (keyword_token s)"
  "is_special_char c \<Longrightarrow> printable (mark_token c)"
  by (auto simp: printable_def name_ok_def key_ok_def Let_def text_token_def make_token_def TOKEN_TEXT_SIZE_def)

lemma expression_printable:
  "primary_ok x \<Longrightarrow> list_all printable (primary_tokens x)"
  "unary_ok u \<Longrightarrow> list_all printable (unary_tokens u)"
  "binary_ok b \<Longrightarrow> list_all printable (binary_tokens b)"
  "expression_ok e \<Longrightarrow> list_all printable (expression_tokens e)"
  "arguments_ok args \<Longrightarrow> list_all printable (argument_tokens args)"
proof (induction x and u and b and e and args)
  case (Binary_send b sel u)
  then have "list_all printable (map mark_token sel)"
    by (auto simp: operator_ok_def list_all_iff intro: printable_tokens)
  then show ?case using Binary_send by simp
qed (auto simp: atom_ok_def printable_tokens is_special_char_def NUL_def is_blank_def isalnum_def isalpha_def isdigit_def Let_def)

lemma method_printable:
  assumes "list_all name_ok names" and "list_all statement_ok sts" and "expression_ok result"
  shows "list_all printable (method_tokens names sts result)"
proof -
  have m: "printable (mark_token c)" if "c \<in> {CHR ''.'', CHR ''|'', CHR ''^''}" for c
    using that
    by (auto intro!: printable_tokens(3) simp: is_special_char_def NUL_def is_blank_def isalnum_def isalpha_def isdigit_def Let_def)
  have "printable (text_token BTOK_SPECIAL '':='')"
    by (simp add: printable_def text_token_def make_token_def TOKEN_TEXT_SIZE_def Let_def)
  then have "list_all printable (statement_tokens st)" if "statement_ok st" for st
    using that m expression_printable(4) by (cases st) (auto intro: printable_tokens)
  then have "list_all printable (concat (map statement_tokens sts))"
    using assms(2) by (induction sts) auto
  moreover have "list_all printable (map name_token names)"
    using assms(1) by (auto simp: list_all_iff intro: printable_tokens)
  ultimately show ?thesis
    using m expression_printable(4) [OF assms(3)] by (simp add: method_tokens_def temp_tokens_def)
qed

lemma code_of_forget: "forget a = forget b \<Longrightarrow> code_of a = code_of b"
proof -
  have c: "code_of (forget a) = code_of a" for a by (cases a) (simp_all add: compiled_method_def)
  show "forget a = forget b \<Longrightarrow> code_of a = code_of b" using c [of a] c [of b] by simp
qed

abbreviation finish_body :: "CgState \<Rightarrow> CgState attempt" where
  "finish_body s \<equiv> (let s = s\<lparr>compiled := (compiled s)\<lparr>arg_count := local_arg_count s,
      temp_count := length (temp_names (body s))\<rparr>\<rparr> in if saw_return s then Succeeds s else Fails s)"

text \<open>The statements and the result, from the state in which the statements start.\<close>

lemma method_result:
  fixes s :: CgState
  assumes "in_block s = False" and "length (temp_names (body s)) = n" and "emits emit"
    and "forget a = forget (and_also (and_also (emit (s\<lparr>parser := p\<rparr>))
       (\<lambda>s. cg_emit_byte (if in_block s then BC_CG_RETURN_NON_LOCAL else BC_CG_RETURN) s))
       (\<lambda>s. Succeeds (s\<lparr>saw_return := True\<rparr>)))"
  shows "code_of (and_also (and_also a end_block) finish_body) =
    code_of (and_also (and_also (emit s) (cg_emit_byte BC_CG_RETURN))
       (\<lambda>s. Succeeds (s\<lparr>compiled := (compiled s)\<lparr>arg_count := local_arg_count s, temp_count := n\<rparr>\<rparr>)))"
proof -
  have r: "emit (s\<lparr>parser := p\<rparr>) = restoring p (emit s)" using assms(3) by (simp add: emits_def)
  show ?thesis
  proof (cases "emit s")
    case (Succeeds t)
    have t: "in_block t = False" "length (temp_names (body t)) = n"
      using assms(1-3) Succeeds by (auto simp: emits_def same_scope_def)
    show ?thesis
    proof (cases "cg_emit_byte BC_CG_RETURN t")
      case byte: (Succeeds u)
      have u: "in_block u = False" "length (temp_names (body u)) = n"
        using t byte emits_byte [of BC_CG_RETURN] by (auto simp: emits_def same_scope_def)
      have "cg_emit_byte BC_CG_RETURN (t\<lparr>parser := p\<rparr>) = Succeeds (u\<lparr>parser := p\<rparr>)"
        using byte emits_byte [of BC_CG_RETURN] by (simp add: emits_def)
      then have "a = Succeeds (u\<lparr>parser := p, saw_return := True\<rparr>)"
        using assms(4) t(1) by (simp add: r Succeeds forget_result)
      then show ?thesis
        using u by (simp add: Succeeds byte end_block_def Let_def compiled_method_def)
    next
      case byte: Overruns
      have "cg_emit_byte BC_CG_RETURN (t\<lparr>parser := p\<rparr>) = Overruns"
        using byte emits_byte [of BC_CG_RETURN] by (simp add: emits_def)
      then have "a = Overruns" using assms(4) t(1) by (simp add: r Succeeds forget_result)
      then show ?thesis by (simp add: Succeeds byte)
    qed (simp_all add: cg_emit_byte_def split: if_splits)
  next
    case (Fails t)
    then have "forget a = Fails (t\<lparr>parser := bp_init []\<rparr>)" using assms(4) by (simp add: r)
    then obtain u where u: "a = Fails u" "u\<lparr>parser := bp_init []\<rparr> = t\<lparr>parser := bp_init []\<rparr>" by (cases a) simp_all
    have "compiled_method u = compiled_method t"
      using arg_cong [OF u(2), of compiled_method] by (simp add: compiled_method_def)
    then show ?thesis by (simp add: Fails u(1))
  qed (use assms(4) in \<open>simp_all add: r forget_result\<close>)
qed

lemma statements_and_result:
  assumes "list_all statement_ok sts" and "expression_ok result"
    and "coming p = concat (map statement_tokens sts) @ mark_token CHR ''^'' # expression_tokens result"
  shows "\<exists>p'. \<forall>s. parser s = p \<and> names_known s \<longrightarrow>
     forget (cg Cg_statements s) = forget (and_also (and_also
       (and_also (emit_statements sts (s\<lparr>parser := p'\<rparr>)) (emit_expression result))
       (\<lambda>s. cg_emit_byte (if in_block s then BC_CG_RETURN_NON_LOCAL else BC_CG_RETURN) s))
       (\<lambda>s. Succeeds (s\<lparr>saw_return := True\<rparr>)))"
  using reads_then [OF statements_read [OF assms(1)] emits_statements return_reads [OF assms(2)]] assms(3)
  unfolding reads_to_def by (simp add: and_also_assoc)

text \<open>
  C3. The code generator is the compiler of its syntax. For every method of at most 16 temporaries,
  expression statements, assignments and a result - unary, binary and keyword messages to each other
  (the parts of a keyword selector together below 128 characters), parentheses, identifiers and
  literals that fit a token - written with blanks between its tokens, and for every header and memory
  and every class whose superclass chain ends (or no class), what the code generator answers for the
  text, given fuel for its length, is the code of the syntax:
  receivers before arguments, unary before binary before keyword messages, a pop behind each
  statement, the store of each assignment, a return at the end; and where the one fails or writes
  behind an array, so does the other.
\<close>

theorem method_text_compiles_as_syntax:
  assumes "list_all name_ok names" and "length names \<le> MAX_TEMPS" and "list_all statement_ok sts" and "expression_ok result"
    and "12 * length (print_tokens (method_tokens names sts result)) + 2 < fuel"
    and "klass = 0 \<or> (\<forall>name. bc_class_inst_var_index m klass name \<noteq> None)"
  shows "code_of (bc_codegen_body fuel m (print_tokens (method_tokens names sts result)) h klass) =
    code_of (emit_method m names sts result h klass)"
proof -
  let ?src = "print_tokens (method_tokens names sts result)"
  let ?rest = "concat (map statement_tokens sts) @ mark_token CHR ''^'' # expression_tokens result"
  let ?s = "method_state m ?src h klass" and ?start = "method_start m names h klass"
  have c: "coming (bp_init ?src) = temp_tokens names @ ?rest"
    using coming_init [OF method_printable [OF assms(1,3,4)]] by (simp add: method_tokens_def)
  obtain p where p: "coming p = ?rest"
      "\<And>s :: CgState. parser s = bp_init ?src \<Longrightarrow> body s = empty_body \<Longrightarrow>
         cg_parse_temp_decls s = Succeeds (s\<lparr>parser := p, body := empty_body\<lparr>temp_names := map (name_in NAME_SIZE) names\<rparr>\<rparr>)"
    using temp_decls_read [OF assms(1,2) c statements_first [OF assms(3)]] by blast
  obtain q where q: "\<And>s. parser s = p \<Longrightarrow> names_known s \<Longrightarrow>
      forget (cg Cg_statements s) = forget (and_also (and_also
        (and_also (emit_statements sts (s\<lparr>parser := q\<rparr>)) (emit_expression result))
        (\<lambda>s. cg_emit_byte (if in_block s then BC_CG_RETURN_NON_LOCAL else BC_CG_RETURN) s))
        (\<lambda>s. Succeeds (s\<lparr>saw_return := True\<rparr>)))"
    using statements_and_result [OF assms(3,4) p(1)] by blast
  have known: "names_known ?s" "names_known (?start\<lparr>parser := p\<rparr>)"
    using assms(6) by (simp_all add: names_known_def method_state_def method_start_def)
  have "weight ?s = text_weight ?src" by (simp add: method_state_def parser_weight_def bp_init_def bt_init_def)
  then have "weight ?s + call_rank Codegen_body < fuel" using text_weight_bounds(2) [of ?src] assms(5) by simp
  then have "bc_codegen_body fuel m ?src h klass = cg Codegen_body ?s"
    unfolding bc_codegen_body_def by (rule cg_run_enough [OF known(1)])
  also have "\<dots> = bc_codegen_body_with_outer_state cg ?s" using cg_equation [OF known(1)] by simp
  also have "\<dots> = and_also (and_also (cg Cg_statements (?start\<lparr>parser := p\<rparr>)) end_block) finish_body"
  proof -
    let ?s1 = "?s\<lparr>local_arg_count := (case h of None \<Rightarrow> 0 | Some h \<Rightarrow> length (arg_names h))\<rparr>"
    have "enter_scope ?s = Succeeds ?s1" by (simp add: enter_scope_def method_state_def)
    moreover have "cg_parse_temp_decls ?s1 = Succeeds (?start\<lparr>parser := p\<rparr>)"
      using p(2) [of ?s1] by (simp add: method_state_def method_start_def)
    ultimately show ?thesis by (simp add: bc_codegen_body_with_outer_state_def)
  qed
  finally have "bc_codegen_body fuel m ?src h klass =
      and_also (and_also (cg Cg_statements (?start\<lparr>parser := p\<rparr>)) end_block) finish_body" .
  moreover have "code_of (and_also (and_also (cg Cg_statements (?start\<lparr>parser := p\<rparr>)) end_block) finish_body) =
      code_of (emit_method m names sts result h klass)"
    unfolding emit_method_def
    by (rule method_result [where p = q])
      (use q [of "?start\<lparr>parser := p\<rparr>"] known(2) in
        \<open>simp_all add: method_start_def method_state_def emits_and_also emits_statements emitting\<close>)
  ultimately show ?thesis by simp
qed

definition one_token :: BToken where
  "one_token = \<lparr>token_type = BTOK_INTEGER, token_text = ''1'', int_value = 1\<rparr>"

definition demo_statements :: "statement list" where
  "demo_statements = [Assign ''t'' (Binary_part (Binary_send
     (Unary_part (Unary_send (Receiver (Atom (name_token ''x''))) ''abs'')) ''+'' (Receiver (Atom one_token))))]"

definition demo_result :: expression where
  "demo_result = Keyword_send (Unary_part (Receiver (Atom (name_token ''t''))))
     (Last_argument ''at:'' (Unary_part (Receiver (Atom one_token))))"

theorem method_text_compiles_as_syntax_witness:
  "print_tokens (method_tokens [''t''] demo_statements demo_result) = ''| t | t := x abs + 1 . ^ t at: 1 '' \<and>
   code_of (bc_codegen_body 1000 (\<lambda>_. 0) (print_tokens (method_tokens [''t''] demo_statements demo_result)) None 0) =
     code_of (emit_method (\<lambda>_. 0) [''t''] demo_statements demo_result None 0)"
proof -
  have t: "print_tokens (method_tokens [''t''] demo_statements demo_result) = ''| t | t := x abs + 1 . ^ t at: 1 ''"
    by code_simp
  have ok: "list_all name_ok [''t'']" "length [''t''] \<le> MAX_TEMPS" "list_all statement_ok demo_statements"
    "expression_ok demo_result"
    by (simp_all add: demo_statements_def demo_result_def name_ok_def atom_ok_def one_token_def printable_def
        is_word_def is_word_char_def isalnum_def isalpha_def isdigit_def key_ok_def operator_ok_def is_special_char_def
        is_binary_selector_char_def is_literal_token_def NUL_def is_blank_def TOKEN_TEXT_SIZE_def SELECTOR_SIZE_def
        MAX_TEMPS_def decimal_value_def digit_value_def text_token_def make_token_def Let_def)
  show ?thesis
    using method_text_compiles_as_syntax [OF ok, of 1000 0 "\<lambda>_. 0" None] t by simp
qed

end
