(* ===== verification/Spec2Isabelle.thy ===== *)
theory Spec2Isabelle
  imports Lsp_Laws Expr_Tool Heap_Laws Image_Laws Prim_Laws Transaction_Laws Code_Shape Codegen_Methods
begin

text \<open>
  Living Objects is a Smalltalk virtual machine in C with a durable heap: a bytecode interpreter over
  tagged words, an object memory with page tables and dirty bits, a transaction log with a durable
  copy on disk, checkpoints of the heap, a copying collector in assembly, and a compiler from
  Smalltalk source to bytecode. The theories follow the files of \<^verbatim>\<open>src/\<close>; a definition has the name of the C
  function or macro it models wherever that is possible.

  \<^bold>\<open>Words and memory.\<close> \<open>Prelude\<close> has the type of 64-bit words, memory as a total function from word
  addresses to words, and the generic lemmas. \<open>Tagged\<close> is \<^verbatim>\<open>c_vm/tagged.c\<close>; \<open>Objects\<close> the object layout of
  \<^verbatim>\<open>vm_defs.h\<close> and method lookup, \<^verbatim>\<open>c_vm/lookup.c\<close>; \<open>Frames\<close> the C stack of the interpreter, \<^verbatim>\<open>stack_ops.c\<close>,
  \<^verbatim>\<open>frame.c\<close> and \<^verbatim>\<open>bytecode.c\<close>. \<open>Hashes\<close> and \<open>Relocation\<close> hold what several files share: the FNV step, which
  is injective, and heap pointers as offsets, both as locales interpreted on each use in the code.

  \<^bold>\<open>The heap.\<close> \<open>Object_Memory\<close> is \<^verbatim>\<open>c_vm/object.c\<close>: the registry of heaps, page tables, dirty marking, allocation
  and the walk over objects. \<open>Allocation\<close>, \<open>Heap_Layout\<close> and \<open>Heap_Laws\<close> prove that \<^verbatim>\<open>om_alloc\<close> refines a
  bump allocator on a list of objects (locale \<open>allocator\<close>) for sizes below \<open>2 ^ 50\<close>, and does not refuse sizes that
  wrap around the address space, that \<^verbatim>\<open>om_next_object\<close> enumerates that list, and that the marking of dirty pages is
  exact. \<open>Collector\<close> is \<^verbatim>\<open>arm/gc.s\<close>: copying, the scan of the stack with the
  registers it overwrites, and the retry of an allocation in \<^verbatim>\<open>c_vm/interpret.c\<close>.

  \<^bold>\<open>Transactions and disk.\<close> \<open>Txn_Log\<close> is \<^verbatim>\<open>arm/txn.s\<close>, with the log as a keyed map (locale \<open>keyed_log\<close>);
  \<open>Durable_Log\<close> the append, replay and clear of \<^verbatim>\<open>c/primitives.c\<close>; \<open>Durable_Laws\<close> damage, replay into a checkpoint
  that is smaller than the heap was, and interrupted replay. \<open>Image\<close> has the pointer passes of \<^verbatim>\<open>object.c\<close> and \<^verbatim>\<open>arm/persist.s\<close> and the checkpoint files of
  \<^verbatim>\<open>c_vm/checkpoint.c\<close>; \<open>Image_Prims\<close> the primitives that write and read them; \<open>Image_Laws\<close> their round trip,
  validity and the detection of damage. \<open>Restart_Laws\<close> has what a restart makes of a checkpoint and the log: it
  refuses invalid files, and fails on objects newer than the checkpoint and on frames behind a torn one.

  \<^bold>\<open>The machine.\<close> \<open>Machine\<close> is the state of a run: the heap, the registers, the globals, the chains of handlers,
  ensure frames and logs, the files, and the answers of the operating system. \<open>Symbols\<close> is the rest of
  \<^verbatim>\<open>c/primitives.c\<close>, \<open>Contexts\<close> the context objects, \<open>Prims\<close> the primitives of \<^verbatim>\<open>c_vm/interpret.c\<close> that run no code,
  \<open>Blocks\<close> those that do (blocks, signals, \<^verbatim>\<open>ensure:\<close>, \<^verbatim>\<open>on:do:\<close>, transactions), \<open>Interpret\<close> the bytecodes, sends
  and the loop. \<open>Prim_Laws\<close> proves exact arithmetic, at:put: and that failed primitives change nothing;
  \<open>Interpret_Laws\<close> that more fuel never changes an outcome; \<open>Chains\<close> that a run leaves the chains as it found
  them and that ensure blocks run after the protected block (locale \<open>balanced_interpreter\<close>); \<open>Transaction_Laws\<close>
  that a durable transaction is atomic across crashes.

  \<^bold>\<open>The compiler\<close>, \<^verbatim>\<open>c/bootstrap_compiler.c\<close>. \<open>Tokens\<close> is the tokenizer and its one token of lookahead;
  \<open>Method_Parser\<close> the parser that only checks and counts; \<open>Method_Source\<close> method headers and chunk files;
  \<open>Codegen\<close> the code generator; \<open>Install\<close> the literals, blocks, methods and method dictionaries it builds in the
  heap; \<open>Classes\<close> class definitions and files. \<open>Token_Laws\<close> proves that printed tokens and printed chunk files are
  read back; \<open>Codegen_Laws\<close> has the code of some sources where it is not what it should be; \<open>Code_Shape\<close> proves
  that compiled code is well formed and \<open>Codegen_Ends\<close> that the code generator has an answer.
  \<open>Codegen_Fuel\<close> takes the fuel away: the answers have a limit that satisfies the equations of the code
  generator. \<open>Codegen_Syntax\<close> is a syntax of methods with the code of each construct, and \<open>Codegen_Equiv\<close> and
  \<open>Codegen_Methods\<close> prove that the code generator on the text of a method answers the code of its syntax.

  \<^bold>\<open>The tools.\<close> \<open>Lsp_Text\<close> is the text layer of the language server \<^verbatim>\<open>tools/smalltalk_lsp.c\<close>: JSON strings, URIs and
  file names, the token at a position, messages on byte streams. \<open>Lsp\<close> is the server: queries on the live image,
  open documents, methods written to files, the handlers and the loop. \<open>Lsp_Laws\<close> proves that JSON strings are read
  back, that a stream of messages is handled message by message, that requests are answered with their id, that the
  open documents are a finite map, and which token a position has and when the search leaves the text. \<open>Tool_Support\<close>
  is \<^verbatim>\<open>c/smalltalk_tool_support.c\<close> with the functions of \<^verbatim>\<open>tests/smalltalk_world.c\<close> it installs sources with;
  \<open>Expr_Tool\<close> the expression runner \<^verbatim>\<open>tools/smalltalk_expr.c\<close>, which compares the methods of two compilers.

  \<^bold>\<open>Conventions.\<close> A C function that may crash or loop answers an option or an outcome. \<open>Trap\<close> is a crash, a trap
  instruction or a write through a null pointer; \<open>Overruns\<close> a write behind a fixed array of the compiler;
  \<open>None\<close> of a partial function that it does not return; \<open>Undefined\<close> of the server undefined behaviour in C. Allocation with \<^verbatim>\<open>malloc\<close>
  is assumed to succeed, but for the heap a restart loads.
  \<^verbatim>\<open>setjmp\<close> and \<^verbatim>\<open>longjmp\<close> are outcomes that travel to the frame they name. The results of system calls are a list
  of answers in the state, so every theorem is for all ways in which they can fail.

  \<^bold>\<open>Fuel.\<close> The interpreter takes one unit for each instruction and each level of nested runs; a run that has an
  outcome has the same outcome with more fuel (\<open>interpret_fuel_monotone\<close>), and a Smalltalk program may run for
  ever, so no bound exists. The compiler takes one unit for each nested call. Twelve units for each character and
  three more are enough for the code generator (\<open>codegen_ends\<close>), four for each character for the checking
  parser (\<open>method_body_parse_ends\<close>).

  \<^bold>\<open>Not modelled.\<close> \<^verbatim>\<open>debug_mnu_context\<close> and the messages on stderr, which only print. \<^verbatim>\<open>gc_scan_stack\<close> and
  \<^verbatim>\<open>gc_update_stack\<close> of \<^verbatim>\<open>gc.s\<close>, which the C program no longer calls. The assembly copies of the files in \<^verbatim>\<open>c_vm\<close>,
  which the C build replaces. The static \<^verbatim>\<open>bc_active_class_bindings\<close>: the bindings are a parameter of the definitions
  that use them. \<^verbatim>\<open>smalltalk_world_init\<close>, which builds the world the tools start from: the world is a parameter. In
  \<^verbatim>\<open>smalltalk_expr.c\<close> the sends to the compiler written in Smalltalk, the signal handlers and the command line.
  \<^verbatim>\<open>gc_stress.c\<close>, a randomised test of the collector. The Smalltalk sources and the tests.
\<close>

end
